(* ===== verification/JM_Prelude.thy ===== *)
theory JM_Prelude
  imports Main "HOL-Library.List_Lexorder" "HOL-Library.Char_ord"
begin

text \<open>
  Shared vocabulary of the development: the JavaScript string operations the
  sources use, decimal printing, HTTP problem values, and the error-and-state
  functions in which the service handlers are written.

  A JavaScript string is modelled as a list of code units below 256, so a \<open>char\<close>
  is one code unit. Case folding and white space follow ECMAScript on that range:
  \<open>toLowerCase\<close> folds A to Z and the Latin-1 capitals, and \<open>trim\<close> removes
  the six ASCII space characters and U+00A0.

  A handler is a function from the state to a result and the next state. The result is
  \<open>Inl\<close> of a thrown exception or \<open>Inr\<close> of the returned value. Effects made before
  a \<open>throw\<close> stay in the state, as they do in the program.
\<close>

named_theorems svc_simps \<comment> \<open>unfolding of the error-and-state combinators\<close>
named_theorems readonly_intro \<comment> \<open>handlers that never change the state\<close>
named_theorems preserve_intro \<comment> \<open>handlers that keep an invariant\<close>

section \<open>Characters and strings\<close>

definition js_lower :: "char \<Rightarrow> char" where
  "js_lower c =
     (let n = of_char c :: nat
      in if 65 \<le> n \<and> n \<le> 90 \<or> 192 \<le> n \<and> n \<le> 222 \<and> n \<noteq> 215 then char_of (n + 32) else c)"

definition toLowerCase :: "string \<Rightarrow> string" where
  "toLowerCase = map js_lower"

definition js_space :: "char \<Rightarrow> bool" where
  "js_space c = (let n = of_char c :: nat in (9 \<le> n \<and> n \<le> 13) \<or> n = 32 \<or> n = 160)"

definition trimStart :: "string \<Rightarrow> string" where
  "trimStart = dropWhile js_space"

definition trimEnd :: "string \<Rightarrow> string" where
  "trimEnd s = rev (dropWhile js_space (rev s))"

definition trim :: "string \<Rightarrow> string" where
  "trim s = trimEnd (trimStart s)"

definition is_digit :: "char \<Rightarrow> bool" where
  "is_digit c = (let n = of_char c :: nat in 48 \<le> n \<and> n \<le> 57)"

definition is_lower_alnum :: "char \<Rightarrow> bool" where
  "is_lower_alnum c = (let n = of_char c :: nat in 97 \<le> n \<and> n \<le> 122 \<or> 48 \<le> n \<and> n \<le> 57)"

definition digit_val :: "char \<Rightarrow> nat" where
  "digit_val c = of_char c - 48"

text \<open>\<open>Number\<close> of a string of decimal digits.\<close>

definition digits_val :: "string \<Rightarrow> nat" where
  "digits_val = foldl (\<lambda>n c. 10 * n + digit_val c) 0"

text \<open>Decimal printing, as a template literal prints a non-negative integer.\<close>

fun show_nat :: "nat \<Rightarrow> string" where
  "show_nat n = (if n < 10 then [char_of (48 + n)] else show_nat (n div 10) @ [char_of (48 + n mod 10)])"

declare show_nat.simps [simp del]

definition show_int :: "int \<Rightarrow> string" where
  "show_int i = (if i < 0 then CHR ''-'' # show_nat (nat (- i)) else show_nat (nat i))"

text \<open>\<open>s.startsWith(p)\<close>, \<open>xs.join(sep)\<close>, and \<open>s.split(c)\<close> on a single character.\<close>

fun startsWith :: "string \<Rightarrow> string \<Rightarrow> bool" where
  "startsWith s [] = True"
| "startsWith [] (p # ps) = False"
| "startsWith (c # cs) (p # ps) = (c = p \<and> startsWith cs ps)"

fun join :: "string \<Rightarrow> string list \<Rightarrow> string" where
  "join sep [] = []"
| "join sep [x] = x"
| "join sep (x # y # xs) = x @ sep @ join sep (y # xs)"

fun split_on :: "char \<Rightarrow> string \<Rightarrow> string list" where
  "split_on d [] = [[]]"
| "split_on d (c # cs) =
     (if c = d then [] # split_on d cs
      else (case split_on d cs of [] \<Rightarrow> [[c]] | w # ws \<Rightarrow> (c # w) # ws))"

text \<open>\<open>s.replace(re, f)\<close> for a global expression that matches single characters.\<close>

definition replace_chars :: "(char \<Rightarrow> string) \<Rightarrow> string \<Rightarrow> string" where
  "replace_chars f s = concat (map f s)"

text \<open>\<open>[...new Set(xs)]\<close>: the first occurrence of every element, in order.\<close>

definition js_dedupe :: "'a list \<Rightarrow> 'a list" where
  "js_dedupe xs = rev (foldl (\<lambda>acc x. if x \<in> set acc then acc else x # acc) [] xs)"

subsection \<open>Lemmas on strings\<close>

lemma startsWith_iff: "startsWith s p \<longleftrightarrow> (\<exists>r. s = p @ r)"
  by (induction s p rule: startsWith.induct) auto

lemma startsWith_append [simp]: "startsWith (p @ r) p"
  by (auto simp: startsWith_iff)

lemma js_lower_idem [simp]: "js_lower (js_lower c) = js_lower c"
proof -
  have n: "(of_char c :: nat) < 256" by simp
  show ?thesis
    using n by (auto simp: js_lower_def Let_def take_bit_eq_mod)
qed

lemma toLowerCase_idem [simp]: "toLowerCase (toLowerCase s) = toLowerCase s"
  by (simp add: toLowerCase_def)

lemma toLowerCase_Nil [simp]: "toLowerCase [] = []"
  by (simp add: toLowerCase_def)

lemma toLowerCase_append [simp]: "toLowerCase (s @ t) = toLowerCase s @ toLowerCase t"
  by (simp add: toLowerCase_def)

lemma toLowerCase_eq_Nil [simp]: "toLowerCase s = [] \<longleftrightarrow> s = []"
  by (simp add: toLowerCase_def)

lemma js_space_lower [simp]: "js_space (js_lower c) = js_space c"
proof -
  have n: "(of_char c :: nat) < 256" by simp
  show ?thesis
    using n by (auto simp: js_lower_def js_space_def Let_def take_bit_eq_mod)
qed

lemma trim_toLowerCase: "trim (toLowerCase s) = toLowerCase (trim s)"
  by (simp add: trim_def trimEnd_def trimStart_def toLowerCase_def dropWhile_map rev_map o_def)

lemma dropWhile_snoc: "\<not> P y \<Longrightarrow> dropWhile P (xs @ [y]) = dropWhile P xs @ [y]"
  by (induction xs) auto

lemma dropWhile_rev_dropWhile:
  "dropWhile P (rev (dropWhile P (rev (dropWhile P xs)))) = rev (dropWhile P (rev (dropWhile P xs)))"
proof (cases "dropWhile P xs")
  case Nil
  show ?thesis unfolding Nil by simp
next
  case (Cons y ys)
  then have y: "\<not> P y" by (metis dropWhile_eq_Cons_conv)
  have "dropWhile P (rev (y # ys)) = (dropWhile P (rev ys)) @ [y]"
    using y by (simp add: dropWhile_snoc)
  with y show ?thesis unfolding Cons by simp
qed

lemma dropWhile_idem: "dropWhile P (dropWhile P xs) = dropWhile P xs"
  by (induction xs) auto

lemma trim_idem [simp]: "trim (trim s) = trim s"
  by (simp add: trim_def trimEnd_def trimStart_def dropWhile_rev_dropWhile dropWhile_idem)

lemma js_dedupe_aux:
  "set (foldl (\<lambda>acc x. if x \<in> set acc then acc else x # acc) acc xs) = set acc \<union> set xs \<and>
   (distinct acc \<longrightarrow> distinct (foldl (\<lambda>acc x. if x \<in> set acc then acc else x # acc) acc xs))"
  by (induction xs arbitrary: acc) auto

lemma set_js_dedupe [simp]: "set (js_dedupe xs) = set xs"
  using js_dedupe_aux[of "[]" xs] by (simp add: js_dedupe_def)

lemma distinct_js_dedupe [simp]: "distinct (js_dedupe xs)"
  using js_dedupe_aux[of "[]" xs] by (simp add: js_dedupe_def)

lemma split_on_nonempty [simp]: "split_on d s \<noteq> []"
  by (induction s) (auto split: list.splits)

lemma join_Cons: "xs \<noteq> [] \<Longrightarrow> join sep (x # xs) = x @ sep @ join sep xs"
  by (cases xs) auto

lemma join_split_on: "join [d] (split_on d s) = s"
proof (induction s)
  case Nil
  show ?case by simp
next
  case (Cons c cs)
  obtain w ws where w: "split_on d cs = w # ws"
    using split_on_nonempty[of d cs] by (cases "split_on d cs") auto
  with Cons show ?case
    by (cases ws) (auto simp: join_Cons)
qed

subsection \<open>Decimal numerals\<close>

lemma of_char_digit [simp]: "n < 10 \<Longrightarrow> (of_char (char_of (48 + n) :: char) :: nat) = 48 + n"
  by (simp add: take_bit_eq_mod)

lemma digits_val_append: "digits_val (xs @ [c]) = 10 * digits_val xs + digit_val c"
  by (simp add: digits_val_def)

lemma show_nat_all_digits: "\<forall>c \<in> set (show_nat n). is_digit c"
proof (induction n rule: show_nat.induct)
  case (1 n)
  then show ?case
    by (subst show_nat.simps) (auto simp: is_digit_def Let_def)
qed

lemma show_nat_nonempty [simp]: "show_nat n \<noteq> []"
  by (subst show_nat.simps) simp

lemma digits_val_show_nat [simp]: "digits_val (show_nat n) = n"
proof (induction n rule: show_nat.induct)
  case (1 n)
  show ?case
  proof (cases "n < 10")
    case True
    then show ?thesis by (subst show_nat.simps) (simp add: digits_val_def digit_val_def)
  next
    case False
    then have "digits_val (show_nat n) = 10 * digits_val (show_nat (n div 10)) + n mod 10"
      by (subst show_nat.simps) (simp add: digits_val_append digit_val_def)
    with 1[OF False] show ?thesis by simp
  qed
qed

lemma show_nat_inj: "show_nat m = show_nat n \<longleftrightarrow> m = n"
  by (metis digits_val_show_nat)

lemma split_on_none: "d \<notin> set s \<Longrightarrow> split_on d s = [s]"
  by (induction s) auto

lemma split_on_append: "d \<notin> set s \<Longrightarrow> split_on d (s @ d # r) = s # split_on d r"
  by (induction s) auto

section \<open>HTTP problems and handlers\<close>

text \<open>
  The exceptions of the NestJS services: a class with a title and an optional
  detail. \<open>DbError\<close> is a rejected query that the service does not translate (the
  driver's five-character SQLSTATE), which the problem filter reports as a 500.
\<close>

datatype exn =
    NotFoundException string "string option"
  | ForbiddenException string "string option"
  | ConflictException string "string option"
  | UnauthorizedException string "string option"
  | BadRequestException string "string option"
  | HttpException nat string "string option"
  | DbError string

type_synonym ('s, 'a) svc = "'s \<Rightarrow> (exn + 'a) \<times> 's"

definition returnM :: "'a \<Rightarrow> ('s, 'a) svc" where
  "returnM x = (\<lambda>s. (Inr x, s))"

definition throwM :: "exn \<Rightarrow> ('s, 'a) svc" where
  "throwM e = (\<lambda>s. (Inl e, s))"

definition bindM :: "('s, 'a) svc \<Rightarrow> ('a \<Rightarrow> ('s, 'b) svc) \<Rightarrow> ('s, 'b) svc" where
  "bindM m f = (\<lambda>s. case m s of (Inl e, t) \<Rightarrow> (Inl e, t) | (Inr x, t) \<Rightarrow> f x t)"

definition thenM :: "('s, 'a) svc \<Rightarrow> ('s, 'b) svc \<Rightarrow> ('s, 'b) svc" where
  "thenM m n = bindM m (\<lambda>_. n)"

definition getsM :: "('s \<Rightarrow> 'a) \<Rightarrow> ('s, 'a) svc" where
  "getsM f = (\<lambda>s. (Inr (f s), s))"

definition modifyM :: "('s \<Rightarrow> 's) \<Rightarrow> ('s, unit) svc" where
  "modifyM f = (\<lambda>s. (Inr (), f s))"

text \<open>\<open>if (c) throw e;\<close>\<close>

definition throwIf :: "bool \<Rightarrow> exn \<Rightarrow> ('s, unit) svc" where
  "throwIf c e = (if c then throwM e else returnM ())"

text \<open>\<open>if (!rows[0]) throw e; return rows[0]\<close>\<close>

definition someM :: "'a option \<Rightarrow> exn \<Rightarrow> ('s, 'a) svc" where
  "someM x e = (case x of None \<Rightarrow> throwM e | Some y \<Rightarrow> returnM y)"

text \<open>\<open>p.catch(err \<Rightarrow> ...)\<close>: the handler sees the exception and the state it left.\<close>

definition catchM :: "('s, 'a) svc \<Rightarrow> (exn \<Rightarrow> ('s, 'a) svc) \<Rightarrow> ('s, 'a) svc" where
  "catchM m h = (\<lambda>s. case m s of (Inl e, t) \<Rightarrow> h e t | (Inr x, t) \<Rightarrow> (Inr x, t))"

text \<open>
  The recurring \<open>.catch\<close> of the services: a unique violation becomes a conflict, any
  other error is thrown again.
\<close>

definition unique_to_conflict :: "string \<Rightarrow> exn \<Rightarrow> ('s, 'a) svc" where
  "unique_to_conflict title err =
     (if err = DbError ''23505'' then throwM (ConflictException title None) else throwM err)"

fun forM :: "'a list \<Rightarrow> ('a \<Rightarrow> ('s, unit) svc) \<Rightarrow> ('s, unit) svc" where
  "forM [] f = returnM ()"
| "forM (x # xs) f = thenM (f x) (forM xs f)"

lemmas [svc_simps] =
  returnM_def throwM_def bindM_def thenM_def getsM_def modifyM_def throwIf_def someM_def
  catchM_def unique_to_conflict_def

subsection \<open>Inversion of a run\<close>

lemma bindM_Inr:
  "bindM m f s = (Inr y, t) \<longleftrightarrow> (\<exists>x u. m s = (Inr x, u) \<and> f x u = (Inr y, t))"
  by (auto simp: bindM_def split: prod.splits sum.splits)

lemma bindM_Inl:
  "bindM m f s = (Inl e, t) \<longleftrightarrow>
     m s = (Inl e, t) \<or> (\<exists>x u. m s = (Inr x, u) \<and> f x u = (Inl e, t))"
  by (auto simp: bindM_def split: prod.splits sum.splits)

lemma thenM_Inr:
  "thenM m n s = (Inr y, t) \<longleftrightarrow> (\<exists>x u. m s = (Inr x, u) \<and> n u = (Inr y, t))"
  by (auto simp: thenM_def bindM_Inr)

lemma thenM_Inl:
  "thenM m n s = (Inl e, t) \<longleftrightarrow>
     m s = (Inl e, t) \<or> (\<exists>x u. m s = (Inr x, u) \<and> n u = (Inl e, t))"
  by (auto simp: thenM_def bindM_Inl)

lemma throwIf_Inr: "throwIf c e s = (Inr y, t) \<longleftrightarrow> \<not> c \<and> t = s"
  by (auto simp: throwIf_def throwM_def returnM_def)

lemma throwIf_Inl: "throwIf c e s = (Inl e', t) \<longleftrightarrow> c \<and> e' = e \<and> t = s"
  by (auto simp: throwIf_def throwM_def returnM_def)

lemma someM_Inr: "someM x e s = (Inr y, t) \<longleftrightarrow> x = Some y \<and> t = s"
  by (auto simp: someM_def throwM_def returnM_def split: option.splits)

lemma someM_Inl: "someM x e s = (Inl e', t) \<longleftrightarrow> x = None \<and> e' = e \<and> t = s"
  by (auto simp: someM_def throwM_def returnM_def split: option.splits)

lemma leafM:
  "returnM x s = (Inr y, t) \<longleftrightarrow> y = x \<and> t = s"
  "\<not> returnM x s = (Inl e, t)"
  "throwM e s = (Inl e', t) \<longleftrightarrow> e' = e \<and> t = s"
  "\<not> throwM e s = (Inr y, t)"
  "getsM f s = (Inr z, t) \<longleftrightarrow> z = f s \<and> t = s"
  "\<not> getsM f s = (Inl e, t)"
  "modifyM g s = (Inr u, t) \<longleftrightarrow> t = g s"
  "\<not> modifyM g s = (Inl e, t)"
  by (auto simp: returnM_def throwM_def getsM_def modifyM_def)

lemmas run_iffs = bindM_Inr bindM_Inl thenM_Inr thenM_Inl throwIf_Inr throwIf_Inl
  someM_Inr someM_Inl leafM

lemma catch_conflict_Inr: "catchM m (unique_to_conflict title) s = (Inr y, t) \<longleftrightarrow> m s = (Inr y, t)"
  by (auto simp: catchM_def unique_to_conflict_def throwM_def split: prod.splits sum.splits)

subsection \<open>Read-only handlers and invariants\<close>

definition readonly :: "('s, 'a) svc \<Rightarrow> bool" where
  "readonly m \<longleftrightarrow> (\<forall>s. snd (m s) = s)"

definition preserves :: "('s \<Rightarrow> bool) \<Rightarrow> ('s, 'a) svc \<Rightarrow> bool" where
  "preserves I m \<longleftrightarrow> (\<forall>s. I s \<longrightarrow> I (snd (m s)))"

lemma readonlyD: "readonly m \<Longrightarrow> m s = (r, t) \<Longrightarrow> t = s"
  by (auto simp: readonly_def dest: spec[of _ s])

lemma preservesD: "preserves I m \<Longrightarrow> I s \<Longrightarrow> I (snd (m s))"
  by (simp add: preserves_def)

lemma readonly_basic [readonly_intro]:
  "readonly (returnM x)" "readonly (throwM e)" "readonly (getsM f)"
  "readonly (throwIf c e)" "readonly (someM y e)"
  by (auto simp: readonly_def returnM_def throwM_def getsM_def throwIf_def someM_def
        split: option.splits)

lemma readonly_bindM [readonly_intro]:
  "readonly m \<Longrightarrow> (\<And>x. readonly (f x)) \<Longrightarrow> readonly (bindM m f)"
  by (auto simp: readonly_def bindM_def split: prod.splits sum.splits) (metis snd_conv)+

lemma readonly_thenM [readonly_intro]: "readonly m \<Longrightarrow> readonly n \<Longrightarrow> readonly (thenM m n)"
  by (simp add: thenM_def readonly_bindM)

lemma readonly_if [readonly_intro]:
  "readonly m \<Longrightarrow> readonly n \<Longrightarrow> readonly (if c then m else n)"
  by simp

lemma readonly_preserves: "readonly m \<Longrightarrow> preserves I m"
  by (simp add: readonly_def preserves_def)

lemma preserves_basic [preserve_intro]:
  "preserves I (returnM x)" "preserves I (throwM e)" "preserves I (getsM f)"
  "preserves I (throwIf c e)" "preserves I (someM y e)"
  by (auto intro: readonly_preserves readonly_basic)

lemma preserves_modifyM [preserve_intro]: "(\<And>s. I s \<Longrightarrow> I (f s)) \<Longrightarrow> preserves I (modifyM f)"
  by (simp add: preserves_def modifyM_def)

lemma preserves_bindM [preserve_intro]:
  "preserves I m \<Longrightarrow> (\<And>x. preserves I (f x)) \<Longrightarrow> preserves I (bindM m f)"
  by (auto simp: preserves_def bindM_def split: prod.splits sum.splits)

lemma preserves_thenM [preserve_intro]:
  "preserves I m \<Longrightarrow> preserves I n \<Longrightarrow> preserves I (thenM m n)"
  by (simp add: thenM_def preserves_bindM)

lemma preserves_catchM [preserve_intro]:
  "preserves I m \<Longrightarrow> (\<And>e. preserves I (h e)) \<Longrightarrow> preserves I (catchM m h)"
  by (auto simp: preserves_def catchM_def split: prod.splits sum.splits)

lemma preserves_if [preserve_intro]:
  "preserves I m \<Longrightarrow> preserves I n \<Longrightarrow> preserves I (if c then m else n)"
  by simp

lemma preserves_pair: "(\<And>a b. preserves I (f a b)) \<Longrightarrow> preserves I (case x of (a, b) \<Rightarrow> f a b)"
  by (cases x) simp

lemma preserves_unique_to_conflict [preserve_intro]: "preserves I (unique_to_conflict t e)"
  by (simp add: unique_to_conflict_def preserves_basic)

lemma preserves_forM [preserve_intro]:
  "(\<And>x. x \<in> set xs \<Longrightarrow> preserves I (f x)) \<Longrightarrow> preserves I (forM xs f)"
  by (induction xs) (auto intro: preserve_intro)

text \<open>
  Step through the checks of a handler: they do not change the state, so the invariant
  has to be shown only for the run that passed them.
\<close>

lemma snd_bindM_ro:
  "readonly m \<Longrightarrow> I s \<Longrightarrow> (\<And>x. m s = (Inr x, s) \<Longrightarrow> I (snd (f x s))) \<Longrightarrow> I (snd (bindM m f s))"
  by (auto simp: bindM_def dest: readonlyD split: prod.splits sum.splits)

lemma snd_thenM_ro:
  "readonly m \<Longrightarrow> I s \<Longrightarrow> (\<And>x. m s = (Inr x, s) \<Longrightarrow> I (snd (n s))) \<Longrightarrow> I (snd (thenM m n s))"
  unfolding thenM_def by (rule snd_bindM_ro)

lemma snd_thenM_modify: "I (snd (n (f s))) \<Longrightarrow> I (snd (thenM (modifyM f) n s))"
  by (simp add: thenM_def bindM_def modifyM_def)

lemmas snd_ro = snd_bindM_ro snd_thenM_ro

text \<open>The same for a statement about the outcome: errors of a check leave the start state.\<close>

lemma bindM_ro:
  "readonly m \<Longrightarrow> (\<And>e. P (Inl e, s)) \<Longrightarrow> (\<And>x. m s = (Inr x, s) \<Longrightarrow> P (f x s)) \<Longrightarrow> P (bindM m f s)"
  by (auto simp: bindM_def dest: readonlyD split: prod.splits sum.splits)

lemma thenM_ro:
  "readonly m \<Longrightarrow> (\<And>e. P (Inl e, s)) \<Longrightarrow> (\<And>x. m s = (Inr x, s) \<Longrightarrow> P (n s)) \<Longrightarrow> P (thenM m n s)"
  unfolding thenM_def by (rule bindM_ro)

text \<open>No trace of a failed run: the outcome predicate of atomic handlers.\<close>

definition clean :: "'s \<Rightarrow> (exn + 'a) \<times> 's \<Rightarrow> bool" where
  "clean s = (\<lambda>(r, t). (\<exists>e. r = Inl e) \<longrightarrow> t = s)"

lemma clean_Inl [simp]: "clean s (Inl e, t) \<longleftrightarrow> t = s"
  by (simp add: clean_def)

lemma clean_Inr [simp]: "clean s (Inr x, t)"
  by (simp add: clean_def)

lemma cleanD: "clean s (m s) \<Longrightarrow> m s = (Inl e, t) \<Longrightarrow> t = s"
  by (simp add: clean_def)

lemma readonly_clean: "readonly m \<Longrightarrow> clean s (m s)"
  by (cases "m s") (auto simp: clean_def dest: readonlyD)

lemma clean_bindM: "readonly m \<Longrightarrow> (\<And>x. m s = (Inr x, s) \<Longrightarrow> clean s (f x s)) \<Longrightarrow> clean s (bindM m f s)"
  by (rule bindM_ro) auto

lemma clean_thenM: "readonly m \<Longrightarrow> (\<And>x. m s = (Inr x, s) \<Longrightarrow> clean s (n s)) \<Longrightarrow> clean s (thenM m n s)"
  by (rule thenM_ro) auto

lemma thenM_pass: "m s = (Inr x, t) \<Longrightarrow> thenM m n s = n t"
  by (simp add: thenM_def bindM_def)

lemma bindM_pass: "m s = (Inr x, t) \<Longrightarrow> bindM m f s = f x t"
  by (simp add: bindM_def)

lemma thenM_modifyM: "thenM (modifyM f) n s = n (f s)"
  by (simp add: thenM_def bindM_def modifyM_def)

lemma bindM_getsM: "bindM (getsM f) g s = g (f s) s"
  by (simp add: bindM_def getsM_def)

lemma bindM_someM: "bindM (someM (Some x) e) f s = f x s"
  by (simp add: bindM_def someM_def returnM_def)

lemma bindM_someM_None: "bindM (someM None e) f s = (Inl e, s)"
  by (simp add: bindM_def someM_def throwM_def)

lemma thenM_returnM: "thenM (returnM x) n s = n s"
  by (simp add: thenM_def bindM_def returnM_def)

lemma thenM_throwM: "thenM (throwM e) n = throwM e"
  by (simp add: thenM_def bindM_def throwM_def)

end
