(* ===== verification/JM_Database.thy ===== *)
theory JM_Database
  imports JM_Prelude
begin

text \<open>
  The relational state the services share (\<open>apps/api/migrations\<close>) and the two
  services every handler goes through: \<open>Db.tx\<close> (\<open>db/db.service.ts\<close>) and
  \<open>AuditService\<close> (\<open>audit/audit.service.ts\<close>).

  A table is the list of its rows in insertion order and a row is a record with one
  field per column the modelled handlers read or write. \<open>gen_random_uuid()\<close> is the
  counter \<open>next_id\<close>, so a new identifier differs from every stored one. SQL \<open>now()\<close>
  and \<open>Date.now()\<close> both read the clock \<open>now\<close> (milliseconds). \<open>citext\<close> columns
  compare by \<open>ci_eq\<close>. The fire-and-forget audit insert is modelled at the point
  of the call.

  The record is extensible: the handlers below are stated for any extension of it, so a
  component with state of its own adds fields and keeps these operations.
\<close>

type_synonym uuid = nat
type_synonym timestamp = int \<comment> \<open>milliseconds since the epoch\<close>

datatype json = JNull | JBool bool | JNum int | JStr string | JArr "json list"
  | JObj "(string \<times> json) list"

datatype org_role = Owner | Admin | Member | Viewer

definition ci_eq :: "string \<Rightarrow> string \<Rightarrow> bool" where
  "ci_eq a b = (toLowerCase a = toLowerCase b)"

lemma ci_eq_refl [simp]: "ci_eq a a"
  by (simp add: ci_eq_def)

lemma ci_eq_sym: "ci_eq a b = ci_eq b a"
  by (auto simp: ci_eq_def)

lemma ci_eq_trans: "ci_eq a b \<Longrightarrow> ci_eq b c \<Longrightarrow> ci_eq a c"
  by (simp add: ci_eq_def)

section \<open>Rows\<close>

record org_row =
  o_id :: uuid
  o_name :: string
  o_slug :: string
  o_plan :: string
  o_storage_quota_mb :: "int option"
  o_created_at :: timestamp
  o_updated_at :: timestamp

record user_row =
  u_id :: uuid
  u_email :: string
  u_name :: string
  u_password_hash :: "string option" \<comment> \<open>null for an account provisioned without a password\<close>
  u_totp_secret :: "string option"
  u_totp_enabled :: bool
  u_status :: string
  u_updated_at :: timestamp

record member_row =
  m_org_id :: uuid
  m_user_id :: uuid
  m_role :: org_role
  m_created_at :: timestamp

record session_row =
  s_id :: uuid
  s_user_id :: uuid
  s_token_hash :: string
  s_ip :: "string option"
  s_user_agent :: "string option"
  s_expires_at :: timestamp
  s_created_at :: timestamp
  s_mailbox_id :: "uuid option"

record api_key_row =
  k_id :: uuid
  k_org_id :: uuid
  k_name :: string
  k_key_prefix :: string
  k_key_hash :: string
  k_scopes :: "string list"
  k_last_used_at :: "timestamp option"
  k_expires_at :: "timestamp option"
  k_created_by :: "uuid option"
  k_created_at :: timestamp
  k_revoked_at :: "timestamp option"

datatype outbound_mode = Inherit | Direct | Smarthost

record domain_row =
  d_id :: uuid
  d_org_id :: uuid
  d_name :: string
  d_status :: string
  d_max_mailboxes :: "int option"
  d_verification_token :: string
  d_is_primary :: bool
  d_catch_all_target :: "string option"
  d_max_quota_mb :: "int option"
  d_outbound_mode :: outbound_mode
  d_bimi_logo_key :: "string option"
  d_created_at :: timestamp
  d_updated_at :: timestamp

text \<open>A domain with the column defaults apart from its name, owner, status and mailbox cap.\<close>

abbreviation plain_domain :: "uuid \<Rightarrow> uuid \<Rightarrow> string \<Rightarrow> int option \<Rightarrow> domain_row" where
  "plain_domain i org name cap \<equiv>
     \<lparr>d_id = i, d_org_id = org, d_name = name, d_status = ''active'', d_max_mailboxes = cap,
      d_verification_token = ''cafe'', d_is_primary = False, d_catch_all_target = None, d_max_quota_mb = None,
      d_outbound_mode = Inherit, d_bimi_logo_key = None, d_created_at = 0, d_updated_at = 0\<rparr>"

record autoresponder =
  ar_enabled :: bool
  ar_subject :: string
  ar_body :: string
  ar_starts_at :: "timestamp option"
  ar_ends_at :: "timestamp option"

record mailbox_row =
  mb_id :: uuid
  mb_domain_id :: uuid
  mb_local_part :: string
  mb_name :: string
  mb_password_hash :: string
  mb_quota_mb :: int
  mb_quota_used_bytes :: int
  mb_status :: string
  mb_imap_enabled :: bool
  mb_pop3_enabled :: bool
  mb_smtp_enabled :: bool
  mb_sieve_enabled :: bool
  mb_autoresponder :: "autoresponder option"
  mb_forward_to :: "string list"
  mb_forward_keep_copy :: bool
  mb_created_at :: timestamp
  mb_updated_at :: timestamp

record alias_row =
  al_id :: uuid
  al_domain_id :: uuid
  al_source :: string
  al_destinations :: "string list"
  al_enabled :: bool
  al_created_at :: timestamp
  al_updated_at :: timestamp

record group_row =
  g_id :: uuid
  g_domain_id :: uuid
  g_local_part :: string
  g_name :: string
  g_description :: "string option"
  g_enabled :: bool
  g_allow_member_send :: bool
  g_created_at :: timestamp
  g_updated_at :: timestamp

record group_member_row =
  gm_id :: uuid
  gm_group_id :: uuid
  gm_address :: string
  gm_created_at :: timestamp

record invite_row =
  i_id :: uuid
  i_org_id :: uuid
  i_email :: string
  i_role :: org_role
  i_token_hash :: string
  i_invited_by :: "uuid option"
  i_expires_at :: timestamp
  i_accepted_at :: "timestamp option"
  i_created_at :: timestamp

record endpoint_row =
  e_id :: uuid
  e_org_id :: uuid
  e_url :: string
  e_events :: "string list"
  e_secret_enc :: string
  e_active :: bool
  e_last_delivered_at :: "timestamp option"
  e_last_status :: "int option"
  e_failure_count :: int
  e_created_by :: "uuid option"
  e_created_at :: timestamp

record delivery_row =
  w_id :: uuid
  w_endpoint_id :: uuid
  w_event :: string
  w_payload :: json
  w_status :: "int option"
  w_attempts :: nat
  w_next_attempt_at :: "timestamp option"
  w_delivered_at :: "timestamp option"
  w_last_error :: "string option"
  w_created_at :: timestamp

datatype actor_type = ActorUser | ActorApiKey | ActorSystem

record audit_entry =
  a_org_id :: "uuid option"
  a_actor_type :: actor_type
  a_actor_id :: "uuid option"
  a_action :: string
  a_target_type :: "string option"
  a_target_id :: "uuid option"
  a_ip :: "string option"
  a_meta :: "(string \<times> json) list"

record audit_row = audit_entry +
  a_id :: uuid
  a_created_at :: timestamp

section \<open>The database\<close>

record db =
  now :: timestamp
  next_id :: uuid
  organizations :: "org_row list"
  users :: "user_row list"
  org_members :: "member_row list"
  sessions :: "session_row list"
  api_keys :: "api_key_row list"
  domains :: "domain_row list"
  mailboxes :: "mailbox_row list"
  aliases :: "alias_row list"
  mail_groups :: "group_row list"
  mail_group_members :: "group_member_row list"
  invites :: "invite_row list"
  webhook_endpoints :: "endpoint_row list"
  webhook_deliveries :: "delivery_row list"
  audit_logs :: "audit_row list"

definition empty_db :: db where
  "empty_db = \<lparr>now = 0, next_id = 1, organizations = [], users = [], org_members = [], sessions = [],
     api_keys = [], domains = [], mailboxes = [], aliases = [], mail_groups = [],
     mail_group_members = [], invites = [], webhook_endpoints = [], webhook_deliveries = [],
     audit_logs = []\<rparr>"

text \<open>The principal the session guard attaches to a request.\<close>

record principal =
  p_user_id :: uuid
  p_email :: string
  p_name :: string
  p_session_id :: uuid
  p_mailbox_id :: "uuid option"
  p_org_id :: "uuid option"

subsection \<open>Transactions and foreign keys\<close>

text \<open>\<open>Db.tx\<close>: commit on return, roll back and rethrow on an exception.\<close>

definition tx :: "('s, 'a) svc \<Rightarrow> ('s, 'a) svc" where
  "tx m = (\<lambda>s. case m s of (Inl e, t) \<Rightarrow> (Inl e, s) | (Inr x, t) \<Rightarrow> (Inr x, t))"

text \<open>A foreign key to \<open>users(id)\<close>: the driver rejects with SQLSTATE 23503.\<close>

definition fk_user :: "uuid \<Rightarrow> ('z db_scheme, unit) svc" where
  "fk_user uid = (\<lambda>s. if uid \<in> u_id ` set (users s) then (Inr (), s) else (Inl (DbError ''23503''), s))"

lemma tx_Inr: "tx m s = (Inr y, t) \<longleftrightarrow> m s = (Inr y, t)"
  by (auto simp: tx_def split: prod.splits sum.splits)

lemma tx_Inl: "tx m s = (Inl e, t) \<longleftrightarrow> t = s \<and> (\<exists>u. m s = (Inl e, u))"
  by (auto simp: tx_def split: prod.splits sum.splits)

lemma fk_user_Inr: "fk_user uid s = (Inr u, t) \<longleftrightarrow> t = s \<and> uid \<in> u_id ` set (users s)"
  by (auto simp: fk_user_def)

lemma fk_user_Inl:
  "fk_user uid s = (Inl e, t) \<longleftrightarrow> t = s \<and> e = DbError ''23503'' \<and> uid \<notin> u_id ` set (users s)"
  by (auto simp: fk_user_def)

lemmas db_iffs = run_iffs tx_Inr tx_Inl fk_user_Inr fk_user_Inl

lemma preserves_tx [preserve_intro]: "preserves I m \<Longrightarrow> preserves I (tx m)"
  by (auto simp: preserves_def tx_def split: prod.splits sum.splits)

lemma readonly_fk_user [readonly_intro]: "readonly (fk_user uid)"
  by (auto simp: readonly_def fk_user_def)

lemma preserves_fk_user [preserve_intro]: "preserves I (fk_user uid)"
  by (rule readonly_preserves) (rule readonly_fk_user)

subsection \<open>The audit log\<close>

definition audit_insert :: "audit_entry \<Rightarrow> 'z db_scheme \<Rightarrow> 'z db_scheme" where
  "audit_insert e s =
     s\<lparr>audit_logs := audit_logs s @
         [\<lparr>a_org_id = a_org_id e, a_actor_type = a_actor_type e, a_actor_id = a_actor_id e,
           a_action = a_action e, a_target_type = a_target_type e, a_target_id = a_target_id e,
           a_ip = a_ip e, a_meta = a_meta e, a_id = next_id s, a_created_at = now s\<rparr>],
       next_id := next_id s + 1\<rparr>"

definition audit_log :: "audit_entry \<Rightarrow> ('z db_scheme, unit) svc" where
  "audit_log e = modifyM (audit_insert e)"

text \<open>The entry shape nearly every handler logs: a user acting on a target in an org.\<close>

definition user_entry ::
  "uuid option \<Rightarrow> principal \<Rightarrow> string \<Rightarrow> string \<Rightarrow> uuid \<Rightarrow> string option \<Rightarrow> (string \<times> json) list
     \<Rightarrow> audit_entry" where
  "user_entry org p action ttype target ip meta =
     \<lparr>a_org_id = org, a_actor_type = ActorUser, a_actor_id = Some (p_user_id p), a_action = action,
      a_target_type = Some ttype, a_target_id = Some target, a_ip = ip, a_meta = meta\<rparr>"

lemma audit_insert_frame [simp]:
  "now (audit_insert e s) = now s" "organizations (audit_insert e s) = organizations s"
  "users (audit_insert e s) = users s" "org_members (audit_insert e s) = org_members s"
  "sessions (audit_insert e s) = sessions s" "api_keys (audit_insert e s) = api_keys s"
  "domains (audit_insert e s) = domains s" "mailboxes (audit_insert e s) = mailboxes s"
  "aliases (audit_insert e s) = aliases s" "mail_groups (audit_insert e s) = mail_groups s"
  "mail_group_members (audit_insert e s) = mail_group_members s"
  "invites (audit_insert e s) = invites s"
  "webhook_endpoints (audit_insert e s) = webhook_endpoints s"
  "webhook_deliveries (audit_insert e s) = webhook_deliveries s"
  "next_id (audit_insert e s) = next_id s + 1"
  by (simp_all add: audit_insert_def)

lemma audit_log_run: "audit_log e s = (Inr (), audit_insert e s)"
  by (simp add: audit_log_def modifyM_def)

lemma audit_log_iffs:
  "audit_log e s = (Inr u, t) \<longleftrightarrow> t = audit_insert e s" "\<not> audit_log e s = (Inl x, t)"
  by (auto simp: audit_log_run)

lemma thenM_audit: "thenM (audit_log e) n s = n (audit_insert e s)"
  by (simp add: thenM_def bindM_def audit_log_run)

text \<open>The tail of an update handler: write, audit, read back.\<close>

lemma clean_write_read:
  "(\<And>e. \<exists>x u. rd (audit_insert e (f s)) = (Inr x, u)) \<Longrightarrow>
     clean s (thenM (modifyM f) (thenM (audit_log e) rd) s)"
  by (metis clean_Inr thenM_audit thenM_modifyM)

text \<open>The tail of a create handler: insert or conflict, audit, read back.\<close>

lemma insert_then_read:
  assumes "ins s = (if taken then (Inl c, s) else (Inr i, s1))"
    and "\<And>e. \<not> taken \<Longrightarrow> \<exists>x. rd i (audit_insert e s1) = (Inr x, audit_insert e s1)"
  shows "(\<exists>e. bindM ins (\<lambda>i. thenM (audit_log (E i)) (rd i)) s = (Inl e, s)) \<or>
     (\<not> taken \<and> (\<exists>x e. bindM ins (\<lambda>i. thenM (audit_log (E i)) (rd i)) s = (Inr x, audit_insert e s1) \<and>
        rd i (audit_insert e s1) = (Inr x, audit_insert e s1)))"
proof (cases taken)
  case True
  with assms(1) show ?thesis by (simp add: bindM_def)
next
  case False
  with assms(1) have "bindM ins (\<lambda>i. thenM (audit_log (E i)) (rd i)) s = rd i (audit_insert (E i) s1)"
    by (simp add: bindM_def thenM_audit)
  with assms(2)[OF False] False show ?thesis by metis
qed

lemmas svc_iffs = db_iffs audit_log_iffs

subsection \<open>Cascading deletes\<close>

definition delete_mailboxes :: "(mailbox_row \<Rightarrow> bool) \<Rightarrow> 'z db_scheme \<Rightarrow> 'z db_scheme" where
  "delete_mailboxes P s =
     s\<lparr>mailboxes := filter (\<lambda>m. \<not> P m) (mailboxes s),
       sessions := filter (\<lambda>x. \<forall>m \<in> set (mailboxes s). P m \<longrightarrow> s_mailbox_id x \<noteq> Some (mb_id m))
                     (sessions s)\<rparr>"

definition delete_groups :: "(group_row \<Rightarrow> bool) \<Rightarrow> 'z db_scheme \<Rightarrow> 'z db_scheme" where
  "delete_groups P s =
     s\<lparr>mail_groups := filter (\<lambda>g. \<not> P g) (mail_groups s),
       mail_group_members :=
         filter (\<lambda>x. \<forall>g \<in> set (mail_groups s). P g \<longrightarrow> gm_group_id x \<noteq> g_id g)
           (mail_group_members s)\<rparr>"

definition delete_endpoints :: "(endpoint_row \<Rightarrow> bool) \<Rightarrow> 'z db_scheme \<Rightarrow> 'z db_scheme" where
  "delete_endpoints P s =
     s\<lparr>webhook_endpoints := filter (\<lambda>e. \<not> P e) (webhook_endpoints s),
       webhook_deliveries :=
         filter (\<lambda>w. \<forall>e \<in> set (webhook_endpoints s). P e \<longrightarrow> w_endpoint_id w \<noteq> e_id e)
           (webhook_deliveries s)\<rparr>"

definition delete_domains :: "(domain_row \<Rightarrow> bool) \<Rightarrow> 'z db_scheme \<Rightarrow> 'z db_scheme" where
  "delete_domains P s =
     (let gone = (\<lambda>did. \<exists>d \<in> set (domains s). P d \<and> d_id d = did);
          s1 = delete_mailboxes (\<lambda>m. gone (mb_domain_id m)) s;
          s2 = delete_groups (\<lambda>g. gone (g_domain_id g)) s1
      in s2\<lparr>aliases := filter (\<lambda>a. \<not> gone (al_domain_id a)) (aliases s2),
            domains := filter (\<lambda>d. \<not> P d) (domains s2)\<rparr>)"

definition delete_organization :: "uuid \<Rightarrow> 'z db_scheme \<Rightarrow> 'z db_scheme" where
  "delete_organization oid s =
     (let s1 = delete_domains (\<lambda>d. d_org_id d = oid) s;
          s2 = delete_endpoints (\<lambda>e. e_org_id e = oid) s1
      in s2\<lparr>organizations := filter (\<lambda>x. o_id x \<noteq> oid) (organizations s2),
            org_members := filter (\<lambda>m. m_org_id m \<noteq> oid) (org_members s2),
            api_keys := filter (\<lambda>k. k_org_id k \<noteq> oid) (api_keys s2),
            invites := filter (\<lambda>i. i_org_id i \<noteq> oid) (invites s2)\<rparr>)"

section \<open>Well-formed databases\<close>

text \<open>
  What the primary keys, the unique constraints and \<open>gen_random_uuid\<close> give: distinct
  keys, all identifiers below the counter.
\<close>

definition ids_below :: "uuid \<Rightarrow> uuid list \<Rightarrow> bool" where
  "ids_below n xs \<longleftrightarrow> distinct xs \<and> (\<forall>x \<in> set xs. x < n)"

lemma ids_below_Suc: "ids_below n xs \<Longrightarrow> ids_below (n + 1) xs"
  by (auto simp: ids_below_def)

lemma ids_below_snoc: "ids_below n xs \<Longrightarrow> ids_below (n + 1) (xs @ [n])"
  by (auto simp: ids_below_def)

lemma ids_below_filter: "ids_below n (map f xs) \<Longrightarrow> ids_below n (map f (filter P xs))"
  by (auto simp: ids_below_def distinct_map_filter)

lemma ids_below_notin: "ids_below n xs \<Longrightarrow> n \<notin> set xs"
  by (auto simp: ids_below_def)

subsection \<open>Rows by key\<close>

text \<open>Facts on \<open>rows[0]\<close> of a query by key, shared by every service.\<close>

lemma find_snoc: "find P (xs @ ys) = (case find P xs of None \<Rightarrow> find P ys | Some x \<Rightarrow> Some x)"
  by (induction xs) auto

lemma find_None_iff_all: "find P xs = None \<longleftrightarrow> (\<forall>x \<in> set xs. \<not> P x)"
  by (auto simp: find_None_iff)

lemma find_SomeD: "find P xs = Some x \<Longrightarrow> x \<in> set xs \<and> P x"
  by (auto simp: find_Some_iff)

lemma find_hit: "\<exists>x \<in> set xs. P x \<Longrightarrow> \<exists>y. find P xs = Some y"
  by (induction xs) auto

lemma find_map_frame: "(\<And>x. P (f x) = P x) \<Longrightarrow> find P (map f xs) = map_option f (find P xs)"
  by (induction xs) auto

lemma find_key_unique:
  "distinct (map key xs) \<Longrightarrow> x \<in> set xs \<Longrightarrow> key x = k \<Longrightarrow> find (\<lambda>y. key y = k \<and> Q y) xs = (if Q x then Some x else None)"
proof (induction xs)
  case Nil
  then show ?case by simp
next
  case (Cons y ys)
  then show ?case
    by (auto simp: find_None_iff_all image_iff)
qed

subsection \<open>Primary keys of a database\<close>

definition ids_wf :: "'z db_scheme \<Rightarrow> bool" where
  "ids_wf s \<longleftrightarrow>
     ids_below (next_id s) (map d_id (domains s)) \<and>
     ids_below (next_id s) (map mb_id (mailboxes s)) \<and>
     ids_below (next_id s) (map al_id (aliases s)) \<and>
     ids_below (next_id s) (map g_id (mail_groups s)) \<and>
     ids_below (next_id s) (map gm_id (mail_group_members s)) \<and>
     ids_below (next_id s) (map k_id (api_keys s)) \<and>
     ids_below (next_id s) (map i_id (invites s)) \<and>
     ids_below (next_id s) (map e_id (webhook_endpoints s)) \<and>
     ids_below (next_id s) (map w_id (webhook_deliveries s))"

lemma ids_wf_audit [simp]: "ids_wf s \<Longrightarrow> ids_wf (audit_insert e s)"
  by (auto simp: ids_wf_def ids_below_def less_Suc_eq)

lemma ids_wf_empty [simp]: "ids_wf empty_db"
  by (simp add: ids_wf_def ids_below_def empty_db_def)

lemma domain_unique:
  "ids_wf s \<Longrightarrow> d \<in> set (domains s) \<Longrightarrow> d' \<in> set (domains s) \<Longrightarrow> d_id d = d_id d' \<Longrightarrow> d = d'"
  by (auto simp: ids_wf_def ids_below_def distinct_map dest: inj_onD)

text \<open>
  A row of a table that hangs off \<open>domains\<close>, looked up by its id within an
  organization: the query behind \<open>get\<close> in the alias, group and mailbox services.
\<close>

definition find_in_org ::
  "('r \<Rightarrow> uuid) \<Rightarrow> ('r \<Rightarrow> uuid) \<Rightarrow> 'r list \<Rightarrow> domain_row list \<Rightarrow> uuid \<Rightarrow> uuid \<Rightarrow> ('r \<times> domain_row) option"
  where
  "find_in_org rid rdom rows ds orgId i =
     find (\<lambda>(r, d). rid r = i \<and> d_org_id d = orgId) [(r, d). r \<leftarrow> rows, d \<leftarrow> ds, d_id d = rdom r]"

definition in_org ::
  "('r \<Rightarrow> uuid) \<Rightarrow> ('r \<Rightarrow> uuid) \<Rightarrow> 'r list \<Rightarrow> domain_row list \<Rightarrow> uuid \<Rightarrow> uuid \<Rightarrow> bool" where
  "in_org rid rdom rows ds orgId i \<longleftrightarrow>
     (\<exists>r \<in> set rows. \<exists>d \<in> set ds. rid r = i \<and> d_id d = rdom r \<and> d_org_id d = orgId)"

lemma find_in_org_Some:
  "find_in_org rid rdom rows ds orgId i = Some (r, d) \<Longrightarrow>
     r \<in> set rows \<and> d \<in> set ds \<and> rid r = i \<and> d_id d = rdom r \<and> d_org_id d = orgId"
  by (auto simp: find_in_org_def dest!: find_SomeD)

lemma find_in_org_None: "find_in_org rid rdom rows ds orgId i = None \<longleftrightarrow> \<not> in_org rid rdom rows ds orgId i"
  by (auto simp: find_in_org_def in_org_def find_None_iff_all)

lemma find_in_org_iff: "(\<exists>x. find_in_org rid rdom rows ds orgId i = Some x) \<longleftrightarrow> in_org rid rdom rows ds orgId i"
  using find_in_org_None[of rid rdom rows ds orgId i] by (cases "find_in_org rid rdom rows ds orgId i") auto

lemma find_in_org_unique:
  assumes "distinct (map rid rows)" "distinct (map d_id ds)" "r \<in> set rows" "d \<in> set ds"
    "rid r = i" "d_id d = rdom r" "d_org_id d = orgId"
  shows "find_in_org rid rdom rows ds orgId i = Some (r, d)"
proof -
  have "in_org rid rdom rows ds orgId i"
    using assms by (auto simp: in_org_def)
  then obtain r' d' where f: "find_in_org rid rdom rows ds orgId i = Some (r', d')"
    using find_in_org_iff by fastforce
  then have "r' \<in> set rows" "d' \<in> set ds" "rid r' = i" "d_id d' = rdom r'"
    by (auto dest: find_in_org_Some)
  moreover from this have "r' = r"
    using assms by (auto simp: distinct_map dest: inj_onD)
  ultimately have "r' = r" "d' = d"
    using assms by (auto simp: distinct_map intro: inj_onD[of d_id "set ds"])
  with f show ?thesis by simp
qed

lemma in_org_unique:
  "distinct (map rid rows) \<Longrightarrow> distinct (map d_id ds) \<Longrightarrow>
     in_org rid rdom rows ds org i \<Longrightarrow> in_org rid rdom rows ds org' i \<Longrightarrow> org = org'"
  by (auto simp: in_org_def distinct_map) (metis inj_onD)

lemma in_org_filter:
  "in_org rid rdom (filter (\<lambda>r. rid r \<noteq> i) rows) ds org j \<longleftrightarrow> in_org rid rdom rows ds org j \<and> j \<noteq> i"
  by (auto simp: in_org_def)

lemma in_org_map:
  "(\<And>r. rid (f r) = rid r) \<Longrightarrow> (\<And>r. rdom (f r) = rdom r) \<Longrightarrow>
     in_org rid rdom (map f rows) ds org j = in_org rid rdom rows ds org j"
  by (auto simp: in_org_def)

lemma in_org_snoc:
  "in_org rid rdom (rows @ [r]) ds org j \<longleftrightarrow>
     in_org rid rdom rows ds org j \<or> (j = rid r \<and> (\<exists>d \<in> set ds. d_id d = rdom r \<and> d_org_id d = org))"
  by (auto simp: in_org_def)

end
