(* ===== verification/JM_Orgs.thy ===== *)
theory JM_Orgs
  imports JM_Database
begin

text \<open>
  \<open>OrgsService\<close> (\<open>apps/api/src/orgs/orgs.service.ts\<close>): the role check every other
  service calls, the organization and membership operations, and the storage quota.
  The last part states the membership invariant and shows that every operation of the
  service keeps it.
\<close>

section \<open>Roles\<close>

fun ROLE_RANK :: "org_role \<Rightarrow> nat" where
  "ROLE_RANK Owner = 3"
| "ROLE_RANK Admin = 2"
| "ROLE_RANK Member = 1"
| "ROLE_RANK Viewer = 0"

fun show_role :: "org_role \<Rightarrow> string" where
  "show_role Owner = ''owner''"
| "show_role Admin = ''admin''"
| "show_role Member = ''member''"
| "show_role Viewer = ''viewer''"

definition roleFromScopes :: "string list \<Rightarrow> org_role" where
  "roleFromScopes scopes =
     (if scopes = [] then Admin
      else if ''admin'' \<in> set scopes then Admin
      else if ''write'' \<in> set scopes then Member
      else Viewer)"

text \<open>The two queries of \<open>requireRole\<close>.\<close>

definition memberRole :: "'z db_scheme \<Rightarrow> uuid \<Rightarrow> uuid \<Rightarrow> org_role option" where
  "memberRole s orgId userId =
     map_option m_role (find (\<lambda>m. m_org_id m = orgId \<and> m_user_id m = userId) (org_members s))"

definition liveKey :: "'z db_scheme \<Rightarrow> uuid \<Rightarrow> api_key_row option" where
  "liveKey s userId =
     find (\<lambda>k. k_id k = userId \<and> k_revoked_at k = None \<and>
               (case k_expires_at k of None \<Rightarrow> True | Some e \<Rightarrow> e > now s)) (api_keys s)"

definition insufficient :: "org_role \<Rightarrow> exn" where
  "insufficient minRole =
     ForbiddenException ''Insufficient role'' (Some (''Requires '' @ show_role minRole @ '' or higher.''))"

definition requireRole :: "uuid \<Rightarrow> uuid \<Rightarrow> org_role \<Rightarrow> ('z db_scheme, org_role) svc" where
  "requireRole orgId userId minRole =
     bindM (getsM (\<lambda>s. memberRole s orgId userId)) (\<lambda>row.
     bindM (case row of
              Some r \<Rightarrow> returnM (Some r)
            | None \<Rightarrow> getsM (\<lambda>s. case liveKey s userId of
                              None \<Rightarrow> None
                            | Some k \<Rightarrow> if k_org_id k = orgId then Some (roleFromScopes (k_scopes k))
                                       else None)) (\<lambda>role.
     bindM (someM role (NotFoundException ''Organization not found'' None)) (\<lambda>role.
     thenM (throwIf (ROLE_RANK role < ROLE_RANK minRole) (insufficient minRole))
     (returnM role))))"

definition requireOrgAccess :: "principal \<Rightarrow> uuid \<Rightarrow> org_role \<Rightarrow> ('z db_scheme, unit) svc" where
  "requireOrgAccess p orgId minRole =
     (if p_mailbox_id p \<noteq> None \<and> p_org_id p = Some orgId
      then (if ROLE_RANK Member \<ge> ROLE_RANK minRole then returnM () else throwM (insufficient minRole))
      else thenM (requireRole orgId (p_user_id p) minRole) (returnM ()))"

section \<open>Organizations\<close>

record org_dto =
  od_id :: uuid
  od_name :: string
  od_slug :: string
  od_plan :: string
  od_created_at :: timestamp

definition toOrg :: "org_row \<Rightarrow> org_dto" where
  "toOrg r = \<lparr>od_id = o_id r, od_name = o_name r, od_slug = o_slug r, od_plan = o_plan r,
     od_created_at = o_created_at r\<rparr>"

definition listForUser :: "uuid \<Rightarrow> ('z db_scheme, org_dto list) svc" where
  "listForUser userId = getsM (\<lambda>s.
     sort_key od_created_at (remdups
       ([toOrg r. m \<leftarrow> org_members s, m_user_id m = userId, r \<leftarrow> organizations s, o_id r = m_org_id m] @
        [toOrg r. k \<leftarrow> api_keys s, k_id k = userId \<and> k_revoked_at k = None,
                  r \<leftarrow> organizations s, o_id r = k_org_id k])))"

text \<open>
  \<open>slugify\<close>: \<open>nfkd\<close> is \<open>String.prototype.normalize("NFKD")\<close> and \<open>rnd\<close> the
  eight hexadecimal digits of \<open>randomBytes(4)\<close>.
\<close>

function dash_runs :: "string \<Rightarrow> string" where
  "dash_runs [] = []"
| "dash_runs (c # cs) =
     (if is_lower_alnum c then c # dash_runs cs
      else CHR ''-'' # dash_runs (dropWhile (\<lambda>x. \<not> is_lower_alnum x) cs))"
  by pat_completeness auto
termination
  by (relation "measure length") (auto simp: le_imp_less_Suc length_dropWhile_le)

definition strip_dashes :: "string \<Rightarrow> string" where
  "strip_dashes s = rev (dropWhile (\<lambda>c. c = CHR ''-'') (rev (dropWhile (\<lambda>c. c = CHR ''-'') s)))"

definition slugify :: "(string \<Rightarrow> string) \<Rightarrow> string \<Rightarrow> string \<Rightarrow> string" where
  "slugify nfkd rnd name =
     (let base = take 48 (strip_dashes (dash_runs (nfkd (toLowerCase name))))
      in if base = [] then ''org-'' @ rnd else base)"

record create_org_request =
  co_name :: string
  co_slug :: "string option"

definition insert_organization :: "string \<Rightarrow> string \<Rightarrow> ('z db_scheme, org_row) svc" where
  "insert_organization name slug = (\<lambda>s.
     if slug \<in> o_slug ` set (organizations s) then (Inl (DbError ''23505''), s)
     else let r = \<lparr>o_id = next_id s, o_name = name, o_slug = slug, o_plan = ''free'',
                   o_storage_quota_mb = None, o_created_at = now s, o_updated_at = now s\<rparr>
          in (Inr r, s\<lparr>organizations := organizations s @ [r], next_id := next_id s + 1\<rparr>))"

definition insert_member :: "uuid \<Rightarrow> uuid \<Rightarrow> org_role \<Rightarrow> ('z db_scheme, unit) svc" where
  "insert_member orgId userId role = modifyM (\<lambda>s.
     s\<lparr>org_members := org_members s @
         [\<lparr>m_org_id = orgId, m_user_id = userId, m_role = role, m_created_at = now s\<rparr>]\<rparr>)"

definition orgs_create ::
  "(string \<Rightarrow> string) \<Rightarrow> string \<Rightarrow> principal \<Rightarrow> create_org_request \<Rightarrow> string option
     \<Rightarrow> ('z db_scheme, org_dto) svc" where
  "orgs_create nfkd rnd p req ip =
     (let slug = (case co_slug req of Some sl \<Rightarrow> sl | None \<Rightarrow> slugify nfkd rnd (co_name req)) in
     bindM (catchM (tx (bindM (insert_organization (co_name req) slug) (\<lambda>r.
                        thenM (fk_user (p_user_id p))
                        (thenM (insert_member (o_id r) (p_user_id p) Owner)
                        (returnM r)))))
                   (unique_to_conflict ''Slug already in use'')) (\<lambda>org.
     thenM (audit_log (user_entry (Some (o_id org)) p ''org.create'' ''organization'' (o_id org) ip []))
     (returnM (toOrg org))))"

definition orgs_get :: "uuid \<Rightarrow> uuid \<Rightarrow> ('z db_scheme, org_dto) svc" where
  "orgs_get orgId userId =
     thenM (requireRole orgId userId Viewer)
     (bindM (getsM (\<lambda>s. find (\<lambda>r. o_id r = orgId) (organizations s))) (\<lambda>row.
      bindM (someM row (NotFoundException ''Organization not found'' None)) (\<lambda>r.
      returnM (toOrg r))))"

definition orgs_update ::
  "principal \<Rightarrow> uuid \<Rightarrow> string option \<Rightarrow> string option \<Rightarrow> ('z db_scheme, org_dto) svc" where
  "orgs_update p orgId name ip =
     thenM (requireRole orgId (p_user_id p) Admin)
     (thenM (modifyM (\<lambda>s. s\<lparr>organizations :=
               map (\<lambda>r. if o_id r = orgId
                        then r\<lparr>o_name := (case name of None \<Rightarrow> o_name r | Some n \<Rightarrow> n),
                               o_updated_at := now s\<rparr>
                        else r) (organizations s)\<rparr>))
     (thenM (audit_log (user_entry (Some orgId) p ''org.update'' ''organization'' orgId ip
               (case name of None \<Rightarrow> [] | Some n \<Rightarrow> [(''name'', JStr n)])))
     (bindM (getsM (\<lambda>s. find (\<lambda>r. o_id r = orgId) (organizations s))) (\<lambda>row.
      bindM (someM row (HttpException 500 ''TypeError'' None)) (\<lambda>r.
      returnM (toOrg r))))))"

definition orgs_remove :: "principal \<Rightarrow> uuid \<Rightarrow> string option \<Rightarrow> ('z db_scheme, unit) svc" where
  "orgs_remove p orgId ip =
     thenM (requireRole orgId (p_user_id p) Owner)
     (bindM (getsM (\<lambda>s. length (filter (\<lambda>d. d_org_id d = orgId) (domains s)))) (\<lambda>n.
      thenM (throwIf (n > 0) (ConflictException ''Organization has domains''
                                (Some ''Delete or move its domains first.'')))
     (thenM (modifyM (delete_organization orgId))
     (audit_log (user_entry (Some orgId) p ''org.delete'' ''organization'' orgId ip [])))))"

section \<open>Members\<close>

record org_member_dto =
  om_user_id :: uuid
  om_email :: string
  om_name :: string
  om_role :: org_role
  om_team_id :: "uuid option"
  om_created_at :: timestamp

definition listMembers :: "uuid \<Rightarrow> uuid \<Rightarrow> ('z db_scheme, org_member_dto list) svc" where
  "listMembers orgId userId =
     thenM (requireRole orgId userId Viewer)
     (getsM (\<lambda>s. sort_key om_created_at
        [\<lparr>om_user_id = m_user_id m, om_email = u_email u, om_name = u_name u, om_role = m_role m,
          om_team_id = None, om_created_at = m_created_at m\<rparr>.
         m \<leftarrow> org_members s, m_org_id m = orgId, u \<leftarrow> users s, u_id u = m_user_id m]))"

record add_member_request =
  am_email :: string
  am_role :: org_role

definition addMember ::
  "principal \<Rightarrow> uuid \<Rightarrow> add_member_request \<Rightarrow> string option \<Rightarrow> ('z db_scheme, unit) svc" where
  "addMember p orgId req ip =
     thenM (requireRole orgId (p_user_id p) Admin)
     (thenM (if am_role req = Owner then thenM (requireRole orgId (p_user_id p) Owner) (returnM ())
             else returnM ())
     (bindM (getsM (\<lambda>s. find (\<lambda>u. ci_eq (u_email u) (am_email req)) (users s))) (\<lambda>row.
      bindM (someM row (NotFoundException ''User not found''
               (Some ''Only existing users can be added in M1; invites arrive in M2.''))) (\<lambda>u.
      bindM (getsM (\<lambda>s. memberRole s orgId (u_id u) \<noteq> None)) (\<lambda>already.
      thenM (if already then returnM () else insert_member orgId (u_id u) (am_role req))
     (thenM (throwIf already (ConflictException ''Already a member'' None))
     (audit_log (user_entry (Some orgId) p ''org.member.add'' ''user'' (u_id u) ip
        [(''role'', JStr (show_role (am_role req)))]))))))))"

definition guardLastOwner :: "uuid \<Rightarrow> uuid \<Rightarrow> ('z db_scheme, unit) svc" where
  "guardLastOwner orgId userId =
     bindM (getsM (\<lambda>s. (memberRole s orgId userId,
              length (filter (\<lambda>m. m_org_id m = orgId \<and> m_role m = Owner) (org_members s)))))
     (\<lambda>(role, n). throwIf (role = Some Owner \<and> n \<le> 1)
                    (ConflictException ''Cannot remove the last owner'' None))"

definition updateMember ::
  "principal \<Rightarrow> uuid \<Rightarrow> uuid \<Rightarrow> org_role \<Rightarrow> string option \<Rightarrow> ('z db_scheme, unit) svc" where
  "updateMember p orgId userId role ip =
     bindM (requireRole orgId (p_user_id p) Admin) (\<lambda>actorRole.
     thenM (throwIf (role = Owner \<and> actorRole \<noteq> Owner)
              (ForbiddenException ''Only owners can grant owner'' None))
     (thenM (guardLastOwner orgId userId)
     (bindM (getsM (\<lambda>s. memberRole s orgId userId \<noteq> None)) (\<lambda>hit.
      thenM (modifyM (\<lambda>s. s\<lparr>org_members :=
               map (\<lambda>m. if m_org_id m = orgId \<and> m_user_id m = userId then m\<lparr>m_role := role\<rparr> else m)
                 (org_members s)\<rparr>))
     (thenM (throwIf (\<not> hit) (NotFoundException ''Member not found'' None))
     (audit_log (user_entry (Some orgId) p ''org.member.update'' ''user'' userId ip
        [(''role'', JStr (show_role role))])))))))"

definition removeMember ::
  "principal \<Rightarrow> uuid \<Rightarrow> uuid \<Rightarrow> string option \<Rightarrow> ('z db_scheme, unit) svc" where
  "removeMember p orgId userId ip =
     thenM (if userId \<noteq> p_user_id p then thenM (requireRole orgId (p_user_id p) Admin) (returnM ())
            else returnM ())
     (thenM (guardLastOwner orgId userId)
     (bindM (getsM (\<lambda>s. memberRole s orgId userId \<noteq> None)) (\<lambda>hit.
      thenM (modifyM (\<lambda>s. s\<lparr>org_members :=
               filter (\<lambda>m. \<not> (m_org_id m = orgId \<and> m_user_id m = userId)) (org_members s)\<rparr>))
     (thenM (throwIf (\<not> hit) (NotFoundException ''Member not found'' None))
     (audit_log (user_entry (Some orgId) p ''org.member.remove'' ''user'' userId ip []))))))"

section \<open>Storage quota\<close>

record org_quota =
  q_org_id :: uuid
  q_storage_quota_mb :: "int option"
  q_allocated_mb :: int
  q_used_bytes :: int
  q_mailbox_count :: nat

text \<open>The mailboxes whose domain belongs to the organization (the join of both queries).\<close>

definition org_mailboxes :: "'z db_scheme \<Rightarrow> uuid \<Rightarrow> mailbox_row list" where
  "org_mailboxes s orgId =
     filter (\<lambda>m. \<exists>d \<in> set (domains s). d_id d = mb_domain_id m \<and> d_org_id d = orgId) (mailboxes s)"

definition computeQuota :: "uuid \<Rightarrow> ('z db_scheme, org_quota) svc" where
  "computeQuota orgId =
     bindM (getsM (\<lambda>s. (find (\<lambda>r. o_id r = orgId) (organizations s), org_mailboxes s orgId)))
     (\<lambda>(row, ms).
     bindM (someM row (NotFoundException ''Organization not found'' None)) (\<lambda>r.
     returnM \<lparr>q_org_id = orgId, q_storage_quota_mb = o_storage_quota_mb r,
              q_allocated_mb = sum_list (map mb_quota_mb ms),
              q_used_bytes = sum_list (map mb_quota_used_bytes ms),
              q_mailbox_count = length ms\<rparr>))"

definition getQuota :: "uuid \<Rightarrow> uuid \<Rightarrow> ('z db_scheme, org_quota) svc" where
  "getQuota orgId userId = thenM (requireRole orgId userId Viewer) (computeQuota orgId)"

definition setQuota ::
  "principal \<Rightarrow> uuid \<Rightarrow> int option \<Rightarrow> string option \<Rightarrow> ('z db_scheme, org_quota) svc" where
  "setQuota p orgId quotaMb ip =
     thenM (requireRole orgId (p_user_id p) Admin)
     (bindM (computeQuota orgId) (\<lambda>usage.
      thenM (throwIf (case quotaMb of None \<Rightarrow> False | Some q \<Rightarrow> q < q_allocated_mb usage)
               (ConflictException ''Quota below current allocation''
                 (Some (''Org already allocates '' @ show_int (q_allocated_mb usage) @ '' MB across '' @
                        show_nat (q_mailbox_count usage) @ '' mailbox(es).''))))
     (bindM (getsM (\<lambda>s. orgId \<in> o_id ` set (organizations s))) (\<lambda>hit.
      thenM (modifyM (\<lambda>s. s\<lparr>organizations :=
               map (\<lambda>r. if o_id r = orgId
                        then r\<lparr>o_storage_quota_mb := quotaMb, o_updated_at := now s\<rparr> else r)
                 (organizations s)\<rparr>))
     (thenM (throwIf (\<not> hit) (NotFoundException ''Organization not found'' None))
     (thenM (audit_log (user_entry (Some orgId) p ''org.quota.update'' ''organization'' orgId ip
               [(''storage_quota_mb'', case quotaMb of None \<Rightarrow> JNull | Some q \<Rightarrow> JNum q)]))
     (returnM (usage\<lparr>q_storage_quota_mb := quotaMb\<rparr>))))))))"

definition assertQuota :: "uuid \<Rightarrow> int \<Rightarrow> uuid option \<Rightarrow> ('z db_scheme, unit) svc" where
  "assertQuota orgId addMb exclude =
     bindM (getsM (\<lambda>s. (find (\<lambda>r. o_id r = orgId) (organizations s),
              sum_list (map mb_quota_mb
                (filter (\<lambda>m. exclude \<noteq> Some (mb_id m)) (org_mailboxes s orgId))))))
     (\<lambda>(row, used).
     case row of
       None \<Rightarrow> returnM ()
     | Some r \<Rightarrow>
        (case o_storage_quota_mb r of
           None \<Rightarrow> returnM ()
         | Some cap \<Rightarrow>
             throwIf (used + addMb > cap)
               (ConflictException ''Org storage quota exceeded''
                  (Some (''Allocating '' @ show_int addMb @ '' MB would use '' @ show_int (used + addMb) @
                         '' MB of the '' @ show_int cap @ '' MB org quota.'')))))"

section \<open>The role check as an interface\<close>

text \<open>
  What the other services rely on: a check that never writes, that lets a caller pass
  exactly when the caller's role in the organization reaches the required rank, and that
  hides an organization the caller has no role in.
\<close>

locale role_guard =
  fixes guard :: "uuid \<Rightarrow> uuid \<Rightarrow> org_role \<Rightarrow> ('s, org_role) svc"
    and role_of :: "'s \<Rightarrow> uuid \<Rightarrow> uuid \<Rightarrow> org_role option"
  assumes guard_pass: "role_of s org u = Some r \<Longrightarrow> ROLE_RANK need \<le> ROLE_RANK r \<Longrightarrow>
            guard org u need s = (Inr r, s)"
    and guard_low: "role_of s org u = Some r \<Longrightarrow> ROLE_RANK r < ROLE_RANK need \<Longrightarrow>
            guard org u need s = (Inl (insufficient need), s)"
    and guard_hide: "role_of s org u = None \<Longrightarrow>
            guard org u need s = (Inl (NotFoundException ''Organization not found'' None), s)"
begin

lemma guard_iff:
  "guard org u need s = (Inr r, t) \<longleftrightarrow>
     t = s \<and> role_of s org u = Some r \<and> ROLE_RANK need \<le> ROLE_RANK r"
proof (cases "role_of s org u")
  case None
  then show ?thesis by (simp add: guard_hide)
next
  case (Some r')
  then show ?thesis
    by (cases "ROLE_RANK need \<le> ROLE_RANK r'") (auto simp: guard_pass guard_low)
qed

lemma guard_Inl:
  "guard org u need s = (Inl e, t) \<Longrightarrow>
     t = s \<and> (\<forall>r. role_of s org u = Some r \<longrightarrow> ROLE_RANK r < ROLE_RANK need)"
proof (cases "role_of s org u")
  case None
  then show "guard org u need s = (Inl e, t) \<Longrightarrow> ?thesis" by (simp add: guard_hide)
next
  case (Some r')
  then show "guard org u need s = (Inl e, t) \<Longrightarrow> ?thesis"
    by (cases "ROLE_RANK need \<le> ROLE_RANK r'") (auto simp: guard_pass guard_low)
qed

lemma guard_readonly: "readonly (guard org u need)"
  unfolding readonly_def
proof
  fix s
  obtain r t where g: "guard org u need s = (r, t)" by fastforce
  then have "t = s"
    by (cases r) (auto dest: guard_Inl simp: guard_iff)
  with g show "snd (guard org u need s) = s" by simp
qed

lemma guard_mono:
  "guard org u need s = (Inr r, t) \<Longrightarrow> ROLE_RANK need' \<le> ROLE_RANK need \<Longrightarrow>
     guard org u need' s = (Inr r, s)"
  by (auto simp: guard_iff)

lemma guarded_outsider:
  "role_of s org u = None \<Longrightarrow>
     thenM (guard org u need) m s = (Inl (NotFoundException ''Organization not found'' None), s)"
  by (simp add: thenM_def bindM_def guard_hide)

lemma guarded_low:
  "role_of s org u = Some r \<Longrightarrow> ROLE_RANK r < ROLE_RANK need \<Longrightarrow>
     thenM (guard org u need) m s = (Inl (insufficient need), s)"
  by (simp add: thenM_def bindM_def guard_low)

end

text \<open>The role the code derives for a principal: membership first, then a live key.\<close>

definition effectiveRole :: "'z db_scheme \<Rightarrow> uuid \<Rightarrow> uuid \<Rightarrow> org_role option" where
  "effectiveRole s orgId userId =
     (case memberRole s orgId userId of
        Some r \<Rightarrow> Some r
      | None \<Rightarrow> (case liveKey s userId of
                  Some k \<Rightarrow> if k_org_id k = orgId then Some (roleFromScopes (k_scopes k)) else None
                | None \<Rightarrow> None))"

interpretation rg: role_guard requireRole effectiveRole
  by unfold_locales
     (auto simp: requireRole_def effectiveRole_def svc_simps split: option.splits if_splits)

lemma requireRole_Inr:
  "requireRole org u need s = (Inr r, t) \<longleftrightarrow>
     t = s \<and> effectiveRole s org u = Some r \<and> ROLE_RANK need \<le> ROLE_RANK r"
  by (rule rg.guard_iff)

lemma requireRole_Inl: "requireRole org u need s = (Inl e, t) \<Longrightarrow> t = s"
  using rg.guard_Inl by blast

lemma effectiveRole_cong:
  "org_members s = org_members t \<Longrightarrow> api_keys s = api_keys t \<Longrightarrow> now s = now t \<Longrightarrow>
     effectiveRole s org u = effectiveRole t org u"
proof -
  assume a: "org_members s = org_members t" "api_keys s = api_keys t" "now s = now t"
  then have "memberRole s org u = memberRole t org u" "liveKey s u = liveKey t u"
    by (simp_all add: memberRole_def liveKey_def cong: option.case_cong)
  then show ?thesis by (simp add: effectiveRole_def cong: option.case_cong)
qed

lemma readonly_requireRole [readonly_intro]: "readonly (requireRole org u need)"
  by (rule rg.guard_readonly)

lemma readonly_guardLastOwner [readonly_intro]: "readonly (guardLastOwner org u)"
  by (auto simp: guardLastOwner_def intro!: readonly_intro)

lemma readonly_computeQuota [readonly_intro]: "readonly (computeQuota org)"
  by (auto simp: computeQuota_def intro!: readonly_intro)

lemma readonly_assertQuota [readonly_intro]: "readonly (assertQuota org mb x)"
  by (auto simp: assertQuota_def intro!: readonly_intro split: option.splits)

lemma guardLastOwner_Inr:
  "guardLastOwner org u s = (Inr x, t) \<longleftrightarrow>
     t = s \<and> \<not> (memberRole s org u = Some Owner \<and>
       length (filter (\<lambda>m. m_org_id m = org \<and> m_role m = Owner) (org_members s)) \<le> 1)"
  by (auto simp: guardLastOwner_def run_iffs)

section \<open>The membership invariant\<close>

definition member_key :: "member_row \<Rightarrow> uuid \<times> uuid" where
  "member_key m = (m_org_id m, m_user_id m)"

definition has_owner :: "'z db_scheme \<Rightarrow> uuid \<Rightarrow> bool" where
  "has_owner s org \<longleftrightarrow> (\<exists>m \<in> set (org_members s). m_org_id m = org \<and> m_role m = Owner)"

definition members_inv :: "'z db_scheme \<Rightarrow> bool" where
  "members_inv s \<longleftrightarrow>
     ids_below (next_id s) (map o_id (organizations s)) \<and>
     distinct (map member_key (org_members s)) \<and>
     (\<forall>m \<in> set (org_members s). m_org_id m \<in> o_id ` set (organizations s)) \<and>
     (\<forall>r \<in> set (organizations s). has_owner s (o_id r))"

lemma members_inv_cong:
  "members_inv s \<Longrightarrow> org_members t = org_members s \<Longrightarrow> map o_id (organizations t) = map o_id (organizations s) \<Longrightarrow>
     next_id s \<le> next_id t \<Longrightarrow> members_inv t"
proof -
  assume i: "members_inv s" and m: "org_members t = org_members s"
    and o: "map o_id (organizations t) = map o_id (organizations s)" and n: "next_id s \<le> next_id t"
  from o have ids: "o_id ` set (organizations t) = o_id ` set (organizations s)"
    by (metis list.set_map)
  have "\<forall>x \<in> o_id ` set (organizations s). has_owner t x"
    using i by (auto simp: members_inv_def has_owner_def m)
  then have own: "\<forall>r \<in> set (organizations t). has_owner t (o_id r)"
    using ids by (metis imageI)
  have "ids_below (next_id t) (map o_id (organizations t))"
    unfolding o using i n by (auto simp: members_inv_def ids_below_def)
  then show "members_inv t"
    using i own by (simp add: members_inv_def m ids)
qed

lemma members_inv_audit [simp]: "members_inv s \<Longrightarrow> members_inv (audit_insert e s)"
  by (erule members_inv_cong) simp_all

lemma memberRole_find:
  "distinct (map member_key (org_members s)) \<Longrightarrow> m \<in> set (org_members s) \<Longrightarrow>
     m_org_id m = org \<Longrightarrow> m_user_id m = u \<Longrightarrow> memberRole s org u = Some (m_role m)"
proof -
  assume d: "distinct (map member_key (org_members s))" and m: "m \<in> set (org_members s)"
    and k: "m_org_id m = org" "m_user_id m = u"
  have "find (\<lambda>y. member_key y = (org, u) \<and> True) (org_members s) = (if True then Some m else None)"
    by (rule find_key_unique[OF d m]) (simp add: member_key_def k)
  then show ?thesis by (simp add: memberRole_def member_key_def)
qed

lemma memberRole_SomeD:
  "memberRole s org u = Some r \<Longrightarrow>
     \<exists>m \<in> set (org_members s). m_org_id m = org \<and> m_user_id m = u \<and> m_role m = r"
  by (auto simp: memberRole_def dest: find_SomeD)

lemma memberRole_None_iff:
  "memberRole s org u = None \<longleftrightarrow> (\<forall>m \<in> set (org_members s). \<not> (m_org_id m = org \<and> m_user_id m = u))"
  by (simp add: memberRole_def find_None_iff_all)

text \<open>
  A member that \<open>guardLastOwner\<close> lets through is never the only owner: another owner
  remains whatever happens to that member's row.
\<close>

lemma other_owner:
  assumes d: "distinct (map member_key (org_members s))"
    and own: "has_owner s org"
    and g: "guardLastOwner org u s = (Inr x, t)"
  shows "\<exists>m \<in> set (org_members s). m_org_id m = org \<and> m_role m = Owner \<and> m_user_id m \<noteq> u"
proof (rule ccontr)
  assume neg: "\<not> ?thesis"
  from own obtain m where m: "m \<in> set (org_members s)" "m_org_id m = org" "m_role m = Owner"
    by (auto simp: has_owner_def)
  with neg have u: "m_user_id m = u" by blast
  let ?F = "filter (\<lambda>m. m_org_id m = org \<and> m_role m = Owner) (org_members s)"
  have "set (map member_key ?F) \<subseteq> {(org, u)}"
    using neg by (auto simp: member_key_def)
  moreover have "distinct (map member_key ?F)"
    using d by (rule distinct_map_filter)
  ultimately have "length (map member_key ?F) \<le> 1"
    by (metis card_mono distinct_card finite.emptyI finite.insertI is_singletonI is_singleton_altdef)
  then have "length ?F \<le> 1" by simp
  moreover have "memberRole s org u = Some Owner"
    using memberRole_find[OF d m(1,2) u] m(3) by simp
  ultimately show False using g by (simp add: guardLastOwner_Inr)
qed

subsection \<open>Every operation keeps it\<close>

lemma members_inv_update_role:
  assumes i: "members_inv s" and g: "guardLastOwner org u s = (Inr x, s')"
  shows "members_inv (s\<lparr>org_members :=
           map (\<lambda>m. if m_org_id m = org \<and> m_user_id m = u then m\<lparr>m_role := role\<rparr> else m)
             (org_members s)\<rparr>)" (is "members_inv ?t")
proof -
  let ?f = "\<lambda>m. if m_org_id m = org \<and> m_user_id m = u then m\<lparr>m_role := role\<rparr> else m"
  have d: "distinct (map member_key (org_members s))"
    using i by (simp add: members_inv_def)
  have k: "member_key \<circ> ?f = member_key"
    by (auto simp: member_key_def fun_eq_iff)
  have "has_owner ?t oid" if "has_owner s oid" for oid
  proof (cases "oid = org")
    case True
    with other_owner[OF d _ g] that obtain m where
      "m \<in> set (org_members s)" "m_org_id m = org" "m_role m = Owner" "m_user_id m \<noteq> u" by blast
    then have "m \<in> ?f ` set (org_members s)" by (auto intro: image_eqI[of _ ?f m])
    with \<open>m_org_id m = org\<close> \<open>m_role m = Owner\<close> True show ?thesis
      by (auto simp: has_owner_def)
  next
    case False
    from that obtain m where "m \<in> set (org_members s)" "m_org_id m = oid" "m_role m = Owner"
      by (auto simp: has_owner_def)
    with False show ?thesis by (auto simp: has_owner_def intro!: bexI[of _ m])
  qed
  then show ?thesis using i by (auto simp: members_inv_def k)
qed

lemma members_inv_remove:
  assumes i: "members_inv s" and g: "guardLastOwner org u s = (Inr x, s')"
  shows "members_inv (s\<lparr>org_members :=
           filter (\<lambda>m. \<not> (m_org_id m = org \<and> m_user_id m = u)) (org_members s)\<rparr>)"
    (is "members_inv ?t")
proof -
  have d: "distinct (map member_key (org_members s))"
    using i by (simp add: members_inv_def)
  have "has_owner ?t oid" if "has_owner s oid" for oid
    using that other_owner[OF d _ g]
    by (cases "oid = org") (auto simp: has_owner_def)
  then show ?thesis using i by (auto simp: members_inv_def distinct_map_filter)
qed

lemma members_inv_add:
  assumes i: "members_inv s" and o: "org \<in> o_id ` set (organizations s)"
    and n: "memberRole s org u = None"
  shows "members_inv (s\<lparr>org_members := org_members s @
           [\<lparr>m_org_id = org, m_user_id = u, m_role = role, m_created_at = now s\<rparr>]\<rparr>)"
proof -
  have "(org, u) \<notin> set (map member_key (org_members s))"
    using n by (auto simp: memberRole_None_iff member_key_def)
  then show ?thesis
    using i o by (auto simp: members_inv_def has_owner_def member_key_def)
qed

lemma delete_organization_frame [simp]:
  "organizations (delete_organization org s) = filter (\<lambda>x. o_id x \<noteq> org) (organizations s)"
  "org_members (delete_organization org s) = filter (\<lambda>m. m_org_id m \<noteq> org) (org_members s)"
  "api_keys (delete_organization org s) = filter (\<lambda>k. k_org_id k \<noteq> org) (api_keys s)"
  "next_id (delete_organization org s) = next_id s"
  by (simp_all add: delete_organization_def delete_domains_def delete_mailboxes_def
        delete_groups_def delete_endpoints_def Let_def)

lemma has_owner_delete:
  "has_owner s oid \<Longrightarrow> oid \<noteq> org \<Longrightarrow> has_owner (delete_organization org s) oid"
  by (auto simp: has_owner_def)

lemma members_inv_delete:
  "members_inv s \<Longrightarrow> members_inv (delete_organization org s)"
  by (auto simp: members_inv_def ids_below_filter distinct_map_filter intro: has_owner_delete)

lemma role_org_exists:
  "members_inv s \<Longrightarrow> memberRole s org u = Some r \<Longrightarrow> org \<in> o_id ` set (organizations s)"
  by (auto simp: members_inv_def dest!: memberRole_SomeD)

text \<open>
  A caller that passes the role check acts on an existing organization: the membership
  row and the key row both reference it.
\<close>

definition keys_fk :: "'z db_scheme \<Rightarrow> bool" where
  "keys_fk s \<longleftrightarrow> (\<forall>k \<in> set (api_keys s). k_org_id k \<in> o_id ` set (organizations s))"

definition orgs_inv :: "'z db_scheme \<Rightarrow> bool" where
  "orgs_inv s \<longleftrightarrow> members_inv s \<and> keys_fk s"

lemma effectiveRole_org:
  "orgs_inv s \<Longrightarrow> effectiveRole s org u = Some r \<Longrightarrow> org \<in> o_id ` set (organizations s)"
  by (auto simp: orgs_inv_def effectiveRole_def keys_fk_def liveKey_def
        split: option.splits if_splits dest: role_org_exists find_SomeD)

lemma orgs_inv_audit [simp]: "orgs_inv s \<Longrightarrow> orgs_inv (audit_insert e s)"
  by (auto simp: orgs_inv_def keys_fk_def)

lemma orgs_inv_org_members:
  "orgs_inv s \<Longrightarrow> members_inv (s\<lparr>org_members := ms\<rparr>) \<Longrightarrow> orgs_inv (s\<lparr>org_members := ms\<rparr>)"
  by (simp add: orgs_inv_def keys_fk_def)

lemma orgs_inv_map_orgs:
  assumes i: "orgs_inv s" and f: "\<And>r. o_id (f r) = o_id r"
  shows "orgs_inv (s\<lparr>organizations := map f (organizations s)\<rparr>)"
proof -
  have "members_inv (s\<lparr>organizations := map f (organizations s)\<rparr>)"
    by (rule members_inv_cong[of s]) (use i f in \<open>auto simp: orgs_inv_def o_def\<close>)
  moreover have "keys_fk (s\<lparr>organizations := map f (organizations s)\<rparr>)"
    using i f by (simp add: orgs_inv_def keys_fk_def image_image)
  ultimately show ?thesis by (simp add: orgs_inv_def)
qed

lemma orgs_inv_delete: "orgs_inv s \<Longrightarrow> orgs_inv (delete_organization org s)"
  by (auto simp: orgs_inv_def members_inv_delete keys_fk_def)

lemma orgs_inv_now [simp]: "orgs_inv (s\<lparr>now := x\<rparr>) = orgs_inv s"
  by (simp add: orgs_inv_def members_inv_def keys_fk_def has_owner_def)

text \<open>The effect of a successful insert in \<open>orgs_create\<close>.\<close>

lemma orgs_inv_new_org:
  assumes i: "orgs_inv s"
    and r: "o_id r = next_id s"
  shows "orgs_inv (s\<lparr>organizations := organizations s @ [r], next_id := next_id s + 1,
           org_members := org_members s @
             [\<lparr>m_org_id = next_id s, m_user_id = u, m_role = Owner, m_created_at = now s\<rparr>]\<rparr>)"
proof -
  have fresh: "next_id s \<notin> o_id ` set (organizations s)"
    using i by (auto simp: orgs_inv_def members_inv_def ids_below_def)
  then have "(next_id s, u) \<notin> set (map member_key (org_members s))"
    using i by (auto simp: orgs_inv_def members_inv_def member_key_def)
  then show ?thesis
    using i r
    by (auto simp: orgs_inv_def members_inv_def keys_fk_def has_owner_def member_key_def
          ids_below_def)
qed

lemma preserves_orgs_create [preserve_intro]: "preserves orgs_inv (orgs_create nfkd rnd p req ip)"
proof -
  have "orgs_inv (snd (tx (bindM (insert_organization n sl) (\<lambda>r.
                   thenM (fk_user u) (thenM (insert_member (o_id r) u Owner) (returnM r)))) s))"
    if "orgs_inv s" for s :: "'a db_scheme" and n sl u
    using that orgs_inv_new_org[OF that, of "\<lparr>o_id = next_id s, o_name = n, o_slug = sl, o_plan = ''free'',
        o_storage_quota_mb = None, o_created_at = now s, o_updated_at = now s\<rparr>" u]
    by (auto simp: tx_def insert_organization_def fk_user_def insert_member_def svc_simps Let_def)
  then have "preserves orgs_inv (tx (bindM (insert_organization n sl) (\<lambda>r.
       thenM (fk_user u) (thenM (insert_member (o_id r) u Owner) (returnM r)))) :: ('a db_scheme, org_row) svc)"
    for n sl u
    by (simp add: preserves_def)
  then show ?thesis
    unfolding orgs_create_def Let_def audit_log_def
    by (intro preserves_bindM[OF preserves_catchM] preserves_thenM preserves_modifyM
          preserves_unique_to_conflict preserves_basic) simp_all
qed

lemma preserves_orgs_update [preserve_intro]: "preserves orgs_inv (orgs_update p org name ip)"
  unfolding orgs_update_def audit_log_def
  by (intro preserve_intro readonly_preserves[OF readonly_requireRole])
     (auto intro: orgs_inv_map_orgs)

lemma preserves_orgs_remove [preserve_intro]: "preserves orgs_inv (orgs_remove p org ip)"
  unfolding orgs_remove_def audit_log_def
  by (intro preserve_intro readonly_preserves[OF readonly_requireRole])
     (auto intro: orgs_inv_delete)

lemma preserves_addMember [preserve_intro]: "preserves orgs_inv (addMember p org req ip)"
  unfolding preserves_def
proof (intro allI impI)
  fix s :: "'a db_scheme"
  assume i: "orgs_inv s"
  let ?ins = "\<lambda>u s. s\<lparr>org_members := org_members s @
    [\<lparr>m_org_id = org, m_user_id = u, m_role = am_role req, m_created_at = now s\<rparr>]\<rparr>"
  have ins: "orgs_inv (?ins u s)" if "requireRole org (p_user_id p) Admin s = (Inr r, s)"
    and "memberRole s org u = None" for r u
    using that i effectiveRole_org[OF i, of org "p_user_id p" r]
    by (auto simp: requireRole_Inr orgs_inv_def keys_fk_def members_inv_add)
  show "orgs_inv (snd (addMember p org req ip s))"
    unfolding addMember_def
    apply (rule snd_thenM_ro[where I = orgs_inv, OF readonly_requireRole i])
    apply (rule snd_thenM_ro[where I = orgs_inv, OF _ i], simp add: readonly_intro)
    apply (rule snd_bindM_ro[where I = orgs_inv, OF readonly_basic(3) i])
    apply (rule snd_bindM_ro[where I = orgs_inv, OF readonly_basic(5) i])
    using i by (auto simp: svc_simps insert_member_def audit_log_run ins)
qed

lemma preserves_updateMember [preserve_intro]: "preserves orgs_inv (updateMember p org u role ip)"
  unfolding preserves_def
proof (intro allI impI)
  fix s :: "'a db_scheme"
  assume i: "orgs_inv s"
  have upd: "orgs_inv (s\<lparr>org_members :=
      map (\<lambda>m. if m_org_id m = org \<and> m_user_id m = u then m\<lparr>m_role := role\<rparr> else m) (org_members s)\<rparr>)"
    if "guardLastOwner org u s = (Inr x, s)" for x
    by (rule orgs_inv_org_members[OF i], rule members_inv_update_role[OF _ that])
       (use i in \<open>simp add: orgs_inv_def\<close>)
  show "orgs_inv (snd (updateMember p org u role ip s))"
    unfolding updateMember_def
    apply (rule snd_bindM_ro[where I = orgs_inv, OF readonly_requireRole i])
    apply (rule snd_thenM_ro[where I = orgs_inv, OF readonly_basic(4) i])
    apply (rule snd_thenM_ro[where I = orgs_inv, OF readonly_guardLastOwner i])
    by (auto simp: svc_simps audit_log_run upd)
qed

lemma preserves_removeMember [preserve_intro]: "preserves orgs_inv (removeMember p org u ip)"
  unfolding preserves_def
proof (intro allI impI)
  fix s :: "'a db_scheme"
  assume i: "orgs_inv s"
  have del: "orgs_inv (s\<lparr>org_members :=
      filter (\<lambda>m. \<not> (m_org_id m = org \<and> m_user_id m = u)) (org_members s)\<rparr>)"
    if "guardLastOwner org u s = (Inr x, s)" for x
    by (rule orgs_inv_org_members[OF i], rule members_inv_remove[OF _ that])
       (use i in \<open>simp add: orgs_inv_def\<close>)
  show "orgs_inv (snd (removeMember p org u ip s))"
    unfolding removeMember_def
    apply (rule snd_thenM_ro[where I = orgs_inv, OF _ i], simp add: readonly_intro)
    apply (rule snd_thenM_ro[where I = orgs_inv, OF readonly_guardLastOwner i])
    using del by (auto simp: svc_simps audit_log_run)
qed

lemma preserves_setQuota [preserve_intro]: "preserves orgs_inv (setQuota p org q ip)"
  unfolding setQuota_def audit_log_def
  by (intro preserve_intro readonly_preserves[OF readonly_requireRole]
        readonly_preserves[OF readonly_computeQuota])
     (auto intro: orgs_inv_map_orgs)

subsection \<open>Runs of the service\<close>

text \<open>One step is one call of a mutating operation by any principal, or time passing.\<close>

inductive org_step :: "'z db_scheme \<Rightarrow> 'z db_scheme \<Rightarrow> bool" where
  create: "org_step s (snd (orgs_create nfkd rnd p req ip s))"
| update: "org_step s (snd (orgs_update p org name ip s))"
| remove: "org_step s (snd (orgs_remove p org ip s))"
| add_member: "org_step s (snd (addMember p org areq ip s))"
| update_member: "org_step s (snd (updateMember p org u role ip s))"
| remove_member: "org_step s (snd (removeMember p org u ip s))"
| set_quota: "org_step s (snd (setQuota p org q ip s))"
| time: "0 \<le> d \<Longrightarrow> org_step s (s\<lparr>now := now s + d\<rparr>)"

inductive_simps org_step_iff: "org_step s t"

lemma org_step_inv: "org_step s t \<Longrightarrow> orgs_inv s \<Longrightarrow> orgs_inv t"
  by (induction rule: org_step.induct) (auto intro: preservesD[OF preserves_orgs_create]
      preservesD[OF preserves_orgs_update] preservesD[OF preserves_orgs_remove]
      preservesD[OF preserves_addMember] preservesD[OF preserves_updateMember]
      preservesD[OF preserves_removeMember] preservesD[OF preserves_setQuota])

lemma org_steps_inv: "org_step\<^sup>*\<^sup>* s t \<Longrightarrow> orgs_inv s \<Longrightarrow> orgs_inv t"
  by (induction rule: rtranclp_induct) (auto intro: org_step_inv)

lemma orgs_inv_empty: "orgs_inv empty_db"
  by (simp add: orgs_inv_def members_inv_def keys_fk_def ids_below_def empty_db_def)

subsection \<open>Who may grant ownership\<close>

lemma memberRole_audit [simp]: "memberRole (audit_insert e s) org u = memberRole s org u"
  by (simp add: memberRole_def)

lemma memberRole_insert:
  "memberRole (s\<lparr>org_members := org_members s @ [m]\<rparr>) org v =
     (case memberRole s org v of
        Some r \<Rightarrow> Some r
      | None \<Rightarrow> if m_org_id m = org \<and> m_user_id m = v then Some (m_role m) else None)"
  by (auto simp: memberRole_def find_snoc split: option.splits)

lemma memberRole_update:
  "memberRole (s\<lparr>org_members :=
       map (\<lambda>m. if m_org_id m = org \<and> m_user_id m = u then m\<lparr>m_role := role\<rparr> else m)
         (org_members s)\<rparr>) org v =
     (if v = u then map_option (\<lambda>_. role) (memberRole s org v) else memberRole s org v)"
proof -
  let ?f = "\<lambda>m. if m_org_id m = org \<and> m_user_id m = u then m\<lparr>m_role := role\<rparr> else m"
  have "find (\<lambda>m. m_org_id m = org \<and> m_user_id m = v) (map ?f (org_members s)) =
        map_option ?f (find (\<lambda>m. m_org_id m = org \<and> m_user_id m = v) (org_members s))"
    by (rule find_map_frame) auto
  then show ?thesis
    by (auto simp: memberRole_def option.map_comp o_def intro!: option.map_cong dest: find_SomeD)
qed

lemma rank_top: "3 \<le> ROLE_RANK r \<longleftrightarrow> r = Owner"
  by (cases r) auto

lemma addMember_Inr:
  "addMember p org req ip s = (Inr (), t) \<Longrightarrow>
     (am_role req = Owner \<longrightarrow> effectiveRole s org (p_user_id p) = Some Owner) \<and>
     (\<exists>u e. memberRole s org (u_id u) = None \<and> u \<in> set (users s) \<and> ci_eq (u_email u) (am_email req) \<and>
        t = audit_insert e (s\<lparr>org_members := org_members s @
         [\<lparr>m_org_id = org, m_user_id = u_id u, m_role = am_role req, m_created_at = now s\<rparr>]\<rparr>))"
  by (auto simp: addMember_def svc_iffs requireRole_Inr insert_member_def rank_top
        split: if_splits dest!: find_SomeD)

lemma updateMember_Inr:
  "updateMember p org u role ip s = (Inr (), t) \<Longrightarrow>
     (role = Owner \<longrightarrow> effectiveRole s org (p_user_id p) = Some Owner) \<and>
     memberRole s org u \<noteq> None \<and>
     (\<exists>e. t = audit_insert e (s\<lparr>org_members :=
        map (\<lambda>m. if m_org_id m = org \<and> m_user_id m = u then m\<lparr>m_role := role\<rparr> else m)
          (org_members s)\<rparr>))"
  by (auto simp: updateMember_def svc_iffs requireRole_Inr guardLastOwner_Inr)

section \<open>Properties\<close>

text \<open>
  C1: an organization never loses its last owner. Whatever sequence of calls of
  OrgsService any principals make (create, update, remove, addMember, updateMember,
  removeMember, setQuota) and however time passes, starting from a state where every
  organization has an owner and membership rows are unique, every organization that
  exists afterwards has a member with the owner role. The empty database is such a state.
\<close>

theorem every_org_keeps_an_owner:
  assumes "org_step\<^sup>*\<^sup>* s t" and "orgs_inv s" and "r \<in> set (organizations t)"
  shows "has_owner t (o_id r)"
  using org_steps_inv[OF assms(1,2)] assms(3) by (simp add: orgs_inv_def members_inv_def)

definition alice :: user_row where
  "alice = \<lparr>u_id = 11, u_email = ''alice@x.io'', u_name = ''Alice'', u_password_hash = Some ''h'',
     u_totp_secret = None, u_totp_enabled = False, u_status = ''active'', u_updated_at = 0\<rparr>"

definition bob :: user_row where
  "bob = alice\<lparr>u_id := 12, u_email := ''bob@x.io'', u_name := ''Bob''\<rparr>"

definition as_user :: "uuid \<Rightarrow> principal" where
  "as_user u = \<lparr>p_user_id = u, p_email = [], p_name = [], p_session_id = 0, p_mailbox_id = None,
     p_org_id = None\<rparr>"

definition two_users :: db where
  "two_users = empty_db\<lparr>users := [alice, bob], next_id := 20\<rparr>"

definition acme :: db where
  "acme = snd (orgs_create id [] (as_user 11) \<lparr>co_name = ''Acme'', co_slug = Some ''acme''\<rparr> None two_users)"

lemmas demo_defs = alice_def bob_def as_user_def two_users_def acme_def empty_db_def

lemma acme_eval:
  "organizations acme = [\<lparr>o_id = 20, o_name = ''Acme'', o_slug = ''acme'', o_plan = ''free'',
     o_storage_quota_mb = None, o_created_at = 0, o_updated_at = 0\<rparr>]"
  "org_members acme = [\<lparr>m_org_id = 20, m_user_id = 11, m_role = Owner, m_created_at = 0\<rparr>]"
  "users acme = [alice, bob]" "api_keys acme = []" "now acme = 0" "domains acme = []"
  "mailboxes acme = []" "next_id acme = 22"
  by (simp_all add: demo_defs orgs_create_def insert_organization_def insert_member_def fk_user_def
        tx_def svc_simps audit_log_run Let_def)

theorem every_org_keeps_an_owner_witness:
  "has_owner (snd (removeMember (as_user 11) 20 11 None acme)) 20"
proof -
  have inv: "orgs_inv two_users"
    by (simp add: orgs_inv_def members_inv_def keys_fk_def ids_below_def demo_defs)
  have "org_step\<^sup>*\<^sup>* two_users (snd (removeMember (as_user 11) 20 11 None acme))"
    unfolding acme_def
    by (rule rtranclp.rtrancl_into_rtrancl[OF r_into_rtranclp[of org_step, OF org_step.create]
          org_step.remove_member])
  moreover have "hd (organizations acme) \<in> set (organizations (snd (removeMember (as_user 11) 20 11 None acme)))"
    by (simp add: removeMember_def svc_simps as_user_def guardLastOwner_def memberRole_def acme_eval)
  ultimately have "has_owner (snd (removeMember (as_user 11) 20 11 None acme)) (o_id (hd (organizations acme)))"
    using every_org_keeps_an_owner[OF _ inv] by blast
  then show ?thesis by (simp add: acme_eval)
qed

text \<open>
  C2: only an owner makes an owner. When a call of addMember or updateMember succeeds and
  a user is an owner of the organization afterwards who was not before, the caller's own
  role was owner.
\<close>

theorem only_owners_grant_owner:
  assumes "addMember p org req ip s = (Inr (), t) \<or> updateMember p org u role ip s = (Inr (), t)"
    and "memberRole t org v = Some Owner" and "memberRole s org v \<noteq> Some Owner"
  shows "effectiveRole s org (p_user_id p) = Some Owner"
  using assms
  by (auto dest!: addMember_Inr updateMember_Inr simp: memberRole_insert memberRole_update
        split: option.splits if_splits)

theorem only_owners_grant_owner_witness:
  "memberRole (snd (addMember (as_user 11) 20 \<lparr>am_email = ''BOB@x.io'', am_role = Owner\<rparr> None acme)) 20 12 = Some Owner
   \<and> effectiveRole acme 20 (p_user_id (as_user 11)) = Some Owner"
proof -
  let ?t = "snd (addMember (as_user 11) 20 \<lparr>am_email = ''BOB@x.io'', am_role = Owner\<rparr> None acme)"
  have mail: "ci_eq ''bob@x.io'' ''BOB@x.io''" "\<not> ci_eq ''alice@x.io'' ''BOB@x.io''"
    by code_simp+
  have run: "addMember (as_user 11) 20 \<lparr>am_email = ''BOB@x.io'', am_role = Owner\<rparr> None acme = (Inr (), ?t)"
    and role: "memberRole ?t 20 12 = Some Owner" and before: "memberRole acme 20 12 \<noteq> Some Owner"
    by (simp_all add: addMember_def requireRole_def svc_simps audit_log_run insert_member_def
          memberRole_def acme_eval mail alice_def bob_def as_user_def)
  have "effectiveRole acme 20 (p_user_id (as_user 11)) = Some Owner"
    using only_owners_grant_owner[OF _ role before] run by blast
  with role show ?thesis by simp
qed

text \<open>
  an API key is capped by its scopes. A principal that is not a member of the
  organization and authenticates with a live key whose scope list is not empty and lacks
  admin never passes a check for more than the member role; without write it passes only
  checks for viewer; and a key of one organization passes no check in another.
\<close>

theorem scoped_key_is_capped:
  assumes "memberRole s org u = None" and "liveKey s u = Some k"
    and "k_scopes k \<noteq> []" and "''admin'' \<notin> set (k_scopes k)"
    and "requireRole org u need s = (Inr r, t)"
  shows "k_org_id k = org \<and> ROLE_RANK need \<le> ROLE_RANK Member \<and>
         (''write'' \<in> set (k_scopes k) \<or> need = Viewer) \<and> t = s"
  using assms by (cases need)
    (auto simp: requireRole_Inr effectiveRole_def roleFromScopes_def split: if_splits)

definition acme_key :: "string list \<Rightarrow> api_key_row" where
  "acme_key sc = \<lparr>k_id = 9, k_org_id = 20, k_name = ''ci'', k_key_prefix = ''jm_'', k_key_hash = ''h'',
     k_scopes = sc, k_last_used_at = None, k_expires_at = Some 10, k_created_by = Some 11,
     k_created_at = 0, k_revoked_at = None\<rparr>"

definition keyed_acme :: db where
  "keyed_acme = acme\<lparr>api_keys := [acme_key [''read'', ''write'']]\<rparr>"

theorem scoped_key_is_capped_witness:
  "requireRole 20 9 Member keyed_acme = (Inr Member, keyed_acme) \<and>
   \<not> (\<exists>r t. requireRole 20 9 Admin keyed_acme = (Inr r, t))"
proof -
  have m: "memberRole keyed_acme 20 9 = None"
    and k: "liveKey keyed_acme 9 = Some (acme_key [''read'', ''write''])"
    by (simp_all add: memberRole_def liveKey_def acme_eval acme_key_def keyed_acme_def)
  have sc: "k_scopes (acme_key [''read'', ''write'']) \<noteq> []"
    "''admin'' \<notin> set (k_scopes (acme_key [''read'', ''write'']))"
    "k_org_id (acme_key [''read'', ''write'']) = 20"
    by (simp_all add: acme_key_def)
  have "requireRole 20 9 Member keyed_acme = (Inr Member, keyed_acme)"
    by (simp add: requireRole_Inr effectiveRole_def m k roleFromScopes_def) (simp add: acme_key_def)
  moreover have "\<not> (\<exists>r t. requireRole 20 9 Admin keyed_acme = (Inr r, t))"
    using scoped_key_is_capped[OF m k sc(1,2), of Admin] by fastforce
  ultimately show ?thesis by blast
qed

end
