(* ===== verification/JM_Tenant.thy ===== *)
theory JM_Tenant
  imports JM_Orgs
begin

text \<open>
  The contract the organization-scoped resource services share (aliases, mail groups,
  mailboxes): a resource belongs to one organization, reading and deleting go through
  that organization and the caller's role in it, and a failed call leaves no trace. The
  isolation results are proved once here and hold for every service that meets the laws.
\<close>

locale tenant_resource =
  fixes get :: "uuid \<Rightarrow> uuid \<Rightarrow> uuid \<Rightarrow> ('s, 'd) svc"
    and remove :: "principal \<Rightarrow> uuid \<Rightarrow> uuid \<Rightarrow> string option \<Rightarrow> ('s, unit) svc"
    and owns :: "'s \<Rightarrow> uuid \<Rightarrow> uuid \<Rightarrow> bool"
    and role_of :: "'s \<Rightarrow> uuid \<Rightarrow> uuid \<Rightarrow> org_role option"
    and wf :: "'s \<Rightarrow> bool"
  assumes get_readonly: "readonly (get org i u)"
    and get_ok: "(\<exists>d. get org i u s = (Inr d, s)) \<longleftrightarrow> role_of s org u \<noteq> None \<and> owns s org i"
    and remove_ok: "remove p org i ip s = (Inr (), t) \<Longrightarrow>
          owns s org i \<and> (\<exists>r. role_of s org (p_user_id p) = Some r \<and> ROLE_RANK Admin \<le> ROLE_RANK r) \<and>
          (\<forall>org' j. owns t org' j \<longleftrightarrow> owns s org' j \<and> j \<noteq> i)"
    and remove_err: "remove p org i ip s = (Inl e, t) \<Longrightarrow> t = s"
    and owns_unique: "wf s \<Longrightarrow> owns s org i \<Longrightarrow> owns s org' i \<Longrightarrow> org = org'"
begin

lemma get_Inr: "get org i u s = (Inr d, t) \<Longrightarrow> t = s \<and> role_of s org u \<noteq> None \<and> owns s org i"
  using get_ok readonlyD[OF get_readonly] by blast

lemma get_foreign:
  assumes "wf s" "owns s org i" "org' \<noteq> org"
  shows "\<exists>e. get org' i u s = (Inl e, s)"
proof -
  obtain r t where g: "get org' i u s = (r, t)" by fastforce
  then have t: "t = s" using get_readonly by (rule readonlyD[rotated])
  show ?thesis
  proof (cases r)
    case (Inl e)
    with g t show ?thesis by simp
  next
    case (Inr d)
    with g have "owns s org' i" using get_Inr by blast
    with assms show ?thesis using owns_unique by blast
  qed
qed

lemma remove_foreign:
  assumes "wf s" "owns s org i" "org' \<noteq> org"
  shows "\<exists>e. remove p org' i ip s = (Inl e, s)"
proof -
  obtain r t where g: "remove p org' i ip s = (r, t)" by fastforce
  show ?thesis
  proof (cases r)
    case (Inl e)
    with g show ?thesis using remove_err by blast
  next
    case (Inr x)
    with g have "owns s org' i" using remove_ok by (metis (full_types) old.unit.exhaust)
    with assms show ?thesis using owns_unique by blast
  qed
qed

lemma removed_is_gone:
  assumes "remove p org i ip s = (Inr (), t)"
  shows "\<exists>e. get org' i u t = (Inl e, t)"
proof -
  have n: "\<not> owns t org' i" using remove_ok[OF assms] by blast
  obtain r t' where g: "get org' i u t = (r, t')" by fastforce
  then have "t' = t" using get_readonly by (rule readonlyD[rotated])
  with g n get_ok[of org' i u t] show ?thesis by (cases r) auto
qed

end

text \<open>
  Services that also create: the new resource belongs to the organization, is returned
  by \<open>get\<close> exactly as \<open>create\<close> returned it, and a failed create changes nothing.
\<close>

locale tenant_store = tenant_resource get remove owns role_of wf
  for get :: "uuid \<Rightarrow> uuid \<Rightarrow> uuid \<Rightarrow> ('s, 'd) svc"
    and remove :: "principal \<Rightarrow> uuid \<Rightarrow> uuid \<Rightarrow> string option \<Rightarrow> ('s, unit) svc"
    and owns :: "'s \<Rightarrow> uuid \<Rightarrow> uuid \<Rightarrow> bool"
    and role_of :: "'s \<Rightarrow> uuid \<Rightarrow> uuid \<Rightarrow> org_role option"
    and wf :: "'s \<Rightarrow> bool" +
  fixes create :: "principal \<Rightarrow> uuid \<Rightarrow> uuid \<Rightarrow> 'q \<Rightarrow> string option \<Rightarrow> ('s, 'd) svc"
    and id_of :: "'d \<Rightarrow> uuid"
  assumes create_ok: "wf s \<Longrightarrow> create p org dm q ip s = (Inr d, t) \<Longrightarrow>
          get org (id_of d) (p_user_id p) t = (Inr d, t) \<and>
          (\<exists>r. role_of s org (p_user_id p) = Some r \<and> ROLE_RANK Admin \<le> ROLE_RANK r) \<and>
          (\<forall>org' j. owns s org' j \<longrightarrow> owns t org' j \<and> j \<noteq> id_of d)"
    and create_err: "wf s \<Longrightarrow> create p org dm q ip s = (Inl e, t) \<Longrightarrow> t = s"
    and create_wf: "wf s \<Longrightarrow> wf (snd (create p org dm q ip s))"
begin

lemma create_isolated:
  assumes "wf s" "create p org dm q ip s = (Inr d, t)" "org' \<noteq> org"
  shows "\<exists>e. get org' (id_of d) u t = (Inl e, t)"
proof -
  have "wf t" using create_wf[OF assms(1), of p org dm q ip] assms(2) by simp
  moreover have "owns t org (id_of d)"
    using create_ok[OF assms(1,2)] get_Inr by blast
  ultimately show ?thesis using assms(3) by (rule get_foreign)
qed

end

section \<open>The domain check\<close>

text \<open>
  \<open>assertDomain\<close> appears with the same body in the alias, group and mailbox services:
  the domain must belong to the organization the caller has a role in.
\<close>

definition domain_in_org :: "uuid \<Rightarrow> uuid \<Rightarrow> uuid \<Rightarrow> ('z db_scheme, unit) svc" where
  "domain_in_org orgId domainId userId =
     thenM (requireRole orgId userId Viewer)
     (bindM (getsM (\<lambda>s. find (\<lambda>d. d_id d = domainId \<and> d_org_id d = orgId) (domains s))) (\<lambda>row.
      thenM (someM row (NotFoundException ''Domain not found'' None)) (returnM ())))"

lemma domain_in_org_Inr:
  "domain_in_org org dm u s = (Inr x, t) \<longleftrightarrow>
     t = s \<and> effectiveRole s org u \<noteq> None \<and> (\<exists>d \<in> set (domains s). d_id d = dm \<and> d_org_id d = org)"
proof -
  have "find (\<lambda>d. d_id d = dm \<and> d_org_id d = org) (domains s) \<noteq> None \<longleftrightarrow>
        (\<exists>d \<in> set (domains s). d_id d = dm \<and> d_org_id d = org)"
    by (auto simp: find_None_iff_all)
  then show ?thesis
    by (auto simp: domain_in_org_def run_iffs requireRole_Inr)
qed

lemma readonly_domain_in_org [readonly_intro]: "readonly (domain_in_org org dm u)"
  unfolding domain_in_org_def by (intro readonly_intro)

section \<open>A small tenant\<close>

text \<open>Two organizations with one domain each, for the witnesses of the resource services.\<close>

definition acme_mail :: db where
  "acme_mail = acme\<lparr>
     organizations := organizations acme @
       [\<lparr>o_id = 25, o_name = ''Globex'', o_slug = ''globex'', o_plan = ''free'',
         o_storage_quota_mb = None, o_created_at = 0, o_updated_at = 0\<rparr>],
     org_members := org_members acme @ [\<lparr>m_org_id = 25, m_user_id = 12, m_role = Owner, m_created_at = 0\<rparr>],
     domains := [plain_domain 26 20 ''acme.io'' (Some 2),
                 plain_domain 27 25 ''globex.io'' None],
     next_id := 30\<rparr>"

lemma acme_mail_eval:
  "domains acme_mail = [plain_domain 26 20 ''acme.io'' (Some 2),
                        plain_domain 27 25 ''globex.io'' None]"
  "org_members acme_mail = [\<lparr>m_org_id = 20, m_user_id = 11, m_role = Owner, m_created_at = 0\<rparr>,
                            \<lparr>m_org_id = 25, m_user_id = 12, m_role = Owner, m_created_at = 0\<rparr>]"
  "api_keys acme_mail = []" "now acme_mail = 0" "mailboxes acme_mail = []" "next_id acme_mail = 30"
  "aliases acme_mail = []" "mail_groups acme_mail = []" "mail_group_members acme_mail = []"
  "webhook_endpoints acme_mail = []" "webhook_deliveries acme_mail = []" "invites acme_mail = []"
  "users acme_mail = [alice, bob]"
  "organizations acme_mail =
     [\<lparr>o_id = 20, o_name = ''Acme'', o_slug = ''acme'', o_plan = ''free'',
       o_storage_quota_mb = None, o_created_at = 0, o_updated_at = 0\<rparr>,
      \<lparr>o_id = 25, o_name = ''Globex'', o_slug = ''globex'', o_plan = ''free'',
       o_storage_quota_mb = None, o_created_at = 0, o_updated_at = 0\<rparr>]"
  by (simp_all add: acme_mail_def acme_eval)
     (simp_all add: demo_defs orgs_create_def insert_organization_def insert_member_def fk_user_def
        tx_def svc_simps audit_log_run Let_def)

lemma ids_wf_acme_mail: "ids_wf acme_mail"
  by (simp add: ids_wf_def ids_below_def acme_mail_eval)

lemma acme_mail_role:
  "effectiveRole acme_mail 20 11 = Some Owner" "effectiveRole acme_mail 25 12 = Some Owner"
  "effectiveRole acme_mail 20 12 = None"
  by (simp_all add: effectiveRole_def memberRole_def liveKey_def acme_mail_eval)

lemma as_user_id [simp]: "p_user_id (as_user u) = u"
  by (simp add: as_user_def)

end
