(* ===== verification/JM_Aliases.thy ===== *)
theory JM_Aliases
  imports JM_Tenant
begin

text \<open>
  \<open>AliasesService\<close> (\<open>apps/api/src/aliases/aliases.service.ts\<close>): mail aliases of a
  domain. \<open>coll\<close> is the collation \<open>ORDER BY\<close> uses on text, a parameter.
\<close>

record alias_dto =
  ad_id :: uuid
  ad_domain_id :: uuid
  ad_domain_name :: string
  ad_source :: string
  ad_address :: string
  ad_destinations :: "string list"
  ad_enabled :: bool
  ad_created_at :: timestamp

definition toAlias :: "alias_row \<times> domain_row \<Rightarrow> alias_dto" where
  "toAlias = (\<lambda>(r, d). \<lparr>ad_id = al_id r, ad_domain_id = al_domain_id r, ad_domain_name = d_name d,
     ad_source = al_source r, ad_address = al_source r @ ''@'' @ d_name d,
     ad_destinations = al_destinations r, ad_enabled = al_enabled r, ad_created_at = al_created_at r\<rparr>)"

record create_alias_request =
  ca_source :: string
  ca_destinations :: "string list"
  ca_enabled :: "bool option"

record update_alias_request =
  ua_destinations :: "string list option"
  ua_enabled :: "bool option"

definition alias_join :: "'z db_scheme \<Rightarrow> (alias_row \<times> domain_row) list" where
  "alias_join s = [(a, d). a \<leftarrow> aliases s, d \<leftarrow> domains s, d_id d = al_domain_id a]"

definition aliases_assertDomain :: "uuid \<Rightarrow> uuid \<Rightarrow> uuid \<Rightarrow> ('z db_scheme, unit) svc" where
  "aliases_assertDomain orgId domainId userId = domain_in_org orgId domainId userId"

definition listAliases ::
  "(string \<Rightarrow> 'k :: linorder) \<Rightarrow> uuid \<Rightarrow> uuid \<Rightarrow> uuid \<Rightarrow> ('z db_scheme, alias_dto list) svc" where
  "listAliases coll orgId domainId userId =
     thenM (aliases_assertDomain orgId domainId userId)
     (getsM (\<lambda>s. map toAlias (sort_key (\<lambda>(a, d). coll (al_source a))
        (filter (\<lambda>(a, d). al_domain_id a = domainId \<and> d_org_id d = orgId) (alias_join s)))))"

definition listOrgAliases ::
  "(string \<Rightarrow> 'k :: linorder) \<Rightarrow> uuid \<Rightarrow> uuid \<Rightarrow> ('z db_scheme, alias_dto list) svc" where
  "listOrgAliases coll orgId userId =
     thenM (requireRole orgId userId Viewer)
     (getsM (\<lambda>s. map toAlias (sort_key (\<lambda>(a, d). coll (d_name d)) (sort_key (\<lambda>(a, d). coll (al_source a))
        (filter (\<lambda>(a, d). d_org_id d = orgId) (alias_join s))))))"

definition getAlias :: "uuid \<Rightarrow> uuid \<Rightarrow> uuid \<Rightarrow> ('z db_scheme, alias_dto) svc" where
  "getAlias orgId i userId =
     thenM (requireRole orgId userId Viewer)
     (bindM (getsM (\<lambda>s. find_in_org al_id al_domain_id (aliases s) (domains s) orgId i)) (\<lambda>row.
      bindM (someM row (NotFoundException ''Alias not found'' None)) (\<lambda>r. returnM (toAlias r))))"

text \<open>\<open>INSERT INTO aliases\<close>: the unique constraint on (domain, source) is 23505.\<close>

definition insert_alias :: "uuid \<Rightarrow> string \<Rightarrow> string list \<Rightarrow> bool option \<Rightarrow> ('z db_scheme, uuid) svc" where
  "insert_alias domainId source dests enabled = (\<lambda>s.
     if \<exists>a \<in> set (aliases s). al_domain_id a = domainId \<and> ci_eq (al_source a) source
     then (Inl (DbError ''23505''), s)
     else (Inr (next_id s),
           s\<lparr>aliases := aliases s @
               [\<lparr>al_id = next_id s, al_domain_id = domainId, al_source = source, al_destinations = dests,
                 al_enabled = (case enabled of None \<Rightarrow> True | Some b \<Rightarrow> b), al_created_at = now s,
                 al_updated_at = now s\<rparr>],
             next_id := next_id s + 1\<rparr>))"

definition createAlias ::
  "principal \<Rightarrow> uuid \<Rightarrow> uuid \<Rightarrow> create_alias_request \<Rightarrow> string option \<Rightarrow> ('z db_scheme, alias_dto) svc" where
  "createAlias p orgId domainId req ip =
     thenM (requireRole orgId (p_user_id p) Admin)
     (thenM (aliases_assertDomain orgId domainId (p_user_id p))
     (bindM (catchM (insert_alias domainId (toLowerCase (ca_source req)) (ca_destinations req) (ca_enabled req))
               (unique_to_conflict ''Alias already exists'')) (\<lambda>i.
      thenM (audit_log (user_entry (Some orgId) p ''alias.create'' ''alias'' i ip
               [(''source'', JStr (ca_source req)), (''destinations'', JArr (map JStr (ca_destinations req)))]))
     (getAlias orgId i (p_user_id p)))))"

text \<open>The assembled \<open>UPDATE aliases SET ... WHERE id = $1\<close>.\<close>

definition patch_alias :: "uuid \<Rightarrow> update_alias_request \<Rightarrow> 'z db_scheme \<Rightarrow> 'z db_scheme" where
  "patch_alias i req s = s\<lparr>aliases :=
     map (\<lambda>a. if al_id a = i
              then a\<lparr>al_updated_at := now s,
                     al_destinations := (case ua_destinations req of None \<Rightarrow> al_destinations a | Some x \<Rightarrow> x),
                     al_enabled := (case ua_enabled req of None \<Rightarrow> al_enabled a | Some x \<Rightarrow> x)\<rparr>
              else a) (aliases s)\<rparr>"

definition updateAlias ::
  "principal \<Rightarrow> uuid \<Rightarrow> uuid \<Rightarrow> update_alias_request \<Rightarrow> string option \<Rightarrow> ('z db_scheme, alias_dto) svc" where
  "updateAlias p orgId i req ip =
     thenM (requireRole orgId (p_user_id p) Admin)
     (thenM (getAlias orgId i (p_user_id p))
     (thenM (modifyM (patch_alias i req))
     (thenM (audit_log (user_entry (Some orgId) p ''alias.update'' ''alias'' i ip
               ((case ua_destinations req of None \<Rightarrow> [] | Some x \<Rightarrow> [(''destinations'', JArr (map JStr x))]) @
                (case ua_enabled req of None \<Rightarrow> [] | Some x \<Rightarrow> [(''enabled'', JBool x)]))))
     (getAlias orgId i (p_user_id p)))))"

definition removeAlias ::
  "principal \<Rightarrow> uuid \<Rightarrow> uuid \<Rightarrow> string option \<Rightarrow> ('z db_scheme, unit) svc" where
  "removeAlias p orgId i ip =
     thenM (requireRole orgId (p_user_id p) Admin)
     (thenM (getAlias orgId i (p_user_id p))
     (thenM (modifyM (\<lambda>s. s\<lparr>aliases := filter (\<lambda>a. al_id a \<noteq> i) (aliases s)\<rparr>))
     (audit_log (user_entry (Some orgId) p ''alias.delete'' ''alias'' i ip []))))"

section \<open>The service meets the tenant contract\<close>

definition alias_owns :: "'z db_scheme \<Rightarrow> uuid \<Rightarrow> uuid \<Rightarrow> bool" where
  "alias_owns s = in_org al_id al_domain_id (aliases s) (domains s)"

lemma getAlias_Inr:
  "getAlias org i u s = (Inr x, t) \<longleftrightarrow>
     t = s \<and> effectiveRole s org u \<noteq> None \<and>
     (\<exists>r. find_in_org al_id al_domain_id (aliases s) (domains s) org i = Some r \<and> x = toAlias r)"
  by (auto simp: getAlias_def run_iffs requireRole_Inr)

lemma getAlias_ok:
  "(\<exists>x. getAlias org i u s = (Inr x, s)) \<longleftrightarrow> effectiveRole s org u \<noteq> None \<and> alias_owns s org i"
  by (auto simp: getAlias_Inr alias_owns_def find_in_org_iff[symmetric])

lemma readonly_getAlias [readonly_intro]: "readonly (getAlias org i u)"
  unfolding getAlias_def by (intro readonly_intro)

lemma removeAlias_run:
  "removeAlias p org i ip s = (Inr (), t) \<Longrightarrow>
     alias_owns s org i \<and> (\<exists>r. effectiveRole s org (p_user_id p) = Some r \<and> ROLE_RANK Admin \<le> ROLE_RANK r) \<and>
     (\<exists>e. t = audit_insert e (s\<lparr>aliases := filter (\<lambda>a. al_id a \<noteq> i) (aliases s)\<rparr>))"
  using getAlias_ok[of org i "p_user_id p" s]
  by (fastforce simp: removeAlias_def svc_iffs requireRole_Inr getAlias_Inr)

lemma removeAlias_err: "removeAlias p org i ip s = (Inl e, t) \<Longrightarrow> t = s"
  by (auto simp: removeAlias_def svc_iffs requireRole_Inr
        dest: requireRole_Inl readonlyD[OF readonly_getAlias])

definition new_alias :: "'z db_scheme \<Rightarrow> uuid \<Rightarrow> create_alias_request \<Rightarrow> alias_row" where
  "new_alias s domainId req =
     \<lparr>al_id = next_id s, al_domain_id = domainId, al_source = toLowerCase (ca_source req),
      al_destinations = ca_destinations req,
      al_enabled = (case ca_enabled req of None \<Rightarrow> True | Some b \<Rightarrow> b), al_created_at = now s,
      al_updated_at = now s\<rparr>"

definition with_alias :: "uuid \<Rightarrow> create_alias_request \<Rightarrow> 'z db_scheme \<Rightarrow> 'z db_scheme" where
  "with_alias domainId req s =
     s\<lparr>aliases := aliases s @ [new_alias s domainId req], next_id := next_id s + 1\<rparr>"

definition alias_taken :: "'z db_scheme \<Rightarrow> uuid \<Rightarrow> string \<Rightarrow> bool" where
  "alias_taken s domainId source \<longleftrightarrow>
     (\<exists>a \<in> set (aliases s). al_domain_id a = domainId \<and> ci_eq (al_source a) source)"

lemma with_alias_frame [simp]:
  "now (with_alias dm req s) = now s" "org_members (with_alias dm req s) = org_members s"
  "api_keys (with_alias dm req s) = api_keys s" "domains (with_alias dm req s) = domains s"
  "aliases (with_alias dm req s) = aliases s @ [new_alias s dm req]"
  by (simp_all add: with_alias_def)

lemma new_alias_sel [simp]:
  "al_id (new_alias s dm req) = next_id s" "al_domain_id (new_alias s dm req) = dm"
  "al_source (new_alias s dm req) = toLowerCase (ca_source req)"
  by (simp_all add: new_alias_def)

lemma ids_wf_with_alias: "ids_wf s \<Longrightarrow> ids_wf (with_alias dm req s)"
  by (auto simp: ids_wf_def with_alias_def ids_below_def less_Suc_eq)

lemma insert_alias_run:
  "insert_alias dm (toLowerCase (ca_source req)) (ca_destinations req) (ca_enabled req) s =
     (if alias_taken s dm (ca_source req) then (Inl (DbError ''23505''), s)
      else (Inr (next_id s), with_alias dm req s))"
  by (simp add: insert_alias_def alias_taken_def with_alias_def new_alias_def ci_eq_def)

lemma getAlias_new:
  assumes "ids_wf s" "d \<in> set (domains s)" "d_id d = dm" "d_org_id d = org" "effectiveRole s org u \<noteq> None"
  shows "getAlias org (next_id s) u (audit_insert e (with_alias dm req s)) =
           (Inr (toAlias (new_alias s dm req, d)), audit_insert e (with_alias dm req s))"
proof -
  have "effectiveRole (audit_insert e (with_alias dm req s)) org u \<noteq> None"
    using assms(5) by (subst effectiveRole_cong[where t = s]) simp_all
  moreover have "find_in_org al_id al_domain_id (aliases s @ [new_alias s dm req]) (domains s) org (next_id s)
      = Some (new_alias s dm req, d)"
    by (rule find_in_org_unique) (use assms in \<open>auto simp: ids_wf_def ids_below_def\<close>)
  ultimately show ?thesis by (simp add: getAlias_Inr)
qed

text \<open>The three outcomes of \<open>create\<close>: refused, conflict, created.\<close>

lemma createAlias_run:
  assumes "ids_wf s"
  shows "createAlias p org dm req ip s = (r, t) \<Longrightarrow>
    (\<exists>e. r = Inl e \<and> t = s) \<or>
    (\<exists>d e. r = Inr (toAlias (new_alias s dm req, d)) \<and> t = audit_insert e (with_alias dm req s) \<and>
       d \<in> set (domains s) \<and> d_id d = dm \<and> d_org_id d = org \<and> \<not> alias_taken s dm (ca_source req) \<and>
       (\<exists>role. effectiveRole s org (p_user_id p) = Some role \<and> ROLE_RANK Admin \<le> ROLE_RANK role))"
proof -
  let ?P = "\<lambda>(r, t). (\<exists>e. r = Inl e \<and> t = s) \<or>
    (\<exists>d e. r = Inr (toAlias (new_alias s dm req, d)) \<and> t = audit_insert e (with_alias dm req s) \<and>
       d \<in> set (domains s) \<and> d_id d = dm \<and> d_org_id d = org \<and> \<not> alias_taken s dm (ca_source req) \<and>
       (\<exists>role. effectiveRole s org (p_user_id p) = Some role \<and> ROLE_RANK Admin \<le> ROLE_RANK role))"
  have "?P (createAlias p org dm req ip s)"
    unfolding createAlias_def aliases_assertDomain_def
  proof (rule thenM_ro[where P = ?P, OF readonly_requireRole],
         simp, rule thenM_ro[where P = ?P, OF readonly_domain_in_org], simp)
    fix role y
    assume role: "requireRole org (p_user_id p) Admin s = (Inr role, s)"
      and "domain_in_org org dm (p_user_id p) s = (Inr y, s)"
    then obtain d where d: "d \<in> set (domains s)" "d_id d = dm" "d_org_id d = org"
      by (auto simp: domain_in_org_Inr)
    from role have r: "effectiveRole s org (p_user_id p) = Some role" "ROLE_RANK Admin \<le> ROLE_RANK role"
      by (auto simp: requireRole_Inr)
    show "?P (bindM (catchM (insert_alias dm (toLowerCase (ca_source req)) (ca_destinations req) (ca_enabled req))
               (unique_to_conflict ''Alias already exists'')) (\<lambda>i.
      thenM (audit_log (user_entry (Some org) p ''alias.create'' ''alias'' i ip
               [(''source'', JStr (ca_source req)), (''destinations'', JArr (map JStr (ca_destinations req)))]))
     (getAlias org i (p_user_id p))) s)"
    proof (cases "alias_taken s dm (ca_source req)")
      case True
      then show ?thesis
        by (simp add: bindM_def catchM_def insert_alias_run unique_to_conflict_def throwM_def)
    next
      case False
      then have step: "bindM (catchM (insert_alias dm (toLowerCase (ca_source req)) (ca_destinations req) (ca_enabled req))
               (unique_to_conflict ''Alias already exists'')) k s = k (next_id s) (with_alias dm req s)" for k
        by (simp add: bindM_def catchM_def insert_alias_run)
      have new: "getAlias org (next_id s) (p_user_id p) (audit_insert e (with_alias dm req s)) =
          (Inr (toAlias (new_alias s dm req, d)), audit_insert e (with_alias dm req s))" for e
        by (rule getAlias_new[OF assms d]) (simp add: r)
      show ?thesis
        unfolding step thenM_audit new using False d r by auto
    qed
  qed
  then show "createAlias p org dm req ip s = (r, t) \<Longrightarrow> ?thesis" by simp
qed

lemma updateAlias_clean: "clean s (updateAlias p org i req ip s)"
proof -
  have "\<exists>x u. getAlias org i (p_user_id p) (audit_insert e (patch_alias i req s)) = (Inr x, u)"
    if "getAlias org i (p_user_id p) s = (Inr y, s)" for e y
  proof -
    have "effectiveRole (audit_insert e (patch_alias i req s)) org (p_user_id p) = effectiveRole s org (p_user_id p)"
      by (rule effectiveRole_cong) (simp_all add: patch_alias_def)
    moreover have "alias_owns (audit_insert e (patch_alias i req s)) org i = alias_owns s org i"
      by (simp add: alias_owns_def in_org_map patch_alias_def)
    ultimately show ?thesis using that getAlias_ok by metis
  qed
  then show ?thesis
    unfolding updateAlias_def
    by (intro clean_thenM[OF readonly_requireRole] clean_thenM[OF readonly_getAlias] clean_write_read)
qed

interpretation alias_svc: tenant_store getAlias removeAlias alias_owns effectiveRole ids_wf createAlias ad_id
proof (unfold_locales, goal_cases)
  case 1 show ?case by (rule readonly_getAlias)
next
  case 2 show ?case by (rule getAlias_ok)
next
  case 3 then show ?case
    by (auto dest!: removeAlias_run simp: alias_owns_def in_org_filter)
next
  case 4 then show ?case by (rule removeAlias_err)
next
  case 5 then show ?case
    by (auto simp: alias_owns_def ids_wf_def ids_below_def dest: in_org_unique)
next
  case (6 s p org dm q ip d t)
  from createAlias_run[OF this] obtain dr e role where
    d: "d = toAlias (new_alias s dm q, dr)" "t = audit_insert e (with_alias dm q s)"
    "dr \<in> set (domains s)" "d_id dr = dm" "d_org_id dr = org"
    "effectiveRole s org (p_user_id p) = Some role" "ROLE_RANK Admin \<le> ROLE_RANK role" by auto
  have "j \<noteq> next_id s" if "alias_owns s org' j" for org' j
    using that 6(1) by (auto simp: alias_owns_def in_org_def ids_wf_def ids_below_def)
  then show ?case
    using d getAlias_new[OF 6(1) d(3-5)] by (auto simp: toAlias_def alias_owns_def in_org_snoc)
next
  case 7 then show ?case by (auto dest: createAlias_run)
next
  case (8 s p org dm q ip)
  then show ?case
    using createAlias_run[OF 8, of p org dm q ip] ids_wf_with_alias[OF 8]
    by (cases "createAlias p org dm q ip s") auto
qed

end
