(* ===== verification/JM_Groups.thy ===== *)
theory JM_Groups
  imports JM_Tenant
begin

text \<open>
  \<open>GroupsService\<close> (\<open>apps/api/src/groups/groups.service.ts\<close>): distribution lists of a
  domain and their members.
\<close>

record member_dto =
  gmd_id :: uuid
  gmd_address :: string
  gmd_created_at :: timestamp

record group_dto =
  gd_id :: uuid
  gd_domain_id :: uuid
  gd_domain_name :: string
  gd_local_part :: string
  gd_address :: string
  gd_name :: string
  gd_description :: "string option"
  gd_enabled :: bool
  gd_allow_member_send :: bool
  gd_member_count :: nat
  gd_created_at :: timestamp

record group_detail = group_dto +
  gd_members :: "member_dto list"

record create_group_request =
  cg_local_part :: string
  cg_name :: string
  cg_description :: "string option"
  cg_members :: "string list"
  cg_enabled :: "bool option"
  cg_allow_member_send :: "bool option"

text \<open>In an update, \<open>description\<close> may be absent, null or a string.\<close>

record update_group_request =
  ug_name :: "string option"
  ug_description :: "string option option"
  ug_enabled :: "bool option"
  ug_allow_member_send :: "bool option"

definition dedupe :: "string list \<Rightarrow> string list" where
  "dedupe addrs = js_dedupe (filter (\<lambda>a. a \<noteq> []) (map (\<lambda>a. toLowerCase (trim a)) addrs))"

definition member_count :: "'z db_scheme \<Rightarrow> uuid \<Rightarrow> nat" where
  "member_count s gid = length (filter (\<lambda>m. gm_group_id m = gid) (mail_group_members s))"

definition toGroup :: "'z db_scheme \<Rightarrow> group_row \<times> domain_row \<Rightarrow> group_dto" where
  "toGroup s = (\<lambda>(r, d). \<lparr>gd_id = g_id r, gd_domain_id = g_domain_id r, gd_domain_name = d_name d,
     gd_local_part = g_local_part r, gd_address = g_local_part r @ ''@'' @ d_name d, gd_name = g_name r,
     gd_description = g_description r, gd_enabled = g_enabled r,
     gd_allow_member_send = g_allow_member_send r, gd_member_count = member_count s (g_id r),
     gd_created_at = g_created_at r\<rparr>)"

text \<open>\<open>{ ...toGroup(row), members }\<close>\<close>

definition with_members :: "group_dto \<Rightarrow> member_dto list \<Rightarrow> group_detail" where
  "with_members g ms = group_dto.extend g \<lparr>gd_members = ms\<rparr>"

definition GROUP_SELECT :: "'z db_scheme \<Rightarrow> (group_row \<times> domain_row) list" where
  "GROUP_SELECT s = [(g, d). g \<leftarrow> mail_groups s, d \<leftarrow> domains s, d_id d = g_domain_id g]"

definition groups_assertDomain :: "uuid \<Rightarrow> uuid \<Rightarrow> uuid \<Rightarrow> ('z db_scheme, unit) svc" where
  "groups_assertDomain orgId domainId userId = domain_in_org orgId domainId userId"

definition listOrgGroups ::
  "(string \<Rightarrow> 'k :: linorder) \<Rightarrow> uuid \<Rightarrow> uuid \<Rightarrow> ('z db_scheme, group_dto list) svc" where
  "listOrgGroups coll orgId userId =
     thenM (requireRole orgId userId Viewer)
     (getsM (\<lambda>s. map (toGroup s) (sort_key (\<lambda>(g, d). coll (d_name d)) (sort_key (\<lambda>(g, d). coll (g_local_part g))
        (filter (\<lambda>(g, d). d_org_id d = orgId) (GROUP_SELECT s))))))"

definition listDomainGroups ::
  "(string \<Rightarrow> 'k :: linorder) \<Rightarrow> uuid \<Rightarrow> uuid \<Rightarrow> uuid \<Rightarrow> ('z db_scheme, group_dto list) svc" where
  "listDomainGroups coll orgId domainId userId =
     thenM (groups_assertDomain orgId domainId userId)
     (getsM (\<lambda>s. map (toGroup s) (sort_key (\<lambda>(g, d). coll (g_local_part g))
        (filter (\<lambda>(g, d). g_domain_id g = domainId) (GROUP_SELECT s)))))"

definition loadMembers :: "(string \<Rightarrow> 'k :: linorder) \<Rightarrow> uuid \<Rightarrow> ('z db_scheme, member_dto list) svc" where
  "loadMembers coll groupId = getsM (\<lambda>s.
     map (\<lambda>m. \<lparr>gmd_id = gm_id m, gmd_address = gm_address m, gmd_created_at = gm_created_at m\<rparr>)
       (sort_key (\<lambda>m. coll (gm_address m)) (filter (\<lambda>m. gm_group_id m = groupId) (mail_group_members s))))"

definition getGroup ::
  "(string \<Rightarrow> 'k :: linorder) \<Rightarrow> uuid \<Rightarrow> uuid \<Rightarrow> uuid \<Rightarrow> ('z db_scheme, group_detail) svc" where
  "getGroup coll orgId i userId =
     thenM (requireRole orgId userId Viewer)
     (bindM (getsM (\<lambda>s. map_option (toGroup s)
               (find_in_org g_id g_domain_id (mail_groups s) (domains s) orgId i))) (\<lambda>row.
      bindM (someM row (NotFoundException ''Group not found'' None)) (\<lambda>g.
      bindM (loadMembers coll i) (\<lambda>ms.
      returnM (with_members g ms)))))"

text \<open>\<open>INSERT ... ON CONFLICT (group_id, address) DO NOTHING\<close>\<close>

definition add_group_member :: "uuid \<Rightarrow> string \<Rightarrow> 'z db_scheme \<Rightarrow> 'z db_scheme" where
  "add_group_member gid addr s =
     (if \<exists>m \<in> set (mail_group_members s). gm_group_id m = gid \<and> ci_eq (gm_address m) (toLowerCase addr) then s
      else s\<lparr>mail_group_members := mail_group_members s @
               [\<lparr>gm_id = next_id s, gm_group_id = gid, gm_address = toLowerCase addr, gm_created_at = now s\<rparr>],
             next_id := next_id s + 1\<rparr>)"

definition insertMembers :: "uuid \<Rightarrow> string list \<Rightarrow> ('z db_scheme, unit) svc" where
  "insertMembers groupId members = forM members (\<lambda>a. modifyM (add_group_member groupId a))"

definition insert_group :: "uuid \<Rightarrow> create_group_request \<Rightarrow> ('z db_scheme, uuid) svc" where
  "insert_group domainId req = (\<lambda>s.
     if \<exists>g \<in> set (mail_groups s). g_domain_id g = domainId \<and> ci_eq (g_local_part g) (toLowerCase (cg_local_part req))
     then (Inl (DbError ''23505''), s)
     else (Inr (next_id s),
           s\<lparr>mail_groups := mail_groups s @
               [\<lparr>g_id = next_id s, g_domain_id = domainId, g_local_part = toLowerCase (cg_local_part req),
                 g_name = cg_name req, g_description = cg_description req,
                 g_enabled = (case cg_enabled req of None \<Rightarrow> True | Some b \<Rightarrow> b),
                 g_allow_member_send = (case cg_allow_member_send req of None \<Rightarrow> False | Some b \<Rightarrow> b),
                 g_created_at = now s, g_updated_at = now s\<rparr>],
             next_id := next_id s + 1\<rparr>))"

definition createGroup ::
  "(string \<Rightarrow> 'k :: linorder) \<Rightarrow> principal \<Rightarrow> uuid \<Rightarrow> uuid \<Rightarrow> create_group_request \<Rightarrow> string option
     \<Rightarrow> ('z db_scheme, group_detail) svc" where
  "createGroup coll p orgId domainId req ip =
     thenM (requireRole orgId (p_user_id p) Admin)
     (thenM (groups_assertDomain orgId domainId (p_user_id p))
     (let members = dedupe (cg_members req) in
      bindM (catchM (tx (bindM (insert_group domainId req) (\<lambda>gid.
                         thenM (insertMembers gid members) (returnM gid))))
               (unique_to_conflict ''Group address already exists'')) (\<lambda>i.
      thenM (audit_log (user_entry (Some orgId) p ''group.create'' ''group'' i ip
               [(''local_part'', JStr (cg_local_part req)), (''members'', JNum (int (length members)))]))
     (getGroup coll orgId i (p_user_id p)))))"

definition patch_group :: "uuid \<Rightarrow> update_group_request \<Rightarrow> 'z db_scheme \<Rightarrow> 'z db_scheme" where
  "patch_group i req s = s\<lparr>mail_groups :=
     map (\<lambda>g. if g_id g = i
              then g\<lparr>g_updated_at := now s,
                     g_name := (case ug_name req of None \<Rightarrow> g_name g | Some x \<Rightarrow> x),
                     g_description := (case ug_description req of None \<Rightarrow> g_description g | Some x \<Rightarrow> x),
                     g_enabled := (case ug_enabled req of None \<Rightarrow> g_enabled g | Some x \<Rightarrow> x),
                     g_allow_member_send :=
                       (case ug_allow_member_send req of None \<Rightarrow> g_allow_member_send g | Some x \<Rightarrow> x)\<rparr>
              else g) (mail_groups s)\<rparr>"

definition group_patch_meta :: "update_group_request \<Rightarrow> (string \<times> json) list" where
  "group_patch_meta req =
     (case ug_name req of None \<Rightarrow> [] | Some x \<Rightarrow> [(''name'', JStr x)]) @
     (case ug_description req of None \<Rightarrow> []
        | Some x \<Rightarrow> [(''description'', case x of None \<Rightarrow> JNull | Some v \<Rightarrow> JStr v)]) @
     (case ug_enabled req of None \<Rightarrow> [] | Some x \<Rightarrow> [(''enabled'', JBool x)]) @
     (case ug_allow_member_send req of None \<Rightarrow> [] | Some x \<Rightarrow> [(''allow_member_send'', JBool x)])"

definition updateGroup ::
  "(string \<Rightarrow> 'k :: linorder) \<Rightarrow> principal \<Rightarrow> uuid \<Rightarrow> uuid \<Rightarrow> update_group_request \<Rightarrow> string option
     \<Rightarrow> ('z db_scheme, group_detail) svc" where
  "updateGroup coll p orgId i req ip =
     thenM (requireRole orgId (p_user_id p) Admin)
     (thenM (getGroup coll orgId i (p_user_id p))
     (thenM (modifyM (patch_group i req))
     (thenM (audit_log (user_entry (Some orgId) p ''group.update'' ''group'' i ip (group_patch_meta req)))
     (getGroup coll orgId i (p_user_id p)))))"

definition setMembers ::
  "(string \<Rightarrow> 'k :: linorder) \<Rightarrow> principal \<Rightarrow> uuid \<Rightarrow> uuid \<Rightarrow> string list \<Rightarrow> string option
     \<Rightarrow> ('z db_scheme, group_detail) svc" where
  "setMembers coll p orgId i members ip =
     thenM (requireRole orgId (p_user_id p) Admin)
     (thenM (getGroup coll orgId i (p_user_id p))
     (let new = dedupe members in
      thenM (tx (thenM (modifyM (\<lambda>s. s\<lparr>mail_group_members :=
                          filter (\<lambda>m. gm_group_id m \<noteq> i) (mail_group_members s)\<rparr>))
                (insertMembers i new)))
     (thenM (audit_log (user_entry (Some orgId) p ''group.members.set'' ''group'' i ip
               [(''members'', JNum (int (length new)))]))
     (getGroup coll orgId i (p_user_id p)))))"

definition removeGroup ::
  "(string \<Rightarrow> 'k :: linorder) \<Rightarrow> principal \<Rightarrow> uuid \<Rightarrow> uuid \<Rightarrow> string option \<Rightarrow> ('z db_scheme, unit) svc" where
  "removeGroup coll p orgId i ip =
     thenM (requireRole orgId (p_user_id p) Admin)
     (thenM (getGroup coll orgId i (p_user_id p))
     (thenM (modifyM (delete_groups (\<lambda>g. g_id g = i)))
     (audit_log (user_entry (Some orgId) p ''group.delete'' ''group'' i ip []))))"

section \<open>Reading\<close>

definition group_owns :: "'z db_scheme \<Rightarrow> uuid \<Rightarrow> uuid \<Rightarrow> bool" where
  "group_owns s = in_org g_id g_domain_id (mail_groups s) (domains s)"

definition member_addresses :: "'z db_scheme \<Rightarrow> uuid \<Rightarrow> string list" where
  "member_addresses s gid = map gm_address (filter (\<lambda>m. gm_group_id m = gid) (mail_group_members s))"

lemma getGroup_Inr:
  "getGroup coll org i u s = (Inr x, t) \<longleftrightarrow>
     t = s \<and> effectiveRole s org u \<noteq> None \<and>
     (\<exists>r. find_in_org g_id g_domain_id (mail_groups s) (domains s) org i = Some r \<and>
        x = with_members (toGroup s r)
          (map (\<lambda>m. \<lparr>gmd_id = gm_id m, gmd_address = gm_address m, gmd_created_at = gm_created_at m\<rparr>)
            (sort_key (\<lambda>m. coll (gm_address m)) (filter (\<lambda>m. gm_group_id m = i) (mail_group_members s)))))"
  by (auto simp: getGroup_def loadMembers_def run_iffs requireRole_Inr)

lemma getGroup_ok:
  "(\<exists>x. getGroup coll org i u s = (Inr x, s)) \<longleftrightarrow> effectiveRole s org u \<noteq> None \<and> group_owns s org i"
  by (auto simp: getGroup_Inr group_owns_def find_in_org_iff[symmetric])

lemma readonly_getGroup [readonly_intro]: "readonly (getGroup coll org i u)"
  unfolding getGroup_def loadMembers_def by (intro readonly_intro)

lemma map_insort_key: "map f (insort_key (\<lambda>x. g (f x)) x xs) = insort_key g (f x) (map f xs)"
  by (induction xs) auto

lemma map_sort_key: "map f (sort_key (\<lambda>x. g (f x)) xs) = sort_key g (map f xs)"
  by (induction xs) (simp_all add: map_insort_key)

lemma getGroup_addresses:
  "getGroup coll org i u s = (Inr x, t) \<Longrightarrow>
     map gmd_address (gd_members x) = sort_key coll (member_addresses s i) \<and>
     gd_member_count x = length (gd_members x) \<and> gd_id x = i"
proof -
  assume "getGroup coll org i u s = (Inr x, t)"
  then obtain r where r: "find_in_org g_id g_domain_id (mail_groups s) (domains s) org i = Some r"
    and x: "x = with_members (toGroup s r)
          (map (\<lambda>m. \<lparr>gmd_id = gm_id m, gmd_address = gm_address m, gmd_created_at = gm_created_at m\<rparr>)
            (sort_key (\<lambda>m. coll (gm_address m)) (filter (\<lambda>m. gm_group_id m = i) (mail_group_members s))))"
    by (auto simp: getGroup_Inr)
  then have "g_id (fst r) = i" by (cases r) (auto dest: find_in_org_Some)
  moreover have "map gm_address (sort_key (\<lambda>m. coll (gm_address m)) ys) = sort_key coll (map gm_address ys)" for ys
    by (rule map_sort_key)
  ultimately show ?thesis
    unfolding x
    by (cases r) (simp add: with_members_def toGroup_def group_dto.defs member_addresses_def member_count_def
        o_def comp_def)
qed

section \<open>Members\<close>

lemma forM_modifyM: "forM xs (\<lambda>x. modifyM (f x)) s = (Inr (), fold f xs s)"
  by (induction xs arbitrary: s) (simp_all add: returnM_def thenM_modifyM)

lemma insertMembers_run: "insertMembers gid ms s = (Inr (), fold (add_group_member gid) ms s)"
  by (simp add: insertMembers_def forM_modifyM)

lemma add_group_member_frame [simp]:
  "now (add_group_member gid a s) = now s" "org_members (add_group_member gid a s) = org_members s"
  "api_keys (add_group_member gid a s) = api_keys s" "domains (add_group_member gid a s) = domains s"
  "mail_groups (add_group_member gid a s) = mail_groups s"
  by (simp_all add: add_group_member_def)

lemma fold_member_frame [simp]:
  "now (fold (add_group_member gid) ms s) = now s"
  "org_members (fold (add_group_member gid) ms s) = org_members s"
  "api_keys (fold (add_group_member gid) ms s) = api_keys s"
  "domains (fold (add_group_member gid) ms s) = domains s"
  "mail_groups (fold (add_group_member gid) ms s) = mail_groups s"
  by (induction ms arbitrary: s) simp_all

lemma fold_member_other: "gid' \<noteq> gid \<Longrightarrow>
  member_addresses (fold (add_group_member gid) ms s) gid' = member_addresses s gid'"
  by (induction ms arbitrary: s) (simp_all add: member_addresses_def add_group_member_def)

lemma fold_member_addresses:
  assumes "\<forall>a \<in> set ms. toLowerCase a = a" "distinct ms"
    "\<forall>a \<in> set (member_addresses s gid). toLowerCase a = a"
    "set ms \<inter> set (member_addresses s gid) = {}"
  shows "member_addresses (fold (add_group_member gid) ms s) gid = member_addresses s gid @ ms"
  using assms
proof (induction ms arbitrary: s)
  case Nil
  then show ?case by simp
next
  case (Cons a ms)
  have "\<not> (\<exists>m \<in> set (mail_group_members s). gm_group_id m = gid \<and> ci_eq (gm_address m) (toLowerCase a))"
    using Cons.prems by (fastforce simp: member_addresses_def ci_eq_def)
  then have one: "member_addresses (add_group_member gid a s) gid = member_addresses s gid @ [a]"
    using Cons.prems(1) by (simp add: add_group_member_def member_addresses_def)
  have "member_addresses (fold (add_group_member gid) ms (add_group_member gid a s)) gid =
        member_addresses (add_group_member gid a s) gid @ ms"
    by (rule Cons.IH) (use Cons.prems one in auto)
  with one show ?case by simp
qed

lemma dedupe_props: "distinct (dedupe ms)" "\<forall>a \<in> set (dedupe ms). toLowerCase a = a"
  by (auto simp: dedupe_def)

lemma set_dedupe: "set (dedupe ms) = {toLowerCase (trim a) | a. a \<in> set ms \<and> trim a \<noteq> []}"
  by (auto simp: dedupe_def)

definition replace_members :: "uuid \<Rightarrow> string list \<Rightarrow> 'z db_scheme \<Rightarrow> 'z db_scheme" where
  "replace_members gid ms s =
     fold (add_group_member gid) ms
       (s\<lparr>mail_group_members := filter (\<lambda>m. gm_group_id m \<noteq> gid) (mail_group_members s)\<rparr>)"

lemma replace_members_addresses:
  "member_addresses (replace_members gid (dedupe ms) s) gid' =
     (if gid' = gid then dedupe ms else member_addresses s gid')"
proof (cases "gid' = gid")
  case True
  let ?s = "s\<lparr>mail_group_members := filter (\<lambda>m. gm_group_id m \<noteq> gid) (mail_group_members s)\<rparr>"
  have e: "member_addresses ?s gid = []" by (simp add: member_addresses_def)
  have "member_addresses (fold (add_group_member gid) (dedupe ms) ?s) gid = member_addresses ?s gid @ dedupe ms"
    by (rule fold_member_addresses) (use dedupe_props[of ms] e in auto)
  with True e show ?thesis by (simp add: replace_members_def)
next
  case False
  then have f: "filter (\<lambda>x. gm_group_id x \<noteq> gid \<and> gm_group_id x = gid') xs =
                filter (\<lambda>m. gm_group_id m = gid') xs" for xs
    by (auto intro: filter_cong)
  from False show ?thesis
    by (simp add: replace_members_def fold_member_other) (simp add: member_addresses_def f)
qed

lemma replace_members_frame [simp]:
  "now (replace_members gid ms s) = now s" "org_members (replace_members gid ms s) = org_members s"
  "api_keys (replace_members gid ms s) = api_keys s" "domains (replace_members gid ms s) = domains s"
  "mail_groups (replace_members gid ms s) = mail_groups s"
  by (simp_all add: replace_members_def)

lemma replace_tx:
  "tx (thenM (modifyM (\<lambda>s. s\<lparr>mail_group_members := filter (\<lambda>m. gm_group_id m \<noteq> i) (mail_group_members s)\<rparr>))
          (insertMembers i ms)) = modifyM (replace_members i ms)"
  by (rule ext) (simp add: tx_def thenM_def bindM_def insertMembers_run replace_members_def modifyM_def)

lemma setMembers_alt:
  "setMembers coll p org i ms ip =
     thenM (requireRole org (p_user_id p) Admin)
     (thenM (getGroup coll org i (p_user_id p))
     (thenM (modifyM (replace_members i (dedupe ms)))
     (thenM (audit_log (user_entry (Some org) p ''group.members.set'' ''group'' i ip
               [(''members'', JNum (int (length (dedupe ms))))]))
     (getGroup coll org i (p_user_id p)))))"
  by (simp add: setMembers_def Let_def replace_tx)

section \<open>The service meets the tenant contract\<close>

lemma getGroup_kept:
  assumes "getGroup coll org i u s = (Inr y, s)" "effectiveRole t org u = effectiveRole s org u"
    "group_owns t org i = group_owns s org i"
  shows "\<exists>x u'. getGroup coll org i u t = (Inr x, u')"
  using assms getGroup_ok by metis

lemma setMembers_clean: "clean s (setMembers coll p org i ms ip s)"
proof -
  have "\<exists>x u. getGroup coll org i (p_user_id p) (audit_insert e (replace_members i (dedupe ms) s)) = (Inr x, u)"
    if "getGroup coll org i (p_user_id p) s = (Inr y, s)" for e y
    by (rule getGroup_kept[OF that]) (auto intro: effectiveRole_cong simp: group_owns_def)
  then show ?thesis
    unfolding setMembers_alt
    by (intro clean_thenM[OF readonly_requireRole] clean_thenM[OF readonly_getGroup] clean_write_read)
qed

lemma updateGroup_clean: "clean s (updateGroup coll p org i req ip s)"
proof -
  have "\<exists>x u. getGroup coll org i (p_user_id p) (audit_insert e (patch_group i req s)) = (Inr x, u)"
    if "getGroup coll org i (p_user_id p) s = (Inr y, s)" for e y
    by (rule getGroup_kept[OF that])
       (auto intro: effectiveRole_cong simp: group_owns_def in_org_map patch_group_def)
  then show ?thesis
    unfolding updateGroup_def
    by (intro clean_thenM[OF readonly_requireRole] clean_thenM[OF readonly_getGroup] clean_write_read)
qed

lemma removeGroup_clean: "clean s (removeGroup coll p org i ip s)"
  unfolding removeGroup_def
  by (intro clean_thenM[OF readonly_requireRole] clean_thenM[OF readonly_getGroup])
     (simp add: thenM_modifyM audit_log_run)

lemma removeGroup_Inr:
  "removeGroup coll p org i ip s = (Inr (), t) \<Longrightarrow>
     group_owns s org i \<and> (\<exists>r. effectiveRole s org (p_user_id p) = Some r \<and> ROLE_RANK Admin \<le> ROLE_RANK r) \<and>
     (\<exists>e. t = audit_insert e (delete_groups (\<lambda>g. g_id g = i) s))"
  using getGroup_ok[of coll org i "p_user_id p" s]
  by (fastforce simp: removeGroup_def svc_iffs requireRole_Inr getGroup_Inr)

definition new_group :: "'z db_scheme \<Rightarrow> uuid \<Rightarrow> create_group_request \<Rightarrow> group_row" where
  "new_group s domainId req =
     \<lparr>g_id = next_id s, g_domain_id = domainId, g_local_part = toLowerCase (cg_local_part req),
      g_name = cg_name req, g_description = cg_description req,
      g_enabled = (case cg_enabled req of None \<Rightarrow> True | Some b \<Rightarrow> b),
      g_allow_member_send = (case cg_allow_member_send req of None \<Rightarrow> False | Some b \<Rightarrow> b),
      g_created_at = now s, g_updated_at = now s\<rparr>"

definition with_group :: "uuid \<Rightarrow> create_group_request \<Rightarrow> 'z db_scheme \<Rightarrow> 'z db_scheme" where
  "with_group domainId req s =
     fold (add_group_member (next_id s)) (dedupe (cg_members req))
       (s\<lparr>mail_groups := mail_groups s @ [new_group s domainId req], next_id := next_id s + 1\<rparr>)"

definition group_taken :: "'z db_scheme \<Rightarrow> uuid \<Rightarrow> string \<Rightarrow> bool" where
  "group_taken s domainId lp \<longleftrightarrow>
     (\<exists>g \<in> set (mail_groups s). g_domain_id g = domainId \<and> ci_eq (g_local_part g) lp)"

lemma insert_group_tx:
  "catchM (tx (bindM (insert_group dm req) (\<lambda>gid. thenM (insertMembers gid (dedupe (cg_members req))) (returnM gid))))
     (unique_to_conflict msg) s =
   (if group_taken s dm (cg_local_part req) then (Inl (ConflictException msg None), s)
    else (Inr (next_id s), with_group dm req s))"
  by (simp add: insert_group_def group_taken_def with_group_def new_group_def ci_eq_def catchM_def tx_def
        bindM_def thenM_def insertMembers_run returnM_def unique_to_conflict_def throwM_def)

lemma new_group_sel [simp]: "g_id (new_group s dm req) = next_id s" "g_domain_id (new_group s dm req) = dm"
  by (simp_all add: new_group_def)

lemma with_group_frame [simp]:
  "now (with_group dm req s) = now s" "org_members (with_group dm req s) = org_members s"
  "api_keys (with_group dm req s) = api_keys s" "domains (with_group dm req s) = domains s"
  "mail_groups (with_group dm req s) = mail_groups s @ [new_group s dm req]"
  by (simp_all add: with_group_def)

lemma ids_wf_add_member: "ids_wf s \<Longrightarrow> ids_wf (add_group_member gid a s)"
  by (auto simp: ids_wf_def add_group_member_def ids_below_def less_Suc_eq)

lemma ids_wf_fold_member: "ids_wf s \<Longrightarrow> ids_wf (fold (add_group_member gid) ms s)"
  by (induction ms arbitrary: s) (simp_all add: ids_wf_add_member)

lemma ids_wf_with_group: "ids_wf s \<Longrightarrow> ids_wf (with_group dm req s)"
  unfolding with_group_def
  by (rule ids_wf_fold_member) (auto simp: ids_wf_def ids_below_def less_Suc_eq)

text \<open>The three outcomes of \<open>create\<close>.\<close>

lemma createGroup_run:
  assumes "ids_wf s" and "createGroup coll p org dm req ip s = (r, t)"
  shows "(\<exists>e. r = Inl e \<and> t = s) \<or>
    (\<exists>x e. r = Inr x \<and> t = audit_insert e (with_group dm req s) \<and>
       getGroup coll org (next_id s) (p_user_id p) t = (Inr x, t) \<and>
       \<not> group_taken s dm (cg_local_part req) \<and>
       (\<exists>d \<in> set (domains s). d_id d = dm \<and> d_org_id d = org) \<and>
       (\<exists>role. effectiveRole s org (p_user_id p) = Some role \<and> ROLE_RANK Admin \<le> ROLE_RANK role))"
proof -
  let ?P = "\<lambda>(r, t). (\<exists>e. r = Inl e \<and> t = s) \<or>
    (\<exists>x e. r = Inr x \<and> t = audit_insert e (with_group dm req s) \<and>
       getGroup coll org (next_id s) (p_user_id p) t = (Inr x, t) \<and>
       \<not> group_taken s dm (cg_local_part req) \<and>
       (\<exists>d \<in> set (domains s). d_id d = dm \<and> d_org_id d = org) \<and>
       (\<exists>role. effectiveRole s org (p_user_id p) = Some role \<and> ROLE_RANK Admin \<le> ROLE_RANK role))"
  have "?P (createGroup coll p org dm req ip s)"
    unfolding createGroup_def groups_assertDomain_def Let_def
  proof (rule thenM_ro[where P = ?P, OF readonly_requireRole],
         simp, rule thenM_ro[where P = ?P, OF readonly_domain_in_org], simp)
    fix role y
    assume "requireRole org (p_user_id p) Admin s = (Inr role, s)"
      and "domain_in_org org dm (p_user_id p) s = (Inr y, s)"
    then have d: "\<exists>d \<in> set (domains s). d_id d = dm \<and> d_org_id d = org"
      and r: "effectiveRole s org (p_user_id p) = Some role" "ROLE_RANK Admin \<le> ROLE_RANK role"
      by (auto simp: domain_in_org_Inr requireRole_Inr)
    let ?t = "\<lambda>e. audit_insert e (with_group dm req s)"
    have rd: "\<exists>x. getGroup coll org (next_id s) (p_user_id p) (?t e) = (Inr x, ?t e)" for e
    proof -
      have "effectiveRole (?t e) org (p_user_id p) = effectiveRole s org (p_user_id p)"
        by (rule effectiveRole_cong) simp_all
      with d r show ?thesis by (simp add: getGroup_ok group_owns_def in_org_snoc)
    qed
    show "?P (bindM (catchM (tx (bindM (insert_group dm req)
          (\<lambda>gid. thenM (insertMembers gid (dedupe (cg_members req))) (returnM gid))))
               (unique_to_conflict ''Group address already exists'')) (\<lambda>i.
      thenM (audit_log (user_entry (Some org) p ''group.create'' ''group'' i ip
               [(''local_part'', JStr (cg_local_part req)),
                (''members'', JNum (int (length (dedupe (cg_members req)))))]))
     (getGroup coll org i (p_user_id p))) s)" (is "?P (bindM ?ins (\<lambda>i. thenM (audit_log (?E i)) (?rd i)) s)")
      using insert_then_read[where ins = ?ins and rd = ?rd and E = ?E and s = s, OF insert_group_tx rd] d r by fastforce
  qed
  with assms(2) show ?thesis by simp
qed

interpretation group_svc: tenant_store "getGroup coll" "removeGroup coll" group_owns effectiveRole ids_wf
  "createGroup coll" gd_id
  for coll :: "string \<Rightarrow> 'k :: linorder"
proof (unfold_locales, goal_cases)
  case 1 show ?case by (rule readonly_getGroup)
next
  case 2 show ?case by (rule getGroup_ok)
next
  case 3 then show ?case
    by (auto dest!: removeGroup_Inr simp: group_owns_def delete_groups_def in_org_filter)
next
  case 4 then show ?case using removeGroup_clean cleanD by metis
next
  case 5 then show ?case
    by (auto simp: group_owns_def ids_wf_def ids_below_def dest: in_org_unique)
next
  case (6 s p org dm q ip d t)
  from createGroup_run[OF this] obtain e role where
    d: "t = audit_insert e (with_group dm q s)" "getGroup coll org (next_id s) (p_user_id p) t = (Inr d, t)"
    "effectiveRole s org (p_user_id p) = Some role" "ROLE_RANK Admin \<le> ROLE_RANK role" by auto
  have i: "gd_id d = next_id s" using getGroup_addresses[OF d(2)] by simp
  have "j \<noteq> next_id s" if "group_owns s org' j" for org' j
    using that 6(1) by (auto simp: group_owns_def in_org_def ids_wf_def ids_below_def)
  then show ?case
    using d i by (auto simp: group_owns_def in_org_snoc)
next
  case 7 then show ?case by (auto dest: createGroup_run)
next
  case (8 s p org dm q ip)
  then show ?case
    using createGroup_run[OF 8, of coll p org dm q ip] ids_wf_with_group[OF 8]
    by (cases "createGroup coll p org dm q ip s") auto
qed

section \<open>Properties\<close>

lemma setMembers_Inr:
  assumes "setMembers coll p org i ms ip s = (Inr x, t)"
  shows "(\<exists>e. t = audit_insert e (replace_members i (dedupe ms) s)) \<and>
     getGroup coll org i (p_user_id p) t = (Inr x, t)"
proof -
  from assms obtain e y where
    g: "getGroup coll org i (p_user_id p) s = (Inr y, s)" and
    r: "getGroup coll org i (p_user_id p) (audit_insert e (replace_members i (dedupe ms) s)) = (Inr x, t)"
    unfolding setMembers_alt
    by (auto simp: svc_iffs requireRole_Inr dest: readonlyD[OF readonly_getGroup])
  with readonlyD[OF readonly_getGroup r] show ?thesis by blast
qed

text \<open>
  replacing the members of a group stores exactly the requested addresses. When
  setMembers succeeds, the group it returns lists, in collation order, each requested
  address once, trimmed and in lower case, with empty ones dropped; the count it reports
  is the length of that list; and no other group's members change.
\<close>

theorem setMembers_exact:
  assumes "setMembers coll p org i ms ip s = (Inr x, t)"
  shows "map gmd_address (gd_members x) = sort_key coll (dedupe ms) \<and>
         set (dedupe ms) = {toLowerCase (trim a) | a. a \<in> set ms \<and> trim a \<noteq> []} \<and>
         gd_member_count x = length (dedupe ms) \<and>
         (\<forall>g. g \<noteq> i \<longrightarrow> member_addresses t g = member_addresses s g)"
proof -
  from setMembers_Inr[OF assms] obtain e where t: "t = audit_insert e (replace_members i (dedupe ms) s)"
    and g: "getGroup coll org i (p_user_id p) t = (Inr x, t)" by blast
  have m: "member_addresses t g = (if g = i then dedupe ms else member_addresses s g)" for g
    unfolding t using replace_members_addresses[of i ms s g] by (simp add: member_addresses_def)
  from getGroup_addresses[OF g] m[of i]
  have a: "map gmd_address (gd_members x) = sort_key coll (dedupe ms)"
    and c: "gd_member_count x = length (gd_members x)" by simp_all
  from a have "length (gd_members x) = length (dedupe ms)" by (metis length_map length_sort)
  with a c m show ?thesis by (simp add: set_dedupe)
qed

definition team :: "create_group_request" where
  "team = \<lparr>cg_local_part = ''Team'', cg_name = ''Team'', cg_description = None, cg_members = [],
     cg_enabled = None, cg_allow_member_send = None\<rparr>"

definition acme_team :: db where
  "acme_team = with_group 26 team acme_mail"

lemma acme_team_owns: "group_owns acme_team 20 30" "effectiveRole acme_team 20 11 = Some Owner"
proof -
  show "group_owns acme_team 20 30"
    by (simp add: acme_team_def group_owns_def in_org_def acme_mail_eval)
  have "effectiveRole acme_team 20 11 = effectiveRole acme_mail 20 11"
    by (rule effectiveRole_cong) (simp_all add: acme_team_def)
  then show "effectiveRole acme_team 20 11 = Some Owner" by (simp add: acme_mail_role)
qed

theorem setMembers_exact_witness:
  "\<exists>x t. setMembers id (as_user 11) 20 30 ['' Bob@X.io'', ''bob@x.io'', '' ''] None acme_team = (Inr x, t) \<and>
         map gmd_address (gd_members x) = [''bob@x.io'']"
proof -
  let ?ms = "['' Bob@X.io'', ''bob@x.io'', '' '']"
  obtain y where y: "getGroup id 20 30 11 acme_team = (Inr y, acme_team)"
    using getGroup_ok[of id 20 30 11 acme_team] acme_team_owns by auto
  obtain r where r: "requireRole 20 11 Admin acme_team = (Inr r, acme_team)"
    using acme_team_owns by (simp add: requireRole_Inr)
  have "\<exists>x u. getGroup id 20 30 11 (audit_insert e (replace_members 30 (dedupe ?ms) acme_team)) = (Inr x, u)" for e
    by (rule getGroup_kept[OF y]) (auto intro: effectiveRole_cong simp: group_owns_def)
  moreover have "\<exists>e. setMembers id (as_user 11) 20 30 ?ms None acme_team =
      getGroup id 20 30 11 (audit_insert e (replace_members 30 (dedupe ?ms) acme_team))"
    by (simp add: setMembers_alt thenM_def bindM_def r y modifyM_def audit_log_run) blast
  ultimately obtain x t where run: "setMembers id (as_user 11) 20 30 ?ms None acme_team = (Inr x, t)"
    by metis
  have "dedupe ?ms = [''bob@x.io'']" by code_simp
  then show ?thesis using setMembers_exact[OF run] run by auto
qed

end
