(* ===== verification/JM_Ssrf.thy ===== *)
theory JM_Ssrf
  imports JM_Prelude
begin

text \<open>
  The address filter for outgoing webhook calls (\<open>apps/api/src/common/ssrf.ts\<close>).

  Parameters stand for the platform: \<open>isIP\<close> is \<open>node:net.isIP\<close> (0, 4 or 6),
  \<open>parse\<close> is the WHATWG \<open>URL\<close> constructor reduced to the protocol and the host name
  (\<open>None\<close> when it throws), \<open>lookup\<close> is \<open>dns.lookup\<close> with \<open>all: true\<close> (\<open>None\<close>
  when it rejects). \<open>isBlockedV4\<close> is only called on strings of decimal groups (those
  \<open>isIP\<close> calls 4, or matched by the regular expression of \<open>isBlockedV6\<close>), so of
  \<open>Number\<close> only the decimal case is modelled; the other strings are \<open>NaN\<close>.
\<close>

definition js_Number :: "string \<Rightarrow> nat option" where
  "js_Number s = (if list_all is_digit s then Some (digits_val s) else None)"

definition isBlockedV4 :: "string \<Rightarrow> bool" where
  "isBlockedV4 ip =
     (let p = map js_Number (split_on (CHR ''.'') ip) in
      if length p \<noteq> 4 \<or> list_ex (\<lambda>n. case n of None \<Rightarrow> True | Some v \<Rightarrow> v > 255) p then True
      else let a = the (p ! 0); b = the (p ! 1) in
        if a = 0 then True
        else if a = 10 then True
        else if a = 127 then True
        else if a = 169 \<and> b = 254 then True
        else if a = 172 \<and> b \<ge> 16 \<and> b \<le> 31 then True
        else if a = 192 \<and> b = 168 then True
        else if a = 100 \<and> b \<ge> 64 \<and> b \<le> 127 then True
        else if a \<ge> 224 then True
        else False)"

text \<open>\<open>addr.match(/^::ffff:(\d+\.\d+\.\d+\.\d+)$/)\<close>, returning the captured group.\<close>

definition mapped_v4 :: "string \<Rightarrow> string option" where
  "mapped_v4 addr =
     (let rest = drop 7 addr; parts = split_on (CHR ''.'') rest
      in if startsWith addr ''::ffff:'' \<and> length parts = 4 \<and> list_all (\<lambda>w. w \<noteq> [] \<and> list_all is_digit w) parts
         then Some rest else None)"

definition isBlockedV6 :: "string \<Rightarrow> bool" where
  "isBlockedV6 ip =
     (let addr = hd (split_on (CHR ''%'') (toLowerCase ip)) in
      if addr = ''::'' \<or> addr = ''::1'' then True
      else case mapped_v4 addr of
             Some v4 \<Rightarrow> isBlockedV4 v4
           | None \<Rightarrow>
               if startsWith addr ''fe80'' then True
               else if startsWith addr ''fc'' \<or> startsWith addr ''fd'' then True
               else False)"

definition isBlockedAddress :: "(string \<Rightarrow> nat) \<Rightarrow> string \<Rightarrow> bool" where
  "isBlockedAddress isIP ip =
     (let v = isIP ip in
      if v = 4 then isBlockedV4 ip
      else if v = 6 then isBlockedV6 ip
      else True)"

text \<open>\<open>hostname.replace(/^\[|\]$/g, "")\<close>\<close>

definition strip_brackets :: "string \<Rightarrow> string" where
  "strip_brackets h =
     (let h1 = (case h of c # cs \<Rightarrow> if c = CHR ''['' then cs else h | [] \<Rightarrow> [])
      in if h1 \<noteq> [] \<and> last h1 = CHR '']'' then butlast h1 else h1)"

text \<open>\<open>None\<close> when the URL is accepted, otherwise the message of the \<open>SsrfError\<close>.\<close>

definition assertPublicHttpUrl ::
  "(string \<Rightarrow> nat) \<Rightarrow> (string \<Rightarrow> (string \<times> string) option) \<Rightarrow> (string \<Rightarrow> string list option)
     \<Rightarrow> string \<Rightarrow> string option" where
  "assertPublicHttpUrl isIP parse lookup raw =
     (case parse raw of
        None \<Rightarrow> Some ''Invalid URL''
      | Some (protocol, hostname) \<Rightarrow>
          if protocol \<noteq> ''http:'' \<and> protocol \<noteq> ''https:'' then Some ''Only http(s) webhook URLs are allowed''
          else let host = strip_brackets hostname in
            if isIP host \<noteq> 0 then
              (if isBlockedAddress isIP host then Some ''Webhook host is not a public address'' else None)
            else (case lookup host of
                None \<Rightarrow> Some ''Webhook host does not resolve''
              | Some addrs \<Rightarrow>
                  if addrs = [] \<or> list_ex (isBlockedAddress isIP) addrs
                  then Some ''Webhook host resolves to a non-public address'' else None))"

section \<open>Dotted quads against address blocks\<close>

text \<open>The specification: the reserved blocks as prefixes of the 32-bit address.\<close>

definition quad :: "nat \<Rightarrow> nat \<Rightarrow> nat \<Rightarrow> nat \<Rightarrow> string" where
  "quad a b c d = show_nat a @ ''.'' @ show_nat b @ ''.'' @ show_nat c @ ''.'' @ show_nat d"

definition addr32 :: "nat \<Rightarrow> nat \<Rightarrow> nat \<Rightarrow> nat \<Rightarrow> nat" where
  "addr32 a b c d = a * 2 ^ 24 + b * 2 ^ 16 + c * 2 ^ 8 + d"

definition in_block :: "nat \<Rightarrow> nat \<times> nat \<Rightarrow> bool" where
  "in_block x = (\<lambda>(net, len). x div 2 ^ (32 - len) = net div 2 ^ (32 - len))"

definition reserved_blocks :: "(nat \<times> nat) list" where
  "reserved_blocks = [(addr32 0 0 0 0, 8), (addr32 10 0 0 0, 8), (addr32 127 0 0 0, 8),
     (addr32 169 254 0 0, 16), (addr32 172 16 0 0, 12), (addr32 192 168 0 0, 16),
     (addr32 100 64 0 0, 10), (addr32 224 0 0 0, 3)]"

lemma dot_not_digit: "CHR ''.'' \<notin> set (show_nat n)"
  using show_nat_all_digits[of n] by (auto simp: is_digit_def)

lemma split_quad: "split_on (CHR ''.'') (quad a b c d) = [show_nat a, show_nat b, show_nat c, show_nat d]"
  by (simp add: quad_def split_on_append[OF dot_not_digit] split_on_none[OF dot_not_digit])

lemma js_Number_show [simp]: "js_Number (show_nat n) = Some n"
  using show_nat_all_digits[of n] by (simp add: js_Number_def list_all_iff)

lemma isBlockedV4_quad:
  assumes "a < 256" "b < 256" "c < 256" "d < 256"
  shows "isBlockedV4 (quad a b c d) \<longleftrightarrow>
    a = 0 \<or> a = 10 \<or> a = 127 \<or> a = 169 \<and> b = 254 \<or> a = 172 \<and> 16 \<le> b \<and> b \<le> 31 \<or>
    a = 192 \<and> b = 168 \<or> a = 100 \<and> 64 \<le> b \<and> b \<le> 127 \<or> a \<ge> 224"
  using assms by (simp add: isBlockedV4_def split_quad Let_def)

lemma addr32_prefix:
  assumes "a < 256" "b < 256" "c < 256" "d < 256"
  shows "addr32 a b c d div 2 ^ 24 = a" "addr32 a b c d div 2 ^ 16 = a * 256 + b"
    "addr32 a b c d div 2 ^ 20 = a * 16 + b div 16" "addr32 a b c d div 2 ^ 22 = a * 4 + b div 64"
    "addr32 a b c d div 2 ^ 29 = a div 32"
  using assms by (simp_all add: addr32_def)


lemma in_reserved_blocks:
  assumes "a < 256" "b < 256" "c < 256" "d < 256"
  shows "list_ex (in_block (addr32 a b c d)) reserved_blocks \<longleftrightarrow>
    a = 0 \<or> a = 10 \<or> a = 127 \<or> a * 256 + b = 169 * 256 + 254 \<or> a * 16 + b div 16 = 172 * 16 + 1 \<or>
    a * 256 + b = 192 * 256 + 168 \<or> a * 4 + b div 64 = 100 * 4 + 1 \<or> a div 32 = 7"
proof -
  note p = addr32_prefix[OF assms]
  have "in_block (addr32 a b c d) (n, 8) \<longleftrightarrow> a = n div 2 ^ 24"
    "in_block (addr32 a b c d) (n, 16) \<longleftrightarrow> a * 256 + b = n div 2 ^ 16"
    "in_block (addr32 a b c d) (n, 12) \<longleftrightarrow> a * 16 + b div 16 = n div 2 ^ 20"
    "in_block (addr32 a b c d) (n, 10) \<longleftrightarrow> a * 4 + b div 64 = n div 2 ^ 22"
    "in_block (addr32 a b c d) (n, 3) \<longleftrightarrow> a div 32 = n div 2 ^ 29" for n
    using p by (simp_all add: in_block_def)
  then show ?thesis
    by (simp add: reserved_blocks_def) (simp add: addr32_def)
qed

lemma two_digits: "r < k \<Longrightarrow> t < k \<Longrightarrow> q * k + r = p * k + t \<longleftrightarrow> q = p \<and> r = (t::nat)"
  by (metis add.commute div_mult_self3 div_less mod_less mod_mult_self3 add.right_neutral less_zeroE)

lemma quad_blocks:
  assumes "a < 256" "b < 256" "c < 256" "d < 256"
  shows "list_ex (in_block (addr32 a b c d)) reserved_blocks \<longleftrightarrow> isBlockedV4 (quad a b c d)"
proof -
  have d: "b div 16 < 16" "b div 64 < 4" using assms(2) by linarith+
  have b: "b div 16 = 1 \<longleftrightarrow> 16 \<le> b \<and> b \<le> 31" "b div 64 = 1 \<longleftrightarrow> 64 \<le> b \<and> b \<le> 127" by linarith+
  have "a div 32 = 7 \<longleftrightarrow> a \<ge> 224" using assms(1) by linarith
  with d b assms show ?thesis
    unfolding in_reserved_blocks[OF assms] isBlockedV4_quad[OF assms] by (simp only: two_digits)
qed

text \<open>on every dotted quad the IPv4 filter of the webhook caller blocks exactly the
  addresses of 0/8, 10/8, 127/8, 169.254/16, 172.16/12, 192.168/16, 100.64/10 and 224/3,
  read as prefixes of the 32-bit address: none too few and none too many.\<close>

theorem isBlockedV4_exact:
  assumes "a < 256" "b < 256" "c < 256" "d < 256"
  shows "isBlockedV4 (quad a b c d) \<longleftrightarrow> list_ex (in_block (addr32 a b c d)) reserved_blocks"
  using quad_blocks[OF assms] by simp

theorem isBlockedV4_exact_witness:
  "isBlockedV4 (quad 172 31 255 255) \<and> \<not> isBlockedV4 (quad 172 32 0 0)"
  using isBlockedV4_exact[of 172 31 255 255] isBlockedV4_exact[of 172 32 0 0]
  by (simp add: in_reserved_blocks)

section \<open>What an accepted URL reaches\<close>

lemma isBlockedAddress_v4: "isIP ip = 4 \<Longrightarrow> isBlockedAddress isIP ip = isBlockedV4 ip"
  by (simp add: isBlockedAddress_def)

text \<open>The addresses a delivery to the URL may connect to: the literal of the host, or what the
  resolver returns for it.\<close>

definition targets ::
  "(string \<Rightarrow> nat) \<Rightarrow> (string \<Rightarrow> (string \<times> string) option) \<Rightarrow> (string \<Rightarrow> string list option)
     \<Rightarrow> string \<Rightarrow> string list" where
  "targets isIP parse lookup raw =
     (case parse raw of None \<Rightarrow> []
      | Some (_, hostname) \<Rightarrow>
          let host = strip_brackets hostname in
          if isIP host \<noteq> 0 then [host] else (case lookup host of None \<Rightarrow> [] | Some as \<Rightarrow> as))"


definition demo_isIP :: "string \<Rightarrow> nat" where
  "demo_isIP s = (if length (split_on (CHR ''.'') s) = 4 \<and>
      list_all (\<lambda>w. w \<noteq> [] \<and> list_all is_digit w \<and> digits_val w < 256) (split_on (CHR ''.'') s) then 4
    else if CHR '':'' \<in> set s then 6 else 0)"

definition demo_parse :: "string \<Rightarrow> (string \<times> string) option" where
  "demo_parse s = (if startsWith s ''https://'' then Some (''https:'', drop 8 s) else None)"

definition demo_lookup :: "string \<Rightarrow> string list option" where
  "demo_lookup s = (if s = ''hooks'' then Some [''8.8.8.8''] else None)"


text \<open>the IPv4-mapped form is recognised only with a dotted tail. The URL parser serialises
  the host \<open>[::ffff:127.0.0.1]\<close> as \<open>::ffff:7f00:1\<close>, the same address in hexadecimal,
  which the filter lets through; link-local addresses above \<open>fe80\<close> pass as well.\<close>

theorem mapped_loopback_passes:
  "isBlockedV6 ''::ffff:127.0.0.1'' \<and> \<not> isBlockedV6 ''::ffff:7f00:1'' \<and> \<not> isBlockedV6 ''fe90::1''"
  by code_simp

end
