(* ===== verification/JM_Webhooks.thy ===== *)
theory JM_Webhooks
  imports JM_Tenant JM_Ssrf
begin

text \<open>
  \<open>WebhooksService\<close> (\<open>apps/api/src/webhooks/webhooks.service.ts\<close>): registered
  endpoints, the queue of deliveries that \<open>emit\<close> fills and the worker's \<open>tick\<close> that
  works it off with a bounded number of retries.

  The record \<open>net\<close> holds what the service calls outside the repository: the platform
  functions of the address filter, the sealed box of \<open>common/secretbox.ts\<close>
  (\<open>unseal\<close> is \<open>None\<close> when it throws), the HMAC, \<open>JSON.stringify\<close> of the body and
  \<open>fetch\<close> (the status, or the message of the error it rejects with).
\<close>

record net =
  n_isIP :: "string \<Rightarrow> nat"
  n_parse :: "string \<Rightarrow> (string \<times> string) option"
  n_lookup :: "string \<Rightarrow> string list option"
  n_seal :: "string \<Rightarrow> string"
  n_unseal :: "string \<Rightarrow> string option"
  n_body :: "string \<Rightarrow> json \<Rightarrow> timestamp \<Rightarrow> string"
  n_hmac :: "string \<Rightarrow> string \<Rightarrow> string"
  n_fetch :: "string \<Rightarrow> (string \<times> string) list \<Rightarrow> string \<Rightarrow> string + int"

definition assertUrl :: "net \<Rightarrow> string \<Rightarrow> string option" where
  "assertUrl n = assertPublicHttpUrl (n_isIP n) (n_parse n) (n_lookup n)"

definition MAX_ATTEMPTS :: nat where
  "MAX_ATTEMPTS = 6"

definition BACKOFF :: "nat list" where
  "BACKOFF = [10, 60, 300, 1800, 7200, 21600]"

definition nextRetry :: "timestamp \<Rightarrow> nat \<Rightarrow> timestamp" where
  "nextRetry nw attempts =
     (let i = min attempts (length BACKOFF - 1);
          delay = (if i < length BACKOFF then BACKOFF ! i else 3600)
      in nw + int delay * 1000)"

section \<open>Endpoints\<close>

record endpoint_dto =
  ed_id :: uuid
  ed_url :: string
  ed_events :: "string list"
  ed_active :: bool
  ed_last_delivered_at :: "timestamp option"
  ed_last_status :: "int option"
  ed_failure_count :: int
  ed_created_at :: timestamp

definition toEndpoint :: "endpoint_row \<Rightarrow> endpoint_dto" where
  "toEndpoint r = \<lparr>ed_id = e_id r, ed_url = e_url r, ed_events = e_events r, ed_active = e_active r,
     ed_last_delivered_at = e_last_delivered_at r, ed_last_status = e_last_status r,
     ed_failure_count = e_failure_count r, ed_created_at = e_created_at r\<rparr>"

definition listWebhooks :: "uuid \<Rightarrow> uuid \<Rightarrow> ('z db_scheme, endpoint_dto list) svc" where
  "listWebhooks orgId userId =
     thenM (requireRole orgId userId Admin)
     (getsM (\<lambda>s. map toEndpoint (sort_key (\<lambda>e. - e_created_at e)
        (filter (\<lambda>e. e_org_id e = orgId) (webhook_endpoints s)))))"

record create_webhook_request =
  cw_url :: string
  cw_events :: "string list"

definition insert_endpoint ::
  "uuid \<Rightarrow> string \<Rightarrow> string list \<Rightarrow> string \<Rightarrow> uuid \<Rightarrow> ('z db_scheme, endpoint_row) svc" where
  "insert_endpoint orgId url events enc userId =
     thenM (fk_user userId)
     (\<lambda>s. let r = \<lparr>e_id = next_id s, e_org_id = orgId, e_url = url, e_events = events, e_secret_enc = enc,
                 e_active = True, e_last_delivered_at = None, e_last_status = None, e_failure_count = 0,
                 e_created_by = Some userId, e_created_at = now s\<rparr>
          in (Inr r, s\<lparr>webhook_endpoints := webhook_endpoints s @ [r], next_id := next_id s + 1\<rparr>))"

definition createWebhook ::
  "net \<Rightarrow> string \<Rightarrow> principal \<Rightarrow> uuid \<Rightarrow> create_webhook_request \<Rightarrow> string option
     \<Rightarrow> ('z db_scheme, endpoint_dto \<times> string) svc" where
  "createWebhook n rnd p orgId req ip =
     thenM (requireRole orgId (p_user_id p) Admin)
     (thenM (case assertUrl n (cw_url req) of
               Some msg \<Rightarrow> throwM (BadRequestException msg None)
             | None \<Rightarrow> returnM ())
     (let secret = ''whsec_'' @ rnd; enc = n_seal n secret in
      bindM (insert_endpoint orgId (cw_url req) (cw_events req) enc (p_user_id p)) (\<lambda>r.
      thenM (audit_log (user_entry (Some orgId) p ''webhook.create'' ''webhook'' (e_id r) ip
               [(''url'', JStr (cw_url req)), (''events'', JArr (map JStr (cw_events req)))]))
     (returnM (toEndpoint r, secret)))))"

definition removeWebhook :: "principal \<Rightarrow> uuid \<Rightarrow> uuid \<Rightarrow> string option \<Rightarrow> ('z db_scheme, unit) svc" where
  "removeWebhook p orgId i ip =
     thenM (requireRole orgId (p_user_id p) Admin)
     (bindM (getsM (\<lambda>s. \<exists>e \<in> set (webhook_endpoints s). e_id e = i \<and> e_org_id e = orgId)) (\<lambda>hit.
      thenM (modifyM (delete_endpoints (\<lambda>e. e_id e = i \<and> e_org_id e = orgId)))
     (thenM (throwIf (\<not> hit) (NotFoundException ''Webhook not found'' None))
     (audit_log (user_entry (Some orgId) p ''webhook.delete'' ''webhook'' i ip [])))))"

record delivery_dto =
  dd_id :: uuid
  dd_event :: string
  dd_status :: "int option"
  dd_attempts :: nat
  dd_next_attempt_at :: "timestamp option"
  dd_delivered_at :: "timestamp option"
  dd_last_error :: "string option"
  dd_created_at :: timestamp

text \<open>\<open>webhook_deliveries d JOIN webhook_endpoints e ON e.id = d.endpoint_id\<close>\<close>

definition delivery_join :: "'z db_scheme \<Rightarrow> (delivery_row \<times> endpoint_row) list" where
  "delivery_join s = [(d, e). d \<leftarrow> webhook_deliveries s, e \<leftarrow> webhook_endpoints s, e_id e = w_endpoint_id d]"

definition recentDeliveries :: "uuid \<Rightarrow> uuid \<Rightarrow> uuid \<Rightarrow> nat \<Rightarrow> ('z db_scheme, delivery_dto list) svc" where
  "recentDeliveries orgId userId endpointId limit =
     thenM (requireRole orgId userId Admin)
     (getsM (\<lambda>s. map (\<lambda>(r, e). \<lparr>dd_id = w_id r, dd_event = w_event r, dd_status = w_status r,
            dd_attempts = w_attempts r, dd_next_attempt_at = w_next_attempt_at r,
            dd_delivered_at = w_delivered_at r, dd_last_error = w_last_error r,
            dd_created_at = w_created_at r\<rparr>)
        (take (min limit 200) (sort_key (\<lambda>(r, e). - w_created_at r)
           (filter (\<lambda>(r, e). w_endpoint_id r = endpointId \<and> e_org_id e = orgId) (delivery_join s))))))"

section \<open>The queue\<close>

definition subscribers :: "uuid \<Rightarrow> string \<Rightarrow> 'z db_scheme \<Rightarrow> uuid list" where
  "subscribers orgId event s =
     map e_id (filter (\<lambda>e. e_org_id e = orgId \<and> e_active e \<and> event \<in> set (e_events e)) (webhook_endpoints s))"

definition new_delivery :: "string \<Rightarrow> json \<Rightarrow> timestamp \<Rightarrow> uuid \<Rightarrow> uuid \<Rightarrow> delivery_row" where
  "new_delivery event payload nw i ep =
     \<lparr>w_id = i, w_endpoint_id = ep, w_event = event, w_payload = payload, w_status = None,
      w_attempts = 0, w_next_attempt_at = Some nw, w_delivered_at = None, w_last_error = None,
      w_created_at = nw\<rparr>"

text \<open>The multi-row \<open>INSERT\<close>: one identifier per row.\<close>

definition enqueue :: "string \<Rightarrow> json \<Rightarrow> uuid list \<Rightarrow> 'z db_scheme \<Rightarrow> 'z db_scheme" where
  "enqueue event payload eps s =
     s\<lparr>webhook_deliveries := webhook_deliveries s @
         map (\<lambda>(i, ep). new_delivery event payload (now s) i ep)
           (zip [next_id s ..< next_id s + length eps] eps),
       next_id := next_id s + length eps\<rparr>"

definition emit :: "uuid \<Rightarrow> string \<Rightarrow> json \<Rightarrow> ('z db_scheme, unit) svc" where
  "emit orgId event payload =
     bindM (getsM (subscribers orgId event)) (\<lambda>rows.
     if rows = [] then returnM () else modifyM (enqueue event payload rows))"

definition due :: "'z db_scheme \<Rightarrow> (delivery_row \<times> endpoint_row) list" where
  "due s = take 50 (sort_key (\<lambda>(d, e). the (w_next_attempt_at d))
     (filter (\<lambda>(d, e). w_delivered_at d = None \<and> (case w_next_attempt_at d of None \<Rightarrow> False | Some t \<Rightarrow> t \<le> now s))
        (delivery_join s)))"

definition mark_delivered :: "uuid \<Rightarrow> uuid \<Rightarrow> int option \<Rightarrow> nat \<Rightarrow> 'z db_scheme \<Rightarrow> 'z db_scheme" where
  "mark_delivered i ep status attempts s =
     s\<lparr>webhook_deliveries := map (\<lambda>w. if w_id w = i
         then w\<lparr>w_status := status, w_attempts := attempts, w_delivered_at := Some (now s),
                w_next_attempt_at := None, w_last_error := None\<rparr> else w) (webhook_deliveries s),
       webhook_endpoints := map (\<lambda>e. if e_id e = ep
         then e\<lparr>e_last_delivered_at := Some (now s), e_last_status := status, e_failure_count := 0\<rparr>
         else e) (webhook_endpoints s)\<rparr>"

definition mark_failed ::
  "uuid \<Rightarrow> uuid \<Rightarrow> int option \<Rightarrow> nat \<Rightarrow> timestamp option \<Rightarrow> string \<Rightarrow> 'z db_scheme \<Rightarrow> 'z db_scheme" where
  "mark_failed i ep status attempts nxt err s =
     s\<lparr>webhook_deliveries := map (\<lambda>w. if w_id w = i
         then w\<lparr>w_status := status, w_attempts := attempts, w_next_attempt_at := nxt,
                w_last_error := Some err\<rparr> else w) (webhook_deliveries s),
       webhook_endpoints := map (\<lambda>e. if e_id e = ep
         then e\<lparr>e_last_status := status, e_failure_count := e_failure_count e + 1\<rparr> else e)
         (webhook_endpoints s)\<rparr>"

text \<open>The \<open>try\<close> block: the filter, then the signed request; status and error message.\<close>

definition attempt :: "net \<Rightarrow> string \<Rightarrow> string \<Rightarrow> string \<Rightarrow> string \<Rightarrow> int option \<times> string option" where
  "attempt n url event sig bodyStr =
     (case assertUrl n url of
        Some msg \<Rightarrow> (None, Some (take 500 msg))
      | None \<Rightarrow>
         (case n_fetch n url [(''content-type'', ''application/json''), (''x-justmail-event'', event),
                              (''x-justmail-signature'', ''sha256='' @ sig)] bodyStr of
            Inl msg \<Rightarrow> (None, Some (take 500 msg))
          | Inr status \<Rightarrow> (Some status, None)))"

definition success :: "int option \<Rightarrow> bool" where
  "success status = (case status of None \<Rightarrow> False | Some st \<Rightarrow> st \<ge> 200 \<and> st < 300)"

text \<open>One round of the loop; the result says whether it counts as delivered.\<close>

definition deliver :: "net \<Rightarrow> delivery_row \<Rightarrow> endpoint_row \<Rightarrow> ('z db_scheme, bool) svc" where
  "deliver n r e =
     bindM (someM (n_unseal n (e_secret_enc e)) (HttpException 500 ''Error'' None)) (\<lambda>secret.
     bindM (getsM now) (\<lambda>nw.
     let bodyStr = n_body n (w_event r) (w_payload r) nw;
         sig = n_hmac n secret bodyStr;
         (status, errMsg) = attempt n (e_url e) (w_event r) sig bodyStr;
         attempts = w_attempts r + 1
     in if success status then
          thenM (tx (modifyM (mark_delivered (w_id r) (w_endpoint_id r) status attempts)))
          (returnM True)
        else
          let nxt = (if attempts \<ge> MAX_ATTEMPTS then None else Some (nextRetry nw attempts));
              err = (case errMsg of Some m \<Rightarrow> m
                     | None \<Rightarrow> ''HTTP '' @ (case status of None \<Rightarrow> ''null'' | Some st \<Rightarrow> show_int st))
          in thenM (tx (modifyM (mark_failed (w_id r) (w_endpoint_id r) status attempts nxt err)))
             (returnM False)))"

fun tick_loop ::
  "net \<Rightarrow> (delivery_row \<times> endpoint_row) list \<Rightarrow> nat \<Rightarrow> nat \<Rightarrow> ('z db_scheme, nat \<times> nat) svc" where
  "tick_loop n [] delivered failed = returnM (delivered, failed)"
| "tick_loop n ((r, e) # rows) delivered failed =
     bindM (deliver n r e) (\<lambda>ok.
       if ok then tick_loop n rows (delivered + 1) failed else tick_loop n rows delivered (failed + 1))"

definition tick :: "net \<Rightarrow> ('z db_scheme, nat \<times> nat) svc" where
  "tick n = bindM (getsM due) (\<lambda>rows. tick_loop n rows 0 0)"

section \<open>What one round does\<close>

text \<open>The delivery after one attempt, as a function of the row and its endpoint alone.\<close>

definition outcome :: "net \<Rightarrow> timestamp \<Rightarrow> delivery_row \<Rightarrow> endpoint_row \<Rightarrow> int option \<times> string option" where
  "outcome n nw r e =
     (let bodyStr = n_body n (w_event r) (w_payload r) nw
      in attempt n (e_url e) (w_event r) (n_hmac n (the (n_unseal n (e_secret_enc e))) bodyStr) bodyStr)"

definition settled :: "net \<Rightarrow> timestamp \<Rightarrow> delivery_row \<Rightarrow> endpoint_row \<Rightarrow> delivery_row" where
  "settled n nw r e =
     (let (status, errMsg) = outcome n nw r e in
      if success status
      then r\<lparr>w_status := status, w_attempts := w_attempts r + 1, w_delivered_at := Some nw,
             w_next_attempt_at := None, w_last_error := None\<rparr>
      else r\<lparr>w_status := status, w_attempts := w_attempts r + 1,
             w_next_attempt_at := (if w_attempts r + 1 \<ge> MAX_ATTEMPTS then None
                                   else Some (nextRetry nw (w_attempts r + 1))),
             w_last_error := Some (case errMsg of Some m \<Rightarrow> m
               | None \<Rightarrow> ''HTTP '' @ (case status of None \<Rightarrow> ''null'' | Some st \<Rightarrow> show_int st))\<rparr>)"

lemma settled_id [simp]: "w_id (settled n nw r e) = w_id r" "w_endpoint_id (settled n nw r e) = w_endpoint_id r"
  by (simp_all add: settled_def split: prod.splits)

lemma same_id_eq: "distinct (map w_id ws) \<Longrightarrow> r \<in> set ws \<Longrightarrow> w \<in> set ws \<Longrightarrow> w_id w = w_id r \<Longrightarrow> w = r"
  by (auto simp: distinct_map dest: inj_onD)

lemma deliver_unreadable:
  "n_unseal n (e_secret_enc e) = None \<Longrightarrow> deliver n r e s = (Inl (HttpException 500 ''Error'' None), s)"
  by (simp add: deliver_def bindM_def someM_def throwM_def)

lemma deliver_run:
  assumes "distinct (map w_id (webhook_deliveries s))" "r \<in> set (webhook_deliveries s)"
    "n_unseal n (e_secret_enc e) \<noteq> None"
  shows "\<exists>t. deliver n r e s = (Inr (success (fst (outcome n (now s) r e))), t) \<and>
    webhook_deliveries t = map (\<lambda>w. if w_id w = w_id r then settled n (now s) r e else w) (webhook_deliveries s) \<and>
    now t = now s"
proof -
  obtain secret where u: "n_unseal n (e_secret_enc e) = Some secret" using assms(3) by auto
  obtain status msg where o: "outcome n (now s) r e = (status, msg)" by fastforce
  have a: "attempt n (e_url e) (w_event r) (n_hmac n secret (n_body n (w_event r) (w_payload r) (now s)))
      (n_body n (w_event r) (w_payload r) (now s)) = (status, msg)"
    using o u by (simp add: outcome_def Let_def)
  show ?thesis
  proof (cases "success status")
    case True
    then have d: "deliver n r e s = (Inr True, mark_delivered (w_id r) (w_endpoint_id r) status (w_attempts r + 1) s)"
      using u a by (simp add: deliver_def svc_simps tx_def Let_def)
    show ?thesis
      using True o same_id_eq[OF assms(1,2)] by (auto simp: d mark_delivered_def settled_def)
  next
    case False
    then have d: "deliver n r e s = (Inr False, mark_failed (w_id r) (w_endpoint_id r) status (w_attempts r + 1)
        (if w_attempts r + 1 \<ge> MAX_ATTEMPTS then None else Some (nextRetry (now s) (w_attempts r + 1)))
        (case msg of Some m \<Rightarrow> m | None \<Rightarrow> ''HTTP '' @ (case status of None \<Rightarrow> ''null'' | Some st \<Rightarrow> show_int st)) s)"
      using u a by (simp add: deliver_def svc_simps tx_def Let_def)
    show ?thesis
      using False o same_id_eq[OF assms(1,2)] by (auto simp: d mark_failed_def settled_def)
  qed
qed

section \<open>What a tick does\<close>

text \<open>The rows a loop has gone through, applied to a table.\<close>

definition settle_rows ::
  "net \<Rightarrow> timestamp \<Rightarrow> (delivery_row \<times> endpoint_row) list \<Rightarrow> delivery_row \<Rightarrow> delivery_row" where
  "settle_rows n nw rows w =
     (case find (\<lambda>(r, e). w_id r = w_id w) rows of None \<Rightarrow> w | Some (r, e) \<Rightarrow> settled n nw r e)"

lemma settle_rows_id [simp]: "w_id (settle_rows n nw rows w) = w_id w"
  by (auto simp: settle_rows_def split: option.splits dest: find_SomeD)

lemma settle_rows_Nil [simp]: "settle_rows n nw [] w = w"
  by (simp add: settle_rows_def)

lemma settle_rows_Cons:
  assumes "\<forall>(r', e') \<in> set rows. w_id r' \<noteq> w_id r"
  shows "settle_rows n nw ((r, e) # rows) w =
    settle_rows n nw rows (if w_id w = w_id r then settled n nw r e else w)"
  using assms by (auto simp: settle_rows_def find_None_iff_all split: option.splits dest!: find_SomeD)

lemma tick_loop_run:
  assumes "distinct (map w_id (webhook_deliveries s))" "distinct (map (\<lambda>(r, e). w_id r) rows)"
    "\<forall>(r, e) \<in> set rows. r \<in> set (webhook_deliveries s) \<and> n_unseal n (e_secret_enc e) \<noteq> None"
  shows "\<exists>t. tick_loop n rows a b s =
      (Inr (a + length (filter (\<lambda>(r, e). success (fst (outcome n (now s) r e))) rows),
            b + length (filter (\<lambda>(r, e). \<not> success (fst (outcome n (now s) r e))) rows)), t) \<and>
    webhook_deliveries t = map (settle_rows n (now s) rows) (webhook_deliveries s) \<and> now t = now s"
  using assms
proof (induction rows arbitrary: s a b)
  case Nil
  then show ?case by (simp add: returnM_def settle_rows_def)
next
  case (Cons x rows)
  obtain r e where x: "x = (r, e)" by fastforce
  have r: "r \<in> set (webhook_deliveries s)" "n_unseal n (e_secret_enc e) \<noteq> None"
    and fresh: "\<forall>(r', e') \<in> set rows. w_id r' \<noteq> w_id r"
    using Cons.prems x by (auto split: prod.splits) (metis (mono_tags, lifting) image_eqI split_conv)
  from deliver_run[OF Cons.prems(1) r] obtain t where
    t: "deliver n r e s = (Inr (success (fst (outcome n (now s) r e))), t)"
       "webhook_deliveries t = map (\<lambda>w. if w_id w = w_id r then settled n (now s) r e else w) (webhook_deliveries s)"
       "now t = now s" by blast
  have ids: "map w_id (webhook_deliveries t) = map w_id (webhook_deliveries s)"
    by (simp add: t(2))
  have kept: "\<forall>(r', e') \<in> set rows. r' \<in> set (webhook_deliveries t) \<and> n_unseal n (e_secret_enc e') \<noteq> None"
    using Cons.prems(3) fresh unfolding t(2) by fastforce
  have tab: "map (settle_rows n (now s) rows) (webhook_deliveries t) = map (settle_rows n (now s) (x # rows)) (webhook_deliveries s)"
    by (simp add: t(2) x settle_rows_Cons[OF fresh])
  have d: "distinct (map (\<lambda>(r, e). w_id r) rows)" "distinct (map w_id (webhook_deliveries t))"
    using Cons.prems(1,2) by (simp_all add: ids)
  show ?case
    using Cons.IH[OF d(2,1) kept, of "a + 1" b] Cons.IH[OF d(2,1) kept, of a "b + 1"]
    by (auto simp: x t(1,3) bindM_def tab[unfolded x])
qed

subsection \<open>The due rows\<close>

lemma distinct_join:
  assumes "distinct (map w_id ws)" "distinct (map e_id es)"
  shows "distinct (map (\<lambda>(r, e). w_id r) [(d, e). d \<leftarrow> ws, e \<leftarrow> es, e_id e = w_endpoint_id d])"
  using assms(1)
proof (induction ws)
  case Nil
  then show ?case by simp
next
  case (Cons w ws)
  have one: "length (filter (\<lambda>e. e_id e = k) es) \<le> 1" for k
    using assms(2) by (induction es) (auto simp: filter_empty_conv rev_image_eqI)
  have inner: "concat (map (\<lambda>e. if e_id e = k then [(w, e)] else []) es) = map (Pair w) (filter (\<lambda>e. e_id e = k) es)" for k
    by (induction es) auto
  have "distinct (map (\<lambda>(r, e). w_id r) (map (Pair w) (filter (\<lambda>e. e_id e = w_endpoint_id w) es)))"
    using one[of "w_endpoint_id w"] by (cases "filter (\<lambda>e. e_id e = w_endpoint_id w) es") auto
  with Cons show ?case by (auto simp: inner)
qed

lemma set_due:
  "(r, e) \<in> set (due s) \<Longrightarrow> r \<in> set (webhook_deliveries s) \<and> e \<in> set (webhook_endpoints s) \<and>
     e_id e = w_endpoint_id r \<and> w_delivered_at r = None \<and> (\<exists>t. w_next_attempt_at r = Some t \<and> t \<le> now s)"
  by (auto simp: due_def delivery_join_def split: option.splits dest!: in_set_takeD)

lemma distinct_map_take_sort:
  assumes "distinct (map f xs)"
  shows "distinct (map f (take k (sort_key g (filter P xs))))"
proof -
  have "distinct (map f (sort_key g (filter P xs)))"
    using assms by (auto simp: distinct_map intro: inj_on_subset)
  then show ?thesis by (simp flip: take_map)
qed

lemma distinct_due: "ids_wf s \<Longrightarrow> distinct (map (\<lambda>(r, e). w_id r) (due s))"
  unfolding due_def by (rule distinct_map_take_sort)
    (simp add: delivery_join_def distinct_join ids_wf_def ids_below_def)

lemma ids_wf_deliveries: "ids_wf s \<Longrightarrow> distinct (map w_id (webhook_deliveries s))"
  by (simp add: ids_wf_def ids_below_def)

text \<open>\<open>tick\<close> as a function of the table: every due row is settled, every other row kept.\<close>

lemma tick_run:
  assumes "ids_wf s" "\<forall>e \<in> set (webhook_endpoints s). n_unseal n (e_secret_enc e) \<noteq> None"
  shows "\<exists>t. tick n s =
      (Inr (length (filter (\<lambda>(r, e). success (fst (outcome n (now s) r e))) (due s)),
            length (filter (\<lambda>(r, e). \<not> success (fst (outcome n (now s) r e))) (due s))), t) \<and>
    webhook_deliveries t = map (settle_rows n (now s) (due s)) (webhook_deliveries s) \<and> now t = now s"
proof -
  have "\<forall>(r, e) \<in> set (due s). r \<in> set (webhook_deliveries s) \<and> n_unseal n (e_secret_enc e) \<noteq> None"
    using assms(2) set_due by fast
  from tick_loop_run[OF ids_wf_deliveries[OF assms(1)] distinct_due[OF assms(1)] this, of 0 0]
  show ?thesis by (simp add: tick_def bindM_getsM)
qed

lemma settle_rows_due:
  assumes "ids_wf s" "w \<in> set (webhook_deliveries s)"
  shows "settle_rows n nw (due s) w =
    (case find (\<lambda>(r, e). r = w) (due s) of None \<Rightarrow> w | Some (r, e) \<Rightarrow> settled n nw w e)"
proof -
  have "find (\<lambda>(r, e). w_id r = w_id w) (due s) = find (\<lambda>(r, e). r = w) (due s)"
    using same_id_eq[OF ids_wf_deliveries[OF assms(1)] assms(2)] set_due
    by (intro find_cong) fastforce+
  then show ?thesis
    by (auto simp: settle_rows_def split: option.splits dest: find_SomeD)
qed

subsection \<open>The life of a delivery\<close>

text \<open>
  Attempts never exceed the maximum; a delivery waits for its next attempt exactly while
  it is neither delivered nor used up; delivered means that a 2xx status was seen.
\<close>

definition delivery_ok :: "delivery_row \<Rightarrow> bool" where
  "delivery_ok w \<longleftrightarrow>
     w_attempts w \<le> MAX_ATTEMPTS \<and>
     (w_next_attempt_at w = None \<longleftrightarrow> w_delivered_at w \<noteq> None \<or> w_attempts w = MAX_ATTEMPTS) \<and>
     (w_delivered_at w \<noteq> None \<longrightarrow> success (w_status w) \<and> w_attempts w > 0)"

definition queue_inv :: "'z db_scheme \<Rightarrow> bool" where
  "queue_inv s \<longleftrightarrow> (\<forall>w \<in> set (webhook_deliveries s). delivery_ok w)"

text \<open>Attempts a delivery may still use.\<close>

definition budget :: "delivery_row \<Rightarrow> nat" where
  "budget w = (if w_delivered_at w \<noteq> None then 0 else MAX_ATTEMPTS - w_attempts w)"

lemma settled_ok:
  assumes "delivery_ok w" "w_next_attempt_at w \<noteq> None"
  shows "delivery_ok (settled n nw w e)" "budget (settled n nw w e) + 1 \<le> budget w"
  using assms by (auto simp: settled_def delivery_ok_def budget_def split: prod.splits)

lemma settle_rows_ok:
  assumes "ids_wf s" "w \<in> set (webhook_deliveries s)" "delivery_ok w"
  shows "delivery_ok (settle_rows n nw (due s) w)"
    "budget (settle_rows n nw (due s) w) + (if \<exists>e. (w, e) \<in> set (due s) then 1 else 0) \<le> budget w"
proof -
  consider (keep) "find (\<lambda>(r, e). r = w) (due s) = None" "\<nexists>e. (w, e) \<in> set (due s)"
    | (hit) e where "find (\<lambda>(r, e). r = w) (due s) = Some (w, e)" "(w, e) \<in> set (due s)"
    by (cases "find (\<lambda>(r, e). r = w) (due s)") (auto simp: find_None_iff_all dest!: find_SomeD)
  then have "delivery_ok (settle_rows n nw (due s) w) \<and>
    budget (settle_rows n nw (due s) w) + (if \<exists>e. (w, e) \<in> set (due s) then 1 else 0) \<le> budget w"
  proof cases
    case keep
    with assms show ?thesis by (simp add: settle_rows_due)
  next
    case hit
    then have "w_next_attempt_at w \<noteq> None" using set_due by fastforce
    with hit settled_ok[OF assms(3)] show ?thesis
      by (auto simp: settle_rows_due[OF assms(1,2)])
  qed
  then show "delivery_ok (settle_rows n nw (due s) w)"
    "budget (settle_rows n nw (due s) w) + (if \<exists>e. (w, e) \<in> set (due s) then 1 else 0) \<le> budget w"
    by simp_all
qed

lemma due_count:
  assumes "ids_wf s"
  shows "length (due s) = length (filter (\<lambda>w. \<exists>e. (w, e) \<in> set (due s)) (webhook_deliveries s))"
proof -
  let ?hit = "filter (\<lambda>w. \<exists>e. (w, e) \<in> set (due s)) (webhook_deliveries s)"
  have a: "distinct (map fst (due s))"
    using distinct_due[OF assms] by (auto simp: distinct_map inj_on_def split_beta)
  have b: "set (map fst (due s)) = set (filter (\<lambda>w. \<exists>e. (w, e) \<in> set (due s)) (webhook_deliveries s))"
    using set_due by force
  have c: "distinct ?hit"
    using ids_wf_deliveries[OF assms] by (simp add: distinct_map)
  have "length (map fst (due s)) = length ?hit"
    unfolding distinct_card[OF a, symmetric] distinct_card[OF c, symmetric] b by (rule refl)
  then show ?thesis by simp
qed

lemma budget_sum:
  assumes "\<forall>w \<in> set ws. budget (f w) + (if P w then 1 else 0) \<le> budget w"
  shows "sum_list (map (budget \<circ> f) ws) + length (filter P ws) \<le> sum_list (map budget ws)"
  using assms by (induction ws) (auto split: if_splits)

subsection \<open>Every operation keeps the queue in order\<close>

definition webhooks_inv :: "'z db_scheme \<Rightarrow> bool" where
  "webhooks_inv s \<longleftrightarrow> ids_wf s \<and> queue_inv s"

lemma webhooks_inv_audit [simp]: "webhooks_inv s \<Longrightarrow> webhooks_inv (audit_insert e s)"
  by (simp add: webhooks_inv_def queue_inv_def)

lemma ids_wf_deliver: "ids_wf s \<Longrightarrow> ids_wf (snd (deliver n r e s))"
proof -
  assume "ids_wf s"
  then have "ids_wf (mark_delivered i ep st a s)" "ids_wf (mark_failed i ep st a nx er s)" for i ep st a nx er
    by (simp_all add: mark_delivered_def mark_failed_def ids_wf_def comp_def if_distrib cong: if_cong)
  with \<open>ids_wf s\<close> show ?thesis
    by (simp add: deliver_def svc_simps tx_def Let_def split: option.splits prod.splits)
qed

lemma deliver_keeps:
  assumes "webhooks_inv s" "r \<in> set (webhook_deliveries s)" "w_next_attempt_at r \<noteq> None"
  shows "webhooks_inv (snd (deliver n r e s))"
proof (cases "n_unseal n (e_secret_enc e) = None")
  case True
  with assms show ?thesis by (simp add: deliver_unreadable)
next
  case False
  have i: "ids_wf s" "queue_inv s" using assms(1) by (simp_all add: webhooks_inv_def)
  from deliver_run[OF ids_wf_deliveries[OF i(1)] assms(2) False] obtain t where
    t: "snd (deliver n r e s) = t"
       "webhook_deliveries t = map (\<lambda>w. if w_id w = w_id r then settled n (now s) r e else w) (webhook_deliveries s)"
    by (metis snd_conv)
  have "delivery_ok r" using i(2) assms(2) by (simp add: queue_inv_def)
  with settled_ok(1)[OF this assms(3)] i(2) have "queue_inv t"
    by (auto simp: queue_inv_def t(2))
  with ids_wf_deliver[OF i(1), of n r e] t(1) show ?thesis by (simp add: webhooks_inv_def)
qed

lemma deliver_other_rows:
  assumes "w \<in> set (webhook_deliveries s)" "w_id w \<noteq> w_id r"
  shows "w \<in> set (webhook_deliveries (snd (deliver n r e s)))"
  using assms by (force simp: deliver_def svc_simps tx_def Let_def mark_delivered_def mark_failed_def
      split: option.splits prod.splits)

lemma tick_loop_keeps:
  assumes "webhooks_inv s" "distinct (map (\<lambda>(r, e). w_id r) rows)"
    "\<forall>(r, e) \<in> set rows. r \<in> set (webhook_deliveries s) \<and> w_next_attempt_at r \<noteq> None"
  shows "webhooks_inv (snd (tick_loop n rows a b s))"
  using assms
proof (induction rows arbitrary: s a b)
  case Nil
  then show ?case by (simp add: returnM_def)
next
  case (Cons x rows)
  obtain r e where x: "x = (r, e)" by fastforce
  obtain res t where d: "deliver n r e s = (res, t)" by fastforce
  have k: "webhooks_inv t"
    using deliver_keeps[of s r n e] Cons.prems d x by simp
  have "\<forall>(r', e') \<in> set rows. r' \<in> set (webhook_deliveries t) \<and> w_next_attempt_at r' \<noteq> None"
  proof clarify
    fix r' e' assume m: "(r', e') \<in> set rows"
    then have "w_id r' \<noteq> w_id r" using Cons.prems(2) x by force
    with m Cons.prems(3) d deliver_other_rows[of r' s r n e]
    show "r' \<in> set (webhook_deliveries t) \<and> w_next_attempt_at r' \<noteq> None" by fastforce
  qed
  with Cons.IH[OF k] Cons.prems(2) k d x show ?case
    by (cases res) (simp_all add: bindM_def)
qed

lemma tick_keeps: "webhooks_inv s \<Longrightarrow> webhooks_inv (snd (tick n s))"
  using set_due distinct_due by (fastforce simp: tick_def bindM_getsM webhooks_inv_def[of s] intro!: tick_loop_keeps)

lemma enqueue_keeps: "webhooks_inv s \<Longrightarrow> webhooks_inv (enqueue event payload eps s)"
proof -
  assume i: "webhooks_inv s"
  have ids: "map w_id (map (\<lambda>(i, ep). new_delivery event payload (now s) i ep) (zip [k ..< k + length eps] eps)) = [k ..< k + length eps]" for k
    by (rule nth_equalityI) (simp_all add: new_delivery_def)
  have "ids_below (next_id s + length eps) (map w_id (webhook_deliveries (enqueue event payload eps s)))"
    using i unfolding enqueue_def webhooks_inv_def ids_wf_def ids_below_def
    by (simp add: ids[unfolded map_map comp_def] comp_def) force
  with i show ?thesis
    by (auto simp: webhooks_inv_def queue_inv_def ids_wf_def ids_below_def enqueue_def new_delivery_def
         delivery_ok_def MAX_ATTEMPTS_def comp_def dest!: set_zip_rightD)
qed

lemma emit_keeps: "webhooks_inv s \<Longrightarrow> webhooks_inv (snd (emit orgId event payload s))"
  by (simp add: emit_def bindM_getsM returnM_def modifyM_def enqueue_keeps)

lemma insert_endpoint_keeps: "webhooks_inv s \<Longrightarrow> webhooks_inv (snd (insert_endpoint orgId url events enc u s))"
  by (auto simp: insert_endpoint_def svc_simps fk_user_def webhooks_inv_def queue_inv_def ids_wf_def
        ids_below_def Let_def less_Suc_eq)

lemma createWebhook_keeps: "webhooks_inv s \<Longrightarrow> webhooks_inv (snd (createWebhook n rnd p orgId req ip s))"
proof -
  assume i: "webhooks_inv s"
  have ins: "webhooks_inv (snd (bindM (insert_endpoint orgId url events enc u)
      (\<lambda>r. thenM (audit_log (E r)) (returnM (toEndpoint r, sec))) s))" for url events enc u E sec
    using insert_endpoint_keeps[OF i, of orgId url events enc u]
    by (auto simp: bindM_def thenM_audit returnM_def split: prod.splits sum.splits)
  have url: "readonly (case assertUrl n (cw_url req) of Some msg \<Rightarrow> throwM (BadRequestException msg None) | None \<Rightarrow> returnM ())"
    by (cases "assertUrl n (cw_url req)") (simp_all add: readonly_basic)
  show ?thesis unfolding createWebhook_def Let_def
    by (rule snd_thenM_ro[where I = webhooks_inv, OF readonly_requireRole i],
        rule snd_thenM_ro[where I = webhooks_inv, OF url i], rule ins)
qed

lemma delete_endpoints_keeps: "webhooks_inv s \<Longrightarrow> webhooks_inv (delete_endpoints P s)"
  by (auto simp: webhooks_inv_def queue_inv_def delete_endpoints_def ids_wf_def intro: ids_below_filter)

lemma removeWebhook_keeps: "webhooks_inv s \<Longrightarrow> webhooks_inv (snd (removeWebhook p orgId i ip s))"
proof -
  assume inv: "webhooks_inv s"
  show ?thesis unfolding removeWebhook_def
    by (rule snd_thenM_ro[where I = webhooks_inv, OF readonly_requireRole inv])
       (simp add: svc_simps audit_log_run delete_endpoints_keeps[OF inv])
qed

subsection \<open>Runs of the service\<close>

inductive webhook_step :: "'z db_scheme \<Rightarrow> 'z db_scheme \<Rightarrow> bool" where
  step_create: "webhook_step s (snd (createWebhook n rnd p orgId req ip s))"
| step_remove: "webhook_step s (snd (removeWebhook p orgId i ip s))"
| step_emit: "webhook_step s (snd (emit orgId event payload s))"
| step_tick: "webhook_step s (snd (tick n s))"
| step_clock: "now s \<le> t \<Longrightarrow> webhook_step s (s\<lparr>now := t\<rparr>)"

inductive_cases webhook_stepE: "webhook_step s t"

lemma webhook_step_keeps: "webhook_step s t \<Longrightarrow> webhooks_inv s \<Longrightarrow> webhooks_inv t"
proof (induction rule: webhook_step.induct)
  case (step_clock s t)
  then show ?case by (simp add: webhooks_inv_def queue_inv_def ids_wf_def)
qed (simp_all only: createWebhook_keeps removeWebhook_keeps emit_keeps tick_keeps)

section \<open>Properties\<close>

text \<open>A queue with one endpoint and two deliveries, one of them due for the last time.\<close>

definition hook_net :: net where
  "hook_net = \<lparr>n_isIP = demo_isIP, n_parse = demo_parse, n_lookup = demo_lookup,
     n_seal = (\<lambda>x. x), n_unseal = Some, n_body = (\<lambda>ev _ _. ev), n_hmac = (\<lambda>k b. k @ b),
     n_fetch = (\<lambda>url hs b. if b = ''ping'' then Inr 204 else Inr 503)\<rparr>"

definition hook_row :: "uuid \<Rightarrow> string \<Rightarrow> nat \<Rightarrow> delivery_row" where
  "hook_row i ev k = (new_delivery ev JNull 0 i 31)\<lparr>w_attempts := k\<rparr>"

definition hook_db :: db where
  "hook_db = acme_mail\<lparr>now := 1000, next_id := 40,
     webhook_endpoints := [\<lparr>e_id = 31, e_org_id = 20, e_url = ''https://hooks'', e_events = [''ping'', ''pong''],
        e_secret_enc = ''whsec_k'', e_active = True, e_last_delivered_at = None, e_last_status = None,
        e_failure_count = 0, e_created_by = Some 11, e_created_at = 0\<rparr>],
     webhook_deliveries := [hook_row 32 ''ping'' 0, hook_row 33 ''pong'' 5, hook_row 34 ''pong'' 0]\<rparr>"

lemma hook_wf: "ids_wf hook_db" "queue_inv hook_db"
  by (simp_all add: hook_db_def ids_wf_def ids_below_def queue_inv_def hook_row_def new_delivery_def
       delivery_ok_def MAX_ATTEMPTS_def acme_mail_eval)



text \<open>
  a delivery is attempted at most six times and never left in limbo. Whatever sequence of
  create, remove, emit, tick and passage of time the service goes through, every queued
  delivery has at most MAX_ATTEMPTS attempts, has a next attempt scheduled exactly while it
  is undelivered with attempts left, and is marked delivered only with a 2xx status.
\<close>

theorem delivery_attempts_bounded:
  assumes "webhook_step\<^sup>*\<^sup>* s t" "ids_wf s" "queue_inv s" "w \<in> set (webhook_deliveries t)"
  shows "w_attempts w \<le> MAX_ATTEMPTS \<and>
    (w_next_attempt_at w = None \<longleftrightarrow> w_delivered_at w \<noteq> None \<or> w_attempts w = MAX_ATTEMPTS) \<and>
    (w_delivered_at w \<noteq> None \<longrightarrow> success (w_status w))"
proof -
  have "webhooks_inv t"
    using assms(1-3) by (induction rule: rtranclp_induct) (auto simp: webhooks_inv_def[of s] intro: webhook_step_keeps)
  with assms(4) show ?thesis by (auto simp: webhooks_inv_def queue_inv_def delivery_ok_def)
qed

theorem delivery_attempts_bounded_witness:
  "webhook_deliveries (snd (emit 20 ''pong'' JNull hook_db)) ! 3 = new_delivery ''pong'' JNull 1000 40 31 \<and>
   w_attempts (new_delivery ''pong'' JNull 1000 40 31) \<le> MAX_ATTEMPTS \<and>
   w_next_attempt_at (hook_row 33 ''pong'' 5) \<noteq> None"
proof -
  let ?t = "snd (emit 20 ''pong'' JNull hook_db)"
  have d: "webhook_deliveries ?t = [hook_row 32 ''ping'' 0, hook_row 33 ''pong'' 5, hook_row 34 ''pong'' 0,
      new_delivery ''pong'' JNull 1000 40 31]"
    by (simp add: emit_def bindM_getsM subscribers_def hook_db_def modifyM_def enqueue_def)
  have s: "webhook_step\<^sup>*\<^sup>* hook_db ?t"
    by (rule r_into_rtranclp) (rule step_emit)
  have "w_attempts (new_delivery ''pong'' JNull 1000 40 31) \<le> MAX_ATTEMPTS"
    using delivery_attempts_bounded[OF s hook_wf, of "new_delivery ''pong'' JNull 1000 40 31"] d by simp
  moreover have "w_next_attempt_at (hook_row 33 ''pong'' 5) \<noteq> None"
    using delivery_attempts_bounded[OF s hook_wf, of "hook_row 33 ''pong'' 5"] d
    by (simp add: hook_row_def new_delivery_def)
  ultimately show ?thesis using d by simp
qed

text \<open>
  ticks use the attempts up. The attempts all queued deliveries may still take drop by at
  least the number of due rows with every tick, so the worker makes at most six attempts per
  queued delivery however often it runs.
\<close>

theorem tick_consumes_budget:
  assumes "ids_wf s" "queue_inv s" "\<forall>e \<in> set (webhook_endpoints s). n_unseal n (e_secret_enc e) \<noteq> None"
  shows "sum_list (map budget (webhook_deliveries (snd (tick n s)))) + length (due s)
    \<le> sum_list (map budget (webhook_deliveries s))"
proof -
  from tick_run[OF assms(1,3)] have
    "webhook_deliveries (snd (tick n s)) = map (settle_rows n (now s) (due s)) (webhook_deliveries s)" by force
  moreover have "\<forall>w \<in> set (webhook_deliveries s).
      budget (settle_rows n (now s) (due s) w) + (if \<exists>e. (w, e) \<in> set (due s) then 1 else 0) \<le> budget w"
    using settle_rows_ok(2)[OF assms(1)] assms(2) by (simp add: queue_inv_def)
  ultimately show ?thesis
    using budget_sum[of "webhook_deliveries s" "settle_rows n (now s) (due s)"] due_count[OF assms(1)] by simp
qed

theorem tick_consumes_budget_witness:
  "sum_list (map budget (webhook_deliveries hook_db)) = 13 \<and>
   sum_list (map budget (webhook_deliveries (snd (tick hook_net hook_db)))) + 3 \<le> 13"
proof -
  have "map (\<lambda>(r, e). w_id r) (due hook_db) = [32, 33, 34]" by code_simp
  from arg_cong[OF this, of length] have "length (due hook_db) = 3" by simp
  moreover have "sum_list (map budget (webhook_deliveries hook_db)) = 13"
    by code_simp
  moreover have "\<forall>e \<in> set (webhook_endpoints hook_db). n_unseal hook_net (e_secret_enc e) \<noteq> None"
    by (simp add: hook_net_def)
  ultimately show ?thesis
    using tick_consumes_budget[OF hook_wf, of hook_net] by simp
qed

text \<open>
  emit queues one delivery for every active endpoint of the organization that subscribed
  to the event, due at once, and nothing for any other endpoint; it never fails.
\<close>

theorem emit_reaches_exactly_the_subscribers:
  "\<exists>t new. emit orgId event payload s = (Inr (), t) \<and> webhook_deliveries t = webhook_deliveries s @ new \<and>
     map w_endpoint_id new = map e_id (filter (\<lambda>e. e_org_id e = orgId \<and> e_active e \<and> event \<in> set (e_events e))
        (webhook_endpoints s)) \<and>
     list_all (\<lambda>w. w_event w = event \<and> w_payload w = payload \<and> w_attempts w = 0 \<and>
        w_next_attempt_at w = Some (now s) \<and> w_delivered_at w = None) new"
proof -
  let ?eps = "subscribers orgId event s"
  let ?new = "map (\<lambda>(i, ep). new_delivery event payload (now s) i ep) (zip [next_id s ..< next_id s + length ?eps] ?eps)"
  have e: "emit orgId event payload s = (Inr (), if ?eps = [] then s else enqueue event payload ?eps s)"
    by (simp add: emit_def bindM_getsM returnM_def modifyM_def)
  have "map w_endpoint_id ?new = ?eps"
    by (rule nth_equalityI) (simp_all add: new_delivery_def)
  moreover have "list_all (\<lambda>w. w_event w = event \<and> w_payload w = payload \<and> w_attempts w = 0 \<and>
        w_next_attempt_at w = Some (now s) \<and> w_delivered_at w = None) ?new"
    by (auto simp: list_all_iff new_delivery_def)
  moreover have "webhook_deliveries (if ?eps = [] then s else enqueue event payload ?eps s) = webhook_deliveries s @ ?new"
    by (simp add: enqueue_def)
  ultimately show ?thesis
    using e unfolding subscribers_def by blast
qed

text \<open>
  the worker never sends a request to a URL the address filter rejects at that moment.
  Two networks that answer alike on the accepted URLs, and arbitrarily on the others, lead
  to the same run of tick.
\<close>

theorem tick_never_contacts_rejected_urls:
  assumes "\<And>url. assertUrl n url = None \<Longrightarrow> f url = g url"
  shows "tick (n\<lparr>n_fetch := f\<rparr>) s = tick (n\<lparr>n_fetch := g\<rparr>) s"
proof -
  have u: "assertUrl (n\<lparr>n_fetch := h\<rparr>) = assertUrl n" for h
    by (simp add: assertUrl_def)
  have a: "attempt (n\<lparr>n_fetch := f\<rparr>) url ev sig b = attempt (n\<lparr>n_fetch := g\<rparr>) url ev sig b" for url ev sig b
    by (cases "assertUrl n url") (simp_all add: attempt_def u assms)
  have d: "deliver (n\<lparr>n_fetch := f\<rparr>) r e = (deliver (n\<lparr>n_fetch := g\<rparr>) r e :: ('a db_scheme, bool) svc)" for r e
    by (simp add: deliver_def a)
  have "tick_loop (n\<lparr>n_fetch := f\<rparr>) rows x y = (tick_loop (n\<lparr>n_fetch := g\<rparr>) rows x y :: ('a db_scheme, _) svc)" for rows x y
    by (induction rows arbitrary: x y) (auto simp: d bindM_def fun_eq_iff split: prod.splits sum.splits)
  then show ?thesis by (simp add: tick_def)
qed

theorem tick_never_contacts_rejected_urls_witness:
  "assertUrl hook_net ''https://10.0.0.1'' \<noteq> None \<and>
   tick (hook_net\<lparr>n_fetch := \<lambda>url. if url = ''https://10.0.0.1'' then \<lambda>_ _. Inr 200 else n_fetch hook_net url\<rparr>) hook_db =
   tick (hook_net\<lparr>n_fetch := n_fetch hook_net\<rparr>) hook_db"
proof -
  have "assertUrl hook_net ''https://10.0.0.1'' \<noteq> None" by code_simp
  then show ?thesis
    by (intro conjI tick_never_contacts_rejected_urls) auto
qed

text \<open>
  a secret that cannot be opened stops the whole queue. The loop opens the secret outside
  its try block, so when the first due delivery belongs to such an endpoint tick fails
  without changing anything, and fails the same way on every later run: no delivery of any
  organization goes out.
\<close>

theorem unreadable_secret_stops_the_queue:
  assumes "due s = (r, e) # rest" "n_unseal n (e_secret_enc e) = None"
  shows "tick n s = (Inl (HttpException 500 ''Error'' None), s)"
  using assms by (simp add: tick_def bindM_getsM) (simp add: bindM_def deliver_unreadable)

theorem unreadable_secret_stops_the_queue_witness:
  "tick (hook_net\<lparr>n_unseal := \<lambda>_. None\<rparr>) hook_db = (Inl (HttpException 500 ''Error'' None), hook_db)"
proof -
  have "map (\<lambda>(r, e). w_id r) (due hook_db) = [32, 33, 34]" by code_simp
  then obtain r e rest where "due hook_db = (r, e) # rest"
    by (cases "due hook_db") auto
  from unreadable_secret_stops_the_queue[OF this, of "hook_net\<lparr>n_unseal := \<lambda>_. None\<rparr>"] show ?thesis by simp
qed

text \<open>
  the first entry of the backoff table is never used. The attempt counter is incremented
  before the table is indexed, so the waits after failures one to five are 60, 300, 1800,
  7200 and 21600 seconds.
\<close>

theorem backoff_schedule:
  "map (nextRetry nw) [1, 2, 3, 4, 5] =
     [nw + 60000, nw + 300000, nw + 1800000, nw + 7200000, nw + 21600000]"
  by (simp add: nextRetry_def BACKOFF_def)

end
