(* ===== verification/JM_Mailboxes.thy ===== *)
theory JM_Mailboxes
  imports JM_Webhooks
begin

text \<open>
  \<open>MailboxesService\<close> (\<open>apps/api/src/mailboxes/mailboxes.service.ts\<close>): the mailboxes
  of a domain with their quota, and the CSV export. \<open>hash\<close> is \<open>argon2.hash\<close>,
  \<open>coll\<close> the collation of \<open>ORDER BY\<close>. Timestamps inside the audit metadata are
  numbers of milliseconds. The tables have no \<open>team_id\<close> column, so \<open>toMailbox\<close>
  always answers null for it.
\<close>

record mailbox_dto =
  md_id :: uuid
  md_domain_id :: uuid
  md_domain_name :: string
  md_team_id :: "uuid option"
  md_local_part :: string
  md_address :: string
  md_name :: string
  md_quota_mb :: int
  md_quota_used_bytes :: int
  md_status :: string
  md_imap_enabled :: bool
  md_pop3_enabled :: bool
  md_smtp_enabled :: bool
  md_sieve_enabled :: bool
  md_autoresponder :: "autoresponder option"
  md_forward_to :: "string list"
  md_forward_keep_copy :: bool
  md_created_at :: timestamp

definition toMailbox :: "mailbox_row \<times> domain_row \<Rightarrow> mailbox_dto" where
  "toMailbox = (\<lambda>(r, d). \<lparr>md_id = mb_id r, md_domain_id = mb_domain_id r, md_domain_name = d_name d,
     md_team_id = None, md_local_part = mb_local_part r, md_address = mb_local_part r @ ''@'' @ d_name d,
     md_name = mb_name r, md_quota_mb = mb_quota_mb r, md_quota_used_bytes = mb_quota_used_bytes r,
     md_status = mb_status r, md_imap_enabled = mb_imap_enabled r, md_pop3_enabled = mb_pop3_enabled r,
     md_smtp_enabled = mb_smtp_enabled r, md_sieve_enabled = mb_sieve_enabled r,
     md_autoresponder = mb_autoresponder r, md_forward_to = mb_forward_to r,
     md_forward_keep_copy = mb_forward_keep_copy r, md_created_at = mb_created_at r\<rparr>)"

record create_mailbox_request =
  cm_local_part :: string
  cm_name :: string
  cm_password :: string
  cm_quota_mb :: int

record update_mailbox_request =
  um_name :: "string option"
  um_quota_mb :: "int option"
  um_status :: "string option"
  um_imap_enabled :: "bool option"
  um_pop3_enabled :: "bool option"
  um_smtp_enabled :: "bool option"
  um_sieve_enabled :: "bool option"
  um_autoresponder :: "autoresponder option option"
  um_forward_to :: "string list option"
  um_forward_keep_copy :: "bool option"

definition mailbox_join :: "'z db_scheme \<Rightarrow> (mailbox_row \<times> domain_row) list" where
  "mailbox_join s = [(m, d). m \<leftarrow> mailboxes s, d \<leftarrow> domains s, d_id d = mb_domain_id m]"

definition mailboxes_assertDomain :: "uuid \<Rightarrow> uuid \<Rightarrow> uuid \<Rightarrow> ('z db_scheme, unit) svc" where
  "mailboxes_assertDomain orgId domainId userId = domain_in_org orgId domainId userId"

definition listMailboxes ::
  "(string \<Rightarrow> 'k :: linorder) \<Rightarrow> uuid \<Rightarrow> uuid \<Rightarrow> uuid \<Rightarrow> ('z db_scheme, mailbox_dto list) svc" where
  "listMailboxes coll orgId domainId userId =
     thenM (mailboxes_assertDomain orgId domainId userId)
     (getsM (\<lambda>s. map toMailbox (sort_key (\<lambda>(m, d). coll (mb_local_part m))
        (filter (\<lambda>(m, d). mb_domain_id m = domainId) (mailbox_join s)))))"

definition listOrgMailboxes ::
  "(string \<Rightarrow> 'k :: linorder) \<Rightarrow> uuid \<Rightarrow> uuid \<Rightarrow> ('z db_scheme, mailbox_dto list) svc" where
  "listOrgMailboxes coll orgId userId =
     thenM (requireRole orgId userId Viewer)
     (getsM (\<lambda>s. map toMailbox (sort_key (\<lambda>(m, d). coll (d_name d)) (sort_key (\<lambda>(m, d). coll (mb_local_part m))
        (filter (\<lambda>(m, d). d_org_id d = orgId) (mailbox_join s))))))"

definition getMailbox :: "uuid \<Rightarrow> uuid \<Rightarrow> uuid \<Rightarrow> ('z db_scheme, mailbox_dto) svc" where
  "getMailbox orgId i userId =
     thenM (requireRole orgId userId Viewer)
     (bindM (getsM (\<lambda>s. find_in_org mb_id mb_domain_id (mailboxes s) (domains s) orgId i)) (\<lambda>row.
      bindM (someM row (NotFoundException ''Mailbox not found'' None)) (\<lambda>r. returnM (toMailbox r))))"

text \<open>\<open>cap &&\<close> lets a cap of 0 pass like a missing one.\<close>

definition enforceLimits :: "uuid \<Rightarrow> ('z db_scheme, unit) svc" where
  "enforceLimits domainId =
     bindM (getsM (\<lambda>s. (int (length (filter (\<lambda>m. mb_domain_id m = domainId) (mailboxes s))),
              Option.bind (find (\<lambda>d. d_id d = domainId) (domains s)) d_max_mailboxes)))
     (\<lambda>(n, mx). case mx of
        None \<Rightarrow> returnM ()
      | Some cap \<Rightarrow> throwIf (cap \<noteq> 0 \<and> n \<ge> cap)
          (ConflictException ''Mailbox limit reached''
             (Some (''Domain caps at '' @ show_int cap @ '' mailboxes.''))))"

definition new_mailbox :: "(string \<Rightarrow> string) \<Rightarrow> 'z db_scheme \<Rightarrow> uuid \<Rightarrow> create_mailbox_request \<Rightarrow> mailbox_row" where
  "new_mailbox hash s domainId req =
     \<lparr>mb_id = next_id s, mb_domain_id = domainId, mb_local_part = toLowerCase (cm_local_part req),
      mb_name = cm_name req, mb_password_hash = hash (cm_password req), mb_quota_mb = cm_quota_mb req,
      mb_quota_used_bytes = 0, mb_status = ''active'', mb_imap_enabled = True, mb_pop3_enabled = True,
      mb_smtp_enabled = True, mb_sieve_enabled = True, mb_autoresponder = None, mb_forward_to = [],
      mb_forward_keep_copy = True, mb_created_at = now s, mb_updated_at = now s\<rparr>"

definition with_mailbox ::
  "(string \<Rightarrow> string) \<Rightarrow> uuid \<Rightarrow> create_mailbox_request \<Rightarrow> 'z db_scheme \<Rightarrow> 'z db_scheme" where
  "with_mailbox hash domainId req s =
     s\<lparr>mailboxes := mailboxes s @ [new_mailbox hash s domainId req], next_id := next_id s + 1\<rparr>"

definition mailbox_taken :: "'z db_scheme \<Rightarrow> uuid \<Rightarrow> string \<Rightarrow> bool" where
  "mailbox_taken s domainId local \<longleftrightarrow>
     (\<exists>m \<in> set (mailboxes s). mb_domain_id m = domainId \<and> ci_eq (mb_local_part m) local)"

text \<open>\<open>INSERT INTO mailboxes\<close>: the unique constraint on (domain, local part) is 23505.\<close>

definition insert_mailbox ::
  "(string \<Rightarrow> string) \<Rightarrow> uuid \<Rightarrow> create_mailbox_request \<Rightarrow> ('z db_scheme, uuid) svc" where
  "insert_mailbox hash domainId req = (\<lambda>s.
     if mailbox_taken s domainId (toLowerCase (cm_local_part req)) then (Inl (DbError ''23505''), s)
     else (Inr (next_id s), with_mailbox hash domainId req s))"

definition createMailbox ::
  "(string \<Rightarrow> string) \<Rightarrow> principal \<Rightarrow> uuid \<Rightarrow> uuid \<Rightarrow> create_mailbox_request \<Rightarrow> string option
     \<Rightarrow> ('z db_scheme, mailbox_dto) svc" where
  "createMailbox hash p orgId domainId req ip =
     thenM (requireRole orgId (p_user_id p) Admin)
     (thenM (mailboxes_assertDomain orgId domainId (p_user_id p))
     (thenM (enforceLimits domainId)
     (thenM (assertQuota orgId (cm_quota_mb req) None)
     (bindM (catchM (insert_mailbox hash domainId req) (unique_to_conflict ''Mailbox already exists'')) (\<lambda>i.
      thenM (audit_log (user_entry (Some orgId) p ''mailbox.create'' ''mailbox'' i ip
               [(''local_part'', JStr (cm_local_part req)), (''domain_id'', JNum (int domainId))]))
     (bindM (getMailbox orgId i (p_user_id p)) (\<lambda>created.
      thenM (emit orgId ''mailbox.created''
               (JObj [(''id'', JNum (int (md_id created))), (''address'', JStr (md_address created)),
                      (''quota_mb'', JNum (md_quota_mb created))]))
     (returnM created))))))))"

text \<open>The assembled \<open>UPDATE mailboxes SET ... WHERE id = $1\<close>.\<close>

definition set_opt :: "'a \<Rightarrow> 'a option \<Rightarrow> 'a" where
  "set_opt old new = (case new of None \<Rightarrow> old | Some x \<Rightarrow> x)"

definition patch_mailbox_row :: "timestamp \<Rightarrow> update_mailbox_request \<Rightarrow> mailbox_row \<Rightarrow> mailbox_row" where
  "patch_mailbox_row nw req m =
     m\<lparr>mb_updated_at := nw, mb_name := set_opt (mb_name m) (um_name req),
       mb_quota_mb := set_opt (mb_quota_mb m) (um_quota_mb req),
       mb_status := set_opt (mb_status m) (um_status req),
       mb_imap_enabled := set_opt (mb_imap_enabled m) (um_imap_enabled req),
       mb_pop3_enabled := set_opt (mb_pop3_enabled m) (um_pop3_enabled req),
       mb_smtp_enabled := set_opt (mb_smtp_enabled m) (um_smtp_enabled req),
       mb_sieve_enabled := set_opt (mb_sieve_enabled m) (um_sieve_enabled req),
       mb_autoresponder := set_opt (mb_autoresponder m) (um_autoresponder req),
       mb_forward_to := set_opt (mb_forward_to m) (um_forward_to req),
       mb_forward_keep_copy := set_opt (mb_forward_keep_copy m) (um_forward_keep_copy req)\<rparr>"

definition patch_mailbox :: "uuid \<Rightarrow> update_mailbox_request \<Rightarrow> 'z db_scheme \<Rightarrow> 'z db_scheme" where
  "patch_mailbox i req s =
     s\<lparr>mailboxes := map (\<lambda>m. if mb_id m = i then patch_mailbox_row (now s) req m else m) (mailboxes s)\<rparr>"

definition json_autoresponder :: "autoresponder option \<Rightarrow> json" where
  "json_autoresponder a = (case a of None \<Rightarrow> JNull
     | Some r \<Rightarrow> JObj ([(''enabled'', JBool (ar_enabled r)), (''subject'', JStr (ar_subject r)), (''body'', JStr (ar_body r))] @
         (case ar_starts_at r of None \<Rightarrow> [] | Some t \<Rightarrow> [(''starts_at'', JNum t)]) @
         (case ar_ends_at r of None \<Rightarrow> [] | Some t \<Rightarrow> [(''ends_at'', JNum t)])))"

definition opt_entry :: "string \<Rightarrow> ('a \<Rightarrow> json) \<Rightarrow> 'a option \<Rightarrow> (string \<times> json) list" where
  "opt_entry k f v = (case v of None \<Rightarrow> [] | Some x \<Rightarrow> [(k, f x)])"

definition mailbox_patch_meta :: "update_mailbox_request \<Rightarrow> (string \<times> json) list" where
  "mailbox_patch_meta req =
     opt_entry ''name'' JStr (um_name req) @ opt_entry ''quota_mb'' JNum (um_quota_mb req) @
     opt_entry ''status'' JStr (um_status req) @ opt_entry ''imap_enabled'' JBool (um_imap_enabled req) @
     opt_entry ''pop3_enabled'' JBool (um_pop3_enabled req) @
     opt_entry ''smtp_enabled'' JBool (um_smtp_enabled req) @
     opt_entry ''sieve_enabled'' JBool (um_sieve_enabled req) @
     opt_entry ''autoresponder'' json_autoresponder (um_autoresponder req) @
     opt_entry ''forward_to'' (\<lambda>xs. JArr (map JStr xs)) (um_forward_to req) @
     opt_entry ''forward_keep_copy'' JBool (um_forward_keep_copy req)"

definition updateMailbox ::
  "principal \<Rightarrow> uuid \<Rightarrow> uuid \<Rightarrow> update_mailbox_request \<Rightarrow> string option \<Rightarrow> ('z db_scheme, mailbox_dto) svc" where
  "updateMailbox p orgId i req ip =
     thenM (requireRole orgId (p_user_id p) Admin)
     (thenM (getMailbox orgId i (p_user_id p))
     (thenM (case um_quota_mb req of None \<Rightarrow> returnM () | Some q \<Rightarrow> assertQuota orgId q (Some i))
     (thenM (modifyM (patch_mailbox i req))
     (thenM (audit_log (user_entry (Some orgId) p ''mailbox.update'' ''mailbox'' i ip (mailbox_patch_meta req)))
     (getMailbox orgId i (p_user_id p))))))"

definition set_mailbox_password :: "uuid \<Rightarrow> string \<Rightarrow> 'z db_scheme \<Rightarrow> 'z db_scheme" where
  "set_mailbox_password i h s =
     s\<lparr>mailboxes := map (\<lambda>m. if mb_id m = i then m\<lparr>mb_password_hash := h, mb_updated_at := now s\<rparr> else m)
                      (mailboxes s)\<rparr>"

definition setMailboxPassword ::
  "(string \<Rightarrow> string) \<Rightarrow> principal \<Rightarrow> uuid \<Rightarrow> uuid \<Rightarrow> string \<Rightarrow> string option \<Rightarrow> ('z db_scheme, unit) svc" where
  "setMailboxPassword hash p orgId i password ip =
     thenM (requireRole orgId (p_user_id p) Admin)
     (thenM (getMailbox orgId i (p_user_id p))
     (thenM (modifyM (set_mailbox_password i (hash password)))
     (audit_log (user_entry (Some orgId) p ''mailbox.password_set'' ''mailbox'' i ip []))))"

definition removeMailbox :: "principal \<Rightarrow> uuid \<Rightarrow> uuid \<Rightarrow> string option \<Rightarrow> ('z db_scheme, unit) svc" where
  "removeMailbox p orgId i ip =
     thenM (requireRole orgId (p_user_id p) Admin)
     (bindM (getMailbox orgId i (p_user_id p)) (\<lambda>box.
      thenM (modifyM (delete_mailboxes (\<lambda>m. mb_id m = i)))
     (thenM (audit_log (user_entry (Some orgId) p ''mailbox.delete'' ''mailbox'' i ip
               [(''address'', JStr (md_address box))]))
     (emit orgId ''mailbox.deleted'' (JObj [(''id'', JNum (int i)), (''address'', JStr (md_address box))])))))"

section \<open>CSV export\<close>

definition csv :: "string \<Rightarrow> string" where
  "csv s = (if CHR 0x22 \<in> set s \<or> CHR '','' \<in> set s \<or> CHR 0x0A \<in> set s
            then [CHR 0x22] @ concat (map (\<lambda>c. if c = CHR 0x22 then [c, c] else [c]) s) @ [CHR 0x22]
            else s)"

definition csv_row :: "mailbox_dto \<Rightarrow> string" where
  "csv_row b = join '','' [csv (md_address b), csv (md_name b), show_int (md_quota_mb b), md_status b,
     csv (join '';'' (md_forward_to b))]"

definition exportCsv :: "(string \<Rightarrow> 'k :: linorder) \<Rightarrow> uuid \<Rightarrow> uuid \<Rightarrow> ('z db_scheme, string) svc" where
  "exportCsv coll orgId userId =
     thenM (requireRole orgId userId Admin)
     (bindM (listOrgMailboxes coll orgId userId) (\<lambda>boxes.
      returnM (join [CHR 0x0A] (''address,name,quota_mb,status,forward_to'' # map csv_row boxes) @ [CHR 0x0A])))"

section \<open>The service meets the tenant contract\<close>

definition mailbox_owns :: "'z db_scheme \<Rightarrow> uuid \<Rightarrow> uuid \<Rightarrow> bool" where
  "mailbox_owns s = in_org mb_id mb_domain_id (mailboxes s) (domains s)"

text \<open>What \<open>emit\<close> leaves alone.\<close>

definition emitted :: "uuid \<Rightarrow> string \<Rightarrow> json \<Rightarrow> 'z db_scheme \<Rightarrow> 'z db_scheme" where
  "emitted orgId event payload s = snd (emit orgId event payload s)"

lemma emit_run: "emit orgId event payload s = (Inr (), emitted orgId event payload s)"
  by (simp add: emitted_def emit_def bindM_getsM returnM_def modifyM_def)

lemma emitted_frame [simp]:
  "now (emitted org ev pl s) = now s" "organizations (emitted org ev pl s) = organizations s"
  "users (emitted org ev pl s) = users s" "org_members (emitted org ev pl s) = org_members s"
  "api_keys (emitted org ev pl s) = api_keys s" "domains (emitted org ev pl s) = domains s"
  "mailboxes (emitted org ev pl s) = mailboxes s" "aliases (emitted org ev pl s) = aliases s"
  "mail_groups (emitted org ev pl s) = mail_groups s" "sessions (emitted org ev pl s) = sessions s"
  by (simp_all add: emitted_def emit_def bindM_getsM returnM_def modifyM_def enqueue_def)

lemma ids_wf_emitted: "ids_wf s \<Longrightarrow> ids_wf (emitted org ev pl s)"
proof -
  assume i: "ids_wf s"
  have ids: "map w_id (map (\<lambda>(i, ep). new_delivery ev pl nw i ep) (zip [k ..< k + length eps] eps)) = [k ..< k + length eps]"
    for k nw eps
    by (rule nth_equalityI) (simp_all add: new_delivery_def)
  have "ids_below (next_id s + length eps) (map w_id (webhook_deliveries (enqueue ev pl eps s)))" for eps
    using i unfolding enqueue_def ids_wf_def ids_below_def
    by (simp add: ids[unfolded map_map comp_def] comp_def) force
  with i have "ids_wf (enqueue ev pl eps s)" for eps
    by (auto simp: ids_wf_def ids_below_def enqueue_def)
  with i show ?thesis
    by (simp add: emitted_def emit_def bindM_getsM returnM_def modifyM_def)
qed

lemma effectiveRole_frame [simp]:
  "effectiveRole (emitted org ev pl s) = effectiveRole s"
  "effectiveRole (audit_insert e s) = effectiveRole s"
  "effectiveRole (with_mailbox hash dm req s) = effectiveRole s"
  "effectiveRole (patch_mailbox i ureq s) = effectiveRole s"
  by (intro ext effectiveRole_cong, simp_all add: with_mailbox_def patch_mailbox_def)+

lemma getMailbox_Inr:
  "getMailbox org i u s = (Inr x, t) \<longleftrightarrow>
     t = s \<and> effectiveRole s org u \<noteq> None \<and>
     (\<exists>r. find_in_org mb_id mb_domain_id (mailboxes s) (domains s) org i = Some r \<and> x = toMailbox r)"
  by (auto simp: getMailbox_def run_iffs requireRole_Inr)

lemma getMailbox_ok:
  "(\<exists>x. getMailbox org i u s = (Inr x, s)) \<longleftrightarrow> effectiveRole s org u \<noteq> None \<and> mailbox_owns s org i"
  by (auto simp: getMailbox_Inr mailbox_owns_def find_in_org_iff[symmetric])

lemma readonly_getMailbox [readonly_intro]: "readonly (getMailbox org i u)"
  unfolding getMailbox_def by (intro readonly_intro)

lemma readonly_enforceLimits [readonly_intro]: "readonly (enforceLimits dm)"
  unfolding enforceLimits_def
  by (intro readonly_bindM readonly_basic) (auto intro: readonly_basic split: prod.splits option.splits)

lemma removeMailbox_run:
  assumes "removeMailbox p org i ip s = (Inr x, t)"
  shows "mailbox_owns s org i \<and>
     (\<exists>r. effectiveRole s org (p_user_id p) = Some r \<and> ROLE_RANK Admin \<le> ROLE_RANK r) \<and>
     (\<exists>e ev pl. t = emitted org ev pl (audit_insert e (delete_mailboxes (\<lambda>m. mb_id m = i) s)))"
  using assms getMailbox_ok[of org i "p_user_id p" s]
  by (fastforce simp: removeMailbox_def svc_iffs emit_run requireRole_Inr dest: readonlyD[OF readonly_getMailbox])

lemma removeMailbox_clean: "clean s (removeMailbox p org i ip s)"
  unfolding removeMailbox_def
  by (intro clean_thenM[OF readonly_requireRole] clean_bindM[OF readonly_getMailbox])
     (simp add: thenM_modifyM thenM_audit emit_run)

lemma new_mailbox_sel [simp]:
  "mb_id (new_mailbox hash s dm req) = next_id s" "mb_domain_id (new_mailbox hash s dm req) = dm"
  "mb_quota_mb (new_mailbox hash s dm req) = cm_quota_mb req"
  "mb_local_part (new_mailbox hash s dm req) = toLowerCase (cm_local_part req)"
  by (simp_all add: new_mailbox_def)

lemma with_mailbox_frame [simp]:
  "now (with_mailbox hash dm req s) = now s" "domains (with_mailbox hash dm req s) = domains s"
  "organizations (with_mailbox hash dm req s) = organizations s"
  "mailboxes (with_mailbox hash dm req s) = mailboxes s @ [new_mailbox hash s dm req]"
  by (simp_all add: with_mailbox_def)

lemma ids_wf_with_mailbox: "ids_wf s \<Longrightarrow> ids_wf (with_mailbox hash dm req s)"
  by (auto simp: ids_wf_def with_mailbox_def ids_below_def less_Suc_eq)

text \<open>The outcomes of \<open>create\<close>: refused without effect, or created after every check passed.\<close>

lemma createMailbox_run:
  assumes "createMailbox hash p org dm req ip s = (r, t)"
  shows "(\<exists>e. r = Inl e \<and> t = s) \<or>
    (\<exists>x e ev pl. r = Inr x \<and> t = emitted org ev pl (audit_insert e (with_mailbox hash dm req s)) \<and>
       getMailbox org (next_id s) (p_user_id p) (audit_insert e (with_mailbox hash dm req s)) =
         (Inr x, audit_insert e (with_mailbox hash dm req s)) \<and>
       \<not> mailbox_taken s dm (cm_local_part req) \<and>
       (\<exists>d \<in> set (domains s). d_id d = dm \<and> d_org_id d = org) \<and>
       enforceLimits dm s = (Inr (), s) \<and> assertQuota org (cm_quota_mb req) None s = (Inr (), s) \<and>
       (\<exists>role. effectiveRole s org (p_user_id p) = Some role \<and> ROLE_RANK Admin \<le> ROLE_RANK role))"
    (is "_ \<or> ?created r t")
proof -
  let ?P = "\<lambda>(r, t). (\<exists>e. r = Inl e \<and> t = s) \<or> ?created r t"
  have "?P (createMailbox hash p org dm req ip s)"
    unfolding createMailbox_def mailboxes_assertDomain_def
  proof (rule thenM_ro[where P = ?P, OF readonly_requireRole], simp,
         rule thenM_ro[where P = ?P, OF readonly_domain_in_org], simp,
         rule thenM_ro[where P = ?P, OF readonly_enforceLimits], simp,
         rule thenM_ro[where P = ?P, OF readonly_assertQuota], simp)
    fix role y z q
    assume "requireRole org (p_user_id p) Admin s = (Inr role, s)"
      and "domain_in_org org dm (p_user_id p) s = (Inr y, s)"
      and lim: "enforceLimits dm s = (Inr z, s)" "assertQuota org (cm_quota_mb req) None s = (Inr q, s)"
    then have d: "\<exists>d \<in> set (domains s). d_id d = dm \<and> d_org_id d = org"
      and r: "effectiveRole s org (p_user_id p) = Some role" "ROLE_RANK Admin \<le> ROLE_RANK role"
      by (auto simp: domain_in_org_Inr requireRole_Inr)
    let ?t = "\<lambda>e. audit_insert e (with_mailbox hash dm req s)"
    have "\<exists>x. getMailbox org (next_id s) (p_user_id p) (?t e) = (Inr x, ?t e)" for e
      using d r by (simp add: getMailbox_ok mailbox_owns_def in_org_snoc)
    then obtain X where rd: "\<And>e. getMailbox org (next_id s) (p_user_id p) (?t e) = (Inr (X e), ?t e)" by metis
    have taken: "mailbox_taken s dm (toLowerCase (cm_local_part req)) = mailbox_taken s dm (cm_local_part req)"
      by (simp add: mailbox_taken_def ci_eq_def)
    show "?P (bindM (catchM (insert_mailbox hash dm req) (unique_to_conflict ''Mailbox already exists'')) (\<lambda>i.
      thenM (audit_log (user_entry (Some org) p ''mailbox.create'' ''mailbox'' i ip
               [(''local_part'', JStr (cm_local_part req)), (''domain_id'', JNum (int dm))]))
     (bindM (getMailbox org i (p_user_id p)) (\<lambda>created.
      thenM (emit org ''mailbox.created''
               (JObj [(''id'', JNum (int (md_id created))), (''address'', JStr (md_address created)),
                      (''quota_mb'', JNum (md_quota_mb created))]))
     (returnM created)))) s)"
    proof (cases "mailbox_taken s dm (cm_local_part req)")
      case True
      then show ?thesis
        by (simp add: bindM_def catchM_def insert_mailbox_def taken unique_to_conflict_def throwM_def)
    next
      case False
      then have step: "bindM (catchM (insert_mailbox hash dm req) (unique_to_conflict ''Mailbox already exists'')) k s =
          k (next_id s) (with_mailbox hash dm req s)" for k
        by (simp add: bindM_def catchM_def insert_mailbox_def taken)
      have tail: "bindM (getMailbox org (next_id s) (p_user_id p)) k (?t e) = k (X e) (?t e)" for k e
        by (simp add: bindM_def rd)
      show ?thesis
        unfolding step thenM_audit tail using False d r lim rd
        by (simp add: thenM_def bindM_def emit_run returnM_def) blast
    qed
  qed
  with assms show ?thesis by simp
qed

lemma getMailbox_emitted:
  "getMailbox org i u (audit_insert e s) = (Inr x, audit_insert e s) \<Longrightarrow>
   getMailbox org i u (emitted o' ev pl (audit_insert e s)) = (Inr x, emitted o' ev pl (audit_insert e s))"
  by (simp add: getMailbox_Inr)

lemma getMailbox_id: "getMailbox org i u s = (Inr x, t) \<Longrightarrow> md_id x = i"
  by (auto simp: getMailbox_Inr toMailbox_def dest!: find_in_org_Some)

lemma updateMailbox_clean: "clean s (updateMailbox p org i req ip s)"
proof -
  have q: "readonly (case um_quota_mb req of None \<Rightarrow> returnM () | Some q \<Rightarrow> assertQuota org q (Some i))"
    by (cases "um_quota_mb req") (simp_all add: readonly_basic readonly_assertQuota)
  have "\<exists>x u. getMailbox org i (p_user_id p) (audit_insert e (patch_mailbox i req s)) = (Inr x, u)"
    if "getMailbox org i (p_user_id p) s = (Inr y, s)" for e y
  proof -
    have "mailbox_owns (audit_insert e (patch_mailbox i req s)) org i = mailbox_owns s org i"
      by (simp add: mailbox_owns_def in_org_map patch_mailbox_def patch_mailbox_row_def)
    with that getMailbox_ok show ?thesis by (metis effectiveRole_frame(2,4))
  qed
  then show ?thesis
    unfolding updateMailbox_def
    by (intro clean_thenM[OF readonly_requireRole] clean_thenM[OF readonly_getMailbox]
        clean_thenM[OF q] clean_write_read)
qed

interpretation mailbox_svc: tenant_store getMailbox removeMailbox mailbox_owns effectiveRole ids_wf
  "createMailbox hash" md_id
  for hash
proof (unfold_locales, goal_cases)
  case 1 show ?case by (rule readonly_getMailbox)
next
  case 2 show ?case by (rule getMailbox_ok)
next
  case 3 then show ?case
    by (auto dest!: removeMailbox_run simp: mailbox_owns_def delete_mailboxes_def in_org_filter)
next
  case 4 then show ?case using removeMailbox_clean cleanD by metis
next
  case 5 then show ?case
    by (auto simp: mailbox_owns_def ids_wf_def ids_below_def dest: in_org_unique)
next
  case (6 s p org dm q ip d t)
  from createMailbox_run[OF this(2)] obtain e ev pl role where
    d: "t = emitted org ev pl (audit_insert e (with_mailbox hash dm q s))"
    "getMailbox org (next_id s) (p_user_id p) (audit_insert e (with_mailbox hash dm q s)) =
         (Inr d, audit_insert e (with_mailbox hash dm q s))"
    "effectiveRole s org (p_user_id p) = Some role" "ROLE_RANK Admin \<le> ROLE_RANK role" by auto
  have i: "md_id d = next_id s" using getMailbox_id[OF d(2)] .
  have "j \<noteq> next_id s" if "mailbox_owns s org' j" for org' j
    using that 6(1) by (auto simp: mailbox_owns_def in_org_def ids_wf_def ids_below_def)
  then show ?case
    using d i getMailbox_emitted[OF d(2)] by (auto simp: mailbox_owns_def in_org_snoc)
next
  case 7 then show ?case by (auto dest: createMailbox_run)
next
  case (8 s p org dm q ip)
  then show ?case
    using createMailbox_run[of hash p org dm q ip s] ids_wf_emitted[OF ids_wf_audit[OF ids_wf_with_mailbox[OF 8]]] 8
    by (cases "createMailbox hash p org dm q ip s") auto
qed

section \<open>Allocation invariant\<close>

text \<open>
  The sum of the mailbox quotas of an organization stays within its storage quota, and the
  mailboxes of a domain within its cap when there is a positive one.
\<close>

definition allocated :: "'z db_scheme \<Rightarrow> uuid \<Rightarrow> int" where
  "allocated s org = sum_list (map mb_quota_mb (org_mailboxes s org))"

definition quota_ok :: "'z db_scheme \<Rightarrow> bool" where
  "quota_ok s \<longleftrightarrow> (\<forall>r \<in> set (organizations s). \<forall>cap.
     o_storage_quota_mb r = Some cap \<longrightarrow> allocated s (o_id r) \<le> cap)"

definition caps_ok :: "'z db_scheme \<Rightarrow> bool" where
  "caps_ok s \<longleftrightarrow> (\<forall>d \<in> set (domains s). \<forall>cap. d_max_mailboxes d = Some cap \<longrightarrow>
     cap > 0 \<longrightarrow> int (length (filter (\<lambda>m. mb_domain_id m = d_id d) (mailboxes s))) \<le> cap)"

definition alloc_inv :: "'z db_scheme \<Rightarrow> bool" where
  "alloc_inv s \<longleftrightarrow> ids_wf s \<and> distinct (map o_id (organizations s)) \<and>
     (\<forall>m \<in> set (mailboxes s). 0 \<le> mb_quota_mb m) \<and> quota_ok s \<and> caps_ok s"

lemma org_mailboxes_cong:
  "mailboxes s = mailboxes t \<Longrightarrow> domains s = domains t \<Longrightarrow> org_mailboxes s = org_mailboxes t"
  by (auto simp: org_mailboxes_def)

lemma alloc_frame:
  assumes "mailboxes s = mailboxes t" "domains s = domains t" "organizations s = organizations t"
  shows "quota_ok s = quota_ok t" "caps_ok s = caps_ok t"
  using org_mailboxes_cong[OF assms(1,2)] assms by (simp_all add: quota_ok_def caps_ok_def allocated_def)

lemma alloc_inv_audit [simp]: "alloc_inv s \<Longrightarrow> alloc_inv (audit_insert e s)"
  using alloc_frame[of "audit_insert e s" s] by (simp add: alloc_inv_def)

lemma alloc_inv_emitted [simp]: "alloc_inv s \<Longrightarrow> alloc_inv (emitted org ev pl s)"
  using alloc_frame[of "emitted org ev pl s" s] ids_wf_emitted[of s] by (simp add: alloc_inv_def)

lemma find_org: "distinct (map o_id xs) \<Longrightarrow> r \<in> set xs \<Longrightarrow> find (\<lambda>x. o_id x = o_id r) xs = Some r"
  using find_key_unique[of o_id xs r "o_id r" "\<lambda>_. True"] by simp

lemma assertQuota_pass:
  assumes "assertQuota org mb ex s = (Inr u, t)" "distinct (map o_id (organizations s))"
    "r \<in> set (organizations s)" "o_id r = org" "o_storage_quota_mb r = Some cap"
  shows "sum_list (map mb_quota_mb (filter (\<lambda>m. ex \<noteq> Some (mb_id m)) (org_mailboxes s org))) + mb \<le> cap"
  using assms find_org[OF assms(2,3)]
  by (auto simp: assertQuota_def bindM_getsM throwIf_Inr)

lemma org_of_domain:
  assumes "ids_wf s" "d \<in> set (domains s)" "d_id d = dm" "d_org_id d = org"
  shows "(\<exists>d \<in> set (domains s). d_id d = dm \<and> d_org_id d = org') \<longleftrightarrow> org' = org"
  using assms domain_unique by blast

lemma allocated_with_mailbox:
  assumes "ids_wf s" "\<exists>d \<in> set (domains s). d_id d = dm \<and> d_org_id d = org"
  shows "allocated (with_mailbox hash dm req s) org' =
    allocated s org' + (if org' = org then cm_quota_mb req else 0)"
  using assms org_of_domain[OF assms(1)] by (fastforce simp: allocated_def org_mailboxes_def)

lemma enforceLimits_pass:
  assumes "enforceLimits dm s = (Inr u, t)" "ids_wf s" "d \<in> set (domains s)" "d_id d = dm"
    "d_max_mailboxes d = Some cap" "cap > 0"
  shows "int (length (filter (\<lambda>m. mb_domain_id m = dm) (mailboxes s))) < cap"
proof -
  have "find (\<lambda>x. d_id x = dm) (domains s) = Some d"
    using find_key_unique[of d_id "domains s" d dm "\<lambda>_. True"] assms(2-4) by (simp add: ids_wf_def ids_below_def)
  with assms show ?thesis by (auto simp: enforceLimits_def bindM_getsM throwIf_Inr)
qed

lemma createMailbox_alloc:
  assumes i: "alloc_inv s" and q: "0 \<le> cm_quota_mb req"
  shows "alloc_inv (snd (createMailbox hash p org dm req ip s))"
proof -
  obtain r t where c: "createMailbox hash p org dm req ip s = (r, t)" by fastforce
  have w: "ids_wf s" and o: "distinct (map o_id (organizations s))" using i by (simp_all add: alloc_inv_def)
  from createMailbox_run[OF c] show ?thesis
  proof (elim disjE exE conjE, goal_cases)
    case 1
    with i c show ?case by simp
  next
    case (2 x e ev pl role)
    have "quota_ok (with_mailbox hash dm req s)"
      using i allocated_with_mailbox[OF w 2(5)] assertQuota_pass[OF 2(7) o]
      by (auto simp: alloc_inv_def quota_ok_def split: option.splits) (simp add: allocated_def)
    moreover have "caps_ok (with_mailbox hash dm req s)"
      using i enforceLimits_pass[OF 2(6) w] by (fastforce simp: alloc_inv_def caps_ok_def split: option.splits)
    ultimately have "alloc_inv (with_mailbox hash dm req s)"
      using i q ids_wf_with_mailbox[OF w] by (auto simp: alloc_inv_def)
    with 2(2) c show ?case by simp
  qed
qed

lemma sum_map_update:
  assumes "distinct (map key xs)" "x \<in> set xs" "\<And>y. key (f y) = key y"
  shows "sum_list (map g (map (\<lambda>y. if key y = key x then f y else y) xs)) =
    sum_list (map g (filter (\<lambda>y. key y \<noteq> key x) xs)) + (g (f x) :: int)"
  using assms(1,2)
proof (induction xs)
  case Nil
  then show ?case by simp
next
  case (Cons y ys)
  show ?case
  proof (cases "y = x")
    case True
    then have "map (\<lambda>y. if key y = key x then f y else y) ys = ys" "filter (\<lambda>y. key y \<noteq> key x) ys = ys"
      using Cons.prems(1) by (auto intro!: map_idI filter_True simp: rev_image_eqI)
    with True show ?thesis by (simp add: comp_def)
  next
    case False
    then have "x \<in> set ys" "key y \<noteq> key x" using Cons.prems by (auto simp: rev_image_eqI)
    with Cons show ?thesis by simp
  qed
qed

lemma patch_row_sel [simp]:
  "mb_id (patch_mailbox_row nw req m) = mb_id m" "mb_domain_id (patch_mailbox_row nw req m) = mb_domain_id m"
  "mb_quota_mb (patch_mailbox_row nw req m) = set_opt (mb_quota_mb m) (um_quota_mb req)"
  by (simp_all add: patch_mailbox_row_def)

lemma org_mailboxes_map:
  assumes "\<And>m. mb_domain_id (f m) = mb_domain_id m"
  shows "org_mailboxes (s\<lparr>mailboxes := map f (mailboxes s)\<rparr>) org = map f (org_mailboxes s org)"
  by (simp add: org_mailboxes_def filter_map comp_def assms)

lemma same_quota_rows:
  assumes "\<And>m. mb_domain_id (f m) = mb_domain_id m" "\<And>m. mb_id (f m) = mb_id m" "\<And>m. mb_quota_mb (f m) = mb_quota_mb m"
    and "alloc_inv s"
  shows "alloc_inv (s\<lparr>mailboxes := map f (mailboxes s)\<rparr>)"
  using assms
  by (auto simp: alloc_inv_def quota_ok_def caps_ok_def allocated_def org_mailboxes_map ids_wf_def filter_map comp_def)

lemma updateMailbox_run:
  assumes "updateMailbox p org i req ip s = (Inr x, t)"
  shows "mailbox_owns s org i \<and> (\<forall>q. um_quota_mb req = Some q \<longrightarrow> assertQuota org q (Some i) s = (Inr (), s)) \<and>
    (\<exists>e. t = audit_insert e (patch_mailbox i req s))"
proof -
  have q: "readonly (case um_quota_mb req of None \<Rightarrow> returnM () | Some q \<Rightarrow> assertQuota org q (Some i))"
    by (cases "um_quota_mb req") (simp_all add: readonly_basic readonly_assertQuota)
  from assms obtain y z e where
    g: "getMailbox org i (p_user_id p) s = (Inr y, s)" and
    a: "(case um_quota_mb req of None \<Rightarrow> returnM () | Some q \<Rightarrow> assertQuota org q (Some i)) s = (Inr z, s)" and
    w: "getMailbox org i (p_user_id p) (audit_insert e (patch_mailbox i req s)) = (Inr x, t)"
    unfolding updateMailbox_def
    by (auto simp: svc_iffs requireRole_Inr dest: readonlyD[OF readonly_getMailbox] readonlyD[OF q])
  with readonlyD[OF readonly_getMailbox w] getMailbox_ok[of org i "p_user_id p" s] show ?thesis by auto
qed

lemma updateMailbox_err: "updateMailbox p org i req ip s = (Inl e, t) \<Longrightarrow> t = s"
  using updateMailbox_clean[of s p org i req ip] by simp

lemma removeMailbox_err: "removeMailbox p org i ip s = (Inl e, t) \<Longrightarrow> t = s"
  using removeMailbox_clean[of s p org i ip] by simp

lemma updateMailbox_alloc:
  assumes i: "alloc_inv s" and q: "\<And>q. um_quota_mb req = Some q \<Longrightarrow> 0 \<le> q"
  shows "alloc_inv (snd (updateMailbox p org i req ip s))"
proof (cases "updateMailbox p org i req ip s")
  case (Pair r t)
  let ?f = "\<lambda>m. if mb_id m = i then patch_mailbox_row (now s) req m else m"
  have dom: "mb_domain_id (?f m) = mb_domain_id m" "mb_id (?f m) = mb_id m" for m by simp_all
  show ?thesis
  proof (cases r)
    case (Inl e)
    with Pair i show ?thesis using updateMailbox_err by fastforce
  next
    case (Inr x)
    from updateMailbox_run[OF Pair[unfolded Inr]] obtain e where
      own: "mailbox_owns s org i" and
      pass: "\<And>q. um_quota_mb req = Some q \<Longrightarrow> assertQuota org q (Some i) s = (Inr (), s)" and
      t: "t = audit_insert e (patch_mailbox i req s)" by blast
    have "alloc_inv (patch_mailbox i req s)"
    proof (cases "um_quota_mb req")
      case None
      then show ?thesis unfolding patch_mailbox_def
        by (intro same_quota_rows[OF _ _ _ i]) (simp_all add: set_opt_def)
    next
      case (Some q')
      have w: "ids_wf s" "distinct (map o_id (organizations s))" using i by (simp_all add: alloc_inv_def)
      have dist: "distinct (map mb_id (org_mailboxes s org'))" for org'
        using w(1) by (simp add: org_mailboxes_def distinct_map_filter ids_wf_def ids_below_def)
      obtain m where m: "m \<in> set (mailboxes s)" "mb_id m = i" "m \<in> set (org_mailboxes s org)"
        using own by (auto simp: mailbox_owns_def in_org_def org_mailboxes_def)
      have "allocated (patch_mailbox i req s) (o_id r) \<le> cap"
        if r: "r \<in> set (organizations s)" "o_storage_quota_mb r = Some cap" for r cap
      proof (cases "o_id r = org")
        case True
        have "filter (\<lambda>y. mb_id y \<noteq> i) (org_mailboxes s org) = filter (\<lambda>y. Some i \<noteq> Some (mb_id y)) (org_mailboxes s org)"
          by (auto intro: filter_cong)
        with assertQuota_pass[OF pass[OF Some] w(2) r(1) True r(2)]
          sum_map_update[OF dist m(3), of "patch_mailbox_row (now s) req" mb_quota_mb]
        show ?thesis
          using Some m(2) by (simp add: allocated_def patch_mailbox_def org_mailboxes_map dom True set_opt_def)
      next
        case False
        have "i \<notin> mb_id ` set (org_mailboxes s (o_id r))"
        proof
          assume "i \<in> mb_id ` set (org_mailboxes s (o_id r))"
          then have "mailbox_owns s (o_id r) i" by (auto simp: org_mailboxes_def mailbox_owns_def in_org_def)
          with own w(1) False show False
            using in_org_unique[of mb_id "mailboxes s" "domains s" mb_domain_id]
            by (auto simp: mailbox_owns_def ids_wf_def ids_below_def)
        qed
        then have "map ?f (org_mailboxes s (o_id r)) = org_mailboxes s (o_id r)"
          by (intro map_idI) auto
        with i r show ?thesis
          by (simp add: alloc_inv_def quota_ok_def allocated_def patch_mailbox_def org_mailboxes_map dom)
      qed
      then have "quota_ok (patch_mailbox i req s)" by (auto simp: quota_ok_def patch_mailbox_def)
      moreover have "caps_ok (patch_mailbox i req s)"
        using i by (auto simp: alloc_inv_def caps_ok_def patch_mailbox_def filter_map comp_def dom)
      ultimately show ?thesis
        using i q[OF Some] Some
        by (auto simp: alloc_inv_def patch_mailbox_def ids_wf_def comp_def set_opt_def dom)
    qed
    with t Pair show ?thesis by simp
  qed
qed

lemma sum_filter_le:
  "\<forall>x \<in> set xs. 0 \<le> (f x :: int) \<Longrightarrow> sum_list (map f (filter P xs)) \<le> sum_list (map f xs)"
  by (induction xs) auto

lemma delete_mailboxes_alloc:
  assumes "alloc_inv s"
  shows "alloc_inv (delete_mailboxes P s)"
proof -
  have "org_mailboxes (delete_mailboxes P s) org = filter (\<lambda>m. \<not> P m) (org_mailboxes s org)" for org
    by (simp add: org_mailboxes_def delete_mailboxes_def conj_commute)
  then have "allocated (delete_mailboxes P s) org \<le> allocated s org" for org
    using assms sum_filter_le[of "org_mailboxes s org" mb_quota_mb]
    by (simp add: allocated_def alloc_inv_def org_mailboxes_def)
  then have "quota_ok (delete_mailboxes P s)"
    using assms order_trans unfolding quota_ok_def alloc_inv_def delete_mailboxes_def by fastforce
  moreover have "length (filter Q (filter (\<lambda>m. \<not> P m) ms)) \<le> length (filter Q ms)" for Q and ms :: "mailbox_row list"
    by (induction ms) auto
  then have "caps_ok (delete_mailboxes P s)"
    using assms unfolding caps_ok_def alloc_inv_def delete_mailboxes_def
    by (simp del: filter_filter) (meson of_nat_mono order_trans)
  ultimately show ?thesis
    using assms by (auto simp: alloc_inv_def delete_mailboxes_def ids_wf_def intro: ids_below_filter)
qed

lemma removeMailbox_alloc: "alloc_inv s \<Longrightarrow> alloc_inv (snd (removeMailbox p org i ip s))"
proof (cases "removeMailbox p org i ip s")
  case (Pair r t)
  assume "alloc_inv s"
  then show ?thesis
    using Pair removeMailbox_run[of p org i ip s _ t] removeMailbox_err[of p org i ip s]
      delete_mailboxes_alloc[of s "\<lambda>m. mb_id m = i"]
    by (cases r) auto
qed

lemma setMailboxPassword_alloc: "alloc_inv s \<Longrightarrow> alloc_inv (snd (setMailboxPassword hash p org i pw ip s))"
proof -
  assume i: "alloc_inv s"
  have "alloc_inv (set_mailbox_password i h s)" for h
    unfolding set_mailbox_password_def by (intro same_quota_rows[OF _ _ _ i]) simp_all
  then show ?thesis unfolding setMailboxPassword_def
    by (intro snd_thenM_ro[where I = alloc_inv, OF readonly_requireRole i]
        snd_thenM_ro[where I = alloc_inv, OF readonly_getMailbox i])
       (simp add: thenM_modifyM audit_log_run)
qed

lemma setQuota_alloc:
  assumes i: "alloc_inv s"
  shows "alloc_inv (snd (setQuota p org q ip s))"
proof -
  let ?set = "\<lambda>s. s\<lparr>organizations := map (\<lambda>r. if o_id r = org
      then r\<lparr>o_storage_quota_mb := q, o_updated_at := now s\<rparr> else r) (organizations s)\<rparr>"
  have set: "alloc_inv (?set s)" if "\<And>cap. q = Some cap \<Longrightarrow> allocated s org \<le> cap"
  proof -
    have "allocated (?set s) = allocated s" by (simp add: allocated_def[abs_def] org_mailboxes_def)
    then have "quota_ok (?set s)"
      using i that by (auto simp: alloc_inv_def quota_ok_def)
    moreover have "map o_id (organizations (?set s)) = map o_id (organizations s)" by simp
    ultimately show ?thesis using i by (simp add: alloc_inv_def caps_ok_def ids_wf_def del: map_map)
  qed
  show ?thesis unfolding setQuota_def
  proof (rule snd_thenM_ro[where I = alloc_inv, OF readonly_requireRole i],
         rule snd_bindM_ro[where I = alloc_inv, OF readonly_computeQuota i],
         rule snd_thenM_ro[where I = alloc_inv, OF readonly_basic(4) i], goal_cases)
    case (1 x usage y)
    then have "\<And>cap. q = Some cap \<Longrightarrow> allocated s org \<le> cap"
      by (auto simp: computeQuota_def run_iffs allocated_def)
    from set[OF this] show ?case
      by (simp add: svc_simps audit_log_run)
  qed
qed

subsection \<open>Runs of the service\<close>

text \<open>The calls that allocate storage, with what the request schemas guarantee.\<close>

inductive alloc_step :: "'z db_scheme \<Rightarrow> 'z db_scheme \<Rightarrow> bool" where
  "0 \<le> cm_quota_mb req \<Longrightarrow> alloc_step s (snd (createMailbox hash p org dm req ip s))"
| "(\<And>q. um_quota_mb ureq = Some q \<Longrightarrow> 0 \<le> q) \<Longrightarrow> alloc_step s (snd (updateMailbox p org i ureq ip s))"
| "alloc_step s (snd (setMailboxPassword hash p org i pw ip s))"
| "alloc_step s (snd (removeMailbox p org i ip s))"
| "alloc_step s (snd (setQuota p org quota ip s))"

lemma alloc_step_inv: "alloc_step s t \<Longrightarrow> alloc_inv s \<Longrightarrow> alloc_inv t"
  by (induction rule: alloc_step.induct)
     (rule createMailbox_alloc updateMailbox_alloc setMailboxPassword_alloc removeMailbox_alloc setQuota_alloc; simp)+

lemma acme_mail_alloc: "alloc_inv acme_mail"
  using ids_wf_acme_mail
  by (simp add: alloc_inv_def quota_ok_def caps_ok_def acme_mail_eval allocated_def org_mailboxes_def)

definition hello_box :: create_mailbox_request where
  "hello_box = \<lparr>cm_local_part = ''hello'', cm_name = ''H'', cm_password = ''pw'', cm_quota_mb = 100\<rparr>"



section \<open>The export can be read back\<close>

text \<open>
  A reader of comma-separated values in the sense of RFC 4180, as the specification of what
  the export means: a quoted field ends at a quote that is not doubled, a plain field at a
  comma or a line feed.
\<close>

fun read_quoted :: "string \<Rightarrow> string \<times> string" where
  "read_quoted [] = ([], [])"
| "read_quoted [c] = (if c = CHR 0x22 then ([], []) else ([c], []))"
| "read_quoted (c # d # cs) =
     (if c = CHR 0x22 then
        (if d = CHR 0x22 then (let (f, r) = read_quoted cs in (c # f, r)) else ([], d # cs))
      else (let (f, r) = read_quoted (d # cs) in (c # f, r)))"

definition plain_char :: "char \<Rightarrow> bool" where
  "plain_char c \<longleftrightarrow> c \<noteq> CHR '','' \<and> c \<noteq> CHR 0x0A"

definition read_field :: "string \<Rightarrow> string \<times> string" where
  "read_field s = (case s of c # cs \<Rightarrow> if c = CHR 0x22 then read_quoted cs
       else (takeWhile plain_char s, dropWhile plain_char s) | [] \<Rightarrow> ([], []))"

lemma read_quoted_length: "length (snd (read_quoted s)) \<le> length s"
  by (induction s rule: read_quoted.induct) (auto split: prod.splits)

lemma read_field_length: "length (snd (read_field s)) \<le> length s"
  using read_quoted_length[of "tl s"]
  by (cases s) (auto simp: read_field_def length_dropWhile_le le_Suc_eq intro: le_trans)

function read_row :: "string \<Rightarrow> string list \<times> string" where
  "read_row s =
     (case read_field s of
        (f, []) \<Rightarrow> ([f], [])
      | (f, c # cs) \<Rightarrow> if c = CHR '','' then (let (fs, r) = read_row cs in (f # fs, r)) else ([f], cs))"
  by pat_completeness auto
termination
proof (relation "measure length", simp)
  fix s x y c and cs :: string
  assume "(x, y) = read_field s" "y = c # cs" "c = CHR '',''"
  then show "(cs, s) \<in> measure length"
    using read_field_length[of s] by (metis Suc_le_lessD in_measure length_Cons snd_conv)
qed

declare read_row.simps [simp del]

lemma read_row_length: "s \<noteq> [] \<Longrightarrow> length (snd (read_row s)) < length s"
proof (induction s rule: read_row.induct)
  case (1 s)
  obtain f r where r: "read_field s = (f, r)" by fastforce
  have l: "length r \<le> length s" using read_field_length[of s] r by simp
  show ?case
  proof (cases r)
    case Nil
    with r 1(2) show ?thesis by (subst read_row.simps) simp
  next
    case (Cons c cs)
    show ?thesis
    proof (cases "c = CHR '','' \<and> cs \<noteq> []")
      case True
      from 1(1)[OF r[symmetric] Cons] True have "length (snd (read_row cs)) < length cs" by simp
      with r Cons l True show ?thesis by (subst read_row.simps) (simp add: split_beta)
    next
      case False
      have "snd (read_row []) = []" by (subst read_row.simps) (simp add: read_field_def)
      with r Cons l False show ?thesis by (subst read_row.simps) (auto simp: split_beta)
    qed
  qed
qed

function read_csv :: "string \<Rightarrow> string list list" where
  "read_csv [] = []"
| "read_csv (c # cs) = (let (row, rest) = read_row (c # cs) in row # read_csv rest)"
  by pat_completeness auto
termination
proof (relation "measure length", simp)
  fix c cs x row rest
  assume "x = read_row (c # cs)" "(row, rest) = x"
  then show "(rest, c # cs) \<in> measure length"
    using read_row_length[of "c # cs"] by (metis in_measure list.distinct(1) snd_conv)
qed

declare read_csv.simps(2) [simp del]

definition field_end :: "string \<Rightarrow> bool" where
  "field_end t \<longleftrightarrow> t = [] \<or> \<not> plain_char (hd t)"

lemma field_end_simps [simp]: "field_end []" "field_end (CHR '','' # t)" "field_end (CHR 0x0A # t)"
  by (simp_all add: field_end_def plain_char_def)

lemma read_quoted_escape:
  assumes "field_end t"
  shows "read_quoted (concat (map (\<lambda>c. if c = CHR 0x22 then [c, c] else [c]) s) @ CHR 0x22 # t) = (s, t)"
proof (induction s)
  case Nil
  with assms show ?case
    by (cases t) (auto simp: field_end_def plain_char_def)
next
  case (Cons c cs)
  have ne: "concat (map (\<lambda>c. if c = CHR 0x22 then [c, c] else [c]) cs) @ CHR 0x22 # t \<noteq> []" by simp
  then obtain d ds where d: "concat (map (\<lambda>c. if c = CHR 0x22 then [c, c] else [c]) cs) @ CHR 0x22 # t = d # ds"
    by (cases "concat (map (\<lambda>c. if c = CHR 0x22 then [c, c] else [c]) cs) @ CHR 0x22 # t") auto
  show ?case
    using Cons by (cases "c = CHR 0x22") (simp_all add: d)
qed

lemma read_field_csv:
  assumes "field_end t"
  shows "read_field (csv f @ t) = (f, t)"
proof (cases "CHR 0x22 \<in> set f \<or> CHR '','' \<in> set f \<or> CHR 0x0A \<in> set f")
  case True
  then show ?thesis using read_quoted_escape[OF assms, of f] by (simp add: csv_def read_field_def)
next
  case False
  then have p: "\<forall>c \<in> set f. plain_char c" "CHR 0x22 \<notin> set f" by (auto simp: plain_char_def)
  have "takeWhile plain_char (f @ t) = f" "dropWhile plain_char (f @ t) = t"
    using p(1) assms by (cases t; simp add: field_end_def)+
  with p(2) False assms show ?thesis
    by (cases f) (auto simp: csv_def read_field_def field_end_def plain_char_def split: list.splits)
qed

lemma join_not_Nil: "f \<noteq> [] \<Longrightarrow> join sep (f # fs) \<noteq> []"
  by (cases fs) auto

lemma read_row_csv:
  "fs \<noteq> [] \<Longrightarrow> read_row (join '','' (map csv fs) @ CHR 0x0A # t) = (fs, t)"
proof (induction fs)
  case Nil
  then show ?case by simp
next
  case (Cons f fs)
  show ?case
  proof (cases fs)
    case Nil
    then show ?thesis by (subst read_row.simps) (simp add: read_field_csv)
  next
    case (Cons g gs)
    then have "join '','' (map csv (f # fs)) @ CHR 0x0A # t = csv f @ CHR '','' # (join '','' (map csv fs) @ CHR 0x0A # t)"
      by simp
    then show ?thesis
      using Cons.IH Cons by (subst read_row.simps) (simp add: read_field_csv)
  qed
qed

lemma read_csv_rows:
  "(\<And>r. r \<in> set rows \<Longrightarrow> r \<noteq> []) \<Longrightarrow>
   read_csv (concat (map (\<lambda>r. join '','' (map csv r) @ [CHR 0x0A]) rows)) = rows"
proof (induction rows)
  case Nil
  then show ?case by simp
next
  case (Cons r rows)
  let ?tl = "concat (map (\<lambda>r. join '','' (map csv r) @ [CHR 0x0A]) rows)"
  obtain c cs where c: "join '','' (map csv r) @ CHR 0x0A # ?tl = c # cs"
    by (cases "join '','' (map csv r) @ CHR 0x0A # ?tl") auto
  have "read_row (c # cs) = (r, ?tl)"
    using read_row_csv[of r ?tl] Cons.prems by (simp add: c)
  with Cons show ?case by (simp add: c read_csv.simps(2))
qed

lemma join_lines: "ls \<noteq> [] \<Longrightarrow> join [d] ls @ [d] = concat (map (\<lambda>l. l @ [d]) ls)"
  by (induction "[d]" ls rule: join.induct) auto

definition csv_fields :: "mailbox_dto \<Rightarrow> string list" where
  "csv_fields b = [md_address b, md_name b, show_int (md_quota_mb b), md_status b, join '';'' (md_forward_to b)]"

lemma show_int_plain: "c \<in> set (show_int n) \<Longrightarrow> is_digit c \<or> c = CHR ''-''"
  using show_nat_all_digits by (auto simp: show_int_def split: if_splits)

lemma csv_show_int: "csv (show_int n) = show_int n"
  using show_int_plain[of _ n] by (force simp: csv_def is_digit_def)

lemma csv_row_fields:
  "csv (md_status b) = md_status b \<Longrightarrow> csv_row b = join '','' (map csv (csv_fields b))"
  by (simp add: csv_row_def csv_fields_def csv_show_int)

lemma export_lines:
  assumes "\<And>b. b \<in> set boxes \<Longrightarrow> csv (md_status b) = md_status b"
  shows "join [CHR 0x0A] (join '','' (map csv header) # map csv_row boxes) @ [CHR 0x0A] =
    concat (map (\<lambda>r. join '','' (map csv r) @ [CHR 0x0A]) (header # map csv_fields boxes))"
proof -
  have "concat (map (\<lambda>b. csv_row b @ [CHR 0x0A]) boxes) =
      concat (map (\<lambda>b. join '','' (map csv (csv_fields b)) @ [CHR 0x0A]) boxes)"
    by (intro arg_cong[where f = concat] map_cong) (simp_all add: assms csv_row_fields)
  then show ?thesis by (subst join_lines) (simp_all add: comp_def)
qed

lemma export_text:
  assumes "\<And>b. b \<in> set boxes \<Longrightarrow> csv (md_status b) = md_status b"
  shows "join [CHR 0x0A] (''address,name,quota_mb,status,forward_to'' # map csv_row boxes) @ [CHR 0x0A] =
    concat (map (\<lambda>r. join '','' (map csv r) @ [CHR 0x0A])
      ([''address'', ''name'', ''quota_mb'', ''status'', ''forward_to''] # map csv_fields boxes))"
proof -
  have h: "''address,name,quota_mb,status,forward_to'' =
      join '','' (map csv [''address'', ''name'', ''quota_mb'', ''status'', ''forward_to''])"
    by (simp add: csv_def)
  show ?thesis unfolding h by (rule export_lines[OF assms])
qed

lemma exportCsv_Inr:
  assumes "exportCsv coll org u s = (Inr out, t)"
  shows "t = s \<and> (\<exists>boxes. listOrgMailboxes coll org u s = (Inr boxes, s) \<and>
    out = join [CHR 0x0A] (''address,name,quota_mb,status,forward_to'' # map csv_row boxes) @ [CHR 0x0A])"
proof -
  have ro: "readonly (listOrgMailboxes coll org u)"
    unfolding listOrgMailboxes_def by (intro readonly_intro)
  with assms show ?thesis
    by (auto simp: exportCsv_def run_iffs requireRole_Inr dest: readonlyD[OF ro])
qed

lemma listOrgMailboxes_status:
  assumes "listOrgMailboxes coll org u s = (Inr boxes, t)" "b \<in> set boxes"
  shows "\<exists>m \<in> set (mailboxes s). md_status b = mb_status m"
  using assms by (auto simp: listOrgMailboxes_def run_iffs requireRole_Inr mailbox_join_def toMailbox_def)

text \<open>
  the CSV export loses nothing. Reading the exported text with an RFC 4180 reader gives
  the header and, for every mailbox of the organization in order, exactly its address,
  name, quota, status and forward list, whatever commas, quotes and line feeds the names
  contain (the status is one of the three values the table allows).
\<close>

theorem exportCsv_roundtrip:
  assumes "exportCsv coll org u s = (Inr out, t)"
    and "\<forall>m \<in> set (mailboxes s). mb_status m \<in> {''active'', ''suspended'', ''disabled''}"
  shows "\<exists>boxes. listOrgMailboxes coll org u s = (Inr boxes, s) \<and>
    read_csv out = [''address'', ''name'', ''quota_mb'', ''status'', ''forward_to''] # map csv_fields boxes"
proof -
  from exportCsv_Inr[OF assms(1)] obtain boxes where b: "listOrgMailboxes coll org u s = (Inr boxes, s)"
    "out = join [CHR 0x0A] (''address,name,quota_mb,status,forward_to'' # map csv_row boxes) @ [CHR 0x0A]" by blast
  have st: "csv (md_status x) = md_status x" if "x \<in> set boxes" for x
    using listOrgMailboxes_status[OF b(1) that] assms(2) by (auto simp: csv_def)
  have "read_csv out = [''address'', ''name'', ''quota_mb'', ''status'', ''forward_to''] # map csv_fields boxes"
    unfolding b(2) by (subst export_text[OF st], assumption, rule read_csv_rows) (auto simp: csv_fields_def)
  with b(1) show ?thesis by blast
qed

definition quoted_box :: mailbox_row where
  "quoted_box = \<lparr>mb_id = 28, mb_domain_id = 26, mb_local_part = ''ceo'', mb_name = ''Roe, J.'', mb_password_hash = ''x'',
     mb_quota_mb = 5, mb_quota_used_bytes = 0, mb_status = ''active'', mb_imap_enabled = True, mb_pop3_enabled = True,
     mb_smtp_enabled = True, mb_sieve_enabled = True, mb_autoresponder = None, mb_forward_to = [],
     mb_forward_keep_copy = True, mb_created_at = 0, mb_updated_at = 0\<rparr>"

theorem exportCsv_roundtrip_witness:
  "\<exists>out. exportCsv (\<lambda>x. length x) 20 11 (acme_mail\<lparr>mailboxes := [quoted_box]\<rparr>) =
     (Inr out, acme_mail\<lparr>mailboxes := [quoted_box]\<rparr>) \<and>
   map (\<lambda>r. r ! 1) (read_csv out) = [''name'', ''Roe, J.'']"
proof -
  let ?s = "acme_mail\<lparr>mailboxes := [quoted_box]\<rparr>"
  have l: "listOrgMailboxes (\<lambda>x. length x) 20 11 ?s =
      (Inr [toMailbox (quoted_box, plain_domain 26 20 ''acme.io'' (Some 2))], ?s)"
    by (simp add: listOrgMailboxes_def requireRole_def memberRole_def svc_simps acme_mail_eval mailbox_join_def quoted_box_def)
  then obtain out where x: "exportCsv (\<lambda>x. length x) 20 11 ?s = (Inr out, ?s)"
    by (simp add: exportCsv_def requireRole_def memberRole_def svc_simps acme_mail_eval)
  from exportCsv_roundtrip[OF x] l have "read_csv out =
      [[''address'', ''name'', ''quota_mb'', ''status'', ''forward_to''],
       csv_fields (toMailbox (quoted_box, plain_domain 26 20 ''acme.io'' (Some 2)))]"
    by (simp add: quoted_box_def)
  with x show ?thesis by (simp add: csv_fields_def toMailbox_def quoted_box_def)
qed

end
