(* ===== verification/JM_ApiKeys.thy ===== *)
theory JM_ApiKeys
  imports JM_Tenant
begin

text \<open>
  \<open>ApiKeysService\<close> (\<open>apps/api/src/apikeys/apikeys.service.ts\<close>): issuing, listing,
  revoking and resolving API keys. \<open>sha256\<close> is the hexadecimal digest and \<open>rnd\<close> the
  base64url text of \<open>randomBytes(28)\<close>. The write of \<open>last_used_at\<close> that \<open>resolve\<close> starts
  without waiting is modelled at the point of the call.
\<close>

record api_key_dto =
  kd_id :: uuid
  kd_name :: string
  kd_key_prefix :: string
  kd_scopes :: "string list"
  kd_last_used_at :: "timestamp option"
  kd_expires_at :: "timestamp option"
  kd_revoked_at :: "timestamp option"
  kd_created_at :: timestamp

definition toApiKey :: "api_key_row \<Rightarrow> api_key_dto" where
  "toApiKey r = \<lparr>kd_id = k_id r, kd_name = k_name r, kd_key_prefix = k_key_prefix r, kd_scopes = k_scopes r,
     kd_last_used_at = k_last_used_at r, kd_expires_at = k_expires_at r, kd_revoked_at = k_revoked_at r,
     kd_created_at = k_created_at r\<rparr>"

record api_key_principal =
  ak_key_id :: uuid
  ak_org_id :: uuid
  ak_scopes :: "string list"

record create_key_request =
  ck_name :: string
  ck_scopes :: "string list option"
  ck_expires_at :: "timestamp option"

definition listApiKeys :: "uuid \<Rightarrow> uuid \<Rightarrow> ('z db_scheme, api_key_dto list) svc" where
  "listApiKeys orgId userId =
     thenM (requireRole orgId userId Admin)
     (getsM (\<lambda>s. map toApiKey (sort_key (\<lambda>k. - k_created_at k) (filter (\<lambda>k. k_org_id k = orgId) (api_keys s)))))"

text \<open>\<open>INSERT INTO api_keys\<close>: the hash is unique (23505), the creator a user (23503).\<close>

definition insert_key ::
  "uuid \<Rightarrow> string \<Rightarrow> string \<Rightarrow> string \<Rightarrow> string list \<Rightarrow> timestamp option \<Rightarrow> uuid \<Rightarrow> ('z db_scheme, api_key_row) svc" where
  "insert_key orgId name prefix hash scopes expires userId = (\<lambda>s.
     if hash \<in> k_key_hash ` set (api_keys s) then (Inl (DbError ''23505''), s)
     else if userId \<notin> u_id ` set (users s) then (Inl (DbError ''23503''), s)
     else let r = \<lparr>k_id = next_id s, k_org_id = orgId, k_name = name, k_key_prefix = prefix, k_key_hash = hash,
                   k_scopes = scopes, k_last_used_at = None, k_expires_at = expires, k_created_by = Some userId,
                   k_created_at = now s, k_revoked_at = None\<rparr>
          in (Inr r, s\<lparr>api_keys := api_keys s @ [r], next_id := next_id s + 1\<rparr>))"

definition createApiKey ::
  "(string \<Rightarrow> string) \<Rightarrow> string \<Rightarrow> principal \<Rightarrow> uuid \<Rightarrow> create_key_request \<Rightarrow> string option
     \<Rightarrow> ('z db_scheme, api_key_dto \<times> string) svc" where
  "createApiKey sha256 rnd p orgId req ip =
     thenM (requireRole orgId (p_user_id p) Admin)
     (let token = ''jm_'' @ rnd; prefix = take 10 token; hash = sha256 token in
      bindM (insert_key orgId (ck_name req) prefix hash
               (case ck_scopes req of None \<Rightarrow> [] | Some x \<Rightarrow> x) (ck_expires_at req) (p_user_id p)) (\<lambda>r.
      thenM (audit_log (user_entry (Some orgId) p ''apikey.create'' ''api_key'' (k_id r) ip
               ((''name'', JStr (ck_name req)) #
                (case ck_scopes req of None \<Rightarrow> [] | Some x \<Rightarrow> [(''scopes'', JArr (map JStr x))]))))
     (returnM (toApiKey r, token))))"

definition mark_revoked :: "uuid \<Rightarrow> uuid \<Rightarrow> 'z db_scheme \<Rightarrow> 'z db_scheme" where
  "mark_revoked orgId i s = s\<lparr>api_keys := map (\<lambda>k. if k_id k = i \<and> k_org_id k = orgId \<and> k_revoked_at k = None
      then k\<lparr>k_revoked_at := Some (now s)\<rparr> else k) (api_keys s)\<rparr>"

definition revokeApiKey :: "principal \<Rightarrow> uuid \<Rightarrow> uuid \<Rightarrow> string option \<Rightarrow> ('z db_scheme, unit) svc" where
  "revokeApiKey p orgId i ip =
     thenM (requireRole orgId (p_user_id p) Admin)
     (bindM (getsM (\<lambda>s. \<exists>k \<in> set (api_keys s). k_id k = i \<and> k_org_id k = orgId \<and> k_revoked_at k = None)) (\<lambda>hit.
      thenM (modifyM (mark_revoked orgId i))
     (thenM (throwIf (\<not> hit) (NotFoundException ''Key not found'' None))
     (audit_log (user_entry (Some orgId) p ''apikey.revoke'' ''api_key'' i ip [])))))"

definition touch_key :: "uuid \<Rightarrow> 'z db_scheme \<Rightarrow> 'z db_scheme" where
  "touch_key i s = s\<lparr>api_keys := map (\<lambda>k. if k_id k = i then k\<lparr>k_last_used_at := Some (now s)\<rparr> else k) (api_keys s)\<rparr>"

definition resolveApiKey :: "(string \<Rightarrow> string) \<Rightarrow> string \<Rightarrow> ('z db_scheme, api_key_principal) svc" where
  "resolveApiKey sha256 token =
     bindM (getsM (\<lambda>s. (find (\<lambda>k. k_key_hash k = sha256 token) (api_keys s), now s))) (\<lambda>(row, nw).
     bindM (someM row (UnauthorizedException ''Invalid API key'' None)) (\<lambda>key.
     thenM (throwIf (k_key_hash key \<noteq> sha256 token) (UnauthorizedException ''Invalid API key'' None))
     (thenM (throwIf (k_revoked_at key \<noteq> None) (UnauthorizedException ''API key revoked'' None))
     (thenM (throwIf (case k_expires_at key of None \<Rightarrow> False | Some e \<Rightarrow> e < nw)
               (UnauthorizedException ''API key expired'' None))
     (thenM (modifyM (touch_key (k_id key)))
     (returnM \<lparr>ak_key_id = k_id key, ak_org_id = k_org_id key, ak_scopes = k_scopes key\<rparr>))))))"

section \<open>Keys are found by their hash\<close>

definition keys_wf :: "'z db_scheme \<Rightarrow> bool" where
  "keys_wf s \<longleftrightarrow> distinct (map k_key_hash (api_keys s)) \<and> distinct (map k_id (api_keys s))"

lemma resolveApiKey_Inr:
  "resolveApiKey sha256 token s = (Inr a, t) \<longleftrightarrow>
     (\<exists>k. find (\<lambda>k. k_key_hash k = sha256 token) (api_keys s) = Some k \<and> k_revoked_at k = None \<and>
        (\<forall>e. k_expires_at k = Some e \<longrightarrow> now s \<le> e) \<and> t = touch_key (k_id k) s \<and>
        a = \<lparr>ak_key_id = k_id k, ak_org_id = k_org_id k, ak_scopes = k_scopes k\<rparr>)"
proof (cases "find (\<lambda>k. k_key_hash k = sha256 token) (api_keys s)")
  case None
  then show ?thesis by (simp add: resolveApiKey_def bindM_getsM run_iffs)
next
  case (Some k)
  with find_SomeD[OF Some] show ?thesis
    by (cases "k_expires_at k") (auto simp: resolveApiKey_def bindM_getsM run_iffs)
qed

lemma find_by_hash:
  "keys_wf s \<Longrightarrow> k \<in> set (api_keys s) \<Longrightarrow> find (\<lambda>x. k_key_hash x = k_key_hash k) (api_keys s) = Some k"
  using find_key_unique[of k_key_hash "api_keys s" k "k_key_hash k" "\<lambda>_. True"] by (simp add: keys_wf_def)

lemma createApiKey_Inr:
  assumes "createApiKey sha256 rnd p orgId req ip s = (Inr (d, token), t)"
  shows "\<exists>r. token = ''jm_'' @ rnd \<and> d = toApiKey r \<and> k_key_hash r = sha256 token \<and> k_org_id r = orgId \<and>
    k_id r = next_id s \<and> k_scopes r = (case ck_scopes req of None \<Rightarrow> [] | Some x \<Rightarrow> x) \<and>
    k_expires_at r = ck_expires_at req \<and> k_revoked_at r = None \<and>
    sha256 token \<notin> k_key_hash ` set (api_keys s) \<and> now t = now s \<and> api_keys t = api_keys s @ [r] \<and>
    (\<exists>role. effectiveRole s orgId (p_user_id p) = Some role \<and> ROLE_RANK Admin \<le> ROLE_RANK role)"
  using assms
  by (auto simp: createApiKey_def svc_iffs requireRole_Inr insert_key_def Let_def split: if_splits)

section \<open>Properties\<close>

text \<open>
  a freshly issued token resolves to exactly the key it was issued for. As soon as create
  returns, resolving the token answers the key's id, its organization and the requested
  scopes, unless the requested expiry already lies in the past.
\<close>

theorem issued_token_resolves:
  assumes "createApiKey sha256 rnd p orgId req ip s = (Inr (d, token), t)"
    and "case ck_expires_at req of None \<Rightarrow> True | Some e \<Rightarrow> now s \<le> e"
  shows "\<exists>u. resolveApiKey sha256 token t =
    (Inr \<lparr>ak_key_id = kd_id d, ak_org_id = orgId, ak_scopes = (case ck_scopes req of None \<Rightarrow> [] | Some x \<Rightarrow> x)\<rparr>, u)"
proof -
  from createApiKey_Inr[OF assms(1)] obtain r where
    r: "d = toApiKey r" "k_key_hash r = sha256 token" "k_org_id r = orgId" "k_expires_at r = ck_expires_at req"
    "k_scopes r = (case ck_scopes req of None \<Rightarrow> [] | Some x \<Rightarrow> x)" "k_revoked_at r = None"
    "sha256 token \<notin> k_key_hash ` set (api_keys s)" "now t = now s" "api_keys t = api_keys s @ [r]"
    by (elim exE conjE) (rule that; assumption)
  have "find (\<lambda>k. k_key_hash k = sha256 token) (api_keys s) = None"
    using r(7) unfolding find_None_iff_all by (metis image_eqI)
  then have "find (\<lambda>k. k_key_hash k = sha256 token) (api_keys t) = Some r"
    using r by (simp add: find_snoc)
  moreover have "\<forall>e. k_expires_at r = Some e \<longrightarrow> now t \<le> e"
    using assms(2) r(4,8) by (auto split: option.splits)
  ultimately have "resolveApiKey sha256 token t =
      (Inr \<lparr>ak_key_id = k_id r, ak_org_id = k_org_id r, ak_scopes = k_scopes r\<rparr>, touch_key (k_id r) t)"
    unfolding resolveApiKey_Inr using r(6) by blast
  moreover have "kd_id d = k_id r" by (simp add: r(1) toApiKey_def)
  ultimately show ?thesis using r(3,5) by simp
qed

definition ci_key :: create_key_request where
  "ci_key = \<lparr>ck_name = ''ci'', ck_scopes = Some [''write''], ck_expires_at = Some 50\<rparr>"

lemma ci_key_created:
  "\<exists>t. createApiKey id ''abcdefghij'' (as_user 11) 20 ci_key None acme_mail =
     (Inr (\<lparr>kd_id = 30, kd_name = ''ci'', kd_key_prefix = ''jm_abcdefg'', kd_scopes = [''write''], kd_last_used_at = None,
            kd_expires_at = Some 50, kd_revoked_at = None, kd_created_at = 0\<rparr>, ''jm_abcdefghij''), t)"
  by (simp add: createApiKey_def requireRole_def memberRole_def svc_simps audit_log_run insert_key_def
       acme_mail_eval ci_key_def toApiKey_def alice_def Let_def)

theorem issued_token_resolves_witness:
  "\<exists>(t :: db) u. resolveApiKey id ''jm_abcdefghij'' t =
     (Inr \<lparr>ak_key_id = 30, ak_org_id = 20, ak_scopes = [''write'']\<rparr>, u)"
proof -
  from ci_key_created obtain t where t: "createApiKey id ''abcdefghij'' (as_user 11) 20 ci_key None acme_mail =
     (Inr (\<lparr>kd_id = 30, kd_name = ''ci'', kd_key_prefix = ''jm_abcdefg'', kd_scopes = [''write''], kd_last_used_at = None,
            kd_expires_at = Some 50, kd_revoked_at = None, kd_created_at = 0\<rparr>, ''jm_abcdefghij''), t)" by blast
  have "\<exists>u. resolveApiKey id ''jm_abcdefghij'' t = (Inr \<lparr>ak_key_id = 30, ak_org_id = 20, ak_scopes = [''write'']\<rparr>, u)"
    using issued_token_resolves[OF t] by (simp add: ci_key_def acme_mail_eval)
  then show ?thesis by blast
qed

text \<open>
  revoking a key is immediate and final. After revoke succeeds, no token resolves to
  that key, and a caller acting as the key has no role in its organization any more (unless
  the same id is also a member).
\<close>

theorem revoked_key_is_dead:
  assumes "revokeApiKey p orgId i ip s = (Inr (), t)" "distinct (map k_id (api_keys s))"
  shows "(\<nexists>a u. resolveApiKey sha256 token t = (Inr a, u) \<and> ak_key_id a = i) \<and>
    (memberRole t orgId i = None \<longrightarrow> requireRole orgId i need t =
       (Inl (NotFoundException ''Organization not found'' None), t))"
proof -
  from assms(1) obtain k e where k: "k \<in> set (api_keys s)" "k_id k = i"
    and t: "t = audit_insert e (mark_revoked orgId i s)" and "k_org_id k = orgId"
    by (auto simp: revokeApiKey_def svc_iffs requireRole_Inr)
  have dead: "k_revoked_at x \<noteq> None" if "x \<in> set (api_keys t)" "k_id x = i" for x
  proof -
    let ?f = "\<lambda>y. if k_id y = i \<and> k_org_id y = orgId \<and> k_revoked_at y = None then y\<lparr>k_revoked_at := Some (now s)\<rparr> else y"
    from that(1) obtain y where y: "y \<in> set (api_keys s)" "x = ?f y"
      unfolding t mark_revoked_def by auto
    have "k_id (?f y) = k_id y" by simp
    with that(2) y(2) have "k_id y = i" by simp
    with k y(1) assms(2) have "y = k" by (auto simp: distinct_map dest: inj_onD)
    with \<open>k_org_id k = orgId\<close> k(2) show ?thesis unfolding y(2) by simp
  qed
  have "liveKey t i = None"
    using dead by (auto simp: liveKey_def find_None_iff_all)
  then have "effectiveRole t orgId i = None" if "memberRole t orgId i = None"
    using that by (simp add: effectiveRole_def)
  then have "memberRole t orgId i = None \<longrightarrow> requireRole orgId i need t =
      (Inl (NotFoundException ''Organization not found'' None), t)"
    using rg.guard_hide by blast
  moreover have "\<nexists>a u. resolveApiKey sha256 token t = (Inr a, u) \<and> ak_key_id a = i"
  proof clarify
    fix a u assume "resolveApiKey sha256 token t = (Inr a, u)" "i = ak_key_id a"
    then obtain x where x: "find (\<lambda>k. k_key_hash k = sha256 token) (api_keys t) = Some x"
      "k_revoked_at x = None" "k_id x = i"
      unfolding resolveApiKey_Inr by (elim exE conjE) simp
    with find_SomeD[OF x(1)] dead show False by blast
  qed
  ultimately show ?thesis by blast
qed

definition keyed_mail :: db where
  "keyed_mail = acme_mail\<lparr>api_keys := [\<lparr>k_id = 28, k_org_id = 20, k_name = ''ci'', k_key_prefix = ''jm_x'',
     k_key_hash = ''h'', k_scopes = [], k_last_used_at = None, k_expires_at = None, k_created_by = Some 11,
     k_created_at = 0, k_revoked_at = None\<rparr>]\<rparr>"

theorem revoked_key_is_dead_witness:
  "\<exists>t. revokeApiKey (as_user 11) 20 28 None keyed_mail = (Inr (), t) \<and>
     (\<nexists>a u. resolveApiKey id ''h'' t = (Inr a, u) \<and> ak_key_id a = 28)"
proof -
  obtain t where t: "revokeApiKey (as_user 11) 20 28 None keyed_mail = (Inr (), t)"
    by (simp add: revokeApiKey_def requireRole_def memberRole_def svc_simps audit_log_run acme_mail_eval keyed_mail_def)
  with revoked_key_is_dead[OF t, of id "''h''"] show ?thesis by (auto simp: keyed_mail_def)
qed

end
