(* ===== verification/JM_Credentials.thy ===== *)
theory JM_Credentials
  imports JM_Database
begin

text \<open>
  \<open>WebmailCredentialStore\<close> (\<open>apps/api/src/webmail/credential.store.ts\<close>): the sealed
  passwords of unlocked mailboxes, per session and mailbox, with a sliding lifetime. The
  store has two back ends: Redis, with an index set per session, and rows of the
  \<open>settings\<close> table that carry their own expiry.

  The Redis keyspace maps a key to a value and the time it expires, if any; the commands used
  (\<open>GET\<close>, \<open>SET EX\<close>, \<open>DEL\<close>, \<open>SADD\<close>, \<open>SREM\<close>, \<open>SMEMBERS\<close>, \<open>EXPIRE\<close>) act on live keys as
  the command reference says, and \<open>MULTI\<close> runs them in sequence. Values are kept parsed:
  the JSON text of \<open>{address, sealed}\<close> is the pair. \<open>seal\<close> and \<open>unseal\<close> are
  \<open>common/secretbox.ts\<close>; \<open>TTL\<close> is \<open>WEBMAIL_CREDENTIAL_TTL_SECONDS\<close>. Identifiers are
  rendered into keys as decimal numerals.
\<close>

datatype rval = RCred "string \<times> string" | RSet "uuid list"

record stored_value =
  sv_address :: string
  sv_sealed :: string
  sv_expires_at :: int \<comment> \<open>epoch seconds\<close>

record cred_state =
  c_now :: timestamp
  c_keys :: "string \<Rightarrow> (rval \<times> timestamp option) option"
  c_settings :: "(string \<times> stored_value) list"

definition credKey :: "uuid \<Rightarrow> uuid \<Rightarrow> string" where
  "credKey sessionId mailboxId = ''webmail:cred:'' @ show_nat sessionId @ '':'' @ show_nat mailboxId"

definition idxKey :: "uuid \<Rightarrow> string" where
  "idxKey sessionId = ''webmail:cred:idx:'' @ show_nat sessionId"

definition settingsKey :: "uuid \<Rightarrow> uuid \<Rightarrow> string" where
  "settingsKey sessionId mailboxId = ''webmail.session:'' @ show_nat sessionId @ ''.'' @ show_nat mailboxId"

definition settingsPrefix :: "uuid \<Rightarrow> string" where
  "settingsPrefix sessionId = ''webmail.session:'' @ show_nat sessionId @ ''.''"

subsection \<open>Redis commands\<close>

definition unexpired :: "timestamp \<Rightarrow> timestamp option \<Rightarrow> bool" where
  "unexpired nw e = (case e of None \<Rightarrow> True | Some t \<Rightarrow> nw < t)"

definition r_live :: "cred_state \<Rightarrow> string \<Rightarrow> (rval \<times> timestamp option) option" where
  "r_live s k = (case c_keys s k of None \<Rightarrow> None | Some (v, e) \<Rightarrow> if unexpired (c_now s) e then Some (v, e) else None)"

definition r_put :: "string \<Rightarrow> (rval \<times> timestamp option) option \<Rightarrow> cred_state \<Rightarrow> cred_state" where
  "r_put k x s = s\<lparr>c_keys := (c_keys s)(k := x)\<rparr>"

definition r_del :: "string \<Rightarrow> cred_state \<Rightarrow> cred_state" where
  "r_del k = r_put k None"

definition r_set_ex :: "string \<Rightarrow> rval \<Rightarrow> int \<Rightarrow> cred_state \<Rightarrow> cred_state" where
  "r_set_ex k v ttl s = r_put k (Some (v, Some (c_now s + ttl * 1000))) s"

definition r_expire :: "string \<Rightarrow> int \<Rightarrow> cred_state \<Rightarrow> cred_state" where
  "r_expire k ttl s = (case r_live s k of None \<Rightarrow> s | Some (v, e) \<Rightarrow> r_put k (Some (v, Some (c_now s + ttl * 1000))) s)"

definition r_smembers :: "string \<Rightarrow> cred_state \<Rightarrow> uuid list" where
  "r_smembers k s = (case r_live s k of Some (RSet ids, e) \<Rightarrow> ids | _ \<Rightarrow> [])"

text \<open>A set created by \<open>SADD\<close> does not expire.\<close>

definition r_sadd :: "string \<Rightarrow> uuid \<Rightarrow> cred_state \<Rightarrow> cred_state" where
  "r_sadd k x s = (case r_live s k of
       Some (RSet ids, e) \<Rightarrow> r_put k (Some (RSet (List.insert x ids), e)) s
     | _ \<Rightarrow> r_put k (Some (RSet [x], None)) s)"

definition r_srem :: "string \<Rightarrow> uuid \<Rightarrow> cred_state \<Rightarrow> cred_state" where
  "r_srem k x s = (case r_live s k of
       Some (RSet ids, e) \<Rightarrow> (let ids' = removeAll x ids in if ids' = [] then r_del k s else r_put k (Some (RSet ids', e)) s)
     | _ \<Rightarrow> s)"

section \<open>The Redis back end\<close>

definition redis_store ::
  "(string \<Rightarrow> string) \<Rightarrow> int \<Rightarrow> uuid \<Rightarrow> uuid \<Rightarrow> string \<Rightarrow> string \<Rightarrow> (cred_state, unit) svc" where
  "redis_store seal ttl sessionId mailboxId address password =
     modifyM (\<lambda>s. r_expire (idxKey sessionId) ttl
                (r_sadd (idxKey sessionId) mailboxId
                (r_set_ex (credKey sessionId mailboxId) (RCred (address, seal password)) ttl s)))"

definition redis_get ::
  "(string \<Rightarrow> string option) \<Rightarrow> int \<Rightarrow> uuid \<Rightarrow> uuid \<Rightarrow> (cred_state, (string \<times> string) option) svc" where
  "redis_get unseal ttl sessionId mailboxId = (\<lambda>s.
     case r_live s (credKey sessionId mailboxId) of
       Some (RCred (address, sealed), e) \<Rightarrow>
         thenM (modifyM (\<lambda>s. r_expire (idxKey sessionId) ttl (r_expire (credKey sessionId mailboxId) ttl s)))
         (bindM (someM (unseal sealed) (HttpException 500 ''Error'' None)) (\<lambda>pw.
          returnM (Some (address, pw)))) s
     | _ \<Rightarrow> returnM None s)"

definition redis_remove :: "uuid \<Rightarrow> uuid \<Rightarrow> (cred_state, unit) svc" where
  "redis_remove sessionId mailboxId =
     modifyM (\<lambda>s. r_srem (idxKey sessionId) mailboxId (r_del (credKey sessionId mailboxId) s))"

definition redis_purge :: "uuid \<Rightarrow> (cred_state, unit) svc" where
  "redis_purge sessionId =
     bindM (getsM (r_smembers (idxKey sessionId))) (\<lambda>ids.
     modifyM (fold r_del (map (credKey sessionId) ids @ [idxKey sessionId])))"

section \<open>The settings back end\<close>

text \<open>The rows are keyed: \<open>ON CONFLICT (key) DO UPDATE\<close> replaces the value.\<close>

definition put_setting :: "string \<Rightarrow> stored_value \<Rightarrow> cred_state \<Rightarrow> cred_state" where
  "put_setting k v s = s\<lparr>c_settings := filter (\<lambda>(k', _). k' \<noteq> k) (c_settings s) @ [(k, v)]\<rparr>"

definition delete_settings :: "(string \<Rightarrow> stored_value \<Rightarrow> bool) \<Rightarrow> cred_state \<Rightarrow> cred_state" where
  "delete_settings P s = s\<lparr>c_settings := filter (\<lambda>(k, v). \<not> P k v) (c_settings s)\<rparr>"

definition settings_store ::
  "(string \<Rightarrow> string) \<Rightarrow> int \<Rightarrow> uuid \<Rightarrow> uuid \<Rightarrow> string \<Rightarrow> string \<Rightarrow> (cred_state, unit) svc" where
  "settings_store seal ttl sessionId mailboxId address password =
     modifyM (\<lambda>s. put_setting (settingsKey sessionId mailboxId)
        \<lparr>sv_address = address, sv_sealed = seal password, sv_expires_at = c_now s div 1000 + ttl\<rparr> s)"

definition settings_remove :: "uuid \<Rightarrow> uuid \<Rightarrow> (cred_state, unit) svc" where
  "settings_remove sessionId mailboxId = modifyM (delete_settings (\<lambda>k _. k = settingsKey sessionId mailboxId))"

definition settings_get ::
  "(string \<Rightarrow> string option) \<Rightarrow> int \<Rightarrow> uuid \<Rightarrow> uuid \<Rightarrow> (cred_state, (string \<times> string) option) svc" where
  "settings_get unseal ttl sessionId mailboxId =
     bindM (getsM (\<lambda>s. (map_of (c_settings s) (settingsKey sessionId mailboxId), c_now s div 1000))) (\<lambda>(row, nw).
     case row of
       None \<Rightarrow> returnM None
     | Some v \<Rightarrow>
         if sv_expires_at v \<le> nw then thenM (settings_remove sessionId mailboxId) (returnM None)
         else thenM (modifyM (put_setting (settingsKey sessionId mailboxId) (v\<lparr>sv_expires_at := nw + ttl\<rparr>)))
              (bindM (someM (unseal (sv_sealed v)) (HttpException 500 ''Error'' None)) (\<lambda>pw.
               returnM (Some (sv_address v, pw)))))"

definition settings_purge :: "uuid \<Rightarrow> (cred_state, unit) svc" where
  "settings_purge sessionId = modifyM (delete_settings (\<lambda>k _. startsWith k (settingsPrefix sessionId)))"

section \<open>The service\<close>

text \<open>\<open>useRedis\<close> says whether a client was configured (\<open>this.redis\<close>).\<close>

definition cred_store ::
  "bool \<Rightarrow> (string \<Rightarrow> string) \<Rightarrow> int \<Rightarrow> uuid \<Rightarrow> uuid \<Rightarrow> string \<Rightarrow> string \<Rightarrow> (cred_state, unit) svc" where
  "cred_store useRedis seal ttl sessionId mailboxId address password =
     (if useRedis then redis_store seal ttl sessionId mailboxId address password
      else settings_store seal ttl sessionId mailboxId address password)"

definition cred_get ::
  "bool \<Rightarrow> (string \<Rightarrow> string option) \<Rightarrow> int \<Rightarrow> uuid \<Rightarrow> uuid \<Rightarrow> (cred_state, (string \<times> string) option) svc" where
  "cred_get useRedis unseal ttl sessionId mailboxId =
     (if useRedis then redis_get unseal ttl sessionId mailboxId
      else settings_get unseal ttl sessionId mailboxId)"

definition cred_remove :: "bool \<Rightarrow> uuid \<Rightarrow> uuid \<Rightarrow> (cred_state, unit) svc" where
  "cred_remove useRedis sessionId mailboxId =
     (if useRedis then redis_remove sessionId mailboxId else settings_remove sessionId mailboxId)"

definition cred_purgeSession :: "bool \<Rightarrow> uuid \<Rightarrow> (cred_state, unit) svc" where
  "cred_purgeSession useRedis sessionId =
     (if useRedis then redis_purge sessionId else settings_purge sessionId)"

definition sweepExpired :: "bool \<Rightarrow> (cred_state, nat) svc" where
  "sweepExpired useRedis =
     (if useRedis then returnM 0
      else bindM (getsM (\<lambda>s. length (filter (\<lambda>(k, v). startsWith k ''webmail.session:'' \<and> sv_expires_at v \<le> c_now s div 1000)
                    (c_settings s)))) (\<lambda>n.
           thenM (\<lambda>s. (Inr (), delete_settings (\<lambda>k v. startsWith k ''webmail.session:'' \<and>
                    sv_expires_at v \<le> c_now s div 1000) s))
           (returnM n)))"

section \<open>The contract of a credential store\<close>

text \<open>
  What both back ends promise: a map from session and mailbox to a sealed credential,
  updated by \<open>store\<close>, \<open>remove\<close> and \<open>purge\<close>, read by \<open>get\<close>, in which entries fade with time.
\<close>

locale credential_store =
  fixes store :: "uuid \<Rightarrow> uuid \<Rightarrow> string \<Rightarrow> string \<Rightarrow> ('s, unit) svc"
    and get :: "uuid \<Rightarrow> uuid \<Rightarrow> ('s, (string \<times> string) option) svc"
    and remove :: "uuid \<Rightarrow> uuid \<Rightarrow> ('s, unit) svc"
    and purge :: "uuid \<Rightarrow> ('s, unit) svc"
    and wait :: "int \<Rightarrow> 's \<Rightarrow> 's"
    and lookup :: "'s \<Rightarrow> uuid \<Rightarrow> uuid \<Rightarrow> (string \<times> string) option"
    and inv :: "'s \<Rightarrow> bool"
    and seal :: "string \<Rightarrow> string"
    and unseal :: "string \<Rightarrow> string option"
    and ttl :: int
  assumes store_ok: "inv s \<Longrightarrow> \<exists>t. store a m addr pw s = (Inr (), t) \<and> inv t \<and>
      lookup t = (\<lambda>x y. if x = a \<and> y = m then Some (addr, seal pw) else lookup s x y)"
    and get_locked: "inv s \<Longrightarrow> lookup s a m = None \<Longrightarrow> \<exists>t. get a m s = (Inr None, t) \<and> inv t \<and> lookup t = lookup s"
    and get_open: "inv s \<Longrightarrow> lookup s a m = Some (addr, c) \<Longrightarrow> unseal c = Some pw \<Longrightarrow>
      \<exists>t. get a m s = (Inr (Some (addr, pw)), t) \<and> inv t \<and> lookup t = lookup s"
    and get_inv: "inv s \<Longrightarrow> inv (snd (get a m s))"
    and remove_ok: "inv s \<Longrightarrow> \<exists>t. remove a m s = (Inr (), t) \<and> inv t \<and>
      lookup t = (\<lambda>x y. if x = a \<and> y = m then None else lookup s x y)"
    and purge_ok: "inv s \<Longrightarrow> \<exists>t. purge a s = (Inr (), t) \<and> inv t \<and>
      lookup t = (\<lambda>x y. if x = a then None else lookup s x y)"
    and wait_ok: "inv s \<Longrightarrow> 0 \<le> d \<Longrightarrow> inv (wait d s) \<and>
      (lookup (wait d s) a m = None \<or> lookup (wait d s) a m = lookup s a m)"
    and wait_gone: "inv s \<Longrightarrow> ttl * 1000 \<le> d \<Longrightarrow> lookup (wait d s) a m = None"
begin

lemma store_then_get:
  assumes "inv s" "unseal (seal pw) = Some pw"
  shows "\<exists>t u. store a m addr pw s = (Inr (), t) \<and> get a m t = (Inr (Some (addr, pw)), u) \<and> inv u"
proof -
  from store_ok[OF assms(1)] obtain t where t: "store a m addr pw s = (Inr (), t)" "inv t"
    "lookup t = (\<lambda>x y. if x = a \<and> y = m then Some (addr, seal pw) else lookup s x y)" by blast
  then have "lookup t a m = Some (addr, seal pw)" by simp
  from get_open[OF t(2) this assms(2)] t(1) show ?thesis by blast
qed

lemma purge_locks:
  assumes "inv s"
  shows "\<exists>t. purge a s = (Inr (), t) \<and> (\<forall>m. \<exists>u. get a m t = (Inr None, u)) \<and>
    (\<forall>b m. b \<noteq> a \<longrightarrow> lookup t b m = lookup s b m)"
proof -
  from purge_ok[OF assms, of a] obtain t where t: "purge a s = (Inr (), t)" "inv t"
    "lookup t = (\<lambda>x y. if x = a then None else lookup s x y)" by blast
  have "\<exists>u. get a m t = (Inr None, u)" for m
    using get_locked[OF t(2), of a m] t(3) by auto
  with t show ?thesis by auto
qed

lemma ops_inv:
  assumes "inv s"
  shows "inv (snd (store a m addr pw s))" "inv (snd (remove a m s))" "inv (snd (purge a s))"
  using store_ok[OF assms, of a m addr pw] remove_ok[OF assms, of a m] purge_ok[OF assms, of a] by force+

lemma idle_locks:
  assumes "inv s" "0 \<le> d" "ttl * 1000 \<le> d"
  shows "\<exists>u. get a m (wait d s) = (Inr None, u)"
  using get_locked[of "wait d s" a m] wait_ok[OF assms(1,2)] wait_gone[OF assms(1,3)] by auto

end

section \<open>Keys\<close>

lemma digits_colon: "CHR '':'' \<notin> set (show_nat n)" "CHR ''.'' \<notin> set (show_nat n)"
  using show_nat_all_digits[of n] by (auto simp: is_digit_def)

lemma append_delim:
  "d \<notin> set xs \<Longrightarrow> d \<notin> set ys \<Longrightarrow> xs @ d # u = ys @ d # v \<longleftrightarrow> xs = ys \<and> u = v"
proof (induction xs arbitrary: ys)
  case Nil
  then show ?case by (cases ys) auto
next
  case (Cons x xs)
  then show ?case by (cases ys) auto
qed

lemma credKey_inj [simp]: "credKey a m = credKey b n \<longleftrightarrow> a = b \<and> m = n"
  by (simp add: credKey_def append_delim digits_colon show_nat_inj)

lemma idxKey_inj [simp]: "idxKey a = idxKey b \<longleftrightarrow> a = b"
  by (simp add: idxKey_def show_nat_inj)

lemma settingsKey_inj [simp]: "settingsKey a m = settingsKey b n \<longleftrightarrow> a = b \<and> m = n"
  by (simp add: settingsKey_def append_delim digits_colon show_nat_inj)

lemma show_nat_not_i: "show_nat a @ x \<noteq> CHR ''i'' # y"
  using show_nat_all_digits[of a] by (cases "show_nat a") (auto simp: is_digit_def)

lemma credKey_idxKey [simp]: "credKey a m \<noteq> idxKey b" "idxKey b \<noteq> credKey a m"
proof -
  show "credKey a m \<noteq> idxKey b" by (simp add: credKey_def idxKey_def show_nat_not_i)
  then show "idxKey b \<noteq> credKey a m" by metis
qed

lemma startsWith_settings: "startsWith (settingsKey a m) (settingsPrefix b) \<longleftrightarrow> a = b"
  by (auto simp: startsWith_iff settingsKey_def settingsPrefix_def append_delim digits_colon show_nat_inj)

section \<open>Both back ends meet the contract\<close>

definition pass_time :: "int \<Rightarrow> cred_state \<Rightarrow> cred_state" where
  "pass_time d s = s\<lparr>c_now := c_now s + d\<rparr>"

subsection \<open>Settings rows\<close>

definition settings_lookup :: "cred_state \<Rightarrow> uuid \<Rightarrow> uuid \<Rightarrow> (string \<times> string) option" where
  "settings_lookup s a m = (case map_of (c_settings s) (settingsKey a m) of None \<Rightarrow> None
     | Some v \<Rightarrow> if sv_expires_at v \<le> c_now s div 1000 then None else Some (sv_address v, sv_sealed v))"

definition settings_inv :: "int \<Rightarrow> cred_state \<Rightarrow> bool" where
  "settings_inv ttl s \<longleftrightarrow> (\<forall>(k, v) \<in> set (c_settings s). sv_expires_at v \<le> c_now s div 1000 + ttl)"

lemma map_of_filter_key: "map_of (filter (\<lambda>(k, v). P k) xs) k = (if P k then map_of xs k else None)"
  by (induction xs) auto

lemma put_setting_lookup [simp]:
  "map_of (c_settings (put_setting k v s)) = (map_of (c_settings s))(k \<mapsto> v)" "c_now (put_setting k v s) = c_now s"
  by (auto simp: put_setting_def map_add_def map_of_filter_key[where P = "\<lambda>k'. k' \<noteq> k"] fun_eq_iff split: option.splits)

lemma delete_settings_lookup [simp]:
  "map_of (c_settings (delete_settings (\<lambda>k _. P k) s)) k = (if P k then None else map_of (c_settings s) k)"
  "c_now (delete_settings (\<lambda>k _. P k) s) = c_now s"
  by (simp_all add: delete_settings_def map_of_filter_key[where P = "\<lambda>k. \<not> P k"])

lemma settings_inv_put:
  "settings_inv ttl s \<Longrightarrow> sv_expires_at v \<le> c_now s div 1000 + ttl \<Longrightarrow> settings_inv ttl (put_setting k v s)"
  by (auto simp: settings_inv_def put_setting_def)

lemma settings_inv_delete: "settings_inv ttl s \<Longrightarrow> settings_inv ttl (delete_settings P s)"
  by (auto simp: settings_inv_def delete_settings_def)

lemma div_1000_mono: "0 \<le> d \<Longrightarrow> x div 1000 \<le> (x + d) div (1000 :: int)"
  by (simp add: zdiv_mono1)

lemma settings_get_run:
  "settings_get unseal ttl a m s =
     (case map_of (c_settings s) (settingsKey a m) of
        None \<Rightarrow> (Inr None, s)
      | Some v \<Rightarrow>
          if sv_expires_at v \<le> c_now s div 1000 then (Inr None, delete_settings (\<lambda>k _. k = settingsKey a m) s)
          else let t = put_setting (settingsKey a m) (v\<lparr>sv_expires_at := c_now s div 1000 + ttl\<rparr>) s in
            (case unseal (sv_sealed v) of None \<Rightarrow> (Inl (HttpException 500 ''Error'' None), t)
             | Some pw \<Rightarrow> (Inr (Some (sv_address v, pw)), t)))"
  by (auto simp: settings_get_def settings_remove_def svc_simps Let_def split: option.splits)

interpretation settings_backend: credential_store "settings_store seal (1 + int n)" "settings_get unseal (1 + int n)"
  settings_remove settings_purge pass_time settings_lookup "settings_inv (1 + int n)" seal unseal "1 + int n"
  for seal unseal n
proof (unfold_locales, goal_cases)
  case (1 s a m addr pw)
  then show ?case
    by (auto simp: settings_store_def modifyM_def settings_lookup_def fun_eq_iff intro: settings_inv_put cong: option.case_cong)
next
  case (2 s a m)
  then show ?case
    by (auto simp: settings_get_run settings_lookup_def fun_eq_iff settings_inv_delete split: option.splits if_splits)
next
  case (3 s a m addr c pw)
  then obtain v where v: "map_of (c_settings s) (settingsKey a m) = Some v" "\<not> sv_expires_at v \<le> c_now s div 1000"
    "addr = sv_address v" "c = sv_sealed v"
    by (auto simp: settings_lookup_def split: option.splits if_splits)
  with 3 show ?case
    by (auto simp: settings_get_run Let_def settings_lookup_def fun_eq_iff intro!: settings_inv_put cong: option.case_cong)
next
  case (4 s a m)
  then show ?case
    by (auto simp: settings_get_run Let_def intro!: settings_inv_put settings_inv_delete split: option.splits)
next
  case (5 s a m)
  then show ?case
    by (auto simp: settings_remove_def modifyM_def settings_lookup_def fun_eq_iff settings_inv_delete cong: option.case_cong)
next
  case (6 s a)
  then show ?case
    by (auto simp: settings_purge_def modifyM_def settings_lookup_def fun_eq_iff settings_inv_delete startsWith_settings cong: option.case_cong)
next
  case (7 s d a m)
  then have "c_now s div 1000 \<le> (c_now s + d) div 1000" by (simp add: div_1000_mono)
  with 7 show ?case
    by (fastforce simp: settings_inv_def settings_lookup_def pass_time_def split: option.splits)
next
  case (8 s d a m)
  have "c_now s div 1000 + (1 + int n) = (c_now s + (1 + int n) * 1000) div 1000" by simp
  also have "\<dots> \<le> (c_now s + d) div 1000" using 8(2) by (intro zdiv_mono1) simp_all
  finally have "sv_expires_at v \<le> (c_now s + d) div 1000" if "map_of (c_settings s) (settingsKey a m) = Some v" for v
    using 8(1) map_of_SomeD[OF that] by (fastforce simp: settings_inv_def)
  then show ?case by (auto simp: settings_lookup_def pass_time_def split: option.splits)
qed

subsection \<open>Redis\<close>

text \<open>
  The index of a session lists every mailbox that still has a live credential and outlives
  it, so a purge through the index misses nothing.
\<close>

definition redis_inv :: "int \<Rightarrow> cred_state \<Rightarrow> bool" where
  "redis_inv ttl s \<longleftrightarrow>
     (\<forall>a m v e. r_live s (credKey a m) = Some (v, e) \<longrightarrow>
        (\<exists>c t ids t'. v = RCred c \<and> e = Some t \<and> r_live s (idxKey a) = Some (RSet ids, Some t') \<and> m \<in> set ids \<and> t \<le> t')) \<and>
     (\<forall>a v e. r_live s (idxKey a) = Some (v, e) \<longrightarrow> (\<exists>ids t. v = RSet ids \<and> e = Some t \<and> t \<le> c_now s + ttl * 1000))"

definition redis_lookup :: "cred_state \<Rightarrow> uuid \<Rightarrow> uuid \<Rightarrow> (string \<times> string) option" where
  "redis_lookup s a m = (case r_live s (credKey a m) of Some (RCred c, e) \<Rightarrow> Some c | _ \<Rightarrow> None)"

lemma redis_invD:
  assumes "redis_inv ttl s" "r_live s (credKey a m) = Some (v, e)"
  obtains c t ids t' where "v = RCred c" "e = Some t" "r_live s (idxKey a) = Some (RSet ids, Some t')"
    "m \<in> set ids" "t \<le> t'" "t' \<le> c_now s + ttl * 1000"
  using assms unfolding redis_inv_def by (metis option.inject prod.inject)

lemma redis_inv_idx:
  assumes "redis_inv ttl s" "r_live s (idxKey a) = Some (v, e)"
  obtains ids t where "v = RSet ids" "e = Some t" "t \<le> c_now s + ttl * 1000"
  using assms unfolding redis_inv_def by metis

lemma r_live_put [simp]:
  "r_live (r_put k x s) k' = (if k' = k then (case x of None \<Rightarrow> None
      | Some (v, e) \<Rightarrow> if unexpired (c_now s) e then Some (v, e) else None) else r_live s k')"
  "c_now (r_put k x s) = c_now s"
  by (simp_all add: r_live_def r_put_def cong: option.case_cong)

lemma r_live_del [simp]: "r_live (r_del k s) k' = (if k' = k then None else r_live s k')" "c_now (r_del k s) = c_now s"
  by (simp_all add: r_del_def)

lemma r_live_fold_del [simp]:
  "r_live (fold r_del ks s) k = (if k \<in> set ks then None else r_live s k)" "c_now (fold r_del ks s) = c_now s"
  by (induction ks arbitrary: s) auto

lemma unexpired_simps [simp]: "unexpired nw None" "unexpired nw (Some t) \<longleftrightarrow> nw < t"
  by (simp_all add: unexpired_def)

lemma r_live_unexpired: "r_live s k = Some (v, e) \<Longrightarrow> unexpired (c_now s) e"
  by (auto simp: r_live_def split: option.splits if_splits)

definition stored :: "int \<Rightarrow> uuid \<Rightarrow> uuid \<Rightarrow> string \<times> string \<Rightarrow> cred_state \<Rightarrow> cred_state" where
  "stored ttl a m c s = r_expire (idxKey a) ttl (r_sadd (idxKey a) m (r_set_ex (credKey a m) (RCred c) ttl s))"

lemma r_live_stored:
  assumes "redis_inv ttl s" "0 < ttl"
  shows "r_live (stored ttl a m c s) k =
    (if k = credKey a m then Some (RCred c, Some (c_now s + ttl * 1000))
     else if k = idxKey a then
       Some (RSet (case r_live s (idxKey a) of Some (RSet ids, e) \<Rightarrow> List.insert m ids | _ \<Rightarrow> [m]), Some (c_now s + ttl * 1000))
     else r_live s k)" "c_now (stored ttl a m c s) = c_now s"
proof -
  consider (none) "r_live s (idxKey a) = None"
    | (idx) ids t where "r_live s (idxKey a) = Some (RSet ids, Some t)" "c_now s < t"
    using redis_inv_idx[OF assms(1)] r_live_unexpired by (metis not_Some_eq surj_pair unexpired_simps(2))
  then show "r_live (stored ttl a m c s) k =
    (if k = credKey a m then Some (RCred c, Some (c_now s + ttl * 1000))
     else if k = idxKey a then
       Some (RSet (case r_live s (idxKey a) of Some (RSet ids, e) \<Rightarrow> List.insert m ids | _ \<Rightarrow> [m]), Some (c_now s + ttl * 1000))
     else r_live s k)" "c_now (stored ttl a m c s) = c_now s"
    using assms(2) by (cases; simp add: stored_def r_expire_def r_sadd_def r_set_ex_def)+
qed

lemma redis_inv_stored:
  assumes "redis_inv ttl s" "0 < ttl"
  shows "redis_inv ttl (stored ttl a m c s)"
proof -
  note live = r_live_stored[OF assms]
  have "\<exists>c' t ids t'. v = RCred c' \<and> e = Some t \<and> r_live (stored ttl a m c s) (idxKey b) = Some (RSet ids, Some t') \<and> n \<in> set ids \<and> t \<le> t'"
    if "r_live (stored ttl a m c s) (credKey b n) = Some (v, e)" for b n v e
  proof (cases "b = a \<and> n = m")
    case True
    with that show ?thesis by (auto simp: live split: option.splits rval.splits)
  next
    case False
    with that have "r_live s (credKey b n) = Some (v, e)" by (auto simp: live)
    from redis_invD[OF assms(1) this] obtain c' t ids t' where "v = RCred c'" "e = Some t"
      "r_live s (idxKey b) = Some (RSet ids, Some t')" "n \<in> set ids" "t \<le> t'" "t' \<le> c_now s + ttl * 1000" by metis
    then show ?thesis by (auto simp: live)
  qed
  moreover have "\<exists>ids t. v = RSet ids \<and> e = Some t \<and> t \<le> c_now s + ttl * 1000"
    if "r_live (stored ttl a m c s) (idxKey b) = Some (v, e)" for b v e
    using that redis_inv_idx[OF assms(1), of b v e] by (auto simp: live split: if_splits)
  ultimately show ?thesis unfolding redis_inv_def live(2) by blast
qed

lemma redis_get_stored:
  assumes "redis_inv ttl s" "r_live s (credKey a m) = Some (RCred c, e)"
  shows "r_live (r_expire (idxKey a) ttl (r_expire (credKey a m) ttl s)) k = r_live (stored ttl a m c s) k"
    "c_now (r_expire (idxKey a) ttl (r_expire (credKey a m) ttl s)) = c_now s"
proof -
  obtain ids t' where i: "r_live s (idxKey a) = Some (RSet ids, Some t')" "m \<in> set ids"
    using redis_invD[OF assms] by metis
  show "c_now (r_expire (idxKey a) ttl (r_expire (credKey a m) ttl s)) = c_now s"
    by (simp add: r_expire_def assms(2) i)
  show "r_live (r_expire (idxKey a) ttl (r_expire (credKey a m) ttl s)) k = r_live (stored ttl a m c s) k"
    using i r_live_unexpired[OF i(1)] by (simp add: stored_def r_expire_def r_sadd_def r_set_ex_def assms(2) List.insert_def)
qed

lemma redis_inv_cong:
  "(\<And>k. r_live s k = r_live t k) \<Longrightarrow> c_now s = c_now t \<Longrightarrow> redis_inv ttl s = redis_inv ttl t"
  by (simp add: redis_inv_def)

lemma redis_get_run:
  "redis_get unseal ttl a m s =
     (case r_live s (credKey a m) of
        Some (RCred (addr, c), e) \<Rightarrow>
          (case unseal c of None \<Rightarrow> Inl (HttpException 500 ''Error'' None) | Some pw \<Rightarrow> Inr (Some (addr, pw)),
           r_expire (idxKey a) ttl (r_expire (credKey a m) ttl s))
      | _ \<Rightarrow> (Inr None, s))"
  by (auto simp: redis_get_def svc_simps split: option.splits rval.splits)

lemma removed_live:
  fixes a m :: uuid
  assumes "redis_inv ttl s"
  defines "t \<equiv> r_srem (idxKey a) m (r_del (credKey a m) s)"
  shows "r_live t (credKey b n) = (if b = a \<and> n = m then None else r_live s (credKey b n))" "c_now t = c_now s"
    "r_live t (idxKey b) = (if b = a then (case r_live s (idxKey a) of
        Some (RSet ids, e) \<Rightarrow> if removeAll m ids = [] then None else Some (RSet (removeAll m ids), e) | _ \<Rightarrow> None)
      else r_live s (idxKey b))"
proof -
  consider (none) "r_live s (idxKey a) = None"
    | (idx) ids e where "r_live s (idxKey a) = Some (RSet ids, Some e)" "c_now s < e"
    using redis_inv_idx[OF assms(1)] r_live_unexpired by (metis not_Some_eq surj_pair unexpired_simps(2))
  then show "r_live t (credKey b n) = (if b = a \<and> n = m then None else r_live s (credKey b n))" "c_now t = c_now s"
    "r_live t (idxKey b) = (if b = a then (case r_live s (idxKey a) of
        Some (RSet ids, e) \<Rightarrow> if removeAll m ids = [] then None else Some (RSet (removeAll m ids), e) | _ \<Rightarrow> None)
      else r_live s (idxKey b))"
    by (cases; simp add: t_def r_srem_def Let_def)+
qed

lemma redis_inv_removed:
  assumes "redis_inv ttl s"
  shows "redis_inv ttl (r_srem (idxKey a) m (r_del (credKey a m) s))" (is "redis_inv ttl ?t")
proof -
  note live = removed_live[OF assms, of a m]
  have "\<exists>c t ids t'. v = RCred c \<and> e = Some t \<and> r_live ?t (idxKey b) = Some (RSet ids, Some t') \<and> n \<in> set ids \<and> t \<le> t'"
    if "r_live ?t (credKey b n) = Some (v, e)" for b n v e
  proof -
    from that have ne: "\<not> (b = a \<and> n = m)" and "r_live s (credKey b n) = Some (v, e)"
      by (auto simp: live split: if_splits)
    from redis_invD[OF assms this(2)] obtain c t ids t' where "v = RCred c" "e = Some t"
      "r_live s (idxKey b) = Some (RSet ids, Some t')" "n \<in> set ids" "t \<le> t'" by metis
    moreover from this ne have "b = a \<Longrightarrow> n \<in> set (removeAll m ids)" by simp
    moreover from this have "b = a \<Longrightarrow> removeAll m ids \<noteq> []" by (metis empty_iff list.set(1))
    ultimately show ?thesis by (auto simp: live simp del: set_removeAll)
  qed
  moreover have "\<exists>ids t. v = RSet ids \<and> e = Some t \<and> t \<le> c_now s + ttl * 1000"
    if "r_live ?t (idxKey b) = Some (v, e)" for b v e
    using that redis_inv_idx[OF assms, of b] by (auto simp: live split: if_splits option.splits rval.splits) blast+
  ultimately show ?thesis unfolding redis_inv_def live(2) by blast
qed

lemma purged_live:
  fixes a :: uuid
  assumes "redis_inv ttl s"
  defines "t \<equiv> fold r_del (map (credKey a) (r_smembers (idxKey a) s) @ [idxKey a]) s"
  shows "r_live t (credKey b n) = (if b = a then None else r_live s (credKey b n))"
    "r_live t (idxKey b) = (if b = a then None else r_live s (idxKey b))" "c_now t = c_now s"
proof -
  show "r_live t (idxKey b) = (if b = a then None else r_live s (idxKey b))" "c_now t = c_now s"
    by (auto simp: t_def)
  have "n \<in> set (r_smembers (idxKey a) s)" if "r_live s (credKey a n) \<noteq> None"
  proof -
    from that obtain v e where "r_live s (credKey a n) = Some (v, e)" by auto
    from redis_invD[OF assms(1) this] obtain ids t' where
      "r_live s (idxKey a) = Some (RSet ids, Some t')" "n \<in> set ids" by metis
    then show ?thesis by (simp add: r_smembers_def)
  qed
  then show "r_live t (credKey b n) = (if b = a then None else r_live s (credKey b n))"
    by (auto simp: t_def)
qed

lemma redis_inv_purged:
  assumes "redis_inv ttl s"
  shows "redis_inv ttl (fold r_del (map (credKey a) (r_smembers (idxKey a) s) @ [idxKey a]) s)"
  using assms unfolding redis_inv_def purged_live[OF assms] by (auto split: if_splits)

lemma r_live_wait:
  assumes "0 \<le> d"
  shows "r_live (pass_time d s) k = (case r_live s k of None \<Rightarrow> None
    | Some (v, e) \<Rightarrow> if unexpired (c_now s + d) e then Some (v, e) else None)"
  using assms by (auto simp: r_live_def pass_time_def unexpired_def split: option.splits)

lemma redis_inv_wait:
  assumes "redis_inv ttl s" "0 \<le> d"
  shows "redis_inv ttl (pass_time d s)"
proof -
  note live = r_live_wait[OF assms(2), of s]
  have "\<exists>c t ids t'. v = RCred c \<and> e = Some t \<and> r_live (pass_time d s) (idxKey b) = Some (RSet ids, Some t') \<and> n \<in> set ids \<and> t \<le> t'"
    if "r_live (pass_time d s) (credKey b n) = Some (v, e)" for b n v e
  proof -
    from that have x: "r_live s (credKey b n) = Some (v, e)" "unexpired (c_now s + d) e"
      by (auto simp: live split: option.splits if_splits)
    from redis_invD[OF assms(1) x(1)] obtain c t ids t' where "v = RCred c" "e = Some t"
      "r_live s (idxKey b) = Some (RSet ids, Some t')" "n \<in> set ids" "t \<le> t'" by metis
    with x(2) show ?thesis by (simp add: live)
  qed
  moreover have "\<exists>ids t. v = RSet ids \<and> e = Some t \<and> t \<le> c_now s + d + ttl * 1000"
    if "r_live (pass_time d s) (idxKey b) = Some (v, e)" for b v e
    using that redis_inv_idx[OF assms(1), of b] assms(2) by (auto simp: live split: option.splits if_splits) (smt (verit))+
  ultimately show ?thesis unfolding redis_inv_def by (simp add: pass_time_def)
qed

interpretation redis_backend: credential_store "redis_store seal (1 + int n)" "redis_get unseal (1 + int n)"
  redis_remove redis_purge pass_time redis_lookup "redis_inv (1 + int n)" seal unseal "1 + int n"
  for seal unseal n
proof (unfold_locales, goal_cases)
  case (1 s a m addr pw)
  then show ?case
    using redis_inv_stored[OF 1, of a m "(addr, seal pw)"] r_live_stored[OF 1, of a m "(addr, seal pw)"]
    by (auto simp: redis_store_def modifyM_def stored_def[symmetric] redis_lookup_def fun_eq_iff)
next
  case (2 s a m)
  then show ?case
    by (auto simp: redis_get_run redis_lookup_def split: option.splits rval.splits)
next
  case (3 s a m addr c pw)
  then obtain e where e: "r_live s (credKey a m) = Some (RCred (addr, c), e)"
    by (auto simp: redis_lookup_def split: option.splits rval.splits)
  let ?t = "r_expire (idxKey a) (1 + int n) (r_expire (credKey a m) (1 + int n) s)"
  have p: "0 < 1 + int n" by simp
  have "redis_inv (1 + int n) ?t"
    using redis_inv_stored[OF 3(1) p, of a m "(addr, c)"] redis_inv_cong[of ?t "stored (1 + int n) a m (addr, c) s"]
      redis_get_stored[OF 3(1) e] r_live_stored(2)[OF 3(1) p] by simp
  moreover have "redis_lookup ?t = redis_lookup s"
    using e by (auto simp: redis_lookup_def fun_eq_iff redis_get_stored[OF 3(1) e] r_live_stored[OF 3(1) p])
  ultimately show ?case using 3(3) e by (simp add: redis_get_run)
next
  case (4 s a m)
  show ?case
  proof (cases "\<exists>c e. r_live s (credKey a m) = Some (RCred c, e)")
    case True
    then obtain c e where e: "r_live s (credKey a m) = Some (RCred c, e)" by blast
    have p: "0 < 1 + int n" by simp
    have "redis_inv (1 + int n) (r_expire (idxKey a) (1 + int n) (r_expire (credKey a m) (1 + int n) s))"
      using redis_inv_stored[OF 4 p, of a m c]
        redis_inv_cong[of "r_expire (idxKey a) (1 + int n) (r_expire (credKey a m) (1 + int n) s)" "stored (1 + int n) a m c s"]
        redis_get_stored[OF 4 e] r_live_stored(2)[OF 4 p] by simp
    with e show ?thesis by (cases c) (simp add: redis_get_run)
  next
    case False
    with 4 show ?thesis by (auto simp: redis_get_run split: option.splits rval.splits)
  qed
next
  case (5 s a m)
  then show ?case
    using redis_inv_removed[OF 5] by (auto simp: redis_remove_def modifyM_def redis_lookup_def fun_eq_iff removed_live[OF 5])
next
  case (6 s a)
  then show ?case
    using redis_inv_purged[OF 6]
    by (auto simp: redis_purge_def bindM_getsM modifyM_def redis_lookup_def fun_eq_iff purged_live[OF 6]
        simp del: fold_append r_live_fold_del)
next
  case (7 s d a m)
  then show ?case
    by (auto simp: redis_inv_wait redis_lookup_def r_live_wait split: option.splits)
next
  case (8 s d a m)
  then have "0 \<le> d" by simp
  with 8 show ?case
    by (auto simp: redis_lookup_def r_live_wait split: option.splits elim!: redis_invD[OF 8(1)])
qed

section \<open>Properties\<close>

definition cred_inv :: "bool \<Rightarrow> int \<Rightarrow> cred_state \<Rightarrow> bool" where
  "cred_inv useRedis ttl s = (if useRedis then redis_inv ttl s else settings_inv ttl s)"

definition cred_lookup :: "bool \<Rightarrow> cred_state \<Rightarrow> uuid \<Rightarrow> uuid \<Rightarrow> (string \<times> string) option" where
  "cred_lookup useRedis = (if useRedis then redis_lookup else settings_lookup)"

definition no_creds :: "timestamp \<Rightarrow> cred_state" where
  "no_creds t = \<lparr>c_now = t, c_keys = (\<lambda>_. None), c_settings = []\<rparr>"

lemma cred_inv_no_creds: "cred_inv b ttl (no_creds t)"
  by (simp add: cred_inv_def redis_inv_def settings_inv_def no_creds_def r_live_def)

text \<open>Runs of the store with one configuration (back end, lifetime, box).\<close>

inductive cred_step ::
  "bool \<Rightarrow> nat \<Rightarrow> (string \<Rightarrow> string) \<Rightarrow> (string \<Rightarrow> string option) \<Rightarrow> cred_state \<Rightarrow> cred_state \<Rightarrow> bool"
  for b n seal unseal where
  "cred_step b n seal unseal s (snd (cred_store b seal (1 + int n) a m addr pw s))"
| "cred_step b n seal unseal s (snd (cred_get b unseal (1 + int n) a m s))"
| "cred_step b n seal unseal s (snd (cred_remove b a m s))"
| "cred_step b n seal unseal s (snd (cred_purgeSession b a s))"
| "cred_step b n seal unseal s (snd (sweepExpired b s))"
| "0 \<le> d \<Longrightarrow> cred_step b n seal unseal s (pass_time d s)"

lemma sweepExpired_inv: "cred_inv b ttl s \<Longrightarrow> cred_inv b ttl (snd (sweepExpired b s))"
  by (simp add: sweepExpired_def cred_inv_def svc_simps settings_inv_delete)

lemma cred_step_inv:
  assumes "cred_step b n seal unseal s t" "cred_inv b (1 + int n) s"
  shows "cred_inv b (1 + int n) t"
proof (cases b)
  case True
  with assms show ?thesis
    by (cases rule: cred_step.cases) (auto simp: cred_inv_def cred_store_def cred_get_def cred_remove_def cred_purgeSession_def
        sweepExpired_def returnM_def redis_backend.ops_inv redis_backend.get_inv redis_inv_wait)
next
  case False
  with assms(1,2) show ?thesis
    by (cases rule: cred_step.cases) (auto simp: cred_inv_def cred_store_def cred_get_def cred_remove_def cred_purgeSession_def
        settings_backend.ops_inv settings_backend.get_inv settings_backend.wait_ok
        dest: sweepExpired_inv[unfolded cred_inv_def, of False, simplified])
qed

lemma cred_steps_inv:
  "(cred_step b n seal unseal)\<^sup>*\<^sup>* (no_creds t0) s \<Longrightarrow> cred_inv b (1 + int n) s"
  by (induction rule: rtranclp_induct) (auto intro: cred_inv_no_creds cred_step_inv)

lemma purge_locked:
  assumes "cred_inv b (1 + int n) s"
  shows "\<exists>u. cred_get b unseal (1 + int n) a m (snd (cred_purgeSession b a s)) = (Inr None, u)"
    and "c \<noteq> a \<Longrightarrow> cred_lookup b (snd (cred_purgeSession b a s)) c m = cred_lookup b s c m"
  using assms redis_backend.purge_locks[of n s a unseal] settings_backend.purge_locks[of n s a unseal]
  by (cases b; auto simp: cred_inv_def cred_purgeSession_def cred_get_def cred_lookup_def)+

text \<open>
  an unlocked mailbox opens. In every state the store can reach, with either back end,
  storing a password and asking for it at once gives back the address and the password, as
  long as the box that seals it opens what it sealed.
\<close>

theorem unlocked_mailbox_opens:
  assumes "(cred_step b n seal unseal)\<^sup>*\<^sup>* (no_creds t0) s" "unseal (seal pw) = Some pw"
  shows "\<exists>t u. cred_store b seal (1 + int n) a m addr pw s = (Inr (), t) \<and>
    cred_get b unseal (1 + int n) a m t = (Inr (Some (addr, pw)), u)"
  using cred_steps_inv[OF assms(1)] redis_backend.store_then_get[of n s unseal seal pw a m addr]
    settings_backend.store_then_get[of n s unseal seal pw a m addr] assms(2)
  by (cases b) (auto simp: cred_inv_def cred_store_def cred_get_def)

theorem unlocked_mailbox_opens_witness:
  "\<exists>t u. cred_store True rev 600 7 8 ''a@b'' ''pw'' (no_creds 0) = (Inr (), t) \<and>
    cred_get True (\<lambda>c. Some (rev c)) 600 7 8 t = (Inr (Some (''a@b'', ''pw'')), u)"
  using unlocked_mailbox_opens[of True 599 rev "\<lambda>c. Some (rev c)" 0 "no_creds 0" "''pw''" 7 8 "''a@b''"] by simp

text \<open>
  logging out locks every mailbox of the session and no other. In every reachable state,
  with either back end, purging a session succeeds, afterwards no mailbox of that session
  has a credential, and the credentials of all other sessions are as before.
\<close>

theorem purge_locks_exactly_the_session:
  assumes "(cred_step b n seal unseal)\<^sup>*\<^sup>* (no_creds t0) s"
  shows "\<exists>t. cred_purgeSession b a s = (Inr (), t) \<and>
    (\<forall>m. \<exists>u. cred_get b unseal (1 + int n) a m t = (Inr None, u)) \<and>
    (\<forall>c m. c \<noteq> a \<longrightarrow> cred_lookup b t c m = cred_lookup b s c m)"
  using cred_steps_inv[OF assms] redis_backend.purge_locks[of n s a unseal] settings_backend.purge_locks[of n s a unseal]
  by (cases b) (auto simp: cred_inv_def cred_purgeSession_def cred_get_def cred_lookup_def)

theorem purge_locks_exactly_the_session_witness:
  "\<exists>t. cred_purgeSession False 7 (snd (cred_store False rev 600 7 8 ''a@b'' ''pw'' (no_creds 0))) = (Inr (), t) \<and>
    (\<exists>u. cred_get False (\<lambda>c. Some (rev c)) 600 7 8 t = (Inr None, u))"
proof -
  have "(cred_step False 599 rev (\<lambda>c. Some (rev c)))\<^sup>*\<^sup>* (no_creds 0)
      (snd (cred_store False rev (1 + int 599) 7 8 ''a@b'' ''pw'' (no_creds 0)))"
    by (rule r_into_rtranclp) (rule cred_step.intros)
  from purge_locks_exactly_the_session[OF this, of 7] show ?thesis by auto
qed

text \<open>
  an idle credential expires. In every reachable state, once the lifetime has passed
  without access, asking for the credential answers that the mailbox is locked.
\<close>

theorem idle_credential_expires:
  assumes "(cred_step b n seal unseal)\<^sup>*\<^sup>* (no_creds t0) s" "(1 + int n) * 1000 \<le> d"
  shows "\<exists>u. cred_get b unseal (1 + int n) a m (pass_time d s) = (Inr None, u)"
proof -
  have "0 \<le> d" using assms(2) by simp
  then show ?thesis
    using cred_steps_inv[OF assms(1)] redis_backend.idle_locks[of n s d unseal a m]
      settings_backend.idle_locks[of n s d unseal a m] assms(2)
    by (cases b) (auto simp: cred_inv_def cred_get_def)
qed

theorem idle_credential_expires_witness:
  "\<exists>u. cred_get True (\<lambda>c. Some (rev c)) 600 7 8
     (pass_time 600000 (snd (cred_store True rev 600 7 8 ''a@b'' ''pw'' (no_creds 0)))) = (Inr None, u)"
proof -
  have "(cred_step True 599 rev (\<lambda>c. Some (rev c)))\<^sup>*\<^sup>* (no_creds 0)
      (snd (cred_store True rev (1 + int 599) 7 8 ''a@b'' ''pw'' (no_creds 0)))"
    by (rule r_into_rtranclp) (rule cred_step.intros)
  from idle_credential_expires[OF this, of 600000 7 8] show ?thesis by simp
qed

end
