(* ===== verification/JM_Pool.thy ===== *)
theory JM_Pool
  imports JM_Credentials
begin

text \<open>
  The two in-process registries of IMAP connections: \<open>ImapSessionManager\<close>
  (\<open>apps/api/src/webmail/imap-session.manager.ts\<close>), a pool in least-recently-used order,
  and \<open>ImapIdleWatcher\<close> (\<open>apps/api/src/webmail/imap-idle.watcher.ts\<close>).

  A \<open>Map\<close> is the list of its keys and values in insertion order. Pool entries are shared
  objects (a running request keeps its entry while the pool may drop it), so the pool maps a
  key to the address of an entry in a heap. \<open>run\<close> suspends while it waits, so it is modelled
  as the three stretches of code between its suspension points: \<open>run_begin\<close>, \<open>run_connect\<close>
  (the start of the queued work) and \<open>run_end\<close> (the \<open>finally\<close> block). An \<open>ImapFlow\<close> client
  is a number; \<open>pl_clients\<close> are the connections that are open. Whether a client is usable and
  whether a connection attempt succeeds are arguments.
\<close>

record pool_entry =
  pe_client :: "nat option"
  pe_address :: string
  pe_last_used :: timestamp
  pe_in_use :: nat

record pool_state =
  pl_now :: timestamp
  pl_pool :: "(string \<times> nat) list"
  pl_heap :: "nat \<Rightarrow> pool_entry"
  pl_fresh :: nat
  pl_clients :: "nat list"

definition sessKey :: "uuid \<Rightarrow> uuid \<Rightarrow> string" where
  "sessKey sessionId mailboxId = show_nat sessionId @ '':'' @ show_nat mailboxId"

definition sessPrefix :: "uuid \<Rightarrow> string" where
  "sessPrefix sessionId = show_nat sessionId @ '':''"

definition map_delete :: "'k \<Rightarrow> ('k \<times> 'v) list \<Rightarrow> ('k \<times> 'v) list" where
  "map_delete k xs = filter (\<lambda>(k', _). k' \<noteq> k) xs"

definition upd_entry :: "nat \<Rightarrow> (pool_entry \<Rightarrow> pool_entry) \<Rightarrow> pool_state \<Rightarrow> pool_state" where
  "upd_entry e f s = s\<lparr>pl_heap := (pl_heap s)(e := f (pl_heap s e))\<rparr>"

text \<open>\<open>closeEntry\<close>: the entry forgets its client, which is logged out or closed.\<close>

definition closeEntry :: "nat \<Rightarrow> pool_state \<Rightarrow> pool_state" where
  "closeEntry e s =
     (case pe_client (pl_heap s e) of
        None \<Rightarrow> s
      | Some c \<Rightarrow> (upd_entry e (\<lambda>x. x\<lparr>pe_client := None\<rparr>) s)\<lparr>pl_clients := removeAll c (pl_clients s)\<rparr>)"

definition delete_key :: "string \<Rightarrow> pool_state \<Rightarrow> pool_state" where
  "delete_key k s = s\<lparr>pl_pool := map_delete k (pl_pool s)\<rparr>"

section \<open>Running a request on a pooled connection\<close>

definition run_begin :: "uuid \<Rightarrow> uuid \<Rightarrow> string \<Rightarrow> pool_state \<Rightarrow> nat \<times> pool_state" where
  "run_begin sessionId mailboxId address s =
     (let key = sessKey sessionId mailboxId;
          (e, s1) = (case map_of (pl_pool s) key of
                       Some e \<Rightarrow> (e, s)
                     | None \<Rightarrow> (pl_fresh s,
                         s\<lparr>pl_heap := (pl_heap s)(pl_fresh s := \<lparr>pe_client = None, pe_address = address,
                             pe_last_used = pl_now s, pe_in_use = 0\<rparr>), pl_fresh := pl_fresh s + 1\<rparr>));
          s2 = s1\<lparr>pl_pool := map_delete key (pl_pool s1) @ [(key, e)]\<rparr>
      in (e, upd_entry e (\<lambda>x. x\<lparr>pe_in_use := pe_in_use x + 1\<rparr>) s2))"

text \<open>
  \<open>ensureConnected\<close>: \<open>usable\<close> judges the entry's client; \<open>conn\<close> is the new client, \<open>None\<close>
  when \<open>connect\<close> rejects.
\<close>

definition ensureConnected ::
  "(nat \<Rightarrow> bool) \<Rightarrow> nat option \<Rightarrow> nat \<Rightarrow> string \<Rightarrow> pool_state \<Rightarrow> nat option \<times> pool_state" where
  "ensureConnected usable conn e address s =
     (case pe_client (pl_heap s e) of
        Some c \<Rightarrow> if usable c then (Some c, s) else
          (case conn of None \<Rightarrow> (None, s)
           | Some c' \<Rightarrow> (Some c', (upd_entry e (\<lambda>x. x\<lparr>pe_client := Some c', pe_address := address\<rparr>) s)
                \<lparr>pl_clients := c' # pl_clients s\<rparr>))
      | None \<Rightarrow>
          (case conn of None \<Rightarrow> (None, s)
           | Some c' \<Rightarrow> (Some c', (upd_entry e (\<lambda>x. x\<lparr>pe_client := Some c', pe_address := address\<rparr>) s)
                \<lparr>pl_clients := c' # pl_clients s\<rparr>)))"

definition run_connect ::
  "(nat \<Rightarrow> bool) \<Rightarrow> nat option \<Rightarrow> nat \<Rightarrow> string \<Rightarrow> pool_state \<Rightarrow> nat option \<times> pool_state" where
  "run_connect usable conn e address s =
     (case ensureConnected usable conn e address s of
        (None, t) \<Rightarrow> (None, t)
      | (Some c, t) \<Rightarrow> (Some c, upd_entry e (\<lambda>x. x\<lparr>pe_last_used := pl_now t\<rparr>) t))"

text \<open>The loop of \<open>evictOverCap\<close> over the entries from the oldest on.\<close>

fun evict_loop :: "nat \<Rightarrow> string \<Rightarrow> (string \<times> nat) list \<Rightarrow> pool_state \<Rightarrow> pool_state" where
  "evict_loop cap current [] s = s"
| "evict_loop cap current ((key, e) # rest) s =
     (if length (pl_pool s) \<le> cap then s
      else if key = current \<or> pe_in_use (pl_heap s e) > 0 then evict_loop cap current rest s
      else evict_loop cap current rest (delete_key key (closeEntry e s)))"

definition evictOverCap :: "nat \<Rightarrow> string \<Rightarrow> pool_state \<Rightarrow> pool_state" where
  "evictOverCap cap current s =
     (if length (pl_pool s) \<le> cap then s else evict_loop cap current (pl_pool s) s)"

definition run_end :: "nat \<Rightarrow> uuid \<Rightarrow> uuid \<Rightarrow> nat \<Rightarrow> pool_state \<Rightarrow> pool_state" where
  "run_end cap sessionId mailboxId e s =
     evictOverCap cap (sessKey sessionId mailboxId)
       (upd_entry e (\<lambda>x. x\<lparr>pe_in_use := pe_in_use x - 1, pe_last_used := pl_now s\<rparr>) s)"

section \<open>Purging and sweeping\<close>

definition pool_purgeSession :: "uuid \<Rightarrow> pool_state \<Rightarrow> pool_state" where
  "pool_purgeSession sessionId s =
     (let doomed = filter (\<lambda>(k, e). startsWith k (sessPrefix sessionId)) (pl_pool s)
      in fold delete_key (map fst doomed) (fold closeEntry (map snd doomed) s))"

fun sweep_loop :: "timestamp \<Rightarrow> (string \<times> nat) list \<Rightarrow> nat \<Rightarrow> pool_state \<Rightarrow> nat \<times> pool_state" where
  "sweep_loop cutoff [] closed s = (closed, s)"
| "sweep_loop cutoff ((key, e) # rest) closed s =
     (if pe_in_use (pl_heap s e) = 0 \<and> pe_last_used (pl_heap s e) < cutoff
      then sweep_loop cutoff rest (closed + 1) (delete_key key (closeEntry e s))
      else sweep_loop cutoff rest closed s)"

definition pool_sweepIdle :: "int \<Rightarrow> pool_state \<Rightarrow> nat \<times> pool_state" where
  "pool_sweepIdle ttl s = sweep_loop (pl_now s - ttl * 1000) (pl_pool s) 0 s"

section \<open>IDLE watchers\<close>

record watcher =
  wt_key :: string
  wt_session :: uuid
  wt_mailbox :: uuid
  wt_folder :: string
  wt_client :: nat
  wt_touched :: timestamp

text \<open>
  The registry and the connections that watchers have opened and not closed. \<open>stop\<close> logs the
  client out or closes it.
\<close>

record watchers =
  wa_map :: "(string \<times> watcher) list"
  wa_open :: "nat list"

definition stop_watcher :: "watcher \<Rightarrow> watchers \<Rightarrow> watchers" where
  "stop_watcher w s = s\<lparr>wa_open := removeAll (wt_client w) (wa_open s)\<rparr>"

definition drop_watcher :: "string \<Rightarrow> watchers \<Rightarrow> watchers" where
  "drop_watcher key s = s\<lparr>wa_map := map_delete key (wa_map s)\<rparr>"

text \<open>
  \<open>watch\<close>: re-arms a usable watcher of the same folder, otherwise replaces it. \<open>conn\<close> is the new
  client with whether it opened the folder, \<open>None\<close> when \<open>connect\<close> rejects: a client whose folder
  cannot be opened stays connected and is not registered.
\<close>

definition watch ::
  "(nat \<Rightarrow> bool) \<Rightarrow> (nat \<times> bool) option \<Rightarrow> timestamp \<Rightarrow> uuid \<Rightarrow> uuid \<Rightarrow> string \<Rightarrow> watchers \<Rightarrow> watchers" where
  "watch usable conn nw sessionId mailboxId folder s =
     (let key = sessKey sessionId mailboxId;
          fresh = (\<lambda>s. case conn of None \<Rightarrow> s
            | Some (c, opened) \<Rightarrow>
                (let s' = s\<lparr>wa_open := c # wa_open s\<rparr>
                 in if opened then s'\<lparr>wa_map := map_delete key (wa_map s) @
                      [(key, \<lparr>wt_key = key, wt_session = sessionId, wt_mailbox = mailboxId,
                         wt_folder = folder, wt_client = c, wt_touched = nw\<rparr>)]\<rparr>
                    else s'))
      in case map_of (wa_map s) key of
           Some w \<Rightarrow> if wt_folder w = folder \<and> usable (wt_client w)
             then s\<lparr>wa_map := map (\<lambda>(k, x). if k = key then (k, x\<lparr>wt_touched := nw\<rparr>) else (k, x)) (wa_map s)\<rparr>
             else fresh (stop_watcher w (drop_watcher key s))
         | None \<Rightarrow> fresh s)"

text \<open>The \<open>close\<close> event of a client removes the watcher that uses it.\<close>

definition watcher_closed :: "string \<Rightarrow> nat \<Rightarrow> watchers \<Rightarrow> watchers" where
  "watcher_closed key c s =
     (let s' = s\<lparr>wa_open := removeAll c (wa_open s)\<rparr>
      in case map_of (wa_map s) key of
           Some w \<Rightarrow> if wt_client w = c then drop_watcher key s' else s'
         | None \<Rightarrow> s')"

definition unwatch :: "uuid \<Rightarrow> uuid \<Rightarrow> watchers \<Rightarrow> watchers" where
  "unwatch sessionId mailboxId s =
     (let key = sessKey sessionId mailboxId
      in case map_of (wa_map s) key of None \<Rightarrow> s | Some w \<Rightarrow> stop_watcher w (drop_watcher key s))"

definition end_watcher :: "watcher \<Rightarrow> watchers \<Rightarrow> watchers" where
  "end_watcher w s = stop_watcher w (drop_watcher (wt_key w) s)"

definition idle_purgeSession :: "uuid \<Rightarrow> watchers \<Rightarrow> watchers" where
  "idle_purgeSession sessionId s =
     fold end_watcher (filter (\<lambda>w. startsWith (wt_key w) (sessPrefix sessionId)) (map snd (wa_map s))) s"

definition idle_sweepIdle :: "timestamp \<Rightarrow> int \<Rightarrow> watchers \<Rightarrow> nat \<times> watchers" where
  "idle_sweepIdle nw ttl s =
     (let doomed = filter (\<lambda>w. wt_touched w < nw - ttl * 1000) (map snd (wa_map s))
      in (length doomed, fold end_watcher doomed s))"

section \<open>Keys and purges\<close>

lemma startsWith_sess: "startsWith (sessKey a m) (sessPrefix b) \<longleftrightarrow> a = b"
  by (auto simp: startsWith_iff sessKey_def sessPrefix_def append_delim digits_colon show_nat_inj)

lemma sessKey_inj [simp]: "sessKey a m = sessKey b n \<longleftrightarrow> a = b \<and> m = n"
  by (simp add: sessKey_def append_delim digits_colon show_nat_inj)

lemma closeEntry_frame [simp]:
  "pl_pool (closeEntry e s) = pl_pool s" "pl_fresh (closeEntry e s) = pl_fresh s" "pl_now (closeEntry e s) = pl_now s"
  "pe_in_use (pl_heap (closeEntry e s) x) = pe_in_use (pl_heap s x)"
  "pe_last_used (pl_heap (closeEntry e s) x) = pe_last_used (pl_heap s x)"
  by (auto simp: closeEntry_def upd_entry_def split: option.splits)

lemma delete_key_frame [simp]:
  "pl_pool (delete_key k s) = map_delete k (pl_pool s)" "pl_fresh (delete_key k s) = pl_fresh s"
  "pl_heap (delete_key k s) = pl_heap s" "pl_now (delete_key k s) = pl_now s" "pl_clients (delete_key k s) = pl_clients s"
  by (simp_all add: delete_key_def)

lemma upd_entry_frame [simp]:
  "pl_pool (upd_entry e f s) = pl_pool s" "pl_fresh (upd_entry e f s) = pl_fresh s" "pl_now (upd_entry e f s) = pl_now s"
  "pl_heap (upd_entry e f s) x = (if x = e then f (pl_heap s e) else pl_heap s x)" "pl_clients (upd_entry e f s) = pl_clients s"
  by (simp_all add: upd_entry_def)

lemma fold_closeEntry_frame [simp]:
  "pl_pool (fold closeEntry es s) = pl_pool s" "pl_fresh (fold closeEntry es s) = pl_fresh s"
  "pe_in_use (pl_heap (fold closeEntry es s) x) = pe_in_use (pl_heap s x)"
  by (induction es arbitrary: s) auto

lemma fold_map_delete: "fold map_delete ks xs = filter (\<lambda>(k, _). k \<notin> set ks) xs"
  by (induction ks arbitrary: xs) (auto simp: map_delete_def intro!: filter_cong)

lemma fold_delete_key [simp]:
  "pl_pool (fold delete_key ks s) = fold map_delete ks (pl_pool s)" "pl_heap (fold delete_key ks s) = pl_heap s"
  "pl_fresh (fold delete_key ks s) = pl_fresh s" "pl_clients (fold delete_key ks s) = pl_clients s"
  by (induction ks arbitrary: s) auto

lemma purge_pool: "pl_pool (pool_purgeSession a s) = filter (\<lambda>(k, e). \<not> startsWith k (sessPrefix a)) (pl_pool s)"
  by (auto simp: pool_purgeSession_def Let_def fold_map_delete image_iff intro!: filter_cong)

lemma closeEntry_closes: "pe_client (pl_heap (closeEntry e s) e) = None"
  by (auto simp: closeEntry_def split: option.splits)

lemma closeEntry_mono: "pe_client (pl_heap s x) = None \<Longrightarrow> pe_client (pl_heap (closeEntry e s) x) = None"
  by (auto simp: closeEntry_def split: option.splits)

lemma fold_closeEntry_closes: "x \<in> set es \<or> pe_client (pl_heap s x) = None \<Longrightarrow> pe_client (pl_heap (fold closeEntry es s) x) = None"
  by (induction es arbitrary: s) (auto simp: closeEntry_closes closeEntry_mono)

text \<open>The clients of a session: of its pool entries and of its watchers.\<close>

definition pool_client :: "pool_state \<Rightarrow> uuid \<Rightarrow> nat \<Rightarrow> bool" where
  "pool_client s a c \<longleftrightarrow> (\<exists>m e. (sessKey a m, e) \<in> set (pl_pool s) \<and> pe_client (pl_heap s e) = Some c)"

definition watcher_client :: "watchers \<Rightarrow> uuid \<Rightarrow> nat \<Rightarrow> bool" where
  "watcher_client s a c \<longleftrightarrow> (\<exists>m w. (sessKey a m, w) \<in> set (wa_map s) \<and> wt_client w = c)"

definition pool_keys_ok :: "pool_state \<Rightarrow> bool" where
  "pool_keys_ok s \<longleftrightarrow> (\<forall>(k, e) \<in> set (pl_pool s). \<exists>a m. k = sessKey a m)"

definition watcher_keys_ok :: "watchers \<Rightarrow> bool" where
  "watcher_keys_ok s \<longleftrightarrow> (\<forall>(k, w) \<in> set (wa_map s). k = sessKey (wt_session w) (wt_mailbox w) \<and> wt_key w = k)"

lemma fold_closeEntry_clients:
  "pl_clients (fold closeEntry es s) = filter (\<lambda>c. \<forall>e \<in> set es. pe_client (pl_heap s e) \<noteq> Some c) (pl_clients s)"
proof (induction es arbitrary: s)
  case (Cons e es)
  have "pl_clients (closeEntry e s) = filter (\<lambda>c. pe_client (pl_heap s e) \<noteq> Some c) (pl_clients s)"
    by (auto simp: closeEntry_def removeAll_filter_not_eq split: option.splits intro: filter_cong)
  moreover have "pe_client (pl_heap (closeEntry e s) x) = (if x = e then None else pe_client (pl_heap s x))" for x
    by (auto simp: closeEntry_def split: option.splits)
  ultimately show ?case using Cons.IH[of "closeEntry e s"] by (auto intro!: filter_cong)
qed simp

lemma purge_clients:
  assumes "pool_keys_ok s"
  shows "pl_clients (pool_purgeSession a s) = filter (\<lambda>c. \<not> pool_client s a c) (pl_clients s)"
proof -
  have k: "(k, e) \<in> set (pl_pool s) \<and> startsWith k (sessPrefix a) \<longleftrightarrow> (\<exists>m. k = sessKey a m \<and> (sessKey a m, e) \<in> set (pl_pool s))" for k e
    using assms by (fastforce simp: pool_keys_ok_def startsWith_sess)
  show ?thesis
    unfolding pool_purgeSession_def Let_def fold_delete_key fold_closeEntry_clients pool_client_def
    using k by (intro filter_cong refl) fastforce
qed

lemma fold_end_watcher:
  "wa_map (fold end_watcher ws s) = filter (\<lambda>(k, w). k \<notin> wt_key ` set ws) (wa_map s)"
  "wa_open (fold end_watcher ws s) = filter (\<lambda>c. c \<notin> wt_client ` set ws) (wa_open s)"
  by (induction ws arbitrary: s)
     (auto simp: end_watcher_def stop_watcher_def drop_watcher_def map_delete_def removeAll_filter_not_eq intro!: filter_cong)

lemma idle_purge_exact:
  assumes "watcher_keys_ok s"
  shows "wa_map (idle_purgeSession a s) = filter (\<lambda>(k, w). \<not> startsWith k (sessPrefix a)) (wa_map s)"
    and "wa_open (idle_purgeSession a s) = filter (\<lambda>c. \<not> watcher_client s a c) (wa_open s)"
proof -
  have k: "(k, w) \<in> set (wa_map s) \<Longrightarrow> wt_key w = k \<and> (\<exists>b m. k = sessKey b m)" for k w
    using assms by (auto simp: watcher_keys_ok_def)
  show "wa_map (idle_purgeSession a s) = filter (\<lambda>(k, w). \<not> startsWith k (sessPrefix a)) (wa_map s)"
    unfolding idle_purgeSession_def fold_end_watcher using k by (intro filter_cong refl) force
  have "c \<in> wt_client ` set (filter (\<lambda>w. startsWith (wt_key w) (sessPrefix a)) (map snd (wa_map s))) \<longleftrightarrow> watcher_client s a c" for c
    using k by (fastforce simp: watcher_client_def image_iff startsWith_sess)
  then show "wa_open (idle_purgeSession a s) = filter (\<lambda>c. \<not> watcher_client s a c) (wa_open s)"
    unfolding idle_purgeSession_def fold_end_watcher by simp
qed

text \<open>The operations keep the keys well-formed.\<close>

lemma watch_keys_ok:
  "watcher_keys_ok s \<Longrightarrow> watcher_keys_ok (watch usable conn nw a m folder s)"
  "watcher_keys_ok s \<Longrightarrow> watcher_keys_ok (unwatch a m s)"
  by (auto simp: watcher_keys_ok_def watch_def unwatch_def stop_watcher_def drop_watcher_def map_delete_def Let_def
      split: option.splits if_splits)

section \<open>Eviction\<close>

definition busy :: "pool_state \<Rightarrow> string \<Rightarrow> string \<times> nat \<Rightarrow> bool" where
  "busy s current = (\<lambda>(k, e). k = current \<or> pe_in_use (pl_heap s e) > 0)"

lemma busy_close [simp]: "busy (delete_key k (closeEntry e s)) current = busy s current"
  by (simp add: busy_def)

text \<open>The specification: drop the first \<open>n\<close> entries that are not busy.\<close>

fun keep :: "nat \<Rightarrow> ('x \<Rightarrow> bool) \<Rightarrow> 'x list \<Rightarrow> 'x list" where
  "keep n b [] = []"
| "keep 0 b (x # xs) = x # xs"
| "keep (Suc n) b (x # xs) = (if b x then x # keep (Suc n) b xs else keep n b xs)"

lemma keep_0 [simp]: "keep 0 b xs = xs"
  by (cases xs) auto

lemma keep_busy: "filter b (keep n b xs) = filter b xs"
  by (induction n b xs rule: keep.induct) auto

lemma keep_length: "length xs - n \<le> length (keep n b xs)"
  by (induction n b xs rule: keep.induct) auto

lemma keep_full: "length (keep n b xs) \<le> length xs - n \<or> list_all b (keep n b xs)"
proof (induction n b xs rule: keep.induct)
  case (3 n b x xs)
  then show ?case by (cases "keep (Suc n) b xs") auto
qed auto

lemma set_keep: "set (keep n b xs) \<subseteq> set xs"
  by (induction n b xs rule: keep.induct) auto

lemma distinct_keep: "distinct (map f xs) \<Longrightarrow> distinct (map f (keep n b xs))"
proof (induction n b xs rule: keep.induct)
  case (3 n b x xs)
  then show ?case using set_keep[of "Suc n" b xs] by (auto simp: image_iff)
qed auto

lemma map_delete_mid:
  "distinct (map fst (pre @ (k, e) # rest)) \<Longrightarrow> map_delete k (pre @ (k, e) # rest) = pre @ rest"
proof -
  have "filter (\<lambda>(k', _). k' \<noteq> k) xs = xs" if "k \<notin> fst ` set xs" for xs :: "('a \<times> 'b) list"
    using that by (intro filter_True) force
  then show "distinct (map fst (pre @ (k, e) # rest)) \<Longrightarrow> ?thesis" by (simp add: map_delete_def)
qed

lemma map_delete_length:
  "distinct (map fst xs) \<Longrightarrow> length xs \<le> Suc (length (map_delete k xs))"
proof (induction xs)
  case Nil
  then show ?case by simp
next
  case (Cons x xs)
  show ?case
  proof (cases "fst x = k")
    case True
    with Cons.prems have "k \<notin> fst ` set xs" by auto
    then have "filter (\<lambda>(k', _). k' \<noteq> k) xs = xs"
      by (intro filter_True) force
    with True show ?thesis by (simp add: map_delete_def split_beta)
  next
    case False
    with Cons show ?thesis by (simp add: map_delete_def split_beta)
  qed
qed

lemma evict_loop_pool:
  assumes "pl_pool s = pre @ rest" "distinct (map fst (pre @ rest))"
  shows "pl_pool (evict_loop cap current rest s) = pre @ keep (length (pre @ rest) - cap) (busy s current) rest"
  using assms
proof (induction rest arbitrary: pre s)
  case Nil
  then show ?case by simp
next
  case (Cons x rest)
  obtain k e where x: "x = (k, e)" by fastforce
  consider (fit) "length (pl_pool s) \<le> cap" | (busy) "\<not> length (pl_pool s) \<le> cap" "busy s current x"
    | (drop) "\<not> length (pl_pool s) \<le> cap" "\<not> busy s current x" by blast
  then show ?case
  proof cases
    case fit
    with Cons.prems show ?thesis by (simp add: x)
  next
    case busy
    then obtain j where j: "length (pre @ x # rest) - cap = Suc j"
      using Cons.prems(1) by (metis Suc_diff_Suc leI diff_is_0_eq' not_less_eq_eq old.nat.exhaust)
    from busy Cons.IH[of s "pre @ [x]"] Cons.prems j show ?thesis
      by (simp add: x busy_def)
  next
    case drop
    then obtain j where j: "length (pre @ x # rest) - cap = Suc j"
      using Cons.prems(1) by (metis Suc_diff_Suc leI diff_is_0_eq' not_less_eq_eq old.nat.exhaust)
    have "pl_pool (delete_key k (closeEntry e s)) = pre @ rest"
      using map_delete_mid[of pre k e rest] Cons.prems by (simp add: x)
    moreover have "length (pre @ rest) - cap = j" using j by simp
    ultimately show ?thesis
      using Cons.IH[of "delete_key k (closeEntry e s)" pre] Cons.prems drop(2) drop(1) j
      by (simp add: x) (simp add: busy_def)
  qed
qed

lemma evict_loop_in_use [simp]:
  "pe_in_use (pl_heap (evict_loop cap current rest s) y) = pe_in_use (pl_heap s y)"
  "pl_fresh (evict_loop cap current rest s) = pl_fresh s"
  by (induction cap current rest s rule: evict_loop.induct) auto

lemma evictOverCap_pool:
  assumes "distinct (map fst (pl_pool s))"
  shows "pl_pool (evictOverCap cap current s) = keep (length (pl_pool s) - cap) (busy s current) (pl_pool s)"
  using evict_loop_pool[of s "[]" "pl_pool s"] assms by (simp add: evictOverCap_def)

section \<open>Interleaved requests\<close>

text \<open>
  The pool together with the requests that are between their beginning and their end, each
  with its session, mailbox and entry.
\<close>

type_synonym run = "uuid \<times> uuid \<times> nat"

inductive pool_step :: "nat \<Rightarrow> pool_state \<times> run list \<Rightarrow> pool_state \<times> run list \<Rightarrow> bool" for cap where
  begin_run: "run_begin a m addr s = (e, t) \<Longrightarrow> pool_step cap (s, act) (t, (a, m, e) # act)"
| connect_run: "(a, m, e) \<in> set act \<Longrightarrow> pool_step cap (s, act) (snd (run_connect usable conn e addr s), act)"
| end_run: "(a, m, e) \<in> set act \<Longrightarrow> pool_step cap (s, act) (run_end cap a m e s, remove1 (a, m, e) act)"
| purge_run: "pool_step cap (s, act) (pool_purgeSession a s, act)"
| sweep_run: "pool_step cap (s, act) (snd (pool_sweepIdle ttl s), act)"
| time_run: "0 \<le> d \<Longrightarrow> pool_step cap (s, act) (s\<lparr>pl_now := pl_now s + d\<rparr>, act)"

definition users_of :: "nat \<Rightarrow> run list \<Rightarrow> nat" where
  "users_of e act = length (filter (\<lambda>(a, m, e'). e' = e) act)"

definition pool_inv :: "nat \<Rightarrow> pool_state \<times> run list \<Rightarrow> bool" where
  "pool_inv cap = (\<lambda>(s, act).
     distinct (map fst (pl_pool s)) \<and> distinct (map snd (pl_pool s)) \<and>
     (\<forall>(k, e) \<in> set (pl_pool s). e < pl_fresh s) \<and> (\<forall>(a, m, e) \<in> set act. e < pl_fresh s) \<and>
     (\<forall>e < pl_fresh s. pe_in_use (pl_heap s e) = users_of e act) \<and>
     length (pl_pool s) \<le> cap + length act)"

lemma users_of_Cons: "users_of e ((a, m, e') # act) = (if e' = e then Suc (users_of e act) else users_of e act)"
  by (simp add: users_of_def)

lemma users_of_remove1:
  "(a, m, e') \<in> set act \<Longrightarrow> users_of e (remove1 (a, m, e') act) = (if e' = e then users_of e act - 1 else users_of e act)"
proof (induction act)
  case Nil
  then show ?case by simp
next
  case (Cons x act)
  obtain a2 m2 e2 where x: "x = (a2, m2, e2)" by (cases x)
  show ?case
  proof (cases "x = (a, m, e')")
    case True
    then show ?thesis by (simp add: users_of_Cons)
  next
    case False
    with Cons.prems have m: "(a, m, e') \<in> set act" by simp
    then have "e' = e \<Longrightarrow> 0 < users_of e act"
      by (force simp: users_of_def filter_empty_conv)
    with Cons.IH[OF m] False show ?thesis by (auto simp: x users_of_Cons)
  qed
qed

lemma users_le: "users_of e act \<le> length act"
  by (simp add: users_of_def)

lemma map_delete_facts:
  "distinct (map f xs) \<Longrightarrow> distinct (map f (map_delete k xs))" "length (map_delete k xs) \<le> length xs"
  "x \<in> set (map_delete k xs) \<Longrightarrow> x \<in> set xs" "k \<notin> fst ` set (map_delete k xs)"
  by (auto simp: map_delete_def distinct_map_filter)

lemma run_begin_inv:
  assumes "pool_inv cap (s, act)" "run_begin a m addr s = (e, t)"
  shows "pool_inv cap (t, (a, m, e) # act)"
proof -
  let ?k = "sessKey a m"
  let ?p = "map_delete ?k (pl_pool s)"
  have i: "distinct (map fst (pl_pool s))" "distinct (map snd (pl_pool s))"
    "\<forall>(k, e) \<in> set (pl_pool s). e < pl_fresh s" "\<forall>(a, m, e) \<in> set act. e < pl_fresh s"
    "\<forall>e < pl_fresh s. pe_in_use (pl_heap s e) = users_of e act" "length (pl_pool s) \<le> cap + length act"
    using assms(1) by (simp_all add: pool_inv_def)
  have new: "users_of (pl_fresh s) act = 0"
    using i(4) by (auto simp: users_of_def filter_empty_conv)
  show ?thesis
  proof (cases "map_of (pl_pool s) ?k")
    case None
    then have "?k \<notin> fst ` set (pl_pool s)" by (simp add: map_of_eq_None_iff)
    then have "?p = pl_pool s" unfolding map_delete_def by (intro filter_True) force
    with None assms(2) have t: "e = pl_fresh s" "pl_fresh t = Suc (pl_fresh s)" "pl_pool t = pl_pool s @ [(?k, e)]"
      "pl_heap t = (\<lambda>x. if x = e then \<lparr>pe_client = None, pe_address = addr, pe_last_used = pl_now s, pe_in_use = 1\<rparr> else pl_heap s x)"
      by (auto simp: run_begin_def Let_def fun_eq_iff)
    have "e \<notin> snd ` set (pl_pool s)" "\<forall>(k, e) \<in> set (pl_pool s). e < pl_fresh t"
      using i(3) t(1,2) by force+
    with i t new \<open>?k \<notin> fst ` set (pl_pool s)\<close> show ?thesis
      by (auto simp: pool_inv_def users_of_Cons less_Suc_eq simp del: map_append) (simp_all add: less_Suc_eq)
  next
    case (Some e')
    then have mem: "(?k, e') \<in> set (pl_pool s)" by (rule map_of_SomeD)
    with Some assms(2) have t: "e = e'" "pl_fresh t = pl_fresh s" "pl_pool t = ?p @ [(?k, e)]"
      "pl_heap t = (\<lambda>x. if x = e then (pl_heap s e)\<lparr>pe_in_use := pe_in_use (pl_heap s e) + 1\<rparr> else pl_heap s x)"
      by (auto simp: run_begin_def Let_def fun_eq_iff)
    have ne: "snd x \<noteq> e" if "x \<in> set ?p" for x
    proof
      assume "snd x = e"
      moreover have "x \<in> set (pl_pool s)" "fst x \<noteq> ?k" using that by (auto simp: map_delete_def)
      ultimately have "x = (?k, e)"
        using inj_onD[of snd "set (pl_pool s)" x "(?k, e)"] mem i(2) t(1) by (simp add: distinct_map)
      with \<open>fst x \<noteq> ?k\<close> show False by simp
    qed
    have d: "distinct (map fst ?p)" "distinct (map snd ?p)" "set ?p \<subseteq> set (pl_pool s)" "?k \<notin> fst ` set ?p"
      using i(1,2) by (auto simp: map_delete_facts dest: map_delete_facts(3))
    have l: "length ?p \<le> cap + length act"
      using i(6) map_delete_facts(2)[of ?k "pl_pool s"] by linarith
    have "e \<notin> snd ` set ?p" using ne by blast
    moreover have "e < pl_fresh s" using mem i(3) t(1) by auto
    ultimately show ?thesis using i t d l by (auto simp: pool_inv_def users_of_Cons)
  qed
qed

lemma run_connect_frame:
  "pl_pool (snd (run_connect usable conn e addr s)) = pl_pool s"
  "pl_fresh (snd (run_connect usable conn e addr s)) = pl_fresh s"
  "pe_in_use (pl_heap (snd (run_connect usable conn e addr s)) x) = pe_in_use (pl_heap s x)"
  by (auto simp: run_connect_def ensureConnected_def split: option.splits)

lemma sweep_loop_spec:
  "\<exists>P. pl_pool (snd (sweep_loop cutoff rest n s)) = filter P (pl_pool s)"
  "pl_fresh (snd (sweep_loop cutoff rest n s)) = pl_fresh s"
  "pe_in_use (pl_heap (snd (sweep_loop cutoff rest n s)) x) = pe_in_use (pl_heap s x)"
proof (induction cutoff rest n s rule: sweep_loop.induct)
  case (1 cutoff closed s)
  { case 1 show ?case by (intro exI[of _ "\<lambda>_. True"]) simp }
  { case 2 show ?case by simp }
  { case 3 show ?case by simp }
next
  case (2 cutoff key e rest closed s)
  { case 1
    show ?case using 2 by (auto simp: map_delete_def) }
  { case 2 show ?case using "2.IH" by auto }
  { case 3 show ?case using "2.IH" by auto }
qed

lemma pool_inv_filter:
  assumes "pool_inv cap (s, act)" "pl_pool t = filter P (pl_pool s)" "pl_fresh t = pl_fresh s"
    "\<And>x. pe_in_use (pl_heap t x) = pe_in_use (pl_heap s x)"
  shows "pool_inv cap (t, act)"
  using assms le_trans[OF length_filter_le[of P "pl_pool s"]] by (auto simp: pool_inv_def distinct_map_filter)

lemma sum_users:
  assumes "distinct es" "\<forall>e \<in> set es. 0 < users_of e act"
  shows "length es \<le> length act"
proof -
  have "set es \<subseteq> (\<lambda>(a, m, e). e) ` set act"
    using assms(2) by (force simp: users_of_def filter_empty_conv image_iff)
  then have "card (set es) \<le> card ((\<lambda>(a, m, e). e) ` set act)" by (intro card_mono) auto
  also have "\<dots> \<le> length act" by (metis card_image_le card_length finite_set le_trans)
  finally show ?thesis using assms(1) by (simp add: distinct_card)
qed

lemma run_end_inv:
  assumes inv: "pool_inv cap (s, act)" and run: "(a, m, e) \<in> set act" and cap: "1 \<le> cap"
  shows "pool_inv cap (run_end cap a m e s, remove1 (a, m, e) act)"
proof -
  let ?u = "upd_entry e (\<lambda>x. x\<lparr>pe_in_use := pe_in_use x - 1, pe_last_used := pl_now s\<rparr>) s"
  let ?act = "remove1 (a, m, e) act" and ?b = "busy ?u (sessKey a m)"
  have i: "distinct (map fst (pl_pool s))" "distinct (map snd (pl_pool s))"
    "\<forall>(k, e) \<in> set (pl_pool s). e < pl_fresh s" "\<forall>(a, m, e) \<in> set act. e < pl_fresh s"
    "\<forall>e < pl_fresh s. pe_in_use (pl_heap s e) = users_of e act" "length (pl_pool s) \<le> cap + length act"
    using inv by (simp_all add: pool_inv_def)
  have use: "\<forall>x < pl_fresh s. pe_in_use (pl_heap ?u x) = users_of x ?act"
    using i(5) users_of_remove1[OF run] by simp
  have p: "pl_pool (run_end cap a m e s) = keep (length (pl_pool s) - cap) ?b (pl_pool s)"
    using evictOverCap_pool[of ?u cap "sessKey a m"] i(1) by (simp add: run_end_def)
  have len: "length (keep (length (pl_pool s) - cap) ?b (pl_pool s)) \<le> cap + length ?act"
  proof (cases "length (keep (length (pl_pool s) - cap) ?b (pl_pool s)) \<le> cap")
    case False
    let ?k = "keep (length (pl_pool s) - cap) ?b (pl_pool s)"
    from False keep_full[of "length (pl_pool s) - cap" ?b "pl_pool s"] have all: "list_all ?b ?k" by fastforce
    let ?o = "filter (\<lambda>(k, e). k \<noteq> sessKey a m) ?k"
    have dk: "distinct (map fst ?k)" "distinct (map snd ?k)" using i(1,2) by (simp_all add: distinct_keep)
    have "0 < users_of x ?act" if "x \<in> set (map snd ?o)" for x
    proof -
      from that obtain k where k: "(k, x) \<in> set ?k" "k \<noteq> sessKey a m" by auto
      with all have "0 < pe_in_use (pl_heap ?u x)" by (auto simp: list_all_iff busy_def)
      moreover have "x < pl_fresh s" using k(1) set_keep i(3) by fast
      ultimately show ?thesis using use by simp
    qed
    with sum_users[of "map snd ?o" ?act] dk(2) have "length ?o \<le> length ?act" by (simp add: distinct_map_filter)
    moreover have "length ?k \<le> Suc (length ?o)"
      using map_delete_length[OF dk(1), of "sessKey a m"] by (simp add: map_delete_def)
    ultimately show ?thesis using cap by simp
  qed simp
  have h: "pe_in_use (pl_heap (run_end cap a m e s) x) = pe_in_use (pl_heap ?u x)"
    "pl_fresh (run_end cap a m e s) = pl_fresh s" for x
    by (simp_all add: run_end_def evictOverCap_def)
  have "\<forall>(k, e) \<in> set (keep (length (pl_pool s) - cap) ?b (pl_pool s)). e < pl_fresh s"
    using set_keep i(3) by fast
  moreover have "\<forall>(a, m, e) \<in> set ?act. e < pl_fresh s"
    using i(4) set_remove1_subset by fast
  ultimately show ?thesis
    unfolding pool_inv_def prod.case p h by (intro conjI distinct_keep i(1,2) use len)
qed

lemma pool_step_inv:
  assumes "pool_step cap x y" "pool_inv cap x" "1 \<le> cap"
  shows "pool_inv cap y"
  using assms
proof (cases rule: pool_step.cases)
  case (begin_run a m addr s e t act)
  then show ?thesis using assms(2) run_begin_inv by blast
next
  case (connect_run a m e act s usable conn addr)
  then show ?thesis using assms(2) pool_inv_filter[of cap s act _ "\<lambda>_. True"] by (simp add: run_connect_frame)
next
  case (end_run a m e act s)
  then show ?thesis using assms(2,3) run_end_inv by blast
next
  case (purge_run s act a)
  then show ?thesis using assms(2) pool_inv_filter[OF _ purge_pool, of cap s act a]
    by (simp add: pool_purgeSession_def Let_def)
next
  case (sweep_run s act ttl)
  then show ?thesis using assms(2) pool_inv_filter[of cap s act] sweep_loop_spec[of _ "pl_pool s" 0 s]
    by (metis pool_sweepIdle_def)
next
  case (time_run d s act)
  then show ?thesis using assms(2) by (simp add: pool_inv_def)
qed

lemma pool_keys_ok_mono: "pool_keys_ok s \<Longrightarrow> set (pl_pool t) \<subseteq> set (pl_pool s) \<Longrightarrow> pool_keys_ok t"
  by (auto simp: pool_keys_ok_def)

lemma evict_loop_subset: "set (pl_pool (evict_loop cap current rest s)) \<subseteq> set (pl_pool s)"
  by (induction cap current rest s rule: evict_loop.induct) (auto simp: map_delete_def)

lemma pool_step_keys: "pool_step cap x y \<Longrightarrow> pool_keys_ok (fst x) \<Longrightarrow> pool_keys_ok (fst y)"
proof (induction rule: pool_step.induct)
  case (begin_run a m addr s e t act)
  then have "set (pl_pool t) \<subseteq> insert (sessKey a m, e) (set (pl_pool s))"
    by (auto simp: run_begin_def Let_def map_delete_def split: option.splits)
  with begin_run(2) show ?case by (fastforce simp: pool_keys_ok_def)
next
  case (sweep_run s act ttl)
  with sweep_loop_spec(1)[of "pl_now s - ttl * 1000" "pl_pool s" 0 s] show ?case
    by (auto simp: pool_sweepIdle_def intro: pool_keys_ok_mono)
qed (auto elim!: pool_keys_ok_mono simp: run_connect_frame purge_pool run_end_def evictOverCap_def dest: evict_loop_subset[THEN subsetD])

definition empty_pool :: pool_state where
  "empty_pool = \<lparr>pl_now = 0, pl_pool = [],
     pl_heap = (\<lambda>_. \<lparr>pe_client = None, pe_address = [], pe_last_used = 0, pe_in_use = 0\<rparr>), pl_fresh = 0, pl_clients = []\<rparr>"

lemma pool_steps_inv:
  assumes "(pool_step cap)\<^sup>*\<^sup>* (empty_pool, []) x" "1 \<le> cap"
  shows "pool_inv cap x"
  using assms(1)
proof (induction rule: rtranclp_induct)
  case base
  then show ?case by (simp add: pool_inv_def empty_pool_def)
next
  case (step y z)
  then show ?case using pool_step_inv assms(2) by blast
qed

section \<open>Properties\<close>

text \<open>
  C37: the pool stays bounded however requests interleave. In every state reached by requests
  that begin, connect and end in any order, with purges, sweeps and time in between, the pool
  holds at most the configured maximum plus one entry per request still running; with no
  request running it is within the maximum.
\<close>

theorem pool_is_bounded:
  assumes "(pool_step cap)\<^sup>*\<^sup>* (empty_pool, []) (s, act)" "1 \<le> cap"
  shows "length (pl_pool s) \<le> cap + length act"
  using pool_steps_inv[OF assms] by (simp add: pool_inv_def)

theorem pool_is_bounded_witness:
  "\<exists>s. (pool_step 1)\<^sup>*\<^sup>* (empty_pool, []) (s, [(7, 9, 1), (7, 8, 0)]) \<and> length (pl_pool s) \<le> 1 + 2"
proof -
  let ?s1 = "snd (run_begin 7 8 ''a'' empty_pool)"
  let ?s2 = "snd (run_begin 7 9 ''b'' ?s1)"
  have e: "fst (run_begin 7 8 ''a'' empty_pool) = 0" "fst (run_begin 7 9 ''b'' ?s1) = 1"
    by (simp_all add: run_begin_def empty_pool_def Let_def upd_entry_def map_delete_def)
  have "pool_step 1 (empty_pool, []) (?s1, [(7, 8, 0)])"
    using begin_run[of 7 8 "''a''" empty_pool 0 ?s1 1 "[]"] e(1) by (metis prod.collapse)
  moreover have "pool_step 1 (?s1, [(7, 8, 0)]) (?s2, [(7, 9, 1), (7, 8, 0)])"
    using begin_run[of 7 9 "''b''" ?s1 1 ?s2 1 "[(7, 8, 0)]"] e(2) by (metis prod.collapse)
  ultimately have r: "(pool_step 1)\<^sup>*\<^sup>* (empty_pool, []) (?s2, [(7, 9, 1), (7, 8, 0)])"
    by (rule converse_rtranclp_into_rtranclp[OF _ r_into_rtranclp])
  with pool_is_bounded[OF r] show ?thesis by auto
qed

text \<open>
  eviction follows the least-recently-used order. When a request ends, the pool afterwards
  is the pool before without its oldest idle entries, as many of them as it is over the
  maximum: busy entries and the entry of the request itself stay, and so does the order.
\<close>

theorem eviction_drops_oldest_idle:
  assumes "(pool_step cap)\<^sup>*\<^sup>* (empty_pool, []) (s, act)" "1 \<le> cap" "(a, m, e) \<in> set act"
  defines "u \<equiv> upd_entry e (\<lambda>x. x\<lparr>pe_in_use := pe_in_use x - 1, pe_last_used := pl_now s\<rparr>) s"
  shows "pl_pool (run_end cap a m e s) =
      keep (length (pl_pool s) - cap) (\<lambda>(k, x). k = sessKey a m \<or> 0 < pe_in_use (pl_heap u x)) (pl_pool s) \<and>
    filter (\<lambda>(k, x). k = sessKey a m \<or> 0 < pe_in_use (pl_heap u x)) (pl_pool (run_end cap a m e s)) =
      filter (\<lambda>(k, x). k = sessKey a m \<or> 0 < pe_in_use (pl_heap u x)) (pl_pool s)"
proof -
  have "distinct (map fst (pl_pool s))"
    using pool_steps_inv[OF assms(1,2)] by (simp add: pool_inv_def)
  then have "pl_pool (run_end cap a m e s) = keep (length (pl_pool s) - cap) (busy u (sessKey a m)) (pl_pool s)"
    using evictOverCap_pool[of u cap "sessKey a m"] by (simp add: run_end_def u_def)
  then show ?thesis by (simp add: busy_def keep_busy)
qed

theorem eviction_drops_oldest_idle_witness:
  "\<exists>s e. pl_pool (run_end 1 7 8 e s) = [(sessKey 7 8, e)] \<and>
     keep 0 (\<lambda>(k, x). k = sessKey 7 8 \<or> 0 < pe_in_use (pl_heap s x) - 1) (pl_pool s) = [(sessKey 7 8, e)]"
proof -
  let ?s = "snd (run_begin 7 8 ''a'' empty_pool)"
  have e: "fst (run_begin 7 8 ''a'' empty_pool) = 0"
    by (simp add: run_begin_def empty_pool_def Let_def)
  have p: "pl_pool ?s = [(sessKey 7 8, 0)]"
    by (simp add: run_begin_def empty_pool_def Let_def map_delete_def)
  have "(pool_step 1)\<^sup>*\<^sup>* (empty_pool, []) (?s, [(7, 8, 0)])"
    using begin_run[of 7 8 "''a''" empty_pool 0 ?s 1 "[]"] e by (metis prod.collapse r_into_rtranclp)
  from eviction_drops_oldest_idle[OF this, of 7 8 0] have "pl_pool (run_end 1 7 8 0 ?s) = [(sessKey 7 8, 0)]"
    by (simp add: p)
  with p show ?thesis by (metis keep_0)
qed

text \<open>
  purging a session removes exactly its connections from the pool. No entry of the
  session is left, every entry of another session stays in place, and each removed entry has
  let go of its client.
\<close>

theorem pool_purge_exact:
  "map_of (pl_pool (pool_purgeSession a s)) (sessKey b m) =
     (if b = a then None else map_of (pl_pool s) (sessKey b m)) \<and>
   list_all (\<lambda>(k, e). startsWith k (sessPrefix a) \<longrightarrow> pe_client (pl_heap (pool_purgeSession a s) e) = None) (pl_pool s)"
proof -
  have f: "map_of (filter (\<lambda>(k, e). P k) xs) k = (if P k then map_of xs k else None)"
    for P k and xs :: "(string \<times> nat) list"
    by (induction xs) auto
  have "map_of (pl_pool (pool_purgeSession a s)) (sessKey b m) =
      (if b = a then None else map_of (pl_pool s) (sessKey b m))"
    unfolding purge_pool by (subst f[where P = "\<lambda>k. \<not> startsWith k (sessPrefix a)"]) (simp add: startsWith_sess)
  moreover have "list_all (\<lambda>(k, e). startsWith k (sessPrefix a) \<longrightarrow> pe_client (pl_heap (pool_purgeSession a s) e) = None) (pl_pool s)"
    by (force simp: list_all_iff pool_purgeSession_def Let_def intro!: fold_closeEntry_closes)
  ultimately show ?thesis by blast
qed

theorem pool_purge_exact_witness:
  "map_of (pl_pool (pool_purgeSession 7 (snd (run_begin 7 8 ''a'' empty_pool)))) (sessKey 7 8) = None"
  using pool_purge_exact[of 7 "snd (run_begin 7 8 ''a'' empty_pool)" 7 8] by simp

text \<open>
  a purge can leave a connection behind. A request that has begun but not yet connected
  keeps its entry; when the session is purged in between, the request still connects and logs
  in, and once it has ended its client is open although the pool is empty, where no later
  purge or sweep finds it.
\<close>

theorem purge_can_leak_a_connection:
  "let (e, s1) = run_begin 7 8 ''a@b'' empty_pool;
       s2 = pool_purgeSession 7 s1;
       s3 = snd (run_connect (\<lambda>_. True) (Some 1) e ''a@b'' s2);
       s4 = run_end 10 7 8 e s3
   in pl_pool s4 = [] \<and> pl_clients s4 = [1] \<and> pl_clients (pool_purgeSession 7 s4) = [1] \<and>
      pl_clients (snd (pool_sweepIdle 0 (s4\<lparr>pl_now := 99999\<rparr>))) = [1]"
  by code_simp

end
