(* ===== verification/JM_Auth.thy ===== *)
theory JM_Auth
  imports JM_ApiKeys JM_Pool
begin

text \<open>
  \<open>AuthService\<close> (\<open>apps/api/src/auth/auth.service.ts\<close>): first-admin bootstrap, password and
  mailbox login, sessions, two-factor authentication and passkeys.

  The state extends the database by the two WebAuthn tables and by the credential store, the
  connection pool and the idle watchers that logging out purges. The record \<open>auth_env\<close> holds
  the configuration and what is not in the repository: argon2, the one-time-password check,
  the sealed box, SHA-256, the WebAuthn library. Random texts are arguments of the handlers.
\<close>

record credential_row =
  wc_id :: uuid
  wc_user_id :: uuid
  wc_credential_id :: string
  wc_public_key :: string
  wc_counter :: int
  wc_transports :: "string list"
  wc_device_type :: "string option"
  wc_backed_up :: bool
  wc_name :: string
  wc_created_at :: timestamp
  wc_last_used_at :: "timestamp option"

datatype challenge_kind = Register | Auth

record challenge_row =
  ch_id :: uuid
  ch_user_id :: "uuid option"
  ch_kind :: challenge_kind
  ch_challenge :: string
  ch_expires_at :: timestamp
  ch_created_at :: timestamp

record sys = db +
  webauthn_credentials :: "credential_row list"
  webauthn_challenges :: "challenge_row list"
  sys_creds :: cred_state
  sys_pool :: pool_state
  sys_watchers :: watchers

record stored_credential =
  sc_credential_id :: string
  sc_public_key :: string
  sc_counter :: int
  sc_transports :: "string list"

record registration_info =
  ri_id :: string
  ri_public_key :: string
  ri_counter :: int
  ri_transports :: "string list"
  ri_device_type :: "string option"
  ri_backed_up :: bool

record auth_env =
  ae_sha256 :: "string \<Rightarrow> string"
  ae_hash :: "string \<Rightarrow> string"
  ae_verify :: "string \<Rightarrow> string \<Rightarrow> bool"
  ae_DUMMY_HASH :: string
  ae_totp :: "string \<Rightarrow> string \<Rightarrow> bool"
  ae_otpauth :: "string \<Rightarrow> string \<Rightarrow> string"
  ae_seal :: "string \<Rightarrow> string"
  ae_unseal :: "string \<Rightarrow> string option"
  ae_nfkd :: "string \<Rightarrow> string"
  ae_session_ttl_days :: int
  ae_challenge_ttl_seconds :: int
  ae_cred_ttl_seconds :: int
  ae_use_redis :: bool
  ae_production :: bool
  ae_bootstrap_token :: "string option"
  ae_generated_token :: string
  ae_response_id :: "json \<Rightarrow> string option"
  ae_verify_registration :: "json \<Rightarrow> string \<Rightarrow> registration_info option option"
  ae_verify_authentication :: "json \<Rightarrow> string \<Rightarrow> stored_credential \<Rightarrow> int option option"

text \<open>
  The two checks of the WebAuthn library give \<open>None\<close> when the library throws on a malformed response,
  \<open>Some None\<close> when it answers that the response is not verified.
\<close>

text \<open>Calls into the credential store, the pool and the watchers on their part of the state.\<close>

definition on_creds :: "(cred_state, 'a) svc \<Rightarrow> ('z sys_scheme, 'a) svc" where
  "on_creds m = (\<lambda>s. case m ((sys_creds s)\<lparr>c_now := now s\<rparr>) of (r, c) \<Rightarrow> (r, s\<lparr>sys_creds := c\<rparr>))"

definition on_pool :: "(pool_state \<Rightarrow> pool_state) \<Rightarrow> ('z sys_scheme, unit) svc" where
  "on_pool f = modifyM (\<lambda>s. s\<lparr>sys_pool := f ((sys_pool s)\<lparr>pl_now := now s\<rparr>)\<rparr>)"

definition on_watchers :: "(watchers \<Rightarrow> watchers) \<Rightarrow> ('z sys_scheme, unit) svc" where
  "on_watchers f = modifyM (\<lambda>s. s\<lparr>sys_watchers := f (sys_watchers s)\<rparr>)"

text \<open>An audit entry without organization or target.\<close>

definition plain_entry :: "uuid \<Rightarrow> string \<Rightarrow> string option \<Rightarrow> audit_entry" where
  "plain_entry userId action ip =
     \<lparr>a_org_id = None, a_actor_type = ActorUser, a_actor_id = Some userId, a_action = action,
      a_target_type = None, a_target_id = None, a_ip = ip, a_meta = []\<rparr>"

definition target_entry :: "uuid option \<Rightarrow> uuid \<Rightarrow> string \<Rightarrow> string \<Rightarrow> uuid \<Rightarrow> string option \<Rightarrow> audit_entry" where
  "target_entry org userId action ttype target ip =
     \<lparr>a_org_id = org, a_actor_type = ActorUser, a_actor_id = Some userId, a_action = action,
      a_target_type = Some ttype, a_target_id = Some target, a_ip = ip, a_meta = []\<rparr>"

section \<open>Sessions\<close>

record session_grant =
  sg_token :: string
  sg_expires_at :: timestamp
  sg_session_id :: uuid

text \<open>\<open>INSERT INTO sessions\<close>: the token hash is unique, the user exists.\<close>

definition insert_session ::
  "uuid \<Rightarrow> string \<Rightarrow> string option \<Rightarrow> string option \<Rightarrow> timestamp \<Rightarrow> uuid option \<Rightarrow> ('z db_scheme, uuid) svc" where
  "insert_session userId hash ip ua expires mailboxId = (\<lambda>s.
     if hash \<in> s_token_hash ` set (sessions s) then (Inl (DbError ''23505''), s)
     else if userId \<notin> u_id ` set (users s) then (Inl (DbError ''23503''), s)
     else (Inr (next_id s),
           s\<lparr>sessions := sessions s @ [\<lparr>s_id = next_id s, s_user_id = userId, s_token_hash = hash, s_ip = ip,
               s_user_agent = ua, s_expires_at = expires, s_created_at = now s, s_mailbox_id = mailboxId\<rparr>],
             next_id := next_id s + 1\<rparr>))"

definition createSession ::
  "auth_env \<Rightarrow> string \<Rightarrow> uuid \<Rightarrow> string option \<Rightarrow> string option \<Rightarrow> uuid option \<Rightarrow> ('z db_scheme, session_grant) svc" where
  "createSession env token userId ip ua mailboxId =
     bindM (getsM (\<lambda>s. now s + ae_session_ttl_days env * 24 * 3600 * 1000)) (\<lambda>expiresAt.
     bindM (insert_session userId (ae_sha256 env token) ip ua expiresAt mailboxId) (\<lambda>i.
     returnM \<lparr>sg_token = token, sg_expires_at = expiresAt, sg_session_id = i\<rparr>))"

text \<open>The mailbox and domain of the left joins, when the session is bound to a mailbox.\<close>

definition session_mailbox :: "'z db_scheme \<Rightarrow> session_row \<Rightarrow> (mailbox_row \<times> domain_row) option" where
  "session_mailbox s x =
     Option.bind (s_mailbox_id x) (\<lambda>mid. Option.bind (find (\<lambda>m. mb_id m = mid) (mailboxes s)) (\<lambda>m.
       map_option (Pair m) (find (\<lambda>d. d_id d = mb_domain_id m) (domains s))))"

definition resolveSession :: "auth_env \<Rightarrow> string \<Rightarrow> ('z db_scheme, principal option) svc" where
  "resolveSession env token = getsM (\<lambda>s.
     case find (\<lambda>(x, u). s_token_hash x = ae_sha256 env token \<and> s_expires_at x > now s \<and> u_status u = ''active'')
            [(x, u). x \<leftarrow> sessions s, u \<leftarrow> users s, u_id u = s_user_id x] of
       None \<Rightarrow> None
     | Some (x, u) \<Rightarrow> Some
         \<lparr>p_user_id = u_id u,
          p_email = (case session_mailbox s x of None \<Rightarrow> u_email u | Some (m, d) \<Rightarrow> mb_local_part m @ ''@'' @ d_name d),
          p_name = u_name u, p_session_id = s_id x, p_mailbox_id = s_mailbox_id x,
          p_org_id = map_option (\<lambda>(m, d). d_org_id d) (session_mailbox s x)\<rparr>)"

definition purge_session :: "auth_env \<Rightarrow> uuid \<Rightarrow> ('z sys_scheme, unit) svc" where
  "purge_session env sid =
     thenM (on_creds (cred_purgeSession (ae_use_redis env) sid))
     (thenM (on_pool (pool_purgeSession sid))
     (on_watchers (idle_purgeSession sid)))"

definition logout :: "auth_env \<Rightarrow> principal \<Rightarrow> string option \<Rightarrow> ('z sys_scheme, unit) svc" where
  "logout env p ip =
     thenM (modifyM (\<lambda>s. s\<lparr>sessions := filter (\<lambda>x. s_id x \<noteq> p_session_id p) (sessions s)\<rparr>))
     (thenM (purge_session env (p_session_id p))
     (audit_log (plain_entry (p_user_id p) ''auth.logout'' ip)))"

record session_info =
  si_id :: uuid
  si_ip :: "string option"
  si_user_agent :: "string option"
  si_device_fingerprint :: "string option"
  si_created_at :: timestamp
  si_expires_at :: timestamp
  si_last_seen_at :: timestamp
  si_current :: bool

definition listSessions :: "principal \<Rightarrow> ('z db_scheme, session_info list) svc" where
  "listSessions p = getsM (\<lambda>s. map (\<lambda>x. \<lparr>si_id = s_id x, si_ip = s_ip x, si_user_agent = s_user_agent x,
       si_device_fingerprint = None, si_created_at = s_created_at x, si_expires_at = s_expires_at x,
       si_last_seen_at = s_created_at x, si_current = (s_id x = p_session_id p)\<rparr>)
     (sort_key (\<lambda>x. - s_created_at x)
        (filter (\<lambda>x. s_user_id x = p_user_id p \<and> s_expires_at x > now s) (sessions s))))"

definition revokeSession :: "auth_env \<Rightarrow> principal \<Rightarrow> uuid \<Rightarrow> string option \<Rightarrow> ('z sys_scheme, unit) svc" where
  "revokeSession env p sid ip =
     bindM (getsM (\<lambda>s. \<exists>x \<in> set (sessions s). s_id x = sid \<and> s_user_id x = p_user_id p)) (\<lambda>hit.
     thenM (modifyM (\<lambda>s. s\<lparr>sessions := filter (\<lambda>x. \<not> (s_id x = sid \<and> s_user_id x = p_user_id p)) (sessions s)\<rparr>))
     (thenM (throwIf (\<not> hit) (NotFoundException ''Session not found'' None))
     (thenM (purge_session env sid)
     (audit_log (target_entry None (p_user_id p) ''auth.session.revoke'' ''session'' sid ip)))))"

section \<open>Bootstrap\<close>

record bootstrap_request =
  br_email :: string
  br_password :: string
  br_name :: string
  br_org_name :: string

definition bootstrapTokenRequired :: "auth_env \<Rightarrow> bool" where
  "bootstrapTokenRequired env = (ae_production env \<or> (case ae_bootstrap_token env of None \<Rightarrow> False | Some t \<Rightarrow> t \<noteq> []))"

definition bootstrapTokenMatches :: "auth_env \<Rightarrow> string \<Rightarrow> bool" where
  "bootstrapTokenMatches env provided =
     (let expected = (case ae_bootstrap_token env of None \<Rightarrow> ae_generated_token env | Some t \<Rightarrow> t)
      in ae_sha256 env provided = ae_sha256 env expected)"

definition auth_status :: "('z db_scheme, bool) svc" where
  "auth_status = getsM (\<lambda>s. length (users s) > 0)"

text \<open>\<open>INSERT INTO users\<close>: the address is unique up to case.\<close>

definition insert_user :: "string \<Rightarrow> string \<Rightarrow> string \<Rightarrow> ('z db_scheme, uuid) svc" where
  "insert_user email name hash = (\<lambda>s.
     if \<exists>u \<in> set (users s). ci_eq (u_email u) email then (Inl (DbError ''23505''), s)
     else (Inr (next_id s),
           s\<lparr>users := users s @ [\<lparr>u_id = next_id s, u_email = email, u_name = name, u_password_hash = Some hash,
               u_totp_secret = None, u_totp_enabled = False, u_status = ''active'', u_updated_at = now s\<rparr>],
             next_id := next_id s + 1\<rparr>))"

definition bootstrap ::
  "auth_env \<Rightarrow> string \<Rightarrow> string \<Rightarrow> bootstrap_request \<Rightarrow> string option \<Rightarrow> string option \<Rightarrow> string option
     \<Rightarrow> ('z db_scheme, session_grant) svc" where
  "bootstrap env rnd token req ip ua provided =
     thenM (throwIf (bootstrapTokenRequired env \<and>
                     \<not> bootstrapTokenMatches env (case provided of None \<Rightarrow> [] | Some t \<Rightarrow> t))
              (UnauthorizedException ''Invalid bootstrap token''
                 (Some ''Bootstrapping requires the one-time token from the server logs (X-Bootstrap-Token).'')))
     (bindM (tx (bindM (getsM (\<lambda>s. length (users s))) (\<lambda>n.
         thenM (throwIf (n > 0) (ForbiddenException ''Already bootstrapped''
                  (Some ''An account already exists; log in instead.'')))
         (bindM (insert_organization (br_org_name req) (slugify (ae_nfkd env) rnd (br_org_name req))) (\<lambda>org.
          bindM (insert_user (br_email req) (br_name req) (ae_hash env (br_password req))) (\<lambda>uid.
          thenM (insert_member (o_id org) uid Owner)
         (returnM (uid, o_id org)))))))) (\<lambda>(uid, oid).
      thenM (audit_log (target_entry (Some oid) uid ''auth.bootstrap'' ''user'' uid ip))
     (createSession env token uid ip ua None)))"

section \<open>Login\<close>

record login_request =
  lr_email :: string
  lr_password :: string
  lr_totp_code :: "string option"

text \<open>\<open>lastIndexOf("@")\<close> splits the address; both halves are empty unless it is at a positive index.\<close>

definition split_address :: "string \<Rightarrow> string \<times> string" where
  "split_address email =
     (let r = rev email; dom = rev (takeWhile (\<lambda>c. c \<noteq> CHR ''@'') r);
          rest = dropWhile (\<lambda>c. c \<noteq> CHR ''@'') r; loc = rev (drop 1 rest)
      in if rest \<noteq> [] \<and> loc \<noteq> [] then (toLowerCase loc, toLowerCase dom) else ([], []))"

text \<open>The identity row of a mailbox: \<open>ON CONFLICT (email) DO UPDATE\<close> returns an existing user.\<close>

definition shadow_user :: "auth_env \<Rightarrow> string \<Rightarrow> ('z db_scheme, uuid) svc" where
  "shadow_user env address = (\<lambda>s.
     case find (\<lambda>u. ci_eq (u_email u) address) (users s) of
       Some u \<Rightarrow> (Inr (u_id u),
         s\<lparr>users := map (\<lambda>x. if ci_eq (u_email x) address then x\<lparr>u_updated_at := now s\<rparr> else x) (users s)\<rparr>)
     | None \<Rightarrow> insert_user address address (ae_DUMMY_HASH env) s)"

definition mailboxLogin ::
  "auth_env \<Rightarrow> string \<Rightarrow> login_request \<Rightarrow> string option \<Rightarrow> string option \<Rightarrow> ('z sys_scheme, string \<times> timestamp) svc" where
  "mailboxLogin env token req ip ua =
     (let (localPart, domain) = split_address (lr_email req) in
      bindM (getsM (\<lambda>s. find (\<lambda>(m, d). ci_eq (mb_local_part m) localPart \<and> toLowerCase (d_name d) = domain)
               [(m, d). m \<leftarrow> mailboxes s, d \<leftarrow> domains s, d_id d = mb_domain_id m])) (\<lambda>row.
      let ok = ae_verify env (case row of None \<Rightarrow> ae_DUMMY_HASH env | Some (m, d) \<Rightarrow> mb_password_hash m) (lr_password req) in
      thenM (throwIf (row = None \<or> \<not> ok) (UnauthorizedException ''Invalid credentials'' None))
     (let (mb, d) = the row; address = mb_local_part mb @ ''@'' @ d_name d in
      thenM (throwIf (mb_status mb \<noteq> ''active'') (ForbiddenException ''Mailbox suspended'' None))
     (bindM (shadow_user env address) (\<lambda>userId.
      bindM (createSession env token userId ip ua (Some (mb_id mb))) (\<lambda>session.
      thenM (on_creds (cred_store (ae_use_redis env) (ae_seal env) (ae_cred_ttl_seconds env)
               (sg_session_id session) (mb_id mb) address (lr_password req)))
     (thenM (audit_log (target_entry (Some (d_org_id d)) userId ''auth.login'' ''mailbox'' (mb_id mb) ip))
     (returnM (sg_token session, sg_expires_at session)))))))))"

text \<open>\<open>user?.password_hash ?? DUMMY_HASH\<close>: no such user, or an account without a password.\<close>

definition login_hash :: "auth_env \<Rightarrow> user_row option \<Rightarrow> string" where
  "login_hash env row = (case Option.bind row u_password_hash of None \<Rightarrow> ae_DUMMY_HASH env | Some h \<Rightarrow> h)"

text \<open>An empty text is falsy: \<open>if (!req.totp_code)\<close>.\<close>

definition non_empty :: "string option \<Rightarrow> string option" where
  "non_empty x = (if x = Some [] then None else x)"

definition login ::
  "auth_env \<Rightarrow> string \<Rightarrow> login_request \<Rightarrow> string option \<Rightarrow> string option \<Rightarrow> ('z sys_scheme, string \<times> timestamp) svc" where
  "login env token req ip ua =
     bindM (getsM (\<lambda>s. find (\<lambda>u. ci_eq (u_email u) (lr_email req)) (users s))) (\<lambda>row.
     let ok = ae_verify env (login_hash env row) (lr_password req) in
     case row of
       None \<Rightarrow> mailboxLogin env token req ip ua
     | Some user \<Rightarrow>
         if \<not> ok then mailboxLogin env token req ip ua
         else
           thenM (throwIf (u_status user \<noteq> ''active'') (ForbiddenException ''Account suspended'' None))
          (thenM (if u_totp_enabled user then
                    (case non_empty (lr_totp_code req) of
                       None \<Rightarrow> throwM (UnauthorizedException ''Two-factor code required'' None)
                     | Some code \<Rightarrow>
                         bindM (someM (Option.bind (u_totp_secret user) (ae_unseal env)) (HttpException 500 ''Error'' None)) (\<lambda>secret.
                         throwIf (\<not> ae_totp env secret code) (UnauthorizedException ''Invalid two-factor code'' None)))
                  else returnM ())
          (thenM (audit_log (target_entry None (u_id user) ''auth.login'' ''user'' (u_id user) ip))
          (bindM (createSession env token (u_id user) ip ua None) (\<lambda>g.
           returnM (sg_token g, sg_expires_at g))))))"

section \<open>The caller's own view\<close>

record session_org =
  so_id :: uuid
  so_name :: string
  so_slug :: string
  so_role :: org_role

record me_dto =
  me_id :: uuid
  me_email :: string
  me_name :: string
  me_totp_enabled :: bool
  me_passkey_enabled :: bool
  me_orgs :: "session_org list"
  me_mailbox_id :: "uuid option"

definition me :: "principal \<Rightarrow> ('z sys_scheme, me_dto) svc" where
  "me p = getsM (\<lambda>s.
     case p_mailbox_id p of
       Some mid \<Rightarrow>
         \<lparr>me_id = mid, me_email = p_email p, me_name = p_name p, me_totp_enabled = False, me_passkey_enabled = False,
          me_orgs = map (\<lambda>r. \<lparr>so_id = o_id r, so_name = o_name r, so_slug = o_slug r, so_role = Member\<rparr>)
                     (filter (\<lambda>r. Some (o_id r) = p_org_id p) (organizations s)),
          me_mailbox_id = Some mid\<rparr>
     | None \<Rightarrow>
         \<lparr>me_id = p_user_id p, me_email = p_email p, me_name = p_name p,
          me_totp_enabled = (case find (\<lambda>u. u_id u = p_user_id p) (users s) of None \<Rightarrow> False | Some u \<Rightarrow> u_totp_enabled u),
          me_passkey_enabled = (length (filter (\<lambda>c. wc_user_id c = p_user_id p) (webauthn_credentials s)) > 0),
          me_orgs = map (\<lambda>(m, r). \<lparr>so_id = o_id r, so_name = o_name r, so_slug = o_slug r, so_role = m_role m\<rparr>)
                     (sort_key (\<lambda>(m, r). o_created_at r)
                        [(m, r). m \<leftarrow> org_members s, m_user_id m = p_user_id p, r \<leftarrow> organizations s, o_id r = m_org_id m]),
          me_mailbox_id = None\<rparr>)"

text \<open>
  The WebSocket ticket: \<open>b64\<close> is the base64url text of the JSON payload and \<open>hmac\<close> the keyed
  digest, both parameters; the payload is kept as a record.
\<close>

record ws_payload =
  ws_session_id :: uuid
  ws_user_id :: uuid
  ws_org_ids :: "uuid list"
  ws_exp :: int

definition wsTicket ::
  "(ws_payload \<Rightarrow> string) \<Rightarrow> (string \<Rightarrow> string) \<Rightarrow> principal \<Rightarrow> ('z db_scheme, string \<times> timestamp) svc" where
  "wsTicket b64 hmac p = getsM (\<lambda>s.
     let ex = now s div 1000 + 60;
         payload = \<lparr>ws_session_id = p_session_id p, ws_user_id = p_user_id p,
                    ws_org_ids = map m_org_id (filter (\<lambda>m. m_user_id m = p_user_id p) (org_members s)), ws_exp = ex\<rparr>;
         payloadB64 = b64 payload
     in (payloadB64 @ ''.'' @ hmac payloadB64, ex * 1000))"

section \<open>Two-factor authentication\<close>

definition upd_user :: "uuid \<Rightarrow> (timestamp \<Rightarrow> user_row \<Rightarrow> user_row) \<Rightarrow> ('z db_scheme, unit) svc" where
  "upd_user i f = modifyM (\<lambda>s. s\<lparr>users := map (\<lambda>u. if u_id u = i then f (now s) u else u) (users s)\<rparr>)"

definition find_user :: "uuid \<Rightarrow> 'z db_scheme \<Rightarrow> user_row option" where
  "find_user i s = find (\<lambda>u. u_id u = i) (users s)"

definition setupTwoFa :: "auth_env \<Rightarrow> string \<Rightarrow> principal \<Rightarrow> ('z db_scheme, string \<times> string) svc" where
  "setupTwoFa env secret p =
     bindM (getsM (find_user (p_user_id p))) (\<lambda>row.
     thenM (throwIf (case row of None \<Rightarrow> False | Some u \<Rightarrow> u_totp_enabled u)
              (ConflictException ''Two-factor already enabled'' None))
     (thenM (upd_user (p_user_id p) (\<lambda>nw u. u\<lparr>u_totp_secret := Some (ae_seal env secret), u_updated_at := nw\<rparr>))
     (returnM (secret, ae_otpauth env (p_email p) secret))))"

definition verifyTwoFa :: "auth_env \<Rightarrow> principal \<Rightarrow> string \<Rightarrow> string option \<Rightarrow> ('z db_scheme, unit) svc" where
  "verifyTwoFa env p code ip =
     bindM (getsM (find_user (p_user_id p))) (\<lambda>row.
     bindM (someM (case row of None \<Rightarrow> None | Some u \<Rightarrow> if u_totp_enabled u then None else u_totp_secret u)
              (ConflictException ''Two-factor setup not in progress'' None)) (\<lambda>sealed.
     bindM (someM (ae_unseal env sealed) (HttpException 500 ''Error'' None)) (\<lambda>secret.
     thenM (throwIf (\<not> ae_totp env secret code) (UnauthorizedException ''Invalid two-factor code'' None))
     (thenM (upd_user (p_user_id p) (\<lambda>nw u. u\<lparr>u_totp_enabled := True, u_updated_at := nw\<rparr>))
     (audit_log (plain_entry (p_user_id p) ''auth.2fa.enable'' ip))))))"

definition disableTwoFa :: "auth_env \<Rightarrow> principal \<Rightarrow> string \<Rightarrow> string option \<Rightarrow> ('z db_scheme, unit) svc" where
  "disableTwoFa env p password ip =
     bindM (getsM (find_user (p_user_id p))) (\<lambda>row.
     thenM (case row of
              None \<Rightarrow> throwM (UnauthorizedException ''Invalid password'' None)
            | Some u \<Rightarrow> bindM (someM (u_password_hash u) (HttpException 500 ''Error'' None)) (\<lambda>h.
                throwIf (\<not> ae_verify env h password) (UnauthorizedException ''Invalid password'' None)))
     (thenM (upd_user (p_user_id p) (\<lambda>nw u. u\<lparr>u_totp_enabled := False, u_totp_secret := None, u_updated_at := nw\<rparr>))
     (audit_log (plain_entry (p_user_id p) ''auth.2fa.disable'' ip))))"

section \<open>Passkeys\<close>

definition loadCredentials :: "uuid \<Rightarrow> 'z sys_scheme \<Rightarrow> stored_credential list" where
  "loadCredentials userId s = map (\<lambda>r. \<lparr>sc_credential_id = wc_credential_id r, sc_public_key = wc_public_key r,
      sc_counter = wc_counter r, sc_transports = wc_transports r\<rparr>)
     (filter (\<lambda>r. wc_user_id r = userId) (webauthn_credentials s))"

definition storeChallenge ::
  "auth_env \<Rightarrow> challenge_kind \<Rightarrow> uuid option \<Rightarrow> string \<Rightarrow> ('z sys_scheme, uuid) svc" where
  "storeChallenge env kind userId challenge = (\<lambda>s.
     (Inr (next_id s),
      s\<lparr>webauthn_challenges := webauthn_challenges s @ [\<lparr>ch_id = next_id s, ch_user_id = userId, ch_kind = kind,
          ch_challenge = challenge, ch_expires_at = now s + ae_challenge_ttl_seconds env * 1000, ch_created_at = now s\<rparr>],
        next_id := next_id s + 1\<rparr>))"

text \<open>The options object is the challenge it carries and the credentials it lists.\<close>

definition passkeyRegisterOptions ::
  "auth_env \<Rightarrow> string \<Rightarrow> principal \<Rightarrow> ('z sys_scheme, string \<times> string list) svc" where
  "passkeyRegisterOptions env challenge p =
     bindM (getsM (loadCredentials (p_user_id p))) (\<lambda>existing.
     thenM (storeChallenge env Register (Some (p_user_id p)) challenge)
     (returnM (challenge, map sc_credential_id existing)))"

record passkey_info =
  pk_id :: uuid
  pk_name :: string
  pk_device_type :: "string option"
  pk_backed_up :: bool
  pk_created_at :: timestamp
  pk_last_used_at :: "timestamp option"

definition toPasskeyInfo :: "credential_row \<Rightarrow> passkey_info" where
  "toPasskeyInfo r = \<lparr>pk_id = wc_id r, pk_name = wc_name r, pk_device_type = wc_device_type r,
     pk_backed_up = wc_backed_up r, pk_created_at = wc_created_at r, pk_last_used_at = wc_last_used_at r\<rparr>"

definition delete_challenge :: "uuid \<Rightarrow> 'z sys_scheme \<Rightarrow> 'z sys_scheme" where
  "delete_challenge i s = s\<lparr>webauthn_challenges := filter (\<lambda>c. ch_id c \<noteq> i) (webauthn_challenges s)\<rparr>"

definition insert_credential ::
  "uuid \<Rightarrow> registration_info \<Rightarrow> string \<Rightarrow> ('z sys_scheme, credential_row) svc" where
  "insert_credential userId info name = (\<lambda>s.
     if ri_id info \<in> wc_credential_id ` set (webauthn_credentials s) then (Inl (DbError ''23505''), s)
     else if userId \<notin> u_id ` set (users s) then (Inl (DbError ''23503''), s)
     else let r = \<lparr>wc_id = next_id s, wc_user_id = userId, wc_credential_id = ri_id info, wc_public_key = ri_public_key info,
            wc_counter = ri_counter info, wc_transports = ri_transports info, wc_device_type = ri_device_type info,
            wc_backed_up = ri_backed_up info, wc_name = name, wc_created_at = now s, wc_last_used_at = None\<rparr>
          in (Inr r, s\<lparr>webauthn_credentials := webauthn_credentials s @ [r], next_id := next_id s + 1\<rparr>))"

definition passkeyRegisterVerify ::
  "auth_env \<Rightarrow> principal \<Rightarrow> string \<Rightarrow> json \<Rightarrow> string option \<Rightarrow> ('z sys_scheme, passkey_info) svc" where
  "passkeyRegisterVerify env p name response ip =
     bindM (getsM (\<lambda>s. find (\<lambda>_. True) (sort_key (\<lambda>c. - ch_created_at c)
              (filter (\<lambda>c. ch_user_id c = Some (p_user_id p) \<and> ch_kind c = Register \<and> ch_expires_at c > now s)
                 (webauthn_challenges s))))) (\<lambda>row.
     bindM (someM row (UnauthorizedException ''Passkey challenge expired'' None)) (\<lambda>pending.
     thenM (modifyM (delete_challenge (ch_id pending)))
     (bindM (someM (ae_verify_registration env response (ch_challenge pending)) (HttpException 500 ''Error'' None)) (\<lambda>result.
      bindM (someM result (UnauthorizedException ''Passkey registration failed'' None)) (\<lambda>info.
      bindM (insert_credential (p_user_id p) info name) (\<lambda>r.
      thenM (audit_log (target_entry None (p_user_id p) ''auth.passkey.register'' ''passkey'' (wc_id r) ip))
     (returnM (toPasskeyInfo r))))))))"

definition listPasskeys :: "principal \<Rightarrow> ('z sys_scheme, passkey_info list) svc" where
  "listPasskeys p = getsM (\<lambda>s. map toPasskeyInfo (sort_key (\<lambda>r. - wc_created_at r)
     (filter (\<lambda>r. wc_user_id r = p_user_id p) (webauthn_credentials s))))"

definition removePasskey :: "principal \<Rightarrow> uuid \<Rightarrow> string option \<Rightarrow> ('z sys_scheme, unit) svc" where
  "removePasskey p i ip =
     bindM (getsM (\<lambda>s. \<exists>r \<in> set (webauthn_credentials s). wc_id r = i \<and> wc_user_id r = p_user_id p)) (\<lambda>hit.
     thenM (modifyM (\<lambda>s. s\<lparr>webauthn_credentials :=
              filter (\<lambda>r. \<not> (wc_id r = i \<and> wc_user_id r = p_user_id p)) (webauthn_credentials s)\<rparr>))
     (thenM (throwIf (\<not> hit) (NotFoundException ''Passkey not found'' None))
     (audit_log (target_entry None (p_user_id p) ''auth.passkey.remove'' ''passkey'' i ip))))"

definition passkeyAuthOptions ::
  "auth_env \<Rightarrow> string \<Rightarrow> string option \<Rightarrow> ('z sys_scheme, uuid \<times> string \<times> string list) svc" where
  "passkeyAuthOptions env challenge email =
     bindM (getsM (\<lambda>s. case email of None \<Rightarrow> None
              | Some e \<Rightarrow> map_option u_id (find (\<lambda>u. ci_eq (u_email u) e \<and> u_status u = ''active'') (users s)))) (\<lambda>userId.
     bindM (getsM (\<lambda>s. case userId of None \<Rightarrow> [] | Some u \<Rightarrow> loadCredentials u s)) (\<lambda>allow.
     bindM (storeChallenge env Auth userId challenge) (\<lambda>i.
     returnM (i, challenge, map sc_credential_id allow))))"

definition passkeyAuthVerify ::
  "auth_env \<Rightarrow> string \<Rightarrow> uuid \<Rightarrow> json \<Rightarrow> string option \<Rightarrow> string option \<Rightarrow> ('z sys_scheme, session_grant) svc" where
  "passkeyAuthVerify env token challengeId response ip ua =
     (let failed = UnauthorizedException ''Passkey login failed'' None in
     bindM (getsM (\<lambda>s. find (\<lambda>c. ch_id c = challengeId \<and> ch_kind c = Auth \<and> ch_expires_at c > now s)
              (webauthn_challenges s))) (\<lambda>row.
     bindM (someM row failed) (\<lambda>pending.
     thenM (modifyM (delete_challenge challengeId))
     (bindM (someM (case ae_response_id env response of None \<Rightarrow> None | Some i \<Rightarrow> if i = [] then None else Some i) failed) (\<lambda>credentialId.
      bindM (getsM (\<lambda>s. case ch_user_id pending of
                Some u \<Rightarrow> find (\<lambda>c. wc_user_id c = u \<and> wc_credential_id c = credentialId) (webauthn_credentials s)
              | None \<Rightarrow> find (\<lambda>c. wc_credential_id c = credentialId \<and>
                   (\<exists>u \<in> set (users s). u_id u = wc_user_id c \<and> u_status u = ''active'')) (webauthn_credentials s))) (\<lambda>stored.
      bindM (someM stored failed) (\<lambda>stored.
      let userId = (case ch_user_id pending of Some u \<Rightarrow> u | None \<Rightarrow> wc_user_id stored) in
      bindM (someM (ae_verify_authentication env response (ch_challenge pending)
               \<lparr>sc_credential_id = credentialId, sc_public_key = wc_public_key stored, sc_counter = wc_counter stored,
                sc_transports = wc_transports stored\<rparr>) (HttpException 500 ''Error'' None)) (\<lambda>result.
      bindM (someM result failed) (\<lambda>newCounter.
      thenM (modifyM (\<lambda>s. s\<lparr>webauthn_credentials := map (\<lambda>c. if wc_id c = wc_id stored
               then c\<lparr>wc_counter := newCounter, wc_last_used_at := Some (now s)\<rparr> else c) (webauthn_credentials s)\<rparr>))
     (thenM (audit_log (target_entry None userId ''auth.passkey.login'' ''user'' userId ip))
     (createSession env token userId ip ua None)))))))))))"

section \<open>Facts on the handlers\<close>

definition with_session ::
  "auth_env \<Rightarrow> string \<Rightarrow> uuid \<Rightarrow> string option \<Rightarrow> string option \<Rightarrow> uuid option \<Rightarrow> 'z db_scheme \<Rightarrow> 'z db_scheme" where
  "with_session env token userId ip ua mid s =
     s\<lparr>sessions := sessions s @ [\<lparr>s_id = next_id s, s_user_id = userId, s_token_hash = ae_sha256 env token, s_ip = ip,
         s_user_agent = ua, s_expires_at = now s + ae_session_ttl_days env * 24 * 3600 * 1000, s_created_at = now s,
         s_mailbox_id = mid\<rparr>],
       next_id := next_id s + 1\<rparr>"

lemma createSession_run:
  "createSession env token userId ip ua mid s =
     (if ae_sha256 env token \<in> s_token_hash ` set (sessions s) then (Inl (DbError ''23505''), s)
      else if userId \<notin> u_id ` set (users s) then (Inl (DbError ''23503''), s)
      else (Inr \<lparr>sg_token = token, sg_expires_at = now s + ae_session_ttl_days env * 24 * 3600 * 1000,
                 sg_session_id = next_id s\<rparr>, with_session env token userId ip ua mid s))"
  by (simp add: createSession_def insert_session_def svc_simps with_session_def)

lemma with_session_frame [simp]:
  "users (with_session env token u ip ua mid s) = users s" "now (with_session env token u ip ua mid s) = now s"
  "org_members (with_session env token u ip ua mid s) = org_members s"
  "api_keys (with_session env token u ip ua mid s) = api_keys s"
  "mailboxes (with_session env token u ip ua mid s) = mailboxes s" "domains (with_session env token u ip ua mid s) = domains s"
  "next_id (with_session env token u ip ua mid s) = next_id s + 1"
  by (simp_all add: with_session_def)

lemma createSession_Inr:
  "createSession env token userId ip ua mid s = (Inr g, t) \<longleftrightarrow>
     ae_sha256 env token \<notin> s_token_hash ` set (sessions s) \<and> userId \<in> u_id ` set (users s) \<and>
     g = \<lparr>sg_token = token, sg_expires_at = now s + ae_session_ttl_days env * 24 * 3600 * 1000, sg_session_id = next_id s\<rparr> \<and>
     t = with_session env token userId ip ua mid s"
  by (auto simp: createSession_run)

subsection \<open>Resolving a session\<close>

text \<open>The rows the query of \<open>resolveSession\<close> selects.\<close>

definition live_session :: "auth_env \<Rightarrow> string \<Rightarrow> 'z db_scheme \<Rightarrow> session_row \<Rightarrow> user_row \<Rightarrow> bool" where
  "live_session env token s x u \<longleftrightarrow> x \<in> set (sessions s) \<and> u \<in> set (users s) \<and> u_id u = s_user_id x \<and>
     s_token_hash x = ae_sha256 env token \<and> s_expires_at x > now s \<and> u_status u = ''active''"

lemma resolveSession_cases:
  obtains (none) "resolveSession env token s = (Inr None, s)" "\<nexists>x u. live_session env token s x u"
  | (some) p x u where "resolveSession env token s = (Inr (Some p), s)" "live_session env token s x u"
      "p_user_id p = u_id u" "p_session_id p = s_id x" "p_mailbox_id p = s_mailbox_id x"
proof -
  let ?P = "\<lambda>(x, u). s_token_hash x = ae_sha256 env token \<and> s_expires_at x > now s \<and> u_status u = ''active''"
  let ?J = "[(x, u). x \<leftarrow> sessions s, u \<leftarrow> users s, u_id u = s_user_id x]"
  have J: "(x, u) \<in> set ?J \<and> ?P (x, u) \<longleftrightarrow> live_session env token s x u" for x u
    unfolding live_session_def by fastforce
  show ?thesis
  proof (cases "find ?P ?J")
    case None
    then have "\<nexists>x u. live_session env token s x u"
      unfolding find_None_iff_all J[symmetric] by blast
    with None that(1) show ?thesis by (simp add: resolveSession_def getsM_def)
  next
    case (Some r)
    obtain x u where r: "r = (x, u)" by fastforce
    from find_SomeD[OF Some] have "live_session env token s x u" unfolding J[symmetric] r by blast
    with Some r that(2) show ?thesis by (simp add: resolveSession_def getsM_def)
  qed
qed

lemma resolveSession_dead: "\<nexists>x u. live_session env token s x u \<Longrightarrow> resolveSession env token s = (Inr None, s)"
  by (cases rule: resolveSession_cases[of env token s]) auto

lemma resolveSession_hit:
  assumes "live_session env token s x u"
    and only: "\<And>y. y \<in> set (sessions s) \<Longrightarrow> s_token_hash y = ae_sha256 env token \<Longrightarrow> y = x"
  shows "\<exists>p. resolveSession env token s = (Inr (Some p), s) \<and> p_user_id p = s_user_id x \<and> p_session_id p = s_id x \<and>
    p_mailbox_id p = s_mailbox_id x"
proof (cases rule: resolveSession_cases[of env token s])
  case none
  with assms(1) show ?thesis by blast
next
  case (some p y v)
  then have "y = x" using only by (simp add: live_session_def)
  with some show ?thesis by (simp add: live_session_def)
qed

lemma resolveSession_SomeD:
  assumes "resolveSession env token s = (Inr (Some p), t)"
  shows "\<exists>x u. live_session env token s x u \<and> p_user_id p = u_id u \<and> p_session_id p = s_id x \<and> p_mailbox_id p = s_mailbox_id x"
  using assms by (cases rule: resolveSession_cases[of env token s]) auto

subsection \<open>Logging in\<close>

lemma shadow_user_run:
  "\<exists>t. shadow_user env address s = (Inr (case find (\<lambda>u. ci_eq (u_email u) address) (users s) of Some u \<Rightarrow> u_id u | None \<Rightarrow> next_id s), t) \<and>
     sessions t = sessions s \<and> now t = now s \<and> org_members t = org_members s \<and> api_keys t = api_keys s"
proof (cases "find (\<lambda>u. ci_eq (u_email u) address) (users s)")
  case None
  then have "\<not> (\<exists>u \<in> set (users s). ci_eq (u_email u) address)" by (simp add: find_None_iff_all)
  with None show ?thesis by (simp add: shadow_user_def insert_user_def)
next
  case (Some u)
  then show ?thesis by (simp add: shadow_user_def)
qed

lemma on_creds_store: "\<exists>c. on_creds (cred_store b seal ttl sid mid addr pw) s = (Inr (), s\<lparr>sys_creds := c\<rparr>)"
  by (auto simp: on_creds_def cred_store_def redis_store_def settings_store_def modifyM_def)

lemma on_creds_purge: "\<exists>c. on_creds (cred_purgeSession b sid) s = (Inr (), s\<lparr>sys_creds := c\<rparr>)"
  by (auto simp: on_creds_def cred_purgeSession_def redis_purge_def settings_purge_def bindM_getsM modifyM_def)

text \<open>The mailbox a request authenticates against.\<close>

definition mailbox_match :: "'z db_scheme \<Rightarrow> login_request \<Rightarrow> (mailbox_row \<times> domain_row) option" where
  "mailbox_match s req =
     find (\<lambda>(m, d). ci_eq (mb_local_part m) (fst (split_address (lr_email req))) \<and>
                    toLowerCase (d_name d) = snd (split_address (lr_email req)))
       [(m, d). m \<leftarrow> mailboxes s, d \<leftarrow> domains s, d_id d = mb_domain_id m]"

definition mailbox_address :: "mailbox_row \<times> domain_row \<Rightarrow> string" where
  "mailbox_address = (\<lambda>(m, d). mb_local_part m @ ''@'' @ d_name d)"

lemma mailboxLogin_Inr:
  assumes "mailboxLogin env token req ip ua s = (Inr r, t)"
  shows "\<exists>m d userId u e c. mailbox_match s req = Some (m, d) \<and> ae_verify env (mb_password_hash m) (lr_password req) \<and>
    mb_status m = ''active'' \<and> shadow_user env (mailbox_address (m, d)) s = (Inr userId, u) \<and>
    ae_sha256 env token \<notin> s_token_hash ` set (sessions u) \<and> userId \<in> u_id ` set (users u) \<and>
    t = audit_insert e ((with_session env token userId ip ua (Some (mb_id m)) u)\<lparr>sys_creds := c\<rparr>) \<and>
    r = (token, now u + ae_session_ttl_days env * 24 * 3600 * 1000)"
proof -
  have row: "find (\<lambda>(m, d). ci_eq (mb_local_part m) l \<and> toLowerCase (d_name d) = dm)
      [(m, d). m \<leftarrow> mailboxes s, d \<leftarrow> domains s, d_id d = mb_domain_id m] = mailbox_match s req"
    if "split_address (lr_email req) = (l, dm)" for l dm
    by (simp add: mailbox_match_def that)
  obtain l dm where sp: "split_address (lr_email req) = (l, dm)" by fastforce
  show ?thesis
  proof (cases "mailbox_match s req")
    case None
    with assms show ?thesis
      by (simp add: mailboxLogin_def sp row[OF sp] bindM_getsM thenM_Inr throwIf_Inr)
  next
    case (Some md)
    obtain m d where md: "md = (m, d)" by fastforce
    from assms Some md obtain userId u where
      v: "ae_verify env (mb_password_hash m) (lr_password req)" "mb_status m = ''active''"
      and sh: "shadow_user env (mb_local_part m @ ''@'' @ d_name d) s = (Inr userId, u)"
      and rest: "bindM (createSession env token userId ip ua (Some (mb_id m))) (\<lambda>session.
          thenM (on_creds (cred_store (ae_use_redis env) (ae_seal env) (ae_cred_ttl_seconds env)
               (sg_session_id session) (mb_id m) (mb_local_part m @ ''@'' @ d_name d) (lr_password req)))
         (thenM (audit_log (target_entry (Some (d_org_id d)) userId ''auth.login'' ''mailbox'' (mb_id m) ip))
         (returnM (sg_token session, sg_expires_at session)))) u = (Inr r, t)"
      by (auto simp: mailboxLogin_def sp row[OF sp] bindM_getsM thenM_Inr throwIf_Inr Let_def bindM_Inr[of "shadow_user _ _"])
    from rest obtain g w where g: "createSession env token userId ip ua (Some (mb_id m)) u = (Inr g, w)"
      and tail: "thenM (on_creds (cred_store (ae_use_redis env) (ae_seal env) (ae_cred_ttl_seconds env)
               (sg_session_id g) (mb_id m) (mb_local_part m @ ''@'' @ d_name d) (lr_password req)))
         (thenM (audit_log (target_entry (Some (d_org_id d)) userId ''auth.login'' ''mailbox'' (mb_id m) ip))
         (returnM (sg_token g, sg_expires_at g))) w = (Inr r, t)"
      by (auto simp: bindM_Inr)
    from on_creds_store obtain c where
      c: "on_creds (cred_store (ae_use_redis env) (ae_seal env) (ae_cred_ttl_seconds env)
               (sg_session_id g) (mb_id m) (mb_local_part m @ ''@'' @ d_name d) (lr_password req)) w = (Inr (), w\<lparr>sys_creds := c\<rparr>)"
      by blast
    from tail have "r = (sg_token g, sg_expires_at g)"
      "t = audit_insert (target_entry (Some (d_org_id d)) userId ''auth.login'' ''mailbox'' (mb_id m) ip) (w\<lparr>sys_creds := c\<rparr>)"
      by (simp_all add: thenM_def bindM_def c[simplified] audit_log_run returnM_def)
    with g v sh Some md show ?thesis
      unfolding createSession_Inr mailbox_address_def by fastforce
  qed
qed

text \<open>A console login that got past every check.\<close>

definition console_ok :: "auth_env \<Rightarrow> login_request \<Rightarrow> user_row \<Rightarrow> bool" where
  "console_ok env req u \<longleftrightarrow> ae_verify env (login_hash env (Some u)) (lr_password req) \<and> u_status u = ''active'' \<and>
     (u_totp_enabled u \<longrightarrow> (\<exists>code sealed secret. lr_totp_code req = Some code \<and> u_totp_secret u = Some sealed \<and>
        ae_unseal env sealed = Some secret \<and> ae_totp env secret code))"

lemma login_Inr:
  assumes "login env token req ip ua s = (Inr r, t)"
  shows "(\<exists>u e. find (\<lambda>u. ci_eq (u_email u) (lr_email req)) (users s) = Some u \<and> console_ok env req u \<and>
      ae_sha256 env token \<notin> s_token_hash ` set (sessions s) \<and>
      t = with_session env token (u_id u) ip ua None (audit_insert e s) \<and>
      r = (token, now s + ae_session_ttl_days env * 24 * 3600 * 1000)) \<or>
    mailboxLogin env token req ip ua s = (Inr r, t)"
proof (cases "find (\<lambda>u. ci_eq (u_email u) (lr_email req)) (users s)")
  case None
  with assms show ?thesis by (simp add: login_def bindM_getsM Let_def)
next
  case (Some u)
  show ?thesis
  proof (cases "ae_verify env (login_hash env (Some u)) (lr_password req)")
    case False
    with Some assms show ?thesis by (simp add: login_def bindM_getsM Let_def)
  next
    case True
    let ?e = "target_entry None (u_id u) ''auth.login'' ''user'' (u_id u) ip"
    from True Some assms have st: "u_status u = ''active''"
      and tail: "thenM (if u_totp_enabled u then
                    (case non_empty (lr_totp_code req) of
                       None \<Rightarrow> throwM (UnauthorizedException ''Two-factor code required'' None)
                     | Some code \<Rightarrow>
                         bindM (someM (Option.bind (u_totp_secret u) (ae_unseal env)) (HttpException 500 ''Error'' None)) (\<lambda>secret.
                         throwIf (\<not> ae_totp env secret code) (UnauthorizedException ''Invalid two-factor code'' None)))
                  else returnM ())
          (thenM (audit_log ?e) (bindM (createSession env token (u_id u) ip ua None) (\<lambda>g.
           returnM (sg_token g, sg_expires_at g)))) s = (Inr r, t)"
      by (auto simp: login_def bindM_getsM Let_def thenM_Inr throwIf_Inr)
    then have "console_ok env req u \<and> bindM (createSession env token (u_id u) ip ua None) (\<lambda>g.
           returnM (sg_token g, sg_expires_at g)) (audit_insert ?e s) = (Inr r, t)"
      using True by (auto simp: console_ok_def non_empty_def thenM_Inr audit_log_iffs leafM bindM_Inr[of "someM _ _"] someM_Inr throwIf_Inr
          bind_eq_Some_conv split: if_splits option.splits)
    then show ?thesis using Some by (auto simp: bindM_Inr createSession_Inr leafM)
  qed
qed

subsection \<open>Logging out\<close>

definition logged_out :: "auth_env \<Rightarrow> principal \<Rightarrow> cred_state \<Rightarrow> string option \<Rightarrow> 'z sys_scheme \<Rightarrow> 'z sys_scheme" where
  "logged_out env p c ip s =
     audit_insert (plain_entry (p_user_id p) ''auth.logout'' ip)
       (s\<lparr>sessions := filter (\<lambda>x. s_id x \<noteq> p_session_id p) (sessions s), sys_creds := c,
          sys_pool := pool_purgeSession (p_session_id p) ((sys_pool s)\<lparr>pl_now := now s\<rparr>),
          sys_watchers := idle_purgeSession (p_session_id p) (sys_watchers s)\<rparr>)"

lemma logout_run:
  "\<exists>c. logout env p ip s = (Inr (), logged_out env p c ip s) \<and>
     cred_purgeSession (ae_use_redis env) (p_session_id p) ((sys_creds s)\<lparr>c_now := now s\<rparr>) = (Inr (), c)"
proof -
  have "\<exists>c. cred_purgeSession (ae_use_redis env) (p_session_id p) ((sys_creds s)\<lparr>c_now := now s\<rparr>) = (Inr (), c)"
    by (simp add: cred_purgeSession_def redis_purge_def settings_purge_def bindM_getsM modifyM_def)
  then show ?thesis
    by (auto simp: logout_def purge_session_def on_creds_def on_pool_def on_watchers_def thenM_def bindM_def modifyM_def
        audit_log_run logged_out_def)
qed

subsection \<open>Two-factor state\<close>

text \<open>Enabled means that a secret is stored: \<open>login\<close> never opens a missing one.\<close>

definition totp_wf :: "'z db_scheme \<Rightarrow> bool" where
  "totp_wf s \<longleftrightarrow> ids_below (next_id s) (map u_id (users s)) \<and> (\<forall>u \<in> set (users s). u_totp_enabled u \<longrightarrow> u_totp_secret u \<noteq> None)"

lemma totp_wf_cong: "users t = users s \<Longrightarrow> next_id s \<le> next_id t \<Longrightarrow> totp_wf s \<Longrightarrow> totp_wf t"
  by (auto simp: totp_wf_def ids_below_def)

lemma totp_wf_audit [simp]: "totp_wf s \<Longrightarrow> totp_wf (audit_insert e s)"
  by (rule totp_wf_cong[where s = s]) simp_all

lemma totp_wf_session [simp]: "totp_wf s \<Longrightarrow> totp_wf (with_session env token u ip ua mid s)"
  by (rule totp_wf_cong[where s = s]) simp_all

lemma totp_wf_upd:
  assumes "totp_wf s" "\<And>u. u \<in> set (users s) \<Longrightarrow> u_id u = i \<Longrightarrow>
    u_id (f (now s) u) = i \<and> (u_totp_enabled (f (now s) u) \<longrightarrow> u_totp_secret (f (now s) u) \<noteq> None)"
  shows "totp_wf (s\<lparr>users := map (\<lambda>u. if u_id u = i then f (now s) u else u) (users s)\<rparr>)"
proof -
  have "map u_id (map (\<lambda>u. if u_id u = i then f (now s) u else u) (users s)) = map u_id (users s)"
    using assms(2) by (auto intro: map_cong)
  with assms show ?thesis by (auto simp: totp_wf_def simp del: map_map)
qed

lemma createSession_totp: "totp_wf s \<Longrightarrow> totp_wf (snd (createSession env token u ip ua mid s))"
  by (simp add: createSession_run)

lemma setupTwoFa_totp: "totp_wf s \<Longrightarrow> totp_wf (snd (setupTwoFa env secret p s))"
  by (auto simp: setupTwoFa_def getsM_def thenM_def bindM_def throwIf_def throwM_def returnM_def upd_user_def modifyM_def
      intro!: totp_wf_upd split: option.splits)

lemma disableTwoFa_totp: "totp_wf s \<Longrightarrow> totp_wf (snd (disableTwoFa env p pw ip s))"
  by (auto simp: disableTwoFa_def getsM_def thenM_def bindM_def throwIf_def throwM_def returnM_def someM_def upd_user_def modifyM_def
      audit_log_run intro!: totp_wf_upd totp_wf_audit split: option.splits)

text \<open>An account without a password cannot switch its second factor off: the library throws on the missing hash.\<close>

lemma passwordless_two_factor_stuck:
  "find_user (p_user_id p) s = Some u \<Longrightarrow> u_password_hash u = None \<Longrightarrow>
     disableTwoFa env p pw ip s = (Inl (HttpException 500 ''Error'' None), s)"
  by (simp add: disableTwoFa_def getsM_def thenM_def bindM_def someM_def throwM_def)

lemma find_user_unique:
  "totp_wf s \<Longrightarrow> find_user i s = Some v \<Longrightarrow> u \<in> set (users s) \<Longrightarrow> u_id u = i \<Longrightarrow> u = v"
  by (auto simp: find_user_def totp_wf_def ids_below_def distinct_map dest!: find_SomeD dest: inj_onD)

lemma verifyTwoFa_Inr:
  assumes "verifyTwoFa env p code ip s = (Inr (), t)"
  shows "\<exists>u sealed secret e. find_user (p_user_id p) s = Some u \<and> \<not> u_totp_enabled u \<and> u_totp_secret u = Some sealed \<and>
    ae_unseal env sealed = Some secret \<and> ae_totp env secret code \<and>
    t = audit_insert e (s\<lparr>users := map (\<lambda>u. if u_id u = p_user_id p then u\<lparr>u_totp_enabled := True, u_updated_at := now s\<rparr> else u) (users s)\<rparr>)"
  using assms by (auto simp: verifyTwoFa_def svc_iffs upd_user_def split: option.splits if_splits)

lemma verifyTwoFa_err: "verifyTwoFa env p code ip s = (Inl e, t) \<Longrightarrow> t = s"
  by (auto simp: verifyTwoFa_def svc_iffs upd_user_def)

lemma verifyTwoFa_totp:
  assumes "totp_wf s"
  shows "totp_wf (snd (verifyTwoFa env p code ip s))"
proof (cases "verifyTwoFa env p code ip s")
  case (Pair r t)
  show ?thesis
  proof (cases r)
    case (Inl e)
    with Pair verifyTwoFa_err assms show ?thesis by fastforce
  next
    case (Inr x)
    with Pair verifyTwoFa_Inr[of env p code ip s t] obtain u sealed e where
      u: "find_user (p_user_id p) s = Some u" "u_totp_secret u = Some sealed" and
      t: "t = audit_insert e (s\<lparr>users := map (\<lambda>u. if u_id u = p_user_id p then u\<lparr>u_totp_enabled := True, u_updated_at := now s\<rparr> else u) (users s)\<rparr>)"
      by auto
    have "totp_wf (s\<lparr>users := map (\<lambda>u. if u_id u = p_user_id p then u\<lparr>u_totp_enabled := True, u_updated_at := now s\<rparr> else u) (users s)\<rparr>)"
      using totp_wf_upd[OF assms, of "p_user_id p" "\<lambda>nw u. u\<lparr>u_totp_enabled := True, u_updated_at := nw\<rparr>"]
        find_user_unique[OF assms u(1)] u(2) by fastforce
    with t Pair show ?thesis by simp
  qed
qed

lemma bootstrap_Inr:
  assumes "bootstrap env rnd token req ip ua provided s = (Inr g, t)"
  shows "users s = [] \<and> (\<exists>oid uid u. users t = [u] \<and> u_id u = uid \<and> u_email u = br_email req \<and> u_totp_secret u = None \<and>
      \<not> u_totp_enabled u \<and> uid < next_id t \<and>
      org_members t = org_members s @ [\<lparr>m_org_id = oid, m_user_id = uid, m_role = Owner, m_created_at = now s\<rparr>] \<and>
      organizations t = organizations s @ [\<lparr>o_id = oid, o_name = br_org_name req,
        o_slug = slugify (ae_nfkd env) rnd (br_org_name req), o_plan = ''free'', o_storage_quota_mb = None,
        o_created_at = now s, o_updated_at = now s\<rparr>]) \<and>
    (bootstrapTokenRequired env \<longrightarrow> bootstrapTokenMatches env (case provided of None \<Rightarrow> [] | Some x \<Rightarrow> x))"
  using assms
  by (auto simp: bootstrap_def thenM_Inr bindM_Inr throwIf_Inr tx_Inr leafM audit_log_iffs insert_organization_def insert_user_def
      insert_member_def createSession_Inr with_session_def Let_def split: if_splits)

lemma bootstrap_err: "bootstrap env rnd token req ip ua provided s = (Inl e, t) \<Longrightarrow> users s \<noteq> [] \<Longrightarrow> t = s"
  by (auto simp: bootstrap_def thenM_Inl bindM_Inl throwIf_Inl throwIf_Inr tx_Inr tx_Inl leafM bindM_Inr[of "getsM _"]
      thenM_Inr bindM_Inr[of "tx _"])

lemma bootstrap_taken:
  assumes "users s \<noteq> []"
  shows "\<exists>e. bootstrap env rnd token req ip ua provided s = (Inl e, s)"
proof -
  obtain r t where b: "bootstrap env rnd token req ip ua provided s = (r, t)" by fastforce
  show ?thesis
  proof (cases r)
    case (Inl e)
    with b bootstrap_err[of env rnd token req ip ua provided s e t] assms show ?thesis by simp
  next
    case (Inr g)
    with b bootstrap_Inr[of env rnd token req ip ua provided s g t] assms show ?thesis by simp
  qed
qed

lemma insert_user_totp: "totp_wf s \<Longrightarrow> totp_wf (snd (insert_user email name h s))"
  by (auto simp: insert_user_def totp_wf_def ids_below_def less_Suc_eq)

lemma shadow_user_totp: "totp_wf s \<Longrightarrow> shadow_user env address s = (r, t) \<Longrightarrow> totp_wf t"
proof (cases "find (\<lambda>u. ci_eq (u_email u) address) (users s)")
  case None
  assume "totp_wf s" "shadow_user env address s = (r, t)"
  with None insert_user_totp[of s address address "ae_DUMMY_HASH env"] show ?thesis by (simp add: shadow_user_def)
next
  case (Some u)
  assume i: "totp_wf s" "shadow_user env address s = (r, t)"
  have "map u_id (map (\<lambda>x. if ci_eq (u_email x) address then x\<lparr>u_updated_at := now s\<rparr> else x) (users s)) = map u_id (users s)"
    by simp
  with i Some show ?thesis by (auto simp: shadow_user_def totp_wf_def simp del: map_map)
qed

lemma preserves_totp:
  "preserves totp_wf (createSession env token u ip ua mid)" "preserves totp_wf (audit_log e)"
  "preserves totp_wf (shadow_user env address)" "preserves totp_wf (on_creds m)" "preserves totp_wf (on_pool f)"
  "preserves totp_wf (on_watchers g)" "preserves totp_wf (insert_user email name h)"
  "preserves totp_wf (insert_organization nm sl)" "preserves totp_wf (insert_member org u role)"
  "preserves totp_wf (storeChallenge env kind x ch)" "preserves totp_wf (insert_credential u info nm)"
  by (auto simp: preserves_def createSession_totp audit_log_run insert_user_totp on_creds_def on_pool_def on_watchers_def
      insert_organization_def insert_member_def storeChallenge_def insert_credential_def modifyM_def Let_def
      intro: totp_wf_cong shadow_user_totp[OF _ surjective_pairing] split: prod.splits)

lemma login_totp: "preserves totp_wf (login env token req ip ua)"
proof -
  have "preserves totp_wf (mailboxLogin env token req ip ua)"
    unfolding mailboxLogin_def Let_def split_beta by (intro preserve_intro preserves_totp)
  then show ?thesis
    unfolding login_def Let_def
    by (intro preserve_intro preserves_totp) (auto intro!: preserve_intro preserves_totp split: option.splits)
qed

lemma bootstrap_totp: "preserves totp_wf (bootstrap env rnd token req ip ua provided)"
  unfolding bootstrap_def split_beta by (intro preserve_intro preserves_totp)

lemma sessions_totp:
  "preserves totp_wf (logout env p ip)" "preserves totp_wf (revokeSession env p sid ip)"
  unfolding logout_def revokeSession_def purge_session_def
  by (intro preserve_intro preserves_totp; auto intro: totp_wf_cong)+

lemma passkeys_totp:
  "preserves totp_wf (passkeyRegisterOptions env ch p)" "preserves totp_wf (passkeyRegisterVerify env p nm resp ip)"
  "preserves totp_wf (removePasskey p i ip)" "preserves totp_wf (passkeyAuthOptions env ch email)"
  "preserves totp_wf (passkeyAuthVerify env token i resp ip ua)"
  unfolding passkeyRegisterOptions_def passkeyRegisterVerify_def removePasskey_def passkeyAuthOptions_def passkeyAuthVerify_def
    Let_def delete_challenge_def
  by (intro preserve_intro preserves_totp; auto intro: totp_wf_cong)+

subsection \<open>Used challenges\<close>

text \<open>
  How the clock, the identifiers and the challenges develop: identifiers and time never go back,
  a challenge that appears has an identifier that was not given out before, and rows never change.
\<close>

definition ch_grows :: "'z sys_scheme \<Rightarrow> 'z sys_scheme \<Rightarrow> bool" where
  "ch_grows s t \<longleftrightarrow> next_id s \<le> next_id t \<and> now s \<le> now t \<and>
     (\<forall>c \<in> set (webauthn_challenges t). c \<in> set (webauthn_challenges s) \<or> next_id s \<le> ch_id c)"

definition spent :: "uuid \<Rightarrow> 'z sys_scheme \<Rightarrow> bool" where
  "spent i s \<longleftrightarrow> i < next_id s \<and>
     (\<forall>c \<in> set (webauthn_challenges s). ch_id c = i \<longrightarrow> ch_kind c \<noteq> Auth \<or> ch_expires_at c \<le> now s)"

lemma ch_grows_refl [simp]: "ch_grows s s"
  by (simp add: ch_grows_def)

lemma ch_grows_trans: "ch_grows s t \<Longrightarrow> ch_grows t u \<Longrightarrow> ch_grows s u"
  by (force simp: ch_grows_def)

lemma spent_grows: "spent i s \<Longrightarrow> ch_grows s t \<Longrightarrow> spent i t"
  by (force simp: spent_def ch_grows_def)

lemma ch_grows_frame:
  "webauthn_challenges t = webauthn_challenges s \<Longrightarrow> now t = now s \<Longrightarrow> next_id s \<le> next_id t \<Longrightarrow> ch_grows s t"
  by (simp add: ch_grows_def)

lemma preserves_grows: "(\<And>s. ch_grows s (snd (m s))) \<Longrightarrow> preserves (ch_grows s0) m"
  by (auto simp: preserves_def intro: ch_grows_trans)

lemma growsD: "preserves (ch_grows s) m \<Longrightarrow> ch_grows s (snd (m s))"
  by (simp add: preserves_def)

lemma audit_insert_challenges [simp]: "webauthn_challenges (audit_insert e s) = webauthn_challenges s"
  by (simp add: audit_insert_def)

lemma with_session_challenges [simp]:
  "webauthn_challenges (with_session env token u ip ua mid s) = webauthn_challenges s"
  by (simp add: with_session_def)

lemma grows_base:
  "preserves (ch_grows s0) (createSession env token u ip ua mid)" "preserves (ch_grows s0) (audit_log e)"
  "preserves (ch_grows s0) (insert_user email name h)" "preserves (ch_grows s0) (shadow_user env address)"
  "preserves (ch_grows s0) (on_creds m)" "preserves (ch_grows s0) (on_pool f)" "preserves (ch_grows s0) (on_watchers g)"
  "preserves (ch_grows s0) (insert_organization nm sl)" "preserves (ch_grows s0) (insert_member org u role)"
  "preserves (ch_grows s0) (insert_credential u info nm)" "preserves (ch_grows s0) (upd_user i h')"
  by (rule preserves_grows;
      auto simp: createSession_run audit_log_run insert_user_def shadow_user_def on_creds_def on_pool_def on_watchers_def
        insert_organization_def insert_member_def insert_credential_def upd_user_def modifyM_def Let_def
        intro!: ch_grows_frame split: prod.splits option.splits)+

lemma grows_store: "preserves (ch_grows s0) (storeChallenge env kind x ch)"
  by (rule preserves_grows) (simp add: ch_grows_def storeChallenge_def)

lemma grows_delete: "ch_grows s (delete_challenge i s)"
  by (simp add: ch_grows_def delete_challenge_def)

lemma grows_login: "preserves (ch_grows s0) (login env token req ip ua)"
proof -
  have "preserves (ch_grows s0) (mailboxLogin env token req ip ua)"
    unfolding mailboxLogin_def Let_def split_beta by (intro preserve_intro grows_base)
  then show ?thesis
    unfolding login_def Let_def
    by (intro preserve_intro grows_base) (auto intro!: preserve_intro grows_base split: option.splits)
qed

lemma grows_others:
  "preserves (ch_grows s0) (bootstrap env rnd token breq ip ua provided)"
  "preserves (ch_grows s0) (logout env p ip)" "preserves (ch_grows s0) (revokeSession env p sid ip)"
  "preserves (ch_grows s0) (setupTwoFa env secret p)" "preserves (ch_grows s0) (verifyTwoFa env p code ip)"
  "preserves (ch_grows s0) (disableTwoFa env p pw ip)" "preserves (ch_grows s0) (passkeyRegisterOptions env ch p)"
  "preserves (ch_grows s0) (passkeyRegisterVerify env p nm resp ip)" "preserves (ch_grows s0) (removePasskey p i ip)"
  "preserves (ch_grows s0) (passkeyAuthOptions env ch email)" "preserves (ch_grows s0) (passkeyAuthVerify env token i resp ip ua)"
  unfolding bootstrap_def logout_def revokeSession_def purge_session_def setupTwoFa_def verifyTwoFa_def disableTwoFa_def
    passkeyRegisterOptions_def passkeyRegisterVerify_def removePasskey_def passkeyAuthOptions_def passkeyAuthVerify_def
    Let_def split_beta
  by (intro preserve_intro grows_base grows_store;
      auto elim!: ch_grows_trans intro!: ch_grows_frame grows_delete grows_base preserve_intro split: option.splits)+

lemma passkeyAuthVerify_spent:
  assumes "spent i s"
  shows "passkeyAuthVerify env token i response ip ua s = (Inl (UnauthorizedException ''Passkey login failed'' None), s)"
proof -
  have row: "find (\<lambda>c. ch_id c = i \<and> ch_kind c = Auth \<and> ch_expires_at c > now s) (webauthn_challenges s) = None"
    using assms by (fastforce simp: find_None_iff_all spent_def)
  show ?thesis
    unfolding passkeyAuthVerify_def Let_def by (subst bindM_getsM, subst row, subst bindM_someM_None) (rule refl)
qed

subsection \<open>Runs of the service\<close>

inductive auth_step :: "auth_env \<Rightarrow> 'z sys_scheme \<Rightarrow> 'z sys_scheme \<Rightarrow> bool" for env where
  "auth_step env s (snd (bootstrap env rnd token breq ip ua provided s))"
| "auth_step env s (snd (login env token req ip ua s))"
| "auth_step env s (snd (logout env p ip s))"
| "auth_step env s (snd (revokeSession env p sid ip s))"
| "auth_step env s (snd (setupTwoFa env secret p s))"
| "auth_step env s (snd (verifyTwoFa env p code ip s))"
| "auth_step env s (snd (disableTwoFa env p pw ip s))"
| "auth_step env s (snd (passkeyRegisterOptions env ch p s))"
| "auth_step env s (snd (passkeyRegisterVerify env p nm resp ip s))"
| "auth_step env s (snd (removePasskey p i ip s))"
| "auth_step env s (snd (passkeyAuthOptions env ch email s))"
| "auth_step env s (snd (passkeyAuthVerify env token i resp ip ua s))"
| "0 \<le> d \<Longrightarrow> auth_step env s (s\<lparr>now := now s + d\<rparr>)"

lemma auth_step_totp: "auth_step env s t \<Longrightarrow> totp_wf s \<Longrightarrow> totp_wf t"
proof (induction rule: auth_step.induct)
  case (13 d s)
  have "users (s\<lparr>now := now s + d\<rparr>) = users s" "next_id s \<le> next_id (s\<lparr>now := now s + d\<rparr>)" by simp_all
  then show ?case using 13(2) by (rule totp_wf_cong)
qed (rule preservesD[OF bootstrap_totp] preservesD[OF login_totp] preservesD[OF sessions_totp(1)]
  preservesD[OF sessions_totp(2)] setupTwoFa_totp verifyTwoFa_totp disableTwoFa_totp preservesD[OF passkeys_totp(1)]
  preservesD[OF passkeys_totp(2)] preservesD[OF passkeys_totp(3)] preservesD[OF passkeys_totp(4)]
  preservesD[OF passkeys_totp(5)], assumption)+

lemma auth_steps_grow:
  assumes "(auth_step env)\<^sup>*\<^sup>* s t"
  shows "ch_grows s t"
proof -
  have step: "auth_step env u v \<Longrightarrow> ch_grows u v" for u v :: "'z sys_scheme"
  proof (induction rule: auth_step.induct)
    case (13 d s)
    then show ?case by (simp add: ch_grows_def)
  qed (rule growsD, rule grows_login grows_others)+
  show ?thesis
    using assms by (induction rule: rtranclp_induct) (auto intro: ch_grows_trans step)
qed

section \<open>Properties\<close>

text \<open>
  C3: a login gives one session, and only after a check. When \<open>login\<close> returns, exactly one
  session was added, for the token that is returned and until the time that is returned. It is
  either a console session of the user with that address, whose password was verified, who is
  active and who passed the second factor when it is enabled; or a session bound to the
  mailbox with that address, which is active and whose own password was verified.
\<close>

theorem login_grants_one_checked_session:
  assumes "login env token req ip ua s = (Inr r, t)"
  shows "\<exists>x. sessions t = sessions s @ [x] \<and> s_token_hash x = ae_sha256 env token \<and> r = (token, s_expires_at x) \<and>
    s_token_hash x \<notin> s_token_hash ` set (sessions s) \<and>
    ((\<exists>u. find (\<lambda>u. ci_eq (u_email u) (lr_email req)) (users s) = Some u \<and> console_ok env req u \<and>
        s_user_id x = u_id u \<and> s_mailbox_id x = None) \<or>
     (\<exists>m d. mailbox_match s req = Some (m, d) \<and> ae_verify env (mb_password_hash m) (lr_password req) \<and>
        mb_status m = ''active'' \<and> s_mailbox_id x = Some (mb_id m)))"
  using login_Inr[OF assms]
proof (elim disjE exE conjE)
  assume "mailboxLogin env token req ip ua s = (Inr r, t)"
  from mailboxLogin_Inr[OF this] show ?thesis
  proof (elim exE conjE)
    fix m d userId u e c
    assume sh: "shadow_user env (mailbox_address (m, d)) s = (Inr userId, u)"
      and rest: "mailbox_match s req = Some (m, d)" "ae_verify env (mb_password_hash m) (lr_password req)"
        "mb_status m = ''active''" "ae_sha256 env token \<notin> s_token_hash ` set (sessions u)"
        "t = audit_insert e ((with_session env token userId ip ua (Some (mb_id m)) u)\<lparr>sys_creds := c\<rparr>)"
        "r = (token, now u + ae_session_ttl_days env * 24 * 3600 * 1000)"
    from sh shadow_user_run[of env "mailbox_address (m, d)" s] have "sessions u = sessions s" by auto
    with rest show ?thesis by (simp add: with_session_def)
  qed
qed (auto simp: with_session_def)

text \<open>
  C4: a session is good for its user until it expires. The token \<open>createSession\<close> hands out
  resolves to that user, session and mailbox at every time before the returned expiry, and to
  nothing from then on, while the session row and an active user row are there.
\<close>

theorem session_lives_until_expiry:
  assumes "createSession env token userId ip ua mid s = (Inr g, t)"
    and "\<forall>u \<in> set (users s). u_id u = userId \<longrightarrow> u_status u = ''active''"
  shows "\<exists>p. resolveSession env token (t\<lparr>now := n\<rparr>) =
      (Inr (if n < sg_expires_at g then Some p else None), t\<lparr>now := n\<rparr>) \<and>
    p_user_id p = userId \<and> p_session_id p = sg_session_id g \<and> p_mailbox_id p = mid"
proof -
  define x where "x = last (sessions t)"
  from assms(1) obtain u where fresh: "ae_sha256 env token \<notin> s_token_hash ` set (sessions s)"
    and u: "u \<in> set (users s)" "u_id u = userId" "u_status u = ''active''"
    and t: "users t = users s" "sessions t = sessions s @ [x]"
    and x: "s_user_id x = userId" "s_token_hash x = ae_sha256 env token" "s_expires_at x = sg_expires_at g"
      "s_id x = sg_session_id g" "s_mailbox_id x = mid"
    using assms(2) by (auto simp: createSession_Inr with_session_def x_def)
  have only: "y = x" if "y \<in> set (sessions (t\<lparr>now := n\<rparr>))" "s_token_hash y = ae_sha256 env token" for y
    using that fresh by (auto simp: t image_iff)
  show ?thesis
  proof (cases "n < sg_expires_at g")
    case True
    then have "live_session env token (t\<lparr>now := n\<rparr>) x u" using u t x by (simp add: live_session_def)
    from resolveSession_hit[OF this only] True x show ?thesis by auto
  next
    case False
    then have "\<nexists>y v. live_session env token (t\<lparr>now := n\<rparr>) y v"
      using only x by (fastforce simp: live_session_def)
    from resolveSession_dead[OF this] False show ?thesis
      by (intro exI[of _ "\<lparr>p_user_id = userId, p_email = [], p_name = [], p_session_id = sg_session_id g,
        p_mailbox_id = mid, p_org_id = None\<rparr>"]) simp
  qed
qed

text \<open>
  C5: logging out ends the session. Afterwards the token resolves to nothing and no mailbox of
  the session opens. The pool has no entry of the session, and the open pooled connections are
  exactly those before that belonged to no entry of the session; the same holds for the idle
  watchers and their connections. The entries, watchers and stored credentials of other sessions
  are as before, and every other session still resolves to its user. A request of the session
  that has begun and not yet connected is not stopped: it opens its connection later, see
  \<open>purge_can_leak_a_connection\<close>. The hypotheses are the unique token hashes of the table and
  the invariants of the credential store, the pool and the watchers.
\<close>

theorem logout_ends_the_session:
  assumes "resolveSession env token s = (Inr (Some p), s)" and uniq: "distinct (map s_token_hash (sessions s))"
    and "cred_inv (ae_use_redis env) (1 + int n) ((sys_creds s)\<lparr>c_now := now s\<rparr>)"
    and pkeys: "pool_keys_ok (sys_pool s)" and wkeys: "watcher_keys_ok (sys_watchers s)"
  shows "\<exists>t. logout env p ip s = (Inr (), t) \<and> resolveSession env token t = (Inr None, t) \<and>
    (\<forall>m. \<exists>u. cred_get (ae_use_redis env) (ae_unseal env) (1 + int n) (p_session_id p) m (sys_creds t) = (Inr None, u)) \<and>
    (\<forall>b m. b \<noteq> p_session_id p \<longrightarrow> cred_lookup (ae_use_redis env) (sys_creds t) b m =
       cred_lookup (ae_use_redis env) ((sys_creds s)\<lparr>c_now := now s\<rparr>) b m) \<and>
    (\<forall>b m. map_of (pl_pool (sys_pool t)) (sessKey b m) =
       (if b = p_session_id p then None else map_of (pl_pool (sys_pool s)) (sessKey b m))) \<and>
    pl_clients (sys_pool t) = filter (\<lambda>c. \<not> pool_client (sys_pool s) (p_session_id p) c) (pl_clients (sys_pool s)) \<and>
    (\<forall>b m. map_of (wa_map (sys_watchers t)) (sessKey b m) =
       (if b = p_session_id p then None else map_of (wa_map (sys_watchers s)) (sessKey b m))) \<and>
    wa_open (sys_watchers t) = filter (\<lambda>c. \<not> watcher_client (sys_watchers s) (p_session_id p) c) (wa_open (sys_watchers s)) \<and>
    (\<forall>tok q. resolveSession env tok s = (Inr (Some q), s) \<and> p_session_id q \<noteq> p_session_id p \<longrightarrow>
       (\<exists>q'. resolveSession env tok t = (Inr (Some q'), t) \<and> p_user_id q' = p_user_id q \<and> p_session_id q' = p_session_id q))"
proof -
  from logout_run[of env p ip s] obtain c where run: "logout env p ip s = (Inr (), logged_out env p c ip s)"
    and c: "cred_purgeSession (ae_use_redis env) (p_session_id p) ((sys_creds s)\<lparr>c_now := now s\<rparr>) = (Inr (), c)"
    by auto
  let ?t = "logged_out env p c ip s"
  have t: "sessions ?t = filter (\<lambda>x. s_id x \<noteq> p_session_id p) (sessions s)" "users ?t = users s" "now ?t = now s"
    "sys_creds ?t = c" "pl_pool (sys_pool ?t) = filter (\<lambda>(k, e). \<not> startsWith k (sessPrefix (p_session_id p))) (pl_pool (sys_pool s))"
    "wa_map (sys_watchers ?t) = filter (\<lambda>(k, w). \<not> startsWith k (sessPrefix (p_session_id p))) (wa_map (sys_watchers s))"
    "pl_clients (sys_pool ?t) = filter (\<lambda>c. \<not> pool_client (sys_pool s) (p_session_id p) c) (pl_clients (sys_pool s))"
    "wa_open (sys_watchers ?t) = filter (\<lambda>c. \<not> watcher_client (sys_watchers s) (p_session_id p) c) (wa_open (sys_watchers s))"
    using idle_purge_exact[OF wkeys] purge_clients[of "(sys_pool s)\<lparr>pl_now := now s\<rparr>"] pkeys
    by (simp_all add: logged_out_def audit_insert_def purge_pool pool_keys_ok_def pool_client_def)
  have live: "live_session env tok ?t x u \<longleftrightarrow> live_session env tok s x u \<and> s_id x \<noteq> p_session_id p" for tok x u
    by (auto simp: live_session_def t)
  have one: "y = x" if "x \<in> set (sessions s)" "y \<in> set (sessions s)" "s_token_hash y = s_token_hash x" for x y
    using uniq that by (auto simp: distinct_map dest: inj_onD)
  have dead: "resolveSession env token ?t = (Inr None, ?t)"
  proof (rule resolveSession_dead, rule notI, elim exE)
    fix y v assume y: "live_session env token ?t y v"
    from resolveSession_SomeD[OF assms(1)] obtain x u where "live_session env token s x u" "p_session_id p = s_id x" by auto
    moreover from y live have "live_session env token s y v" "s_id y \<noteq> p_session_id p" by simp_all
    ultimately show False using one[of x y] by (simp add: live_session_def)
  qed
  have creds: "\<exists>u. cred_get (ae_use_redis env) (ae_unseal env) (1 + int n) (p_session_id p) m c = (Inr None, u)"
    "b \<noteq> p_session_id p \<Longrightarrow> cred_lookup (ae_use_redis env) c b m = cred_lookup (ae_use_redis env) ((sys_creds s)\<lparr>c_now := now s\<rparr>) b m"
    for b m
    using purge_locked(1)[OF assms(3), where a = "p_session_id p" and unseal = "ae_unseal env"]
      purge_locked(2)[OF assms(3), where a = "p_session_id p"] c by simp_all
  have other: "\<exists>q'. resolveSession env tok ?t = (Inr (Some q'), ?t) \<and> p_user_id q' = p_user_id q \<and> p_session_id q' = p_session_id q"
    if q: "resolveSession env tok s = (Inr (Some q), s)" "p_session_id q \<noteq> p_session_id p" for tok q
  proof -
    from resolveSession_SomeD[OF q(1)] obtain x u where x: "live_session env tok s x u" "p_user_id q = u_id u" "p_session_id q = s_id x"
      by auto
    with q(2) have l: "live_session env tok ?t x u" by (simp add: live)
    have "\<And>y. y \<in> set (sessions ?t) \<Longrightarrow> s_token_hash y = ae_sha256 env tok \<Longrightarrow> y = x"
      using one x(1) by (auto simp: t live_session_def)
    from resolveSession_hit[OF l this] x show ?thesis by (auto simp: live_session_def)
  qed
  show ?thesis
    using run dead creds other
    by (intro exI[of _ ?t] conjI)
      (auto simp: t map_of_filter_key[where P = "\<lambda>k. \<not> startsWith k (sessPrefix (p_session_id p))"] startsWith_sess)
qed

text \<open>
  C6: there is one first administrator. When \<open>bootstrap\<close> returns there was no user before;
  the token was right where one is required, there is exactly one user now, who owns the new
  organization, and every further bootstrap on the new state is refused and changes nothing.
\<close>

theorem bootstrap_happens_once:
  assumes "bootstrap env rnd token req ip ua provided s = (Inr g, t)"
  shows "users s = [] \<and>
    (\<exists>u oid. users t = [u] \<and> u_email u = br_email req \<and> oid \<in> o_id ` set (organizations t) \<and>
       \<lparr>m_org_id = oid, m_user_id = u_id u, m_role = Owner, m_created_at = now s\<rparr> \<in> set (org_members t)) \<and>
    \<not> (bootstrapTokenRequired env \<and> \<not> bootstrapTokenMatches env (case provided of None \<Rightarrow> [] | Some x \<Rightarrow> x)) \<and>
    (\<forall>rnd' token' req' ip' ua' provided'. \<exists>e. bootstrap env rnd' token' req' ip' ua' provided' t = (Inl e, t))"
proof -
  from bootstrap_Inr[OF assms] have "users t \<noteq> []" by auto
  then have "\<forall>rnd' token' req' ip' ua' provided'. \<exists>e. bootstrap env rnd' token' req' ip' ua' provided' t = (Inl e, t)"
    using bootstrap_taken by blast
  with bootstrap_Inr[OF assms] show ?thesis by fastforce
qed

text \<open>
  C8: a mailbox can stand in for a console account. When a console user exists whose address
  is also that of a mailbox, the password of the mailbox alone gives a session of that console
  user, with the user's roles: neither the user's own password nor the second factor is asked.
\<close>

theorem mailbox_login_takes_over_console_user:
  assumes "login env token req ip ua s = (Inr r, t)" "find (\<lambda>u. ci_eq (u_email u) (lr_email req)) (users s) = Some u"
    and "\<not> ae_verify env (login_hash env (Some u)) (lr_password req)" "mailbox_match s req = Some md"
    and "find (\<lambda>u. ci_eq (u_email u) (mailbox_address md)) (users s) = Some u"
    and "0 < ae_session_ttl_days env" "\<forall>v \<in> set (users s). u_id v = u_id u \<longrightarrow> u_status v = ''active''"
    and "effectiveRole s org (u_id u) = Some role"
  shows "\<exists>p. resolveSession env token t = (Inr (Some p), t) \<and> p_user_id p = u_id u \<and>
    effectiveRole t org (p_user_id p) = Some role"
proof -
  from login_Inr[OF assms(1)] assms(2,3) have "mailboxLogin env token req ip ua s = (Inr r, t)"
    by (auto simp: console_ok_def)
  from mailboxLogin_Inr[OF this] obtain m d userId v e c where md: "mailbox_match s req = Some (m, d)"
    and sh0: "shadow_user env (mailbox_address (m, d)) s = (Inr userId, v)"
    and fresh: "ae_sha256 env token \<notin> s_token_hash ` set (sessions v)"
    and t: "t = audit_insert e ((with_session env token userId ip ua (Some (mb_id m)) v)\<lparr>sys_creds := c\<rparr>)"
    by (elim exE conjE) (rule that; assumption)
  from md sh0 assms(4) have sh: "shadow_user env (mailbox_address md) s = (Inr userId, v)" by simp
  from sh assms(5) have uid: "userId = u_id u"
    and us: "users v = map (\<lambda>x. if ci_eq (u_email x) (mailbox_address md) then x\<lparr>u_updated_at := now s\<rparr> else x) (users s)"
    and same: "org_members v = org_members s" "api_keys v = api_keys s" "now v = now s"
    by (auto simp: shadow_user_def)
  define x where "x = last (sessions t)"
  from assms(5) have "u \<in> set (users s)" by (auto dest: find_SomeD)
  define w where "w = (if ci_eq (u_email u) (mailbox_address md) then u\<lparr>u_updated_at := now s\<rparr> else u)"
  have w: "w \<in> set (users t)" "u_id w = u_id u" "u_status w = ''active''"
    using \<open>u \<in> set (users s)\<close> assms(7) by (auto simp: t us w_def)
  have x: "sessions t = sessions v @ [x]" "s_token_hash x = ae_sha256 env token" "s_user_id x = u_id u" "s_expires_at x > now t"
    using assms(6) by (simp_all add: t x_def with_session_def uid)
  have "live_session env token t x w" using w x by (simp add: live_session_def)
  moreover have "y = x" if "y \<in> set (sessions t)" "s_token_hash y = ae_sha256 env token" for y
    using that x fresh by (auto simp: image_iff)
  ultimately obtain p where "resolveSession env token t = (Inr (Some p), t)" "p_user_id p = u_id u"
    using resolveSession_hit x(3) by metis
  moreover have "effectiveRole t org (u_id u) = effectiveRole s org (u_id u)"
    by (rule effectiveRole_cong) (simp_all add: t same)
  ultimately show ?thesis using assms(8) by simp
qed

text \<open>
  two-factor authentication is enabled only with a secret on file. From a database in
  which that holds it holds after every run of the service, so \<open>open(user.totp_secret!)\<close> in
  \<open>login\<close> is never reached with a missing secret.
\<close>

theorem enabled_two_factor_has_secret:
  assumes "(auth_step env)\<^sup>*\<^sup>* s t" "totp_wf s" "u \<in> set (users t)" "u_totp_enabled u"
  shows "u_totp_secret u \<noteq> None"
proof -
  from assms(1,2) have "totp_wf t"
    by (induction rule: rtranclp_induct) (auto intro: auth_step_totp)
  with assms(3,4) show ?thesis by (auto simp: totp_wf_def)
qed

text \<open>
  C7: a passkey challenge is used at most once. Let \<open>passkeyAuthOptions\<close> hand out a challenge, let
  the service do anything, and let the challenge be presented, with whatever outcome. Whatever
  the service does from then on, every later presentation of the challenge is refused, for any
  response, and changes nothing.
\<close>

theorem passkey_challenge_single_use:
  assumes "passkeyAuthOptions env ch email s0 = (Inr (i, opts), s1)"
    and "(auth_step env)\<^sup>*\<^sup>* s1 s"
    and "(auth_step env)\<^sup>*\<^sup>* (snd (passkeyAuthVerify env token i response ip ua s)) u"
  shows "passkeyAuthVerify env token' i response' ip' ua' u = (Inl (UnauthorizedException ''Passkey login failed'' None), u)"
proof -
  let ?t = "snd (passkeyAuthVerify env token i response ip ua s)"
  let ?P = "\<lambda>c. ch_id c = i \<and> ch_kind c = Auth \<and> ch_expires_at c > now s"
  have "i < next_id s1"
    using assms(1) by (auto simp: passkeyAuthOptions_def storeChallenge_def svc_simps)
  with auth_steps_grow[OF assms(2)] have i: "i < next_id s" by (simp add: ch_grows_def)
  have "spent i ?t"
  proof (cases "find ?P (webauthn_challenges s)")
    case None
    then have "spent i s" using i by (fastforce simp: spent_def find_None_iff_all)
    then show ?thesis by (simp add: passkeyAuthVerify_spent)
  next
    case (Some pending)
    have "spent i (delete_challenge i s)" using i by (simp add: spent_def delete_challenge_def)
    moreover have "ch_grows (delete_challenge i s) ?t"
      unfolding passkeyAuthVerify_def Let_def
      by (subst bindM_getsM, subst Some, subst bindM_someM, subst thenM_modifyM, rule growsD, intro preserve_intro grows_base)
        (auto elim!: ch_grows_trans intro!: ch_grows_frame)
    ultimately show ?thesis by (rule spent_grows)
  qed
  then have "spent i u" using auth_steps_grow[OF assms(3)] by (rule spent_grows)
  then show ?thesis by (rule passkeyAuthVerify_spent)
qed

section \<open>A small installation\<close>

text \<open>
  One organization with an owner who has the second factor enabled and whose address is also
  that of a mailbox; text functions stand in for the cryptography.
\<close>

definition demo_env :: auth_env where
  "demo_env = \<lparr>ae_sha256 = id, ae_hash = id, ae_verify = (=), ae_DUMMY_HASH = ''dummy'', ae_totp = (=),
     ae_otpauth = (\<lambda>_ s. s), ae_seal = rev, ae_unseal = (\<lambda>x. Some (rev x)), ae_nfkd = id, ae_session_ttl_days = 30,
     ae_challenge_ttl_seconds = 300, ae_cred_ttl_seconds = 600, ae_use_redis = False, ae_production = True,
     ae_bootstrap_token = Some ''boot'', ae_generated_token = [], ae_response_id = (\<lambda>_. Some ''key''),
     ae_verify_registration = (\<lambda>_ _. None), ae_verify_authentication = (\<lambda>_ _ _. None)\<rparr>"

definition ann :: user_row where
  "ann = \<lparr>u_id = 11, u_email = ''ann@acme.io'', u_name = ''ann'', u_password_hash = Some ''pw1'', u_totp_secret = Some ''654321'',
     u_totp_enabled = True, u_status = ''active'', u_updated_at = 0\<rparr>"

definition ann_box :: mailbox_row where
  "ann_box = \<lparr>mb_id = 30, mb_domain_id = 26, mb_local_part = ''ann'', mb_name = ''ann'', mb_password_hash = ''pw2'', mb_quota_mb = 100,
     mb_quota_used_bytes = 0, mb_status = ''active'', mb_imap_enabled = True, mb_pop3_enabled = True, mb_smtp_enabled = True,
     mb_sieve_enabled = True, mb_autoresponder = None, mb_forward_to = [], mb_forward_keep_copy = True, mb_created_at = 0,
     mb_updated_at = 0\<rparr>"

definition demo_sys :: sys where
  "demo_sys = \<lparr>now = 0, next_id = 40, organizations = [], users = [ann],
     org_members = [\<lparr>m_org_id = 20, m_user_id = 11, m_role = Owner, m_created_at = 0\<rparr>], sessions = [], api_keys = [],
     domains = [plain_domain 26 20 ''acme.io'' None],
     mailboxes = [ann_box], aliases = [], mail_groups = [], mail_group_members = [], invites = [], webhook_endpoints = [],
     webhook_deliveries = [], audit_logs = [], webauthn_credentials = [],
     webauthn_challenges = [\<lparr>ch_id = 33, ch_user_id = None, ch_kind = Auth, ch_challenge = ''x'', ch_expires_at = 9,
       ch_created_at = 0\<rparr>],
     sys_creds = no_creds 0, sys_pool = empty_pool, sys_watchers = \<lparr>wa_map = [], wa_open = []\<rparr>\<rparr>"

definition ann_req :: "string \<Rightarrow> login_request" where
  "ann_req pw = \<lparr>lr_email = ''ann@acme.io'', lr_password = pw, lr_totp_code = (if pw = ''pw1'' then Some ''123456'' else None)\<rparr>"

lemmas demo_auth = demo_env_def ann_def ann_box_def demo_sys_def ann_req_def

lemma ann_logs_in: "\<exists>t. login demo_env ''tok'' (ann_req ''pw1'') None None demo_sys = (Inr (''tok'', 2592000000), t)"
  by (simp add: login_def login_hash_def non_empty_def createSession_run svc_simps audit_log_run demo_auth)

lemma ann_split: "split_address ''ann@acme.io'' = (''ann'', ''acme.io'')"
  by (simp add: split_address_def toLowerCase_def js_lower_def)

lemma ann_match: "mailbox_match demo_sys (ann_req ''pw2'') = Some (ann_box, hd (domains demo_sys))"
  by (simp add: mailbox_match_def ann_split demo_auth ci_eq_def toLowerCase_def js_lower_def)

lemma demo_parts:
  "sessions demo_sys = []" "users demo_sys = [ann]" "ae_sha256 demo_env x = x" "sys_watchers demo_sys = \<lparr>wa_map = [], wa_open = []\<rparr>"
  "ae_use_redis demo_env = False" "u_id ann = 11" "u_status ann = ''active''"
  "ci_eq (u_email ann) (lr_email (ann_req pw))"
  "effectiveRole demo_sys 20 11 = Some Owner" "0 < ae_session_ttl_days demo_env" "now demo_sys = 0"
  "ae_verify demo_env a b \<longleftrightarrow> a = b" "lr_password (ann_req pw) = pw" "login_hash demo_env (Some ann) = ''pw1''"
  by (simp_all add: demo_auth effectiveRole_def memberRole_def login_hash_def)

theorem login_grants_one_checked_session_witness:
  "\<exists>t x. login demo_env ''tok'' (ann_req ''pw1'') None None demo_sys = (Inr (''tok'', 2592000000), t) \<and>
     sessions t = [x] \<and> s_token_hash x = ''tok'' \<and> s_user_id x = 11 \<and> s_mailbox_id x = None"
proof -
  from ann_logs_in obtain t where t: "login demo_env ''tok'' (ann_req ''pw1'') None None demo_sys = (Inr (''tok'', 2592000000), t)" by auto
  have "\<not> ae_verify demo_env (mb_password_hash ann_box) (lr_password (ann_req ''pw1''))"
    "mailbox_match demo_sys (ann_req ''pw1'') = Some (ann_box, hd (domains demo_sys))"
    using ann_match by (simp_all add: demo_auth mailbox_match_def)
  with login_grants_one_checked_session[OF t] t show ?thesis by (auto simp: demo_parts)
qed

theorem session_lives_until_expiry_witness:
  "\<exists>p. resolveSession demo_env ''tok'' ((with_session demo_env ''tok'' 11 None None None demo_sys)\<lparr>now := 5\<rparr>) =
      (Inr (Some p), (with_session demo_env ''tok'' 11 None None None demo_sys)\<lparr>now := 5\<rparr>) \<and> p_user_id p = 11"
proof -
  have "createSession demo_env ''tok'' 11 None None None demo_sys =
      (Inr \<lparr>sg_token = ''tok'', sg_expires_at = 2592000000, sg_session_id = 40\<rparr>, with_session demo_env ''tok'' 11 None None None demo_sys)"
    by (simp add: createSession_run demo_auth)
  from session_lives_until_expiry[OF this, of 5] show ?thesis by (auto simp: demo_sys_def ann_def)
qed

text \<open>
  Two sessions of the user, each with an open pooled connection; the first also has a stored
  password and an idle watcher.
\<close>

definition entry_of :: "nat \<Rightarrow> pool_entry" where
  "entry_of c = \<lparr>pe_client = Some c, pe_address = ''ann@acme.io'', pe_last_used = 0, pe_in_use = 0\<rparr>"

definition busy_sys :: sys where
  "busy_sys = (with_session demo_env ''tok2'' 11 None None None (with_session demo_env ''tok'' 11 None None None demo_sys))
     \<lparr>sys_creds := snd (cred_store False rev 600 40 30 ''ann@acme.io'' ''pw2'' (no_creds 0)),
      sys_pool := \<lparr>pl_now = 0, pl_pool = [(sessKey 40 30, 0), (sessKey 41 30, 1)], pl_heap = (\<lambda>e. entry_of (e + 5)),
        pl_fresh = 2, pl_clients = [5, 6]\<rparr>,
      sys_watchers := \<lparr>wa_map = [(sessKey 40 30, \<lparr>wt_key = sessKey 40 30, wt_session = 40, wt_mailbox = 30,
        wt_folder = ''INBOX'', wt_client = 9, wt_touched = 0\<rparr>)], wa_open = [9]\<rparr>\<rparr>"

lemma busy_sys_inv:
  "cred_inv (ae_use_redis demo_env) (1 + int 599) ((sys_creds busy_sys)\<lparr>c_now := now busy_sys\<rparr>)"
  "pool_keys_ok (sys_pool busy_sys)" "watcher_keys_ok (sys_watchers busy_sys)" "distinct (map s_token_hash (sessions busy_sys))"
proof -
  have "cred_inv False (1 + int 599) (snd (cred_store False rev (1 + int 599) 40 30 ''ann@acme.io'' ''pw2'' (no_creds 0)))"
    by (rule cred_step_inv[OF cred_step.intros(1)[where unseal = Some] cred_inv_no_creds])
  moreover have "(snd (cred_store False rev 600 40 30 ''ann@acme.io'' ''pw2'' (no_creds 0)))\<lparr>c_now := 0\<rparr> =
      snd (cred_store False rev 600 40 30 ''ann@acme.io'' ''pw2'' (no_creds 0))"
    by (simp add: cred_store_def settings_store_def put_setting_def modifyM_def no_creds_def)
  ultimately show "cred_inv (ae_use_redis demo_env) (1 + int 599) ((sys_creds busy_sys)\<lparr>c_now := now busy_sys\<rparr>)"
    by (simp add: busy_sys_def with_session_def demo_sys_def demo_env_def)
qed (auto simp: busy_sys_def pool_keys_ok_def watcher_keys_ok_def with_session_def demo_sys_def demo_env_def)

theorem logout_ends_the_session_witness:
  "\<exists>t p q. logout demo_env p None busy_sys = (Inr (), t) \<and> p_session_id p = 40 \<and>
     resolveSession demo_env ''tok'' t = (Inr None, t) \<and> pl_clients (sys_pool t) = [6] \<and> wa_open (sys_watchers t) = [] \<and>
     resolveSession demo_env ''tok2'' t = (Inr (Some q), t) \<and> p_session_id q = 41"
proof -
  have "\<exists>p. resolveSession demo_env ''tok'' busy_sys = (Inr (Some p), busy_sys) \<and> p_session_id p = 40"
    "\<exists>q. resolveSession demo_env ''tok2'' busy_sys = (Inr (Some q), busy_sys) \<and> p_session_id q = 41"
    by (simp_all add: resolveSession_def getsM_def with_session_def busy_sys_def demo_sys_def ann_def demo_env_def)
  then obtain p q where p: "resolveSession demo_env ''tok'' busy_sys = (Inr (Some p), busy_sys)" "p_session_id p = 40"
    and q: "resolveSession demo_env ''tok2'' busy_sys = (Inr (Some q), busy_sys)" "p_session_id q = 41" by blast
  have c: "pl_clients (sys_pool busy_sys) = [5, 6]" "pool_client (sys_pool busy_sys) 40 5" "\<not> pool_client (sys_pool busy_sys) 40 6"
    "wa_open (sys_watchers busy_sys) = [9]" "watcher_client (sys_watchers busy_sys) 40 9"
    by (auto simp: busy_sys_def pool_client_def watcher_client_def entry_of_def)
  from logout_ends_the_session[OF p(1) busy_sys_inv(4,1-3), of None] obtain t where
    t: "logout demo_env p None busy_sys = (Inr (), t)" "resolveSession demo_env ''tok'' t = (Inr None, t)"
      "pl_clients (sys_pool t) = filter (\<lambda>c. \<not> pool_client (sys_pool busy_sys) (p_session_id p) c) (pl_clients (sys_pool busy_sys))"
      "wa_open (sys_watchers t) = filter (\<lambda>c. \<not> watcher_client (sys_watchers busy_sys) (p_session_id p) c) (wa_open (sys_watchers busy_sys))"
    and others: "\<forall>tok q. resolveSession demo_env tok busy_sys = (Inr (Some q), busy_sys) \<and> p_session_id q \<noteq> p_session_id p \<longrightarrow>
       (\<exists>q'. resolveSession demo_env tok t = (Inr (Some q'), t) \<and> p_user_id q' = p_user_id q \<and> p_session_id q' = p_session_id q)"
    by (elim exE conjE) (rule that; assumption)
  from others q p(2) obtain q' where "resolveSession demo_env ''tok2'' t = (Inr (Some q'), t)" "p_session_id q' = 41" by fastforce
  with t p(2) c show ?thesis by (intro exI[of _ t] exI[of _ p] exI[of _ q']) simp
qed

text \<open>An empty installation and its first administrator.\<close>

definition blank_sys :: sys where
  "blank_sys = demo_sys\<lparr>users := [], org_members := [], domains := [], mailboxes := []\<rparr>"

theorem bootstrap_happens_once_witness:
  "\<exists>g t u. bootstrap demo_env ''r'' ''tok'' \<lparr>br_email = ''ann@acme.io'', br_password = ''pw1'', br_name = ''ann'', br_org_name = ''acme''\<rparr>
       None None (Some ''boot'') blank_sys = (Inr g, t) \<and> users t = [u] \<and>
     (\<exists>e. bootstrap demo_env ''r'' ''tok'' \<lparr>br_email = ''x'', br_password = ''y'', br_name = ''z'', br_org_name = ''w''\<rparr>
       None None (Some ''boot'') t = (Inl e, t))"
proof -
  have "\<exists>g t. bootstrap demo_env ''r'' ''tok'' \<lparr>br_email = ''ann@acme.io'', br_password = ''pw1'', br_name = ''ann'', br_org_name = ''acme''\<rparr>
       None None (Some ''boot'') blank_sys = (Inr g, t)"
    by (simp add: bootstrap_def bootstrapTokenMatches_def tx_def insert_organization_def insert_user_def insert_member_def
        createSession_run svc_simps audit_log_run blank_sys_def demo_auth Let_def)
  then obtain g t where b: "bootstrap demo_env ''r'' ''tok'' \<lparr>br_email = ''ann@acme.io'', br_password = ''pw1'', br_name = ''ann'', br_org_name = ''acme''\<rparr>
       None None (Some ''boot'') blank_sys = (Inr g, t)" by auto
  from bootstrap_happens_once[OF b] b show ?thesis by blast
qed

theorem mailbox_login_takes_over_console_user_witness:
  "\<exists>r t p. login demo_env ''tok'' (ann_req ''pw2'') None None demo_sys = (Inr r, t) \<and> u_totp_enabled ann \<and>
     resolveSession demo_env ''tok'' t = (Inr (Some p), t) \<and> p_user_id p = u_id ann \<and>
     effectiveRole t 20 (p_user_id p) = Some Owner"
proof -
  have "\<exists>r t. mailboxLogin demo_env ''tok'' (ann_req ''pw2'') None None demo_sys = (Inr r, t)"
    using ann_match
    by (simp add: mailboxLogin_def ann_split shadow_user_def createSession_run on_creds_def cred_store_def settings_store_def
        svc_simps audit_log_run demo_auth mailbox_match_def with_session_def ci_eq_def toLowerCase_def js_lower_def Let_def)
  then obtain r t where "mailboxLogin demo_env ''tok'' (ann_req ''pw2'') None None demo_sys = (Inr r, t)" by auto
  then have l: "login demo_env ''tok'' (ann_req ''pw2'') None None demo_sys = (Inr r, t)"
    by (simp add: login_def bindM_getsM demo_parts)
  have "find (\<lambda>u. ci_eq (u_email u) (mailbox_address (ann_box, hd (domains demo_sys)))) (users demo_sys) = Some ann"
    by (simp add: mailbox_address_def demo_auth)
  from mailbox_login_takes_over_console_user[OF l _ _ ann_match this, of 20 Owner] l show ?thesis
    by (auto simp: demo_parts) (simp add: ann_def)
qed

theorem enabled_two_factor_has_secret_witness:
  "u_totp_secret ann \<noteq> None \<and> (auth_step demo_env)\<^sup>*\<^sup>* demo_sys (snd (logout demo_env (as_user 11) None demo_sys))"
proof -
  have r: "(auth_step demo_env)\<^sup>*\<^sup>* demo_sys (snd (logout demo_env (as_user 11) None demo_sys))"
    by (rule r_into_rtranclp) (rule auth_step.intros)
  from logout_run[of demo_env "as_user 11" None demo_sys] have "users (snd (logout demo_env (as_user 11) None demo_sys)) = [ann]"
    by (auto simp: logged_out_def demo_parts)
  moreover have "totp_wf demo_sys" "u_totp_enabled ann" by (simp_all add: totp_wf_def ids_below_def demo_auth)
  ultimately show ?thesis using enabled_two_factor_has_secret[OF r, of ann] r by simp
qed

theorem passkey_challenge_single_use_witness:
  "\<exists>s1 t. passkeyAuthOptions demo_env ''x'' None demo_sys = (Inr (40, ''x'', []), s1) \<and>
     t = snd (passkeyAuthVerify demo_env ''tok'' 40 JNull None None s1) \<and>
     passkeyAuthVerify demo_env ''tok'' 40 JNull None None (t\<lparr>now := now t + 5\<rparr>) =
       (Inl (UnauthorizedException ''Passkey login failed'' None), t\<lparr>now := now t + 5\<rparr>)"
proof -
  define s1 where "s1 = snd (passkeyAuthOptions demo_env ''x'' None demo_sys)"
  define t where "t = snd (passkeyAuthVerify demo_env ''tok'' 40 JNull None None s1)"
  have o: "passkeyAuthOptions demo_env ''x'' None demo_sys = (Inr (40, ''x'', []), s1)"
    by (simp add: s1_def passkeyAuthOptions_def storeChallenge_def svc_simps demo_sys_def)
  have "(auth_step demo_env)\<^sup>*\<^sup>* t (t\<lparr>now := now t + 5\<rparr>)"
    by (rule r_into_rtranclp, rule auth_step.intros(13)) simp
  from passkey_challenge_single_use[OF o rtranclp.rtrancl_refl this[unfolded t_def], where token' = "''tok''"] o
  show ?thesis by (auto simp: t_def)
qed

end
