(* ===== verification/JM_Invites.thy ===== *)
theory JM_Invites
  imports JM_Auth
begin

text \<open>
  \<open>InvitesService\<close> (\<open>apps/api/src/invites/invites.service.ts\<close>): invitations to an organization
  by e-mail link. Accepting one may create the user, writes the membership and opens a
  session. SHA-256 and argon2 come from the environment of the authentication service; the
  random part of the link and the session token are arguments.
\<close>

section \<open>Requests and responses\<close>

record create_invite_request =
  ci_email :: string
  ci_role :: org_role

record accept_invite_request =
  ai_password :: string
  ai_name :: string

record invite_dto =
  iv_id :: uuid
  iv_org_id :: uuid
  iv_email :: string
  iv_role :: org_role
  iv_invited_by :: "uuid option"
  iv_expires_at :: timestamp
  iv_accepted_at :: "timestamp option"
  iv_created_at :: timestamp

record invite_preview =
  ip_org_name :: string
  ip_email :: string
  ip_role :: org_role
  ip_needs_signup :: bool

definition INVITE_TTL_DAYS :: int where
  "INVITE_TTL_DAYS = 14"

definition toInvite :: "invite_row \<Rightarrow> invite_dto" where
  "toInvite r = \<lparr>iv_id = i_id r, iv_org_id = i_org_id r, iv_email = i_email r, iv_role = i_role r,
     iv_invited_by = i_invited_by r, iv_expires_at = i_expires_at r, iv_accepted_at = i_accepted_at r,
     iv_created_at = i_created_at r\<rparr>"

section \<open>Operations\<close>

definition listInvites :: "uuid \<Rightarrow> uuid \<Rightarrow> ('z db_scheme, invite_dto list) svc" where
  "listInvites orgId userId =
     thenM (requireRole orgId userId Admin)
     (getsM (\<lambda>s. map toInvite (sort_key (\<lambda>r. - i_created_at r) (filter (\<lambda>r. i_org_id r = orgId) (invites s)))))"

text \<open>\<open>INSERT INTO invites\<close>: the token hash is unique, the inviting user exists.\<close>

definition insert_invite ::
  "uuid \<Rightarrow> string \<Rightarrow> org_role \<Rightarrow> string \<Rightarrow> uuid \<Rightarrow> timestamp \<Rightarrow> ('z db_scheme, invite_row) svc" where
  "insert_invite orgId email role hash by expires = (\<lambda>s.
     if hash \<in> i_token_hash ` set (invites s) then (Inl (DbError ''23505''), s)
     else if by \<notin> u_id ` set (users s) then (Inl (DbError ''23503''), s)
     else let r = \<lparr>i_id = next_id s, i_org_id = orgId, i_email = email, i_role = role, i_token_hash = hash,
                   i_invited_by = Some by, i_expires_at = expires, i_accepted_at = None, i_created_at = now s\<rparr>
          in (Inr r, s\<lparr>invites := invites s @ [r], next_id := next_id s + 1\<rparr>))"

definition createInvite ::
  "auth_env \<Rightarrow> string \<Rightarrow> principal \<Rightarrow> uuid \<Rightarrow> create_invite_request \<Rightarrow> string option
     \<Rightarrow> ('z db_scheme, invite_dto \<times> string) svc" where
  "createInvite env rnd p orgId req ip =
     thenM (requireRole orgId (p_user_id p) Admin)
     (thenM (if ci_role req = Owner then thenM (requireRole orgId (p_user_id p) Owner) (returnM ()) else returnM ())
     (bindM (getsM (\<lambda>s. \<exists>u \<in> set (users s). \<exists>m \<in> set (org_members s).
               m_user_id m = u_id u \<and> ci_eq (u_email u) (ci_email req) \<and> m_org_id m = orgId)) (\<lambda>existing.
      thenM (throwIf existing (ConflictException ''User is already a member'' None))
     (let token = ''jmi_'' @ rnd in
      bindM (getsM (\<lambda>s. now s + INVITE_TTL_DAYS * 86400000)) (\<lambda>expiresAt.
      bindM (insert_invite orgId (ci_email req) (ci_role req) (ae_sha256 env token) (p_user_id p) expiresAt) (\<lambda>r.
      thenM (audit_log (user_entry (Some orgId) p ''invite.create'' ''invite'' (i_id r) ip
               [(''email'', JStr (ci_email req)), (''role'', JStr (show_role (ci_role req)))]))
     (returnM (toInvite r, token))))))))"

definition loadPending :: "auth_env \<Rightarrow> string \<Rightarrow> ('z db_scheme, invite_row) svc" where
  "loadPending env token =
     bindM (getsM (\<lambda>s. find (\<lambda>r. i_token_hash r = ae_sha256 env token) (invites s))) (\<lambda>row.
     bindM (someM row (NotFoundException ''Invite not found'' None)) (\<lambda>iv.
     thenM (throwIf (i_accepted_at iv \<noteq> None) (BadRequestException ''Invite already used'' None))
     (bindM (getsM now) (\<lambda>nw.
      thenM (throwIf (i_expires_at iv < nw) (BadRequestException ''Invite expired'' None))
     (returnM iv)))))"

definition previewInvite :: "auth_env \<Rightarrow> string \<Rightarrow> ('z db_scheme, invite_preview) svc" where
  "previewInvite env token =
     bindM (loadPending env token) (\<lambda>iv.
     getsM (\<lambda>s. \<lparr>ip_org_name = (case find (\<lambda>x. o_id x = i_org_id iv) (organizations s) of None \<Rightarrow> [] | Some x \<Rightarrow> o_name x),
                 ip_email = i_email iv, ip_role = i_role iv,
                 ip_needs_signup = (find (\<lambda>u. ci_eq (u_email u) (i_email iv)) (users s) = None)\<rparr>))"

text \<open>
  \<open>INSERT INTO org_members ... ON CONFLICT (org_id, user_id) DO UPDATE SET role\<close>, with the foreign
  keys of the table.
\<close>

definition with_member :: "uuid \<Rightarrow> uuid \<Rightarrow> org_role \<Rightarrow> 'z db_scheme \<Rightarrow> 'z db_scheme" where
  "with_member orgId userId role s =
     (if \<exists>m \<in> set (org_members s). m_org_id m = orgId \<and> m_user_id m = userId
      then s\<lparr>org_members := map (\<lambda>m. if m_org_id m = orgId \<and> m_user_id m = userId then m\<lparr>m_role := role\<rparr> else m) (org_members s)\<rparr>
      else s\<lparr>org_members := org_members s @ [\<lparr>m_org_id = orgId, m_user_id = userId, m_role = role, m_created_at = now s\<rparr>]\<rparr>)"

definition upsert_member :: "uuid \<Rightarrow> uuid \<Rightarrow> org_role \<Rightarrow> ('z db_scheme, unit) svc" where
  "upsert_member orgId userId role = (\<lambda>s.
     if orgId \<notin> o_id ` set (organizations s) \<or> userId \<notin> u_id ` set (users s) then (Inl (DbError ''23503''), s)
     else (Inr (), with_member orgId userId role s))"

text \<open>
  \<open>UPDATE invites SET accepted_at = now()\<close>: \<open>UNIQUE (org_id, email, accepted_at)\<close> refuses a
  second acceptance for the same address at the same instant.
\<close>

definition mark_accepted :: "invite_row \<Rightarrow> ('z db_scheme, unit) svc" where
  "mark_accepted iv = (\<lambda>s.
     if \<exists>r \<in> set (invites s). i_id r \<noteq> i_id iv \<and> i_org_id r = i_org_id iv \<and> ci_eq (i_email r) (i_email iv) \<and>
          i_accepted_at r = Some (now s)
     then (Inl (DbError ''23505''), s)
     else (Inr (), s\<lparr>invites := map (\<lambda>r. if i_id r = i_id iv then r\<lparr>i_accepted_at := Some (now s)\<rparr> else r) (invites s)\<rparr>))"

definition acceptInvite ::
  "auth_env \<Rightarrow> string \<Rightarrow> string \<Rightarrow> accept_invite_request \<Rightarrow> string option \<Rightarrow> string option
     \<Rightarrow> ('z db_scheme, session_grant) svc" where
  "acceptInvite env session token req ip ua =
     bindM (loadPending env token) (\<lambda>iv.
     bindM (getsM (\<lambda>s. find (\<lambda>u. ci_eq (u_email u) (i_email iv)) (users s))) (\<lambda>existing.
     bindM (tx (bindM (case existing of
                         Some u \<Rightarrow> returnM (u_id u)
                       | None \<Rightarrow> insert_user (i_email iv) (ai_name req) (ae_hash env (ai_password req))) (\<lambda>uid.
                thenM (upsert_member (i_org_id iv) uid (i_role iv))
               (thenM (mark_accepted iv)
               (returnM uid))))) (\<lambda>userId.
     thenM (audit_log \<lparr>a_org_id = Some (i_org_id iv), a_actor_type = ActorUser, a_actor_id = Some userId,
              a_action = ''invite.accept'', a_target_type = Some ''invite'', a_target_id = Some (i_id iv), a_ip = ip,
              a_meta = [(''email'', JStr (i_email iv))]\<rparr>)
     (createSession env session userId ip ua None))))"

definition revokeInvite :: "principal \<Rightarrow> uuid \<Rightarrow> uuid \<Rightarrow> string option \<Rightarrow> ('z db_scheme, unit) svc" where
  "revokeInvite p orgId inviteId ip =
     thenM (requireRole orgId (p_user_id p) Admin)
     (bindM (getsM (\<lambda>s. \<exists>r \<in> set (invites s). i_id r = inviteId \<and> i_org_id r = orgId \<and> i_accepted_at r = None)) (\<lambda>hit.
      thenM (modifyM (\<lambda>s. s\<lparr>invites := filter (\<lambda>r. \<not> (i_id r = inviteId \<and> i_org_id r = orgId \<and> i_accepted_at r = None)) (invites s)\<rparr>))
     (thenM (throwIf (\<not> hit) (NotFoundException ''Invite not found'' None))
     (audit_log (user_entry (Some orgId) p ''invite.revoke'' ''invite'' inviteId ip [])))))"

section \<open>Facts on the operations\<close>

definition pending :: "auth_env \<Rightarrow> string \<Rightarrow> 'z db_scheme \<Rightarrow> invite_row \<Rightarrow> bool" where
  "pending env token s iv \<longleftrightarrow> find (\<lambda>r. i_token_hash r = ae_sha256 env token) (invites s) = Some iv \<and>
     i_accepted_at iv = None \<and> now s \<le> i_expires_at iv"

lemma loadPending_Inr: "loadPending env token s = (Inr iv, t) \<longleftrightarrow> t = s \<and> pending env token s iv"
  by (auto simp: loadPending_def svc_iffs pending_def)

lemma readonly_loadPending [readonly_intro]: "readonly (loadPending env token)"
  unfolding loadPending_def by (intro readonly_intro)

lemma loadPending_used:
  "find (\<lambda>r. i_token_hash r = ae_sha256 env token) (invites s) = Some iv \<Longrightarrow> i_accepted_at iv = Some a \<Longrightarrow>
     loadPending env token s = (Inl (BadRequestException ''Invite already used'' None), s)"
  by (simp add: loadPending_def bindM_getsM bindM_someM) (simp add: thenM_def bindM_def throwIf_def throwM_def)

text \<open>The row the user already has, or gets.\<close>

definition invited_user :: "'z db_scheme \<Rightarrow> invite_row \<Rightarrow> uuid" where
  "invited_user s iv = (case find (\<lambda>u. ci_eq (u_email u) (i_email iv)) (users s) of Some u \<Rightarrow> u_id u | None \<Rightarrow> next_id s)"

lemma with_member_frame [simp]:
  "now (with_member org u role s) = now s" "invites (with_member org u role s) = invites s"
  "sessions (with_member org u role s) = sessions s" "users (with_member org u role s) = users s"
  "next_id (with_member org u role s) = next_id s"
  by (simp_all add: with_member_def)

lemma memberRole_with_member_other:
  "o' \<noteq> org \<or> v \<noteq> u \<Longrightarrow> memberRole (with_member org u role s) o' v = memberRole s o' v"
proof -
  assume ne: "o' \<noteq> org \<or> v \<noteq> u"
  have "map_option m_role (find (\<lambda>m. m_org_id m = o' \<and> m_user_id m = v)
      (map (\<lambda>m. if m_org_id m = org \<and> m_user_id m = u then m\<lparr>m_role := role\<rparr> else m) ms)) =
    map_option m_role (find (\<lambda>m. m_org_id m = o' \<and> m_user_id m = v) ms)" for ms
    using ne by (induction ms) auto
  then have "memberRole (s\<lparr>org_members := map (\<lambda>m. if m_org_id m = org \<and> m_user_id m = u then m\<lparr>m_role := role\<rparr> else m)
      (org_members s)\<rparr>) o' v = memberRole s o' v" by (simp add: memberRole_def)
  moreover have "memberRole (s\<lparr>org_members := org_members s @ [\<lparr>m_org_id = org, m_user_id = u, m_role = role, m_created_at = now s\<rparr>]\<rparr>) o' v =
      memberRole s o' v" using ne by (auto simp: memberRole_def find_snoc split: option.split)
  ultimately show ?thesis by (simp add: with_member_def)
qed

lemma memberRole_with_member: "memberRole (with_member org u role s) org u = Some role"
proof (cases "\<exists>m \<in> set (org_members s). m_org_id m = org \<and> m_user_id m = u")
  case True
  then obtain m where m: "find (\<lambda>m. m_org_id m = org \<and> m_user_id m = u) (org_members s) = Some m"
    by (metis (mono_tags, lifting) find_None_iff_all option.exhaust)
  with True find_SomeD[OF m] show ?thesis
    by (simp add: with_member_def memberRole_def find_map_frame)
next
  case False
  then have "find (\<lambda>m. m_org_id m = org \<and> m_user_id m = u) (org_members s) = None" by (auto simp: find_None_iff_all)
  with False show ?thesis by (auto simp: with_member_def memberRole_def find_snoc)
qed

definition accepted :: "invite_row \<Rightarrow> 'z db_scheme \<Rightarrow> 'z db_scheme" where
  "accepted iv s = s\<lparr>invites := map (\<lambda>r. if i_id r = i_id iv then r\<lparr>i_accepted_at := Some (now s)\<rparr> else r) (invites s)\<rparr>"

lemma mark_accepted_Inr: "mark_accepted iv s = (Inr x, t) \<Longrightarrow> t = accepted iv s"
  by (auto simp: mark_accepted_def accepted_def split: if_splits)

lemma accepted_frame [simp]:
  "now (accepted iv s) = now s" "users (accepted iv s) = users s" "sessions (accepted iv s) = sessions s"
  "org_members (accepted iv s) = org_members s" "next_id (accepted iv s) = next_id s"
  by (simp_all add: accepted_def)

text \<open>The user rows after the optional sign-up.\<close>

definition signed_up :: "auth_env \<Rightarrow> invite_row \<Rightarrow> accept_invite_request \<Rightarrow> 'z db_scheme \<Rightarrow> 'z db_scheme" where
  "signed_up env iv req s =
     (case find (\<lambda>u. ci_eq (u_email u) (i_email iv)) (users s) of
        Some u \<Rightarrow> s
      | None \<Rightarrow> snd (insert_user (i_email iv) (ai_name req) (ae_hash env (ai_password req)) s))"

lemma signed_up_frame [simp]:
  "now (signed_up env iv req s) = now s" "sessions (signed_up env iv req s) = sessions s"
  "invites (signed_up env iv req s) = invites s" "org_members (signed_up env iv req s) = org_members s"
  by (simp_all add: signed_up_def insert_user_def split: option.split)

lemma acceptInvite_Inr:
  assumes "acceptInvite env session token req ip ua s = (Inr g, t)"
  shows "\<exists>iv e. pending env token s iv \<and> ae_sha256 env session \<notin> s_token_hash ` set (sessions s) \<and>
    t = with_session env session (invited_user s iv) ip ua None (audit_insert e
          (accepted iv (with_member (i_org_id iv) (invited_user s iv) (i_role iv) (signed_up env iv req s))))"
proof -
  let ?join = "\<lambda>iv existing. bindM (case existing of Some u \<Rightarrow> returnM (u_id u)
        | None \<Rightarrow> insert_user (i_email iv) (ai_name req) (ae_hash env (ai_password req)))
      (\<lambda>uid. thenM (upsert_member (i_org_id iv) uid (i_role iv)) (thenM (mark_accepted iv) (returnM uid)))"
  from assms obtain iv uid s1 e where iv: "pending env token s iv"
    and j: "?join iv (find (\<lambda>u. ci_eq (u_email u) (i_email iv)) (users s)) s = (Inr uid, s1)"
    and c: "createSession env session uid ip ua None (audit_insert e s1) = (Inr g, t)"
    by (auto simp: acceptInvite_def bindM_Inr[of "loadPending _ _"] loadPending_Inr bindM_getsM bindM_Inr[of "tx _"] tx_Inr
        thenM_audit)
  have "uid = invited_user s iv \<and> s1 = accepted iv (with_member (i_org_id iv) (invited_user s iv) (i_role iv) (signed_up env iv req s))"
  proof (cases "find (\<lambda>u. ci_eq (u_email u) (i_email iv)) (users s)")
    case None
    then have "\<not> (\<exists>u \<in> set (users s). ci_eq (u_email u) (i_email iv))" by (simp add: find_None_iff_all)
    with None j show ?thesis
      by (auto simp: bindM_Inr thenM_Inr leafM upsert_member_def invited_user_def signed_up_def insert_user_def
          dest!: mark_accepted_Inr split: if_splits)
  next
    case (Some u)
    with j show ?thesis
      by (auto simp: bindM_Inr thenM_Inr leafM upsert_member_def invited_user_def signed_up_def
          dest!: mark_accepted_Inr split: if_splits)
  qed
  with iv c show ?thesis by (auto simp: createSession_Inr)
qed

text \<open>
  What may happen between two uses of a link: calls of this service, time, and any call of another
  service, none of which writes an invite (deleting an organization deletes its invites). New links
  are drawn with another digest than the link in question.
\<close>

inductive invite_step :: "auth_env \<Rightarrow> string \<Rightarrow> 'z db_scheme \<Rightarrow> 'z db_scheme \<Rightarrow> bool" for env h where
  "ae_sha256 env (''jmi_'' @ rnd) \<noteq> h \<Longrightarrow> invite_step env h s (snd (createInvite env rnd p orgId creq ip s))"
| "invite_step env h s (snd (acceptInvite env session token req ip ua s))"
| "invite_step env h s (snd (revokeInvite p orgId i ip s))"
| "0 \<le> d \<Longrightarrow> invite_step env h s (s\<lparr>now := now s + d\<rparr>)"
| "set (invites t) \<subseteq> set (invites s) \<Longrightarrow> invite_step env h s t"

definition used_up :: "string \<Rightarrow> 'z db_scheme \<Rightarrow> bool" where
  "used_up h s \<longleftrightarrow> (\<forall>r \<in> set (invites s). i_token_hash r = h \<longrightarrow> i_accepted_at r \<noteq> None)"

lemma used_up_subset: "used_up h s \<Longrightarrow> set (invites t) \<subseteq> set (invites s) \<Longrightarrow> used_up h t"
  by (auto simp: used_up_def)

lemma used_up_insert: "hash \<noteq> h \<Longrightarrow> preserves (used_up h) (insert_invite org email role hash by expires)"
  by (auto simp: preserves_def used_up_def insert_invite_def Let_def)

lemma used_up_base:
  "preserves (used_up h) (audit_log e)" "preserves (used_up h) (insert_user email name ph)"
  "preserves (used_up h) (createSession env session u ip ua mid)" "preserves (used_up h) (upsert_member org u role)"
  by (simp_all add: preserves_def used_up_def audit_log_run insert_user_def createSession_run with_session_def upsert_member_def)

lemma used_up_reads: "preserves (used_up h) (requireRole org u role)" "preserves (used_up h) (loadPending env token)"
  by (intro readonly_preserves readonly_intro)+

lemma used_up_mark: "preserves (used_up h) (mark_accepted iv)"
  by (auto simp: preserves_def used_up_def mark_accepted_def)

lemma used_up_ops:
  "ae_sha256 env (''jmi_'' @ rnd) \<noteq> h \<Longrightarrow> preserves (used_up h) (createInvite env rnd p orgId creq ip)"
  "preserves (used_up h) (acceptInvite env session token req ip ua)"
  "preserves (used_up h) (revokeInvite p orgId i ip)"
  unfolding createInvite_def acceptInvite_def revokeInvite_def Let_def
  by (intro preserve_intro used_up_base used_up_reads used_up_mark used_up_insert;
      auto intro: used_up_subset preserve_intro used_up_base split: option.split)+

lemma invite_steps_used: "(invite_step env h)\<^sup>*\<^sup>* s t \<Longrightarrow> used_up h s \<Longrightarrow> used_up h t"
proof (induction rule: rtranclp_induct)
  case (step t u)
  then have "used_up h t" by simp
  with step.hyps(2) show ?case
    by (cases rule: invite_step.cases) (auto intro: preservesD[OF used_up_ops(1)] preservesD[OF used_up_ops(2)]
        preservesD[OF used_up_ops(3)] used_up_subset)
qed simp

definition link_refused :: "exn \<Rightarrow> bool" where
  "link_refused e \<longleftrightarrow> e = BadRequestException ''Invite already used'' None \<or> e = NotFoundException ''Invite not found'' None"

lemma loadPending_used_up:
  assumes "used_up (ae_sha256 env token) s"
  shows "\<exists>e. link_refused e \<and> loadPending env token s = (Inl e, s)"
proof (cases "find (\<lambda>r. i_token_hash r = ae_sha256 env token) (invites s)")
  case None
  then show ?thesis by (simp add: loadPending_def bindM_getsM bindM_someM_None link_refused_def)
next
  case (Some iv)
  with assms find_SomeD[OF Some] obtain a where "i_accepted_at iv = Some a" by (auto simp: used_up_def)
  with loadPending_used[OF Some] show ?thesis by (simp add: link_refused_def)
qed

section \<open>Properties\<close>

text \<open>
  C10: an invite is good for one use, and gives the role it was issued with. When \<open>acceptInvite\<close>
  returns, the link belonged to an invite that was open and not expired. The account is the one with
  the invited address, or a new one with that address and the chosen password, and no other account
  changes. That account has the role of the invite in its organization, every other role of every
  account is as before, one session was opened, for that account, and of the invites only this
  one changed: it is marked as accepted. Whatever happens from then on, as long as the link is not drawn again,
  the link is refused, both for preview and for acceptance, and nothing changes.
\<close>

theorem invite_is_single_use:
  assumes "acceptInvite env session token req ip ua s = (Inr g, t)"
    and "distinct (map i_token_hash (invites s))" "distinct (map i_id (invites s))"
  shows "\<exists>iv acc. iv \<in> set (invites s) \<and> i_token_hash iv = ae_sha256 env token \<and> i_accepted_at iv = None \<and> now s \<le> i_expires_at iv \<and>
    acc \<in> set (users t) \<and> ci_eq (u_email acc) (i_email iv) \<and>
    (users t = users s \<or> users t = users s @ [acc] \<and> u_email acc = i_email iv \<and> u_name acc = ai_name req \<and>
       u_password_hash acc = Some (ae_hash env (ai_password req)) \<and> \<not> (\<exists>u \<in> set (users s). ci_eq (u_email u) (i_email iv))) \<and>
    (\<forall>org v. memberRole t org v = (if org = i_org_id iv \<and> v = u_id acc then Some (i_role iv) else memberRole s org v)) \<and>
    (\<exists>x. sessions t = sessions s @ [x] \<and> s_user_id x = u_id acc \<and> s_token_hash x = ae_sha256 env session) \<and>
    invites t = map (\<lambda>r. if i_id r = i_id iv then r\<lparr>i_accepted_at := Some (now s)\<rparr> else r) (invites s) \<and>
    (\<forall>u. (invite_step env (ae_sha256 env token))\<^sup>*\<^sup>* t u \<longrightarrow>
       (\<exists>e. link_refused e \<and> previewInvite env token u = (Inl e, u) \<and>
          (\<forall>session' req' ip' ua'. acceptInvite env session' token req' ip' ua' u = (Inl e, u))))"
proof -
  from acceptInvite_Inr[OF assms(1)] obtain iv e where iv: "pending env token s iv"
    and t: "t = with_session env session (invited_user s iv) ip ua None (audit_insert e
          (accepted iv (with_member (i_org_id iv) (invited_user s iv) (i_role iv) (signed_up env iv req s))))"
    by (elim exE conjE) (rule that; assumption)
  have mem: "iv \<in> set (invites s)" "i_token_hash iv = ae_sha256 env token" "i_accepted_at iv = None" "now s \<le> i_expires_at iv"
    using iv by (auto simp: pending_def dest: find_SomeD)
  obtain acc where acc: "acc \<in> set (users t)" "ci_eq (u_email acc) (i_email iv)" "u_id acc = invited_user s iv"
    "users t = users s \<or> users t = users s @ [acc] \<and> u_email acc = i_email iv \<and> u_name acc = ai_name req \<and>
       u_password_hash acc = Some (ae_hash env (ai_password req)) \<and> \<not> (\<exists>u \<in> set (users s). ci_eq (u_email u) (i_email iv))"
  proof (cases "find (\<lambda>u. ci_eq (u_email u) (i_email iv)) (users s)")
    case None
    then have "\<not> (\<exists>u \<in> set (users s). ci_eq (u_email u) (i_email iv))" by (simp add: find_None_iff_all)
    with None that[of "last (users t)"] show ?thesis
      by (auto simp: t signed_up_def insert_user_def invited_user_def ci_eq_def)
  next
    case (Some u)
    have "users t = users s" by (simp add: t signed_up_def Some)
    moreover have "u \<in> set (users s)" "ci_eq (u_email u) (i_email iv)" using find_SomeD[OF Some] by auto
    moreover have "u_id u = invited_user s iv" by (simp add: invited_user_def Some)
    ultimately show ?thesis by (intro that[of u]) simp_all
  qed
  have "memberRole t org v = memberRole (with_member (i_org_id iv) (invited_user s iv) (i_role iv) (signed_up env iv req s)) org v" for org v
    by (simp add: memberRole_def t)
  moreover have "memberRole (signed_up env iv req s) org v = memberRole s org v" for org v
    by (simp add: memberRole_def)
  ultimately have roles: "memberRole t org v = (if org = i_org_id iv \<and> v = u_id acc then Some (i_role iv) else memberRole s org v)" for org v
    using memberRole_with_member_other[of org "i_org_id iv" v "invited_user s iv" "i_role iv" "signed_up env iv req s"]
    by (cases "org = i_org_id iv \<and> v = invited_user s iv") (auto simp: acc(3) memberRole_with_member)
  have inv: "invites t = map (\<lambda>r. if i_id r = i_id iv then r\<lparr>i_accepted_at := Some (now s)\<rparr> else r) (invites s)"
    by (simp add: t with_session_def accepted_def)
  have "used_up (ae_sha256 env token) t"
  proof -
    have "r = iv" if "r \<in> set (invites s)" "i_token_hash r = ae_sha256 env token" for r
      using that mem(1,2) assms(2) inj_onD[of i_token_hash "set (invites s)" r iv] by (simp add: distinct_map)
    then show ?thesis by (auto simp: used_up_def inv)
  qed
  then have used: "\<exists>e. link_refused e \<and> loadPending env token u = (Inl e, u)" if "(invite_step env (ae_sha256 env token))\<^sup>*\<^sup>* t u" for u
    using that invite_steps_used loadPending_used_up by blast
  have refused: "\<exists>e. link_refused e \<and> previewInvite env token u = (Inl e, u) \<and>
      (\<forall>session' req' ip' ua'. acceptInvite env session' token req' ip' ua' u = (Inl e, u))"
    if "(invite_step env (ae_sha256 env token))\<^sup>*\<^sup>* t u" for u
  proof -
    from that used obtain e where "link_refused e" "loadPending env token u = (Inl e, u)" by blast
    then show ?thesis by (intro exI[of _ e]) (simp add: acceptInvite_def previewInvite_def bindM_def)
  qed
  have "\<exists>x. sessions t = sessions s @ [x] \<and> s_user_id x = u_id acc \<and> s_token_hash x = ae_sha256 env session"
    by (simp add: t with_session_def acc(3))
  show ?thesis
    by (rule exI[of _ iv], rule exI[of _ acc], intro conjI allI impI)
      (fact mem acc roles inv | rule refused, assumption | fact)+
qed

text \<open>
  accepting an invite can leave an organization without an owner, and asks an existing
  user for no password. When the invited address is that of the only owner and the invite is
  for a lesser role, acceptance overwrites the role, which \<open>updateMember\<close> would refuse; and
  the same session is opened for every password in the request.
\<close>

theorem invite_overrides_owner_and_password:
  assumes "acceptInvite env session token req ip ua s = (Inr g, t)" "pending env token s iv"
    and "find (\<lambda>u. ci_eq (u_email u) (i_email iv)) (users s) = Some u"
    and "\<forall>m \<in> set (org_members s). m_org_id m = i_org_id iv \<and> m_role m = Owner \<longrightarrow> m_user_id m = u_id u"
    and "i_role iv \<noteq> Owner"
  shows "\<not> has_owner t (i_org_id iv) \<and> acceptInvite env session token req' ip ua s = (Inr g, t)"
proof -
  from assms(2,3) acceptInvite_Inr[OF assms(1)] obtain e where
    t: "t = with_session env session (u_id u) ip ua None (audit_insert e (accepted iv (with_member (i_org_id iv) (u_id u) (i_role iv) s)))"
    by (auto simp: pending_def invited_user_def signed_up_def)
  have "\<not> has_owner t (i_org_id iv)"
    using assms(4,5) by (auto simp: has_owner_def t with_member_def)
  moreover have "acceptInvite env session token req' ip ua s = acceptInvite env session token req ip ua s"
    using assms(2,3) by (simp add: acceptInvite_def bindM_pass[OF loadPending_Inr[THEN iffD2]] bindM_getsM)
  ultimately show ?thesis using assms(1) by simp
qed

section \<open>A run\<close>

text \<open>
  The owner alice invites bob, who is made an owner before he accepts; alice then leaves, and
  bob follows his link.
\<close>

definition invited_db :: db where
  "invited_db = snd (createInvite demo_env ''x'' (as_user 11) 20 \<lparr>ci_email = ''bob@x.io'', ci_role = Member\<rparr> None acme_mail)"

definition handed_over :: db where
  "handed_over = snd (removeMember (as_user 11) 20 11 None
     (snd (addMember (as_user 11) 20 \<lparr>am_email = ''bob@x.io'', am_role = Owner\<rparr> None invited_db)))"

lemma invited_eval:
  "invites invited_db = [\<lparr>i_id = 30, i_org_id = 20, i_email = ''bob@x.io'', i_role = Member, i_token_hash = ''jmi_x'',
      i_invited_by = Some 11, i_expires_at = 1209600000, i_accepted_at = None, i_created_at = 0\<rparr>]"
  "users invited_db = [alice, bob]" "now invited_db = 0" "org_members invited_db = org_members acme_mail"
  "api_keys invited_db = []" "sessions invited_db = sessions acme_mail"
  "organizations invited_db = organizations acme_mail"
  by (simp_all add: invited_db_def createInvite_def insert_invite_def requireRole_def memberRole_def svc_simps audit_log_run
      acme_mail_eval demo_env_def INVITE_TTL_DAYS_def as_user_def alice_def bob_def ci_eq_def toLowerCase_def js_lower_def Let_def
      cong: option.case_cong)

lemma handed_over_eval:
  "invites handed_over = invites invited_db" "users handed_over = [alice, bob]" "now handed_over = 0"
  "org_members handed_over = [\<lparr>m_org_id = 25, m_user_id = 12, m_role = Owner, m_created_at = 0\<rparr>,
     \<lparr>m_org_id = 20, m_user_id = 12, m_role = Owner, m_created_at = 0\<rparr>]" "sessions handed_over = sessions acme_mail"
  "organizations handed_over = organizations acme_mail"
  by (simp_all add: handed_over_def removeMember_def addMember_def insert_member_def guardLastOwner_def requireRole_def
      memberRole_def svc_simps audit_log_run invited_eval acme_mail_eval as_user_def alice_def bob_def ci_eq_def toLowerCase_def
      js_lower_def cong: option.case_cong)

lemma acme_orgs: "20 \<in> o_id ` set (organizations acme_mail)"
  by (simp add: acme_mail_eval)

lemma acme_sessions: "sessions acme_mail = []"
  by (simp add: acme_mail_def demo_defs orgs_create_def insert_organization_def insert_member_def fk_user_def
        tx_def svc_simps audit_log_run Let_def)

lemma bob_accepts: "\<exists>g t. acceptInvite demo_env ''tok'' ''jmi_x'' req None None handed_over = (Inr g, t)"
  by (simp add: acceptInvite_def loadPending_def upsert_member_def with_member_def mark_accepted_def createSession_run tx_def
      svc_simps audit_log_run handed_over_eval invited_eval demo_env_def alice_def bob_def ci_eq_def toLowerCase_def js_lower_def
      acme_sessions acme_orgs)

lemma bob_pending: "pending demo_env ''jmi_x'' handed_over (hd (invites handed_over))"
  by (simp add: pending_def handed_over_eval invited_eval demo_env_def)

theorem invite_is_single_use_witness:
  "\<exists>g t e. acceptInvite demo_env ''tok'' ''jmi_x'' \<lparr>ai_password = ''a'', ai_name = ''b''\<rparr> None None handed_over = (Inr g, t) \<and>
     users t = [alice, bob] \<and> memberRole t 20 12 = Some Member \<and> memberRole t 25 12 = Some Owner \<and>
     acceptInvite demo_env ''tik'' ''jmi_x'' \<lparr>ai_password = ''a'', ai_name = ''b''\<rparr> None None (t\<lparr>now := now t + 7\<rparr>) =
       (Inl e, t\<lparr>now := now t + 7\<rparr>)"
proof -
  from bob_accepts obtain g t where
    a: "acceptInvite demo_env ''tok'' ''jmi_x'' \<lparr>ai_password = ''a'', ai_name = ''b''\<rparr> None None handed_over = (Inr g, t)" by blast
  have d: "distinct (map i_token_hash (invites handed_over))" "distinct (map i_id (invites handed_over))"
    by (simp_all add: handed_over_eval invited_eval)
  have step: "(invite_step demo_env (ae_sha256 demo_env ''jmi_x''))\<^sup>*\<^sup>* t (t\<lparr>now := now t + 7\<rparr>)"
    by (rule r_into_rtranclp, rule invite_step.intros(4)) simp
  from invite_is_single_use[OF a d] obtain iv acc where
    iv: "iv \<in> set (invites handed_over)" "acc \<in> set (users t)" "ci_eq (u_email acc) (i_email iv)"
    and us: "users t = users handed_over \<or> users t = users handed_over @ [acc] \<and> \<not> (\<exists>u \<in> set (users handed_over). ci_eq (u_email u) (i_email iv))"
    and roles: "\<forall>org v. memberRole t org v = (if org = i_org_id iv \<and> v = u_id acc then Some (i_role iv) else memberRole handed_over org v)"
    and ref: "\<forall>u. (invite_step demo_env (ae_sha256 demo_env ''jmi_x''))\<^sup>*\<^sup>* t u \<longrightarrow> (\<exists>e. link_refused e \<and> previewInvite demo_env ''jmi_x'' u = (Inl e, u) \<and>
          (\<forall>session' req' ip' ua'. acceptInvite demo_env session' ''jmi_x'' req' ip' ua' u = (Inl e, u)))"
    by (elim exE conjE) (rule that; blast)
  have "iv = hd (invites handed_over)" using iv(1) by (simp add: handed_over_eval invited_eval)
  then have row: "i_email iv = ''bob@x.io''" "i_org_id iv = 20" "i_role iv = Member" by (simp_all add: handed_over_eval invited_eval)
  have "\<exists>u \<in> set (users handed_over). ci_eq (u_email u) (i_email iv)" by (simp add: handed_over_eval row bob_def ci_eq_def)
  with us have users: "users t = [alice, bob]" by (auto simp: handed_over_eval)
  with iv(2,3) row have "acc = bob" by (auto simp: alice_def bob_def ci_eq_def toLowerCase_def js_lower_def)
  then have "memberRole t 20 12 = Some Member" "memberRole t 25 12 = Some Owner"
    by (simp_all add: roles row bob_def) (simp add: memberRole_def handed_over_eval)
  with users a ref step show ?thesis by blast
qed

theorem invite_overrides_owner_and_password_witness:
  "\<exists>g t. acceptInvite demo_env ''tok'' ''jmi_x'' \<lparr>ai_password = ''guess'', ai_name = ''b''\<rparr> None None handed_over = (Inr g, t) \<and>
     has_owner handed_over 20 \<and> \<not> has_owner t 20"
proof -
  from bob_accepts obtain g t where
    a: "acceptInvite demo_env ''tok'' ''jmi_x'' \<lparr>ai_password = ''guess'', ai_name = ''b''\<rparr> None None handed_over = (Inr g, t)" by blast
  have "find (\<lambda>u. ci_eq (u_email u) (i_email (hd (invites handed_over)))) (users handed_over) = Some bob"
    by (simp add: handed_over_eval invited_eval alice_def bob_def ci_eq_def toLowerCase_def js_lower_def)
  from invite_overrides_owner_and_password[OF a bob_pending this] a show ?thesis
    by (simp add: handed_over_eval invited_eval has_owner_def bob_def)
qed

end
