(* ===== verification/JM_Guard.thy ===== *)
theory JM_Guard
  imports JM_Auth
begin

text \<open>
  The session guard and the per-app session cookies
  (\<open>apps/api/src/auth/session.guard.ts\<close>, \<open>apps/api/src/auth/session-cookie.ts\<close>).

  A request is a record of the headers the guard reads; \<open>rq_cookies\<close> is what cookie-parser
  put on it. The host of a URL (\<open>new URL(u).hostname\<close>, \<open>None\<close> when the constructor throws)
  and \<open>decodeURIComponent\<close> (\<open>None\<close> when it throws) are parameters. A response is the list of
  the cookie commands issued on it.
\<close>

section \<open>Cookies\<close>

datatype app_surface = AdminApp | WebmailApp

definition ADMIN_SESSION_COOKIE :: string where "ADMIN_SESSION_COOKIE = ''jm_admin_session''"
definition WEBMAIL_SESSION_COOKIE :: string where "WEBMAIL_SESSION_COOKIE = ''jm_webmail_session''"
definition LEGACY_SESSION_COOKIE :: string where "LEGACY_SESSION_COOKIE = ''jm_session''"

definition cookieName :: "app_surface \<Rightarrow> string" where
  "cookieName app = (if app = WebmailApp then WEBMAIL_SESSION_COOKIE else ADMIN_SESSION_COOKIE)"

record web_config =
  cf_production :: bool
  cf_webmail_host :: "string option"
  cf_web_host :: string

definition appFromHost :: "web_config \<Rightarrow> string option \<Rightarrow> app_surface" where
  "appFromHost cfg host =
     (case (host, cf_webmail_host cfg) of
        (Some h, Some w) \<Rightarrow> if h \<noteq> [] \<and> w \<noteq> [] \<and> h = w then WebmailApp else AdminApp
      | _ \<Rightarrow> AdminApp)"

definition appFromUrl :: "web_config \<Rightarrow> (string \<Rightarrow> string option) \<Rightarrow> string option \<Rightarrow> app_surface" where
  "appFromUrl cfg hostname url =
     (case hostname (case url of None \<Rightarrow> [] | Some u \<Rightarrow> u) of
        Some h \<Rightarrow> appFromHost cfg (Some h)
      | None \<Rightarrow> AdminApp)"

record http_request =
  rq_jm_app :: "string option"
  rq_origin :: "string option"
  rq_referer :: "string option"
  rq_authorization :: "string option"
  rq_cookie :: "string option"
  rq_cookies :: "string \<Rightarrow> string option"

definition appFromRequest :: "web_config \<Rightarrow> (string \<Rightarrow> string option) \<Rightarrow> http_request \<Rightarrow> app_surface" where
  "appFromRequest cfg hostname req =
     (let header = toLowerCase (case rq_jm_app req of None \<Rightarrow> [] | Some h \<Rightarrow> h) in
      if header = ''webmail'' then WebmailApp
      else if header = ''admin'' then AdminApp
      else let origin = (case rq_origin req of Some x \<Rightarrow> x
                         | None \<Rightarrow> (case rq_referer req of Some x \<Rightarrow> x | None \<Rightarrow> []))
           in (case hostname origin of Some h \<Rightarrow> appFromHost cfg (Some h) | None \<Rightarrow> AdminApp))"

definition cookieDomain :: "web_config \<Rightarrow> string option" where
  "cookieDomain cfg = (if cf_production cfg then Some (cf_web_host cfg) else None)"

text \<open>
  \<open>res.clearCookie(name, {path: "/", domain})\<close> and \<open>res.cookie(name, token, ...)\<close>; the path is
  always "/", \<open>httpOnly\<close> true and \<open>sameSite\<close> "lax".
\<close>

datatype cookie_op =
    ClearCookie string "string option"
  | SetCookie string string "string option" bool timestamp

definition when_domain :: "string option \<Rightarrow> cookie_op list \<Rightarrow> cookie_op list" where
  "when_domain domain ops = (case domain of None \<Rightarrow> [] | Some d \<Rightarrow> if d = [] then [] else ops)"

definition setSessionCookie :: "web_config \<Rightarrow> app_surface \<Rightarrow> string \<Rightarrow> timestamp \<Rightarrow> cookie_op list" where
  "setSessionCookie cfg app token expiresAt =
     (let domain = cookieDomain cfg in
      when_domain domain [ClearCookie LEGACY_SESSION_COOKIE domain] @
      [ClearCookie LEGACY_SESSION_COOKIE None,
       SetCookie (cookieName app) token domain (cf_production cfg) expiresAt])"

definition clearSessionCookie :: "web_config \<Rightarrow> app_surface \<Rightarrow> cookie_op list" where
  "clearSessionCookie cfg app =
     (let domain = cookieDomain cfg in
      [ClearCookie (cookieName app) domain, ClearCookie (cookieName app) None] @
      when_domain domain [ClearCookie LEGACY_SESSION_COOKIE domain] @
      [ClearCookie LEGACY_SESSION_COOKIE None])"

section \<open>Tokens of a request\<close>

definition MAX_SESSION_TOKENS :: nat where "MAX_SESSION_TOKENS = 5"

definition decodeCookieValue :: "(string \<Rightarrow> string option) \<Rightarrow> string \<Rightarrow> string" where
  "decodeCookieValue dec raw =
     (let unquoted = (if length raw \<ge> 2 \<and> hd raw = CHR 0x22 \<and> last raw = CHR 0x22 then butlast (tl raw) else raw)
      in case dec unquoted of Some x \<Rightarrow> x | None \<Rightarrow> unquoted)"

definition cookie_value :: "(string \<Rightarrow> string option) \<Rightarrow> string \<Rightarrow> string \<Rightarrow> string option" where
  "cookie_value dec name part =
     (case dropWhile (\<lambda>c. c \<noteq> CHR ''='') part of
        [] \<Rightarrow> None
      | _ # v \<Rightarrow>
          if trim (takeWhile (\<lambda>c. c \<noteq> CHR ''='') part) \<noteq> name then None
          else let x = decodeCookieValue dec (trim v) in if x = [] then None else Some x)"

definition sessionTokens ::
  "web_config \<Rightarrow> (string \<Rightarrow> string option) \<Rightarrow> (string \<Rightarrow> string option) \<Rightarrow> http_request \<Rightarrow> string list" where
  "sessionTokens cfg hostname dec req =
     (let name = cookieName (appFromRequest cfg hostname req);
          parsed = (case rq_cookies req name of None \<Rightarrow> [] | Some v \<Rightarrow> if v = [] then [] else [v]);
          raw = (case rq_cookie req of None \<Rightarrow> []
                 | Some r \<Rightarrow> if r = [] then [] else List.map_filter (cookie_value dec name) (split_on (CHR '';'') r))
      in take MAX_SESSION_TOKENS (js_dedupe (parsed @ raw)))"

text \<open>
  \<open>/^Bearer\s+(.+)$/i\<close>: the white space is taken greedily and gives its last character back
  when nothing else is left for the group; \<open>.\<close> does not match a line terminator.
\<close>

definition line_end :: "char \<Rightarrow> bool" where
  "line_end c = (c = CHR 0x0A \<or> c = CHR 0x0D)"

definition extractBearer :: "http_request \<Rightarrow> string option" where
  "extractBearer req =
     (let header = (case rq_authorization req of None \<Rightarrow> [] | Some h \<Rightarrow> h);
          rest = drop 6 header; sp = takeWhile js_space rest; r = dropWhile js_space rest
      in if toLowerCase (take 6 header) \<noteq> ''bearer'' \<or> sp = [] then None
         else if r \<noteq> [] then (if list_all (\<lambda>c. \<not> line_end c) r then Some (trim r) else None)
         else if length sp \<ge> 2 \<and> \<not> line_end (last sp) then Some [] else None)"

section \<open>The guard\<close>

fun try_sessions :: "auth_env \<Rightarrow> string list \<Rightarrow> ('z db_scheme, principal option) svc" where
  "try_sessions env [] = returnM None"
| "try_sessions env (token # ts) =
     bindM (resolveSession env token) (\<lambda>p. case p of Some x \<Rightarrow> returnM (Some x) | None \<Rightarrow> try_sessions env ts)"

definition key_principal :: "api_key_principal \<Rightarrow> principal" where
  "key_principal key = \<lparr>p_user_id = ak_key_id key, p_email = ''apikey:'' @ show_nat (ak_key_id key),
     p_name = ''API key '' @ take 8 (show_nat (ak_key_id key)), p_session_id = ak_key_id key, p_mailbox_id = None,
     p_org_id = None\<rparr>"

definition canActivate ::
  "web_config \<Rightarrow> (string \<Rightarrow> string option) \<Rightarrow> (string \<Rightarrow> string option) \<Rightarrow> auth_env \<Rightarrow> http_request
     \<Rightarrow> ('z db_scheme, principal \<times> api_key_principal option) svc" where
  "canActivate cfg hostname dec env req =
     bindM (try_sessions env (sessionTokens cfg hostname dec req)) (\<lambda>found.
     case found of
       Some p \<Rightarrow> returnM (p, None)
     | None \<Rightarrow>
         (case extractBearer req of
            Some b \<Rightarrow>
              if b \<noteq> [] then bindM (resolveApiKey (ae_sha256 env) b) (\<lambda>key. returnM (key_principal key, Some key))
              else throwM (UnauthorizedException ''Not authenticated'' None)
          | None \<Rightarrow> throwM (UnauthorizedException ''Not authenticated'' None)))"

section \<open>Facts\<close>

lemma resolveSession_readonly [readonly_intro]: "readonly (resolveSession env token)"
  unfolding resolveSession_def by (intro readonly_intro)

text \<open>The principal a token resolves to, as a function of the state.\<close>

definition session_principal :: "auth_env \<Rightarrow> 'z db_scheme \<Rightarrow> string \<Rightarrow> principal option" where
  "session_principal env s token = (case fst (resolveSession env token s) of Inr p \<Rightarrow> p | Inl _ \<Rightarrow> None)"

lemma resolveSession_run: "resolveSession env token s = (Inr (session_principal env s token), s)"
  by (simp add: session_principal_def resolveSession_def getsM_def)

lemma try_sessions_run:
  "try_sessions env ts s = (Inr (Option.bind (find (\<lambda>x. session_principal env s x \<noteq> None) ts) (session_principal env s)), s)"
  by (induction ts) (auto simp: returnM_def bindM_def resolveSession_run split: option.split)

lemma split_on_join:
  "\<forall>p \<in> set ps. d \<notin> set p \<Longrightarrow> e \<noteq> d \<Longrightarrow> ps \<noteq> [] \<Longrightarrow> split_on d (join [d, e] ps) = hd ps # map (\<lambda>p. e # p) (tl ps)"
proof (induction ps rule: induct_list012)
  case (3 p q ps)
  then have "split_on d (join [d, e] (p # q # ps)) = p # split_on d (e # join [d, e] (q # ps))"
    using split_on_append[of d p] by simp
  with 3 show ?case by simp
qed (simp_all add: split_on_none)

subsection \<open>Cookie headers as browsers write them\<close>

definition plain :: "string \<Rightarrow> bool" where
  "plain = list_all (\<lambda>c. \<not> js_space c \<and> c \<noteq> CHR '';'' \<and> c \<noteq> CHR ''='' \<and> c \<noteq> CHR 0x22)"

definition cookie_header :: "(string \<times> string) list \<Rightarrow> string" where
  "cookie_header pairs = join ''; '' (map (\<lambda>(n, v). n @ ''='' @ v) pairs)"

lemma dropWhile_none: "list_all (\<lambda>c. \<not> P c) s \<Longrightarrow> dropWhile P s = s"
  by (cases s) auto

lemma trim_plain: "plain s \<Longrightarrow> trim s = s" "plain s \<Longrightarrow> trim (CHR '' '' # s) = s"
proof -
  assume p: "plain s"
  then have "list_all (\<lambda>c. \<not> js_space c) s" "list_all (\<lambda>c. \<not> js_space c) (rev s)" by (auto simp: plain_def list_all_iff)
  then have e: "dropWhile js_space s = s" "dropWhile js_space (rev s) = rev s" by (simp_all add: dropWhile_none)
  then show "trim s = s" by (simp add: trim_def trimStart_def trimEnd_def)
  have "js_space (CHR '' '')" by (simp add: js_space_def)
  with e show "trim (CHR '' '' # s) = s" by (simp add: trim_def trimStart_def trimEnd_def)
qed

lemma plain_eq: "plain n \<Longrightarrow> takeWhile (\<lambda>c. c \<noteq> CHR ''='') (n @ CHR ''='' # v) = n"
    "plain n \<Longrightarrow> dropWhile (\<lambda>c. c \<noteq> CHR ''='') (n @ CHR ''='' # v) = CHR ''='' # v"
  by (induction n) (auto simp: plain_def)

lemma decode_plain: "plain v \<Longrightarrow> dec v = Some v \<Longrightarrow> decodeCookieValue dec v = v"
  by (cases v) (auto simp: decodeCookieValue_def plain_def)

lemma cookie_value_pair:
  assumes "plain n" "plain v" "dec v = Some v"
  shows "cookie_value dec name (n @ CHR ''='' # v) = (if n = name \<and> v \<noteq> [] then Some v else None)"
    "cookie_value dec name (CHR '' '' # n @ CHR ''='' # v) = (if n = name \<and> v \<noteq> [] then Some v else None)"
  using assms by (auto simp: cookie_value_def plain_eq trim_plain decode_plain)

lemma cookie_header_values:
  assumes "\<forall>(n, v) \<in> set pairs. plain n \<and> plain v \<and> dec v = Some v" "pairs \<noteq> []"
  shows "List.map_filter (cookie_value dec name) (split_on (CHR '';'') (cookie_header pairs)) =
    map snd (filter (\<lambda>(n, v). n = name \<and> v \<noteq> []) pairs)"
proof -
  let ?p = "\<lambda>(n, v). n @ ''='' @ v :: string"
  have "\<forall>p \<in> set (map ?p pairs). CHR '';'' \<notin> set p"
    using assms(1) by (fastforce simp: plain_def list_all_iff)
  from split_on_join[OF this, of "CHR '' ''"] assms(2)
  have s: "split_on (CHR '';'') (cookie_header pairs) = ?p (hd pairs) # map (\<lambda>p. CHR '' '' # ?p p) (tl pairs)"
    by (simp add: cookie_header_def hd_map map_tl o_def)
  have tl: "List.map_filter (cookie_value dec name) (map (\<lambda>p. CHR '' '' # ?p p) qs) = map snd (filter (\<lambda>(n, v). n = name \<and> v \<noteq> []) qs)"
    if "\<forall>(n, v) \<in> set qs. plain n \<and> plain v \<and> dec v = Some v" for qs
    using that by (induction qs) (auto simp: List.map_filter_simps cookie_value_pair split: option.split if_splits)
  obtain n v qs where p: "pairs = (n, v) # qs" using assms(2) by (cases pairs) auto
  with assms(1) tl[of qs] show ?thesis
    unfolding s by (auto simp: cookie_value_pair List.map_filter_simps split: option.split if_splits)
qed

lemma session_principal_Some:
  assumes "session_principal env s token = Some p"
  shows "\<exists>x u. live_session env token s x u \<and> p_user_id p = u_id u \<and> p_session_id p = s_id x \<and> p_mailbox_id p = s_mailbox_id x"
  using resolveSession_SomeD[of env token s p s] assms by (auto simp: resolveSession_run)

lemma session_principal_None: "session_principal env s token = None \<longleftrightarrow> \<not> (\<exists>x u. live_session env token s x u)"
proof (cases rule: resolveSession_cases[of env token s])
  case none
  then show ?thesis by (simp add: resolveSession_run)
next
  case (some p x u)
  then show ?thesis by (auto simp: resolveSession_run)
qed

section \<open>Properties\<close>

text \<open>
  the cookies of an app are read back exactly. On a request whose Cookie header lists pairs
  of a name and a value, written the way browsers write them, the candidate tokens are the
  first five distinct non-empty values under the name of the calling app, the one cookie-parser
  found first; values under the name of the other app are never among them.
\<close>

theorem session_tokens_exact:
  assumes "\<forall>(n, v) \<in> set pairs. plain n \<and> plain v \<and> dec v = Some v" "pairs \<noteq> []"
    and "rq_cookie req = Some (cookie_header pairs)" "rq_cookies req = map_of pairs"
  shows "sessionTokens cfg hostname dec req =
    (let name = cookieName (appFromRequest cfg hostname req) in
     take 5 (js_dedupe (filter (\<lambda>v. v \<noteq> []) (case map_of pairs name of None \<Rightarrow> [] | Some v \<Rightarrow> [v]) @
       map snd (filter (\<lambda>(n, v). n = name \<and> v \<noteq> []) pairs))))"
proof -
  obtain n v qs where "pairs = (n, v) # qs" using assms(2) by (cases pairs) auto
  then have "cookie_header pairs \<noteq> []" by (cases qs) (auto simp: cookie_header_def)
  then show ?thesis
    unfolding sessionTokens_def Let_def assms(3,4) MAX_SESSION_TOKENS_def
    by (simp add: cookie_header_values[OF assms(1,2)] split: option.split)
qed

subsection \<open>Requests as clients write them\<close>

definition app_header :: "app_surface \<Rightarrow> string" where
  "app_header app = (case app of WebmailApp \<Rightarrow> ''webmail'' | AdminApp \<Rightarrow> ''admin'')"

definition own_cookie :: "app_surface \<Rightarrow> string" where
  "own_cookie app = (case app of WebmailApp \<Rightarrow> ''jm_webmail_session'' | AdminApp \<Rightarrow> ''jm_admin_session'')"

text \<open>
  A request that names its app, with cookies in the form browsers write (and cookie-parser keeps
  the first value of a name), and with \<open>Authorization: Bearer\<close> and a token where there is one.
\<close>

definition client_request ::
  "(string \<Rightarrow> string option) \<Rightarrow> app_surface \<Rightarrow> (string \<times> string) list \<Rightarrow> string option \<Rightarrow> http_request \<Rightarrow> bool" where
  "client_request dec app pairs bearer req \<longleftrightarrow>
     rq_jm_app req = Some (app_header app) \<and>
     (\<forall>(n, v) \<in> set pairs. plain n \<and> plain v \<and> dec v = Some v) \<and>
     rq_cookies req = map_of pairs \<and> rq_cookie req = (if pairs = [] then None else Some (cookie_header pairs)) \<and>
     rq_authorization req = map_option (\<lambda>b. ''Bearer '' @ b) bearer \<and>
     (\<forall>b. bearer = Some b \<longrightarrow> b \<noteq> [] \<and> list_all (\<lambda>c. \<not> js_space c) b)"

text \<open>The first five distinct values under the cookie of the app.\<close>

definition session_candidates :: "app_surface \<Rightarrow> (string \<times> string) list \<Rightarrow> string list" where
  "session_candidates app pairs =
     take 5 (js_dedupe (map snd (filter (\<lambda>(n, v). n = own_cookie app \<and> v \<noteq> []) pairs)))"

lemma client_app: "client_request dec app pairs bearer req \<Longrightarrow> cookieName (appFromRequest cfg hostname req) = own_cookie app"
  by (cases app) (auto simp: client_request_def app_header_def own_cookie_def appFromRequest_def toLowerCase_def js_lower_def
      cookieName_def WEBMAIL_SESSION_COOKIE_def ADMIN_SESSION_COOKIE_def)

lemma first_value:
  "map_of pairs name = Some v \<Longrightarrow> v \<noteq> [] \<Longrightarrow> \<exists>vs. map snd (filter (\<lambda>(n, v). n = name \<and> v \<noteq> []) pairs) = v # vs"
  by (induction pairs) (auto split: if_splits)

lemma js_dedupe_twice: "js_dedupe (x # x # xs) = js_dedupe (x # xs)"
  by (simp add: js_dedupe_def)

lemma client_tokens:
  assumes "client_request dec app pairs bearer req"
  shows "sessionTokens cfg hostname dec req = session_candidates app pairs"
proof (cases "pairs = []")
  case True
  with assms show ?thesis by (simp add: client_request_def sessionTokens_def session_candidates_def MAX_SESSION_TOKENS_def)
next
  case False
  let ?vs = "map snd (filter (\<lambda>(n, v). n = own_cookie app \<and> v \<noteq> []) pairs)"
  let ?first = "filter (\<lambda>v. v \<noteq> []) (case map_of pairs (own_cookie app) of None \<Rightarrow> [] | Some v \<Rightarrow> [v])"
  have "sessionTokens cfg hostname dec req = take 5 (js_dedupe (?first @ ?vs))"
    using session_tokens_exact[of pairs dec req cfg hostname] assms False client_app[OF assms]
    by (simp add: client_request_def Let_def)
  moreover have "js_dedupe (?first @ ?vs) = js_dedupe ?vs"
    using first_value[of pairs "own_cookie app"] by (auto simp: js_dedupe_twice split: option.split)
  ultimately show ?thesis by (simp add: session_candidates_def)
qed

lemma client_bearer: "client_request dec app pairs bearer req \<Longrightarrow> extractBearer req = bearer"
proof (cases bearer)
  case None
  moreover assume "client_request dec app pairs bearer req"
  ultimately show ?thesis by (simp add: client_request_def extractBearer_def)
next
  case (Some b)
  moreover assume c: "client_request dec app pairs bearer req"
  ultimately have b: "b \<noteq> []" "list_all (\<lambda>c. \<not> js_space c) b" and h: "rq_authorization req = Some (''Bearer '' @ b)"
    by (auto simp: client_request_def)
  have "js_space (CHR '' '')" by (simp add: js_space_def)
  moreover from b have "takeWhile js_space b = []" "dropWhile js_space b = b" "dropWhile js_space (rev b) = rev b"
    using dropWhile_none[of js_space "rev b"] by (auto simp: dropWhile_none list_all_iff takeWhile_eq_Nil_iff)
  moreover have "list_all (\<lambda>c. \<not> line_end c) b"
    using b(2) by (auto simp: list_all_iff line_end_def js_space_def)
  moreover have "toLowerCase ''Bearer'' = ''bearer''" by code_simp
  ultimately show ?thesis
    using b(1) Some h by (simp add: extractBearer_def trim_def trimStart_def trimEnd_def Let_def)
qed

text \<open>A key that is neither revoked nor past its expiry.\<close>

definition live_key :: "auth_env \<Rightarrow> string \<Rightarrow> 'z db_scheme \<Rightarrow> api_key_row \<Rightarrow> bool" where
  "live_key env b s row \<longleftrightarrow> row \<in> set (api_keys s) \<and> k_key_hash row = ae_sha256 env b \<and> k_revoked_at row = None \<and>
     \<not> (\<exists>e. k_expires_at row = Some e \<and> e < now s)"

lemma resolveApiKey_live:
  assumes "live_key env b s row" "keys_wf s"
  shows "resolveApiKey (ae_sha256 env) b s =
    (Inr \<lparr>ak_key_id = k_id row, ak_org_id = k_org_id row, ak_scopes = k_scopes row\<rparr>, touch_key (k_id row) s)"
  unfolding resolveApiKey_Inr using assms find_by_hash[of s row] by (auto simp: live_key_def)

lemma resolveApiKey_dead:
  assumes "\<nexists>row. live_key env b s row"
  shows "\<exists>m. resolveApiKey (ae_sha256 env) b s = (Inl (UnauthorizedException m None), s)"
proof (cases "find (\<lambda>k. k_key_hash k = ae_sha256 env b) (api_keys s)")
  case None
  then show ?thesis by (simp add: resolveApiKey_def svc_simps)
next
  case (Some k)
  with find_SomeD[OF Some] assms show ?thesis
    by (cases "k_expires_at k") (auto simp: resolveApiKey_def svc_simps live_key_def)
qed


definition web_demo :: web_config where
  "web_demo = \<lparr>cf_production = True, cf_webmail_host = Some ''mail.x.io'', cf_web_host = ''x.io''\<rparr>"

definition demo_pairs :: "(string \<times> string) list" where
  "demo_pairs = [(''jm_webmail_session'', ''old''), (''jm_admin_session'', ''adm''), (''jm_webmail_session'', ''tok'')]"

theorem session_tokens_exact_witness:
  "sessionTokens web_demo (\<lambda>_. None) Some \<lparr>rq_jm_app = Some ''webmail'', rq_origin = None, rq_referer = None,
     rq_authorization = None, rq_cookie = Some (cookie_header demo_pairs), rq_cookies = map_of demo_pairs\<rparr> = [''old'', ''tok'']"
proof -
  have "\<forall>(n, v) \<in> set demo_pairs. plain n \<and> plain v \<and> Some v = Some v" "demo_pairs \<noteq> []"
    by (simp_all add: demo_pairs_def plain_def js_space_def)
  from session_tokens_exact[OF this, of "\<lparr>rq_jm_app = Some ''webmail'', rq_origin = None, rq_referer = None,
     rq_authorization = None, rq_cookie = Some (cookie_header demo_pairs), rq_cookies = map_of demo_pairs\<rparr>"]
  show ?thesis
    by (simp add: appFromRequest_def toLowerCase_def js_lower_def cookieName_def WEBMAIL_SESSION_COOKIE_def demo_pairs_def js_dedupe_def)
qed

text \<open>A key of the organization, valid until a time that has not come.\<close>

definition web_key :: api_key_row where
  "web_key = \<lparr>k_id = 28, k_org_id = 20, k_name = ''ci'', k_key_prefix = ''jm_x'', k_key_hash = ''jm_key'', k_scopes = [''read''],
     k_last_used_at = None, k_expires_at = Some 50, k_created_by = Some 11, k_created_at = 0, k_revoked_at = None\<rparr>"

definition web_sys :: sys where
  "web_sys = (with_session demo_env ''tok'' 11 None None None demo_sys)\<lparr>api_keys := [web_key]\<rparr>"

definition web_request :: "(string \<times> string) list \<Rightarrow> string option \<Rightarrow> http_request" where
  "web_request pairs bearer = \<lparr>rq_jm_app = Some ''webmail'', rq_origin = None, rq_referer = None,
     rq_authorization = map_option (\<lambda>b. ''Bearer '' @ b) bearer,
     rq_cookie = (if pairs = [] then None else Some (cookie_header pairs)), rq_cookies = map_of pairs\<rparr>"

lemma web_request_ok:
  "client_request Some WebmailApp demo_pairs None (web_request demo_pairs None)"
  "client_request Some WebmailApp [] (Some ''jm_key'') (web_request [] (Some ''jm_key''))"
  "client_request Some WebmailApp [] (Some ''jm_bad'') (web_request [] (Some ''jm_bad''))"
  by (simp_all add: client_request_def web_request_def app_header_def demo_pairs_def plain_def js_space_def)

lemma web_sys_facts:
  "keys_wf web_sys" "live_session demo_env ''tok'' web_sys (hd (sessions web_sys)) ann" "live_key demo_env ''jm_key'' web_sys web_key"
  "\<not> live_key demo_env ''jm_bad'' web_sys row" "''tok'' \<in> set (session_candidates WebmailApp demo_pairs)"
  "session_candidates WebmailApp [] = []" "live_key demo_env ''jm_key'' web_sys row \<longleftrightarrow> row = web_key"
  by (auto simp: web_sys_def web_key_def keys_wf_def live_session_def live_key_def with_session_def demo_parts demo_sys_def demo_env_def
      session_candidates_def own_cookie_def demo_pairs_def js_dedupe_def)


end
