(* ===== verification/JM_Retention.thy ===== *)
theory JM_Retention
  imports JM_Tenant
begin

text \<open>
  Retention policies and legal holds (\<open>apps/api/src/retention/retention.service.ts\<close>,
  \<open>apps/api/src/retention/legal-hold.service.ts\<close>, \<open>apps/api/src/retention/master-imap.ts\<close>).

  The state extends the database by the two tables and by the mail store the worker reaches as
  the Dovecot master user: for every address that accepts the connection, its folders with the
  messages by UID and internal date. The server's \<open>SEARCH BEFORE\<close> and the folders on which a
  command fails are parameters.
\<close>

record policy_row =
  rp_org_id :: uuid
  rp_enabled :: bool
  rp_delete_after_days :: "int option"
  rp_folders :: "string list"
  rp_updated_by :: "uuid option"
  rp_updated_at :: timestamp

record hold_row =
  lh_id :: uuid
  lh_org_id :: uuid
  lh_mailbox_id :: "uuid option"
  lh_reason :: string
  lh_created_by :: "uuid option"
  lh_created_at :: timestamp
  lh_released_at :: "timestamp option"
  lh_released_by :: "uuid option"

type_synonym folder = "string \<times> (nat \<rightharpoonup> timestamp)"

record ret = db +
  retention_policies :: "policy_row list"
  legal_holds :: "hold_row list"
  imap_store :: "string \<Rightarrow> folder list option"

record ret_env =
  re_configured :: bool
  re_before :: "timestamp \<Rightarrow> timestamp \<Rightarrow> bool"
  re_fails :: "string \<Rightarrow> string \<Rightarrow> bool"

record retention_policy =
  pd_org_id :: uuid
  pd_enabled :: bool
  pd_delete_after_days :: "int option"
  pd_folders :: "string list"
  pd_master_configured :: bool
  pd_updated_at :: timestamp

record update_retention_request =
  ur_enabled :: "bool option"
  ur_delete_after_days :: "int option option"
  ur_folders :: "string list option"

record legal_hold =
  hd_id :: uuid
  hd_org_id :: uuid
  hd_mailbox_id :: "uuid option"
  hd_mailbox_address :: "string option"
  hd_reason :: string
  hd_created_by :: "uuid option"
  hd_created_at :: timestamp
  hd_released_at :: "timestamp option"

record create_hold_request =
  ch_mailbox_id :: "uuid option"
  ch_reason :: "string option"

section \<open>Legal holds\<close>

definition hold_address :: "'z db_scheme \<Rightarrow> hold_row \<Rightarrow> string option" where
  "hold_address s h = Option.bind (lh_mailbox_id h) (\<lambda>mid. Option.bind (find (\<lambda>m. mb_id m = mid) (mailboxes s)) (\<lambda>m.
     map_option (\<lambda>d. mb_local_part m @ ''@'' @ d_name d) (find (\<lambda>d. d_id d = mb_domain_id m) (domains s))))"

definition toHold :: "'z db_scheme \<Rightarrow> hold_row \<Rightarrow> legal_hold" where
  "toHold s h = \<lparr>hd_id = lh_id h, hd_org_id = lh_org_id h, hd_mailbox_id = lh_mailbox_id h,
     hd_mailbox_address = hold_address s h, hd_reason = lh_reason h, hd_created_by = lh_created_by h,
     hd_created_at = lh_created_at h, hd_released_at = lh_released_at h\<rparr>"

definition listHolds :: "uuid \<Rightarrow> uuid \<Rightarrow> ('z ret_scheme, legal_hold list) svc" where
  "listHolds orgId userId =
     thenM (requireRole orgId userId Admin)
     (getsM (\<lambda>s. map (toHold s) (sort_key (\<lambda>h. lh_released_at h \<noteq> None)
        (sort_key (\<lambda>h. - lh_created_at h) (filter (\<lambda>h. lh_org_id h = orgId) (legal_holds s))))))"

definition getHold :: "uuid \<Rightarrow> uuid \<Rightarrow> uuid \<Rightarrow> ('z ret_scheme, legal_hold) svc" where
  "getHold orgId i userId =
     bindM (listHolds orgId userId) (\<lambda>hs.
     someM (find (\<lambda>h. hd_id h = i) hs) (NotFoundException ''Hold not found'' None))"

definition assertMailbox :: "uuid \<Rightarrow> uuid \<Rightarrow> ('z db_scheme, unit) svc" where
  "assertMailbox orgId mailboxId =
     bindM (getsM (\<lambda>s. \<exists>m \<in> set (mailboxes s). \<exists>d \<in> set (domains s).
              d_id d = mb_domain_id m \<and> mb_id m = mailboxId \<and> d_org_id d = orgId)) (\<lambda>ok.
     throwIf (\<not> ok) (NotFoundException ''Mailbox not found'' None))"

definition insert_hold :: "uuid \<Rightarrow> uuid option \<Rightarrow> string \<Rightarrow> uuid \<Rightarrow> ('z ret_scheme, uuid) svc" where
  "insert_hold orgId mailboxId reason userId = (\<lambda>s.
     if userId \<notin> u_id ` set (users s) then (Inl (DbError ''23503''), s)
     else (Inr (next_id s), s\<lparr>legal_holds := legal_holds s @ [\<lparr>lh_id = next_id s, lh_org_id = orgId, lh_mailbox_id = mailboxId,
             lh_reason = reason, lh_created_by = Some userId, lh_created_at = now s, lh_released_at = None,
             lh_released_by = None\<rparr>], next_id := next_id s + 1\<rparr>))"

definition createHold :: "principal \<Rightarrow> uuid \<Rightarrow> create_hold_request \<Rightarrow> string option \<Rightarrow> ('z ret_scheme, legal_hold) svc" where
  "createHold p orgId req ip =
     thenM (requireRole orgId (p_user_id p) Admin)
     (let mailboxId = ch_mailbox_id req; reason = (case ch_reason req of None \<Rightarrow> [] | Some r \<Rightarrow> r) in
      thenM (case mailboxId of None \<Rightarrow> returnM () | Some m \<Rightarrow> assertMailbox orgId m)
     (bindM (getsM (\<lambda>s. \<exists>h \<in> set (legal_holds s). lh_org_id h = orgId \<and> lh_released_at h = None \<and> lh_mailbox_id h = mailboxId)) (\<lambda>dup.
      thenM (throwIf dup (ConflictException ''An active hold already exists here'' None))
     (bindM (insert_hold orgId mailboxId reason (p_user_id p)) (\<lambda>i.
      thenM (audit_log (user_entry (Some orgId) p ''legal_hold.create''
               (case mailboxId of None \<Rightarrow> ''organization'' | Some _ \<Rightarrow> ''mailbox'')
               (case mailboxId of None \<Rightarrow> orgId | Some m \<Rightarrow> m) ip [(''reason'', JStr reason)]))
     (getHold orgId i (p_user_id p)))))))"

definition releaseHold :: "principal \<Rightarrow> uuid \<Rightarrow> uuid \<Rightarrow> string option \<Rightarrow> ('z ret_scheme, unit) svc" where
  "releaseHold p orgId i ip =
     thenM (requireRole orgId (p_user_id p) Admin)
     (bindM (getsM (\<lambda>s. \<exists>h \<in> set (legal_holds s). lh_id h = i \<and> lh_org_id h = orgId \<and> lh_released_at h = None)) (\<lambda>hit.
      thenM (throwIf (\<not> hit) (NotFoundException ''Active hold not found'' None))
     (thenM (fk_user (p_user_id p))
     (thenM (modifyM (\<lambda>s. s\<lparr>legal_holds := map (\<lambda>h. if lh_id h = i \<and> lh_org_id h = orgId \<and> lh_released_at h = None
               then h\<lparr>lh_released_at := Some (now s), lh_released_by := Some (p_user_id p)\<rparr> else h) (legal_holds s)\<rparr>))
     (audit_log (user_entry (Some orgId) p ''legal_hold.release'' ''legal_hold'' i ip []))))))"

definition heldMailboxIds :: "uuid \<Rightarrow> 'z ret_scheme \<Rightarrow> bool \<times> uuid set" where
  "heldMailboxIds orgId s =
     (let rows = map lh_mailbox_id (filter (\<lambda>h. lh_org_id h = orgId \<and> lh_released_at h = None) (legal_holds s))
      in fold (\<lambda>r (orgWide, ids). case r of None \<Rightarrow> (True, ids) | Some m \<Rightarrow> (orgWide, insert m ids)) rows (False, {}))"

section \<open>Policies\<close>

definition toPolicy :: "ret_env \<Rightarrow> policy_row \<Rightarrow> retention_policy" where
  "toPolicy env r = \<lparr>pd_org_id = rp_org_id r, pd_enabled = rp_enabled r, pd_delete_after_days = rp_delete_after_days r,
     pd_folders = rp_folders r, pd_master_configured = re_configured env, pd_updated_at = rp_updated_at r\<rparr>"

text \<open>The row the column defaults of the table give.\<close>

definition default_policy :: "uuid \<Rightarrow> uuid option \<Rightarrow> timestamp \<Rightarrow> policy_row" where
  "default_policy orgId by nw = \<lparr>rp_org_id = orgId, rp_enabled = False, rp_delete_after_days = None,
     rp_folders = [''Trash'', ''Junk''], rp_updated_by = by, rp_updated_at = nw\<rparr>"

text \<open>\<open>INSERT ... ON CONFLICT (org_id) DO UPDATE SET ... RETURNING\<close>: the assignments apply to an existing row only.\<close>

definition upsert_policy ::
  "uuid \<Rightarrow> uuid option \<Rightarrow> (timestamp \<Rightarrow> policy_row \<Rightarrow> policy_row) \<Rightarrow> ('z ret_scheme, policy_row) svc" where
  "upsert_policy orgId by f = (\<lambda>s.
     case find (\<lambda>r. rp_org_id r = orgId) (retention_policies s) of
       Some r \<Rightarrow> (Inr (f (now s) r),
         s\<lparr>retention_policies := map (\<lambda>x. if rp_org_id x = orgId then f (now s) x else x) (retention_policies s)\<rparr>)
     | None \<Rightarrow> (Inr (default_policy orgId by (now s)),
         s\<lparr>retention_policies := retention_policies s @ [default_policy orgId by (now s)]\<rparr>))"

definition getPolicy :: "ret_env \<Rightarrow> uuid \<Rightarrow> uuid \<Rightarrow> ('z ret_scheme, retention_policy) svc" where
  "getPolicy env orgId userId =
     thenM (requireRole orgId userId Admin)
     (bindM (upsert_policy orgId None (\<lambda>nw r. r)) (\<lambda>r. returnM (toPolicy env r)))"

definition apply_update :: "uuid \<Rightarrow> update_retention_request \<Rightarrow> timestamp \<Rightarrow> policy_row \<Rightarrow> policy_row" where
  "apply_update userId req nw r =
     r\<lparr>rp_updated_at := nw, rp_updated_by := Some userId,
       rp_enabled := (case ur_enabled req of None \<Rightarrow> rp_enabled r | Some b \<Rightarrow> b),
       rp_delete_after_days := (case ur_delete_after_days req of None \<Rightarrow> rp_delete_after_days r | Some n \<Rightarrow> n),
       rp_folders := (case ur_folders req of None \<Rightarrow> rp_folders r | Some fs \<Rightarrow> fs)\<rparr>"

definition updatePolicy ::
  "ret_env \<Rightarrow> (update_retention_request \<Rightarrow> (string \<times> json) list) \<Rightarrow> principal \<Rightarrow> uuid \<Rightarrow> update_retention_request
     \<Rightarrow> string option \<Rightarrow> ('z ret_scheme, retention_policy) svc" where
  "updatePolicy env meta p orgId req ip =
     thenM (requireRole orgId (p_user_id p) Admin)
     (thenM (fk_user (p_user_id p))
     (bindM (upsert_policy orgId (Some (p_user_id p)) (apply_update (p_user_id p) req)) (\<lambda>r.
      thenM (audit_log (user_entry (Some orgId) p ''retention.policy.update'' ''organization'' orgId ip (meta req)))
     (returnM (toPolicy env r)))))"

section \<open>Pruning\<close>

definition imap_error :: exn where
  "imap_error = HttpException 500 ''Error'' None"

text \<open>\<open>client.search({before})\<close> and \<open>client.messageDelete(uids)\<close> on a selected folder.\<close>

definition search_before :: "ret_env \<Rightarrow> timestamp \<Rightarrow> (nat \<rightharpoonup> timestamp) \<Rightarrow> nat set" where
  "search_before env cutoff m = {u. case m u of None \<Rightarrow> False | Some d \<Rightarrow> re_before env cutoff d}"

definition messageDelete :: "nat set \<Rightarrow> (nat \<rightharpoonup> timestamp) \<Rightarrow> (nat \<rightharpoonup> timestamp)" where
  "messageDelete uids m = m |` (- uids)"

definition prune_folder :: "ret_env \<Rightarrow> string \<Rightarrow> timestamp \<Rightarrow> string \<Rightarrow> ('z ret_scheme, unit) svc" where
  "prune_folder env address cutoff folder = (\<lambda>s.
     case imap_store s address of
       None \<Rightarrow> (Inl imap_error, s)
     | Some fs \<Rightarrow>
         if folder \<notin> fst ` set fs then (Inr (), s)
         else if re_fails env address folder then (Inl imap_error, s)
         else (Inr (), s\<lparr>imap_store := (imap_store s)(address \<mapsto>
                map (\<lambda>(f, m). (f, if f = folder then messageDelete (search_before env cutoff m) m else m)) fs)\<rparr>))"

definition withClient :: "ret_env \<Rightarrow> string \<Rightarrow> ('z ret_scheme, unit) svc \<Rightarrow> ('z ret_scheme, unit) svc" where
  "withClient env address fn = (\<lambda>s.
     if \<not> re_configured env \<or> imap_store s address = None then (Inl imap_error, s) else fn s)"

definition pruneMailbox :: "ret_env \<Rightarrow> string \<Rightarrow> string list \<Rightarrow> timestamp \<Rightarrow> ('z ret_scheme, unit) svc" where
  "pruneMailbox env address folders cutoff =
     withClient env address (forM folders (prune_folder env address cutoff))"

definition org_boxes :: "uuid \<Rightarrow> 'z db_scheme \<Rightarrow> (uuid \<times> string) list" where
  "org_boxes orgId s = [(mb_id m, mb_local_part m @ ''@'' @ d_name d).
     m \<leftarrow> mailboxes s, d \<leftarrow> domains s, d_id d = mb_domain_id m \<and> d_org_id d = orgId \<and> mb_status m = ''active'']"

definition pruneOrg :: "ret_env \<Rightarrow> policy_row \<Rightarrow> ('z ret_scheme, unit) svc" where
  "pruneOrg env policy =
     (if rp_folders policy = [] then returnM ()
      else bindM (getsM (heldMailboxIds (rp_org_id policy))) (\<lambda>(orgWide, ids).
        if orgWide then returnM ()
        else bindM (getsM (org_boxes (rp_org_id policy))) (\<lambda>boxes.
          bindM (getsM (\<lambda>s. now s - the (rp_delete_after_days policy) * 86400000)) (\<lambda>cutoff.
          forM boxes (\<lambda>(i, address).
            if i \<in> ids then returnM ()
            else catchM (pruneMailbox env address (rp_folders policy) cutoff) (\<lambda>_. returnM ()))))))"

definition due_policies :: "'z ret_scheme \<Rightarrow> policy_row list" where
  "due_policies s = filter (\<lambda>r. rp_enabled r \<and> (case rp_delete_after_days r of None \<Rightarrow> False | Some n \<Rightarrow> n > 0)) (retention_policies s)"

definition runDuePruning :: "ret_env \<Rightarrow> ('z ret_scheme, unit) svc" where
  "runDuePruning env =
     (if \<not> re_configured env then returnM ()
      else bindM (getsM due_policies) (\<lambda>rows.
        forM rows (\<lambda>policy. catchM (pruneOrg env policy) (\<lambda>_. returnM ()))))"

section \<open>What a run removes\<close>

text \<open>The store without the messages at an address and in a folder whose date is in \<open>D\<close>.\<close>

definition erase_folder :: "(timestamp \<Rightarrow> bool) \<Rightarrow> (nat \<rightharpoonup> timestamp) \<Rightarrow> (nat \<rightharpoonup> timestamp)" where
  "erase_folder P m = (\<lambda>u. Option.bind (m u) (\<lambda>d. if P d then None else Some d))"

definition erase :: "(string \<Rightarrow> string \<Rightarrow> timestamp \<Rightarrow> bool) \<Rightarrow> 'z ret_scheme \<Rightarrow> 'z ret_scheme" where
  "erase D s = s\<lparr>imap_store := (\<lambda>a. map_option (map (\<lambda>(f, m). (f, erase_folder (D a f) m))) (imap_store s a))\<rparr>"

lemma erase_folder_none [simp]: "erase_folder (\<lambda>d. False) m = m"
  by (rule ext) (simp add: erase_folder_def bind_eq_None_conv split: bind_split)

lemma erase_folder_twice [simp]: "erase_folder Q (erase_folder P m) = erase_folder (\<lambda>d. P d \<or> Q d) m"
  by (rule ext) (auto simp: erase_folder_def split: bind_splits)

lemma messageDelete_search: "messageDelete (search_before env cutoff m) m = erase_folder (re_before env cutoff) m"
  by (rule ext) (auto simp: messageDelete_def search_before_def erase_folder_def restrict_map_def split: bind_splits option.splits)

lemma erase_frame [simp]:
  "mailboxes (erase D s) = mailboxes s" "domains (erase D s) = domains s" "now (erase D s) = now s"
  "legal_holds (erase D s) = legal_holds s" "retention_policies (erase D s) = retention_policies s"
  "imap_store (erase D s) a = map_option (map (\<lambda>(f, m). (f, erase_folder (D a f) m))) (imap_store s a)"
  by (simp_all add: erase_def)

lemma erase_none [simp]: "erase (\<lambda>a f d. False) s = s"
  by (simp add: erase_def option.map_id)

lemma erase_erase: "erase D (erase E s) = erase (\<lambda>a f d. E a f d \<or> D a f d) s"
  by (simp add: erase_def option.map_comp o_def split_def)

lemma erase_unchanged:
  assumes "\<And>a f d. imap_store s a \<noteq> None \<Longrightarrow> D a f d = E a f d"
  shows "erase D s = erase E s"
proof -
  have "map_option (map (\<lambda>(f, m). (f, erase_folder (D a f) m))) (imap_store s a) =
      map_option (map (\<lambda>(f, m). (f, erase_folder (E a f) m))) (imap_store s a)" for a
  proof (cases "imap_store s a")
    case (Some x)
    with assms have "D a = E a" by (intro ext) auto
    then show ?thesis by simp
  qed simp
  then show ?thesis by (simp add: erase_def)
qed

lemma reads_erase [simp]:
  "org_boxes org (erase D s) = org_boxes org s" "heldMailboxIds org (erase D s) = heldMailboxIds org s"
  "due_policies (erase D s) = due_policies s"
  by (simp_all add: org_boxes_def heldMailboxIds_def due_policies_def)

text \<open>
  A handler that returns, removes at most \<open>D s\<close>, and exactly that when \<open>ok\<close> holds. Such
  handlers compose over loops when \<open>D\<close> reads only what a removal leaves alone.
\<close>

definition removes ::
  "bool \<Rightarrow> ('z ret_scheme \<Rightarrow> string \<Rightarrow> string \<Rightarrow> timestamp \<Rightarrow> bool) \<Rightarrow> ('z ret_scheme, unit) svc \<Rightarrow> bool" where
  "removes ok D m \<longleftrightarrow> (\<forall>s. \<exists>E. m s = (Inr (), erase E s) \<and> (\<forall>a f d. E a f d \<longrightarrow> D s a f d) \<and> (ok \<longrightarrow> erase E s = erase (D s) s))"

definition stable :: "('z ret_scheme \<Rightarrow> 'a) \<Rightarrow> bool" where
  "stable D \<longleftrightarrow> (\<forall>s E. D (erase E s) = D s)"

lemma removes_nothing: "removes ok (\<lambda>s a f d. False) (returnM ())"
  unfolding removes_def returnM_def by (intro allI exI[of _ "\<lambda>a f d. False"]) simp

lemma removes_cong: "removes ok D m \<Longrightarrow> (\<And>s a f d. D s a f d = D' s a f d) \<Longrightarrow> removes ok D' m"
  by (subgoal_tac "D = D'") (auto intro!: ext)

lemma removes_gets:
  assumes "\<And>x. removes ok (D x) (g x)"
  shows "removes ok (\<lambda>s. D (h s) s) (bindM (getsM h) g)"
  using assms by (auto simp: removes_def bindM_getsM)

lemma removes_forM:
  assumes "\<And>x. removes ok (D x) (g x)" "\<And>x. stable (D x)"
  shows "removes ok (\<lambda>s a f d. \<exists>x \<in> set xs. D x s a f d) (forM xs g)"
proof (induction xs)
  case Nil
  then show ?case using removes_nothing by simp
next
  case (Cons x xs)
  show ?case unfolding removes_def
  proof
    fix s
    from assms(1)[of x] obtain E where E: "g x s = (Inr (), erase E s)" "\<forall>a f d. E a f d \<longrightarrow> D x s a f d"
      "ok \<longrightarrow> erase E s = erase (D x s) s" unfolding removes_def by blast
    from Cons obtain F where F: "forM xs g (erase E s) = (Inr (), erase F (erase E s))"
      "\<forall>a f d. F a f d \<longrightarrow> (\<exists>x \<in> set xs. D x (erase E s) a f d)"
      "ok \<longrightarrow> erase F (erase E s) = erase (\<lambda>a f d. \<exists>x \<in> set xs. D x (erase E s) a f d) (erase E s)" unfolding removes_def by blast
    have st: "D y (erase G s) = D y s" for y G using assms(2) by (simp add: stable_def)
    have "forM (x # xs) g s = (Inr (), erase (\<lambda>a f d. E a f d \<or> F a f d) s)"
      using E(1) F(1) by (simp add: thenM_def bindM_def erase_erase)
    moreover have "ok \<longrightarrow> erase (\<lambda>a f d. E a f d \<or> F a f d) s = erase (\<lambda>a f d. \<exists>x \<in> set (x # xs). D x s a f d) s"
      using E(3) F(3) by (simp add: st erase_erase[symmetric])
    ultimately show "\<exists>E. forM (x # xs) g s = (Inr (), erase E s) \<and>
        (\<forall>a f d. E a f d \<longrightarrow> (\<exists>x \<in> set (x # xs). D x s a f d)) \<and>
        (ok \<longrightarrow> erase E s = erase (\<lambda>a f d. \<exists>x \<in> set (x # xs). D x s a f d) s)"
      using E(2) F(2) by (intro exI[of _ "\<lambda>a f d. E a f d \<or> F a f d"]) (auto simp: st)
  qed
qed

subsection \<open>Folders of one mailbox\<close>

lemma prune_folder_run:
  assumes "imap_store s address \<noteq> None"
  shows "prune_folder env address cutoff folder s =
    (if re_fails env address folder \<and> folder \<in> fst ` set (the (imap_store s address)) then (Inl imap_error, s)
     else (Inr (), erase (\<lambda>a f d. a = address \<and> f = folder \<and> re_before env cutoff d) s))"
proof -
  from assms obtain fs where fs: "imap_store s address = Some fs" by auto
  have absent: "map (\<lambda>(f, m). (f, erase_folder (\<lambda>d. f = folder \<and> re_before env cutoff d) m)) fs = fs" if "folder \<notin> fst ` set fs"
    using that by (induction fs) auto
  have folders: "map (\<lambda>(f, m). (f, erase_folder (\<lambda>d. f = folder \<and> re_before env cutoff d) m)) fs =
      map (\<lambda>(f, m). (f, if f = folder then messageDelete (search_before env cutoff m) m else m)) fs"
    by (auto simp: messageDelete_search)
  have e: "erase (\<lambda>a f d. a = address \<and> f = folder \<and> re_before env cutoff d) s =
      s\<lparr>imap_store := (imap_store s)(address \<mapsto> map (\<lambda>(f, m). (f, erase_folder (\<lambda>d. f = folder \<and> re_before env cutoff d) m)) fs)\<rparr>"
    unfolding erase_def by (rule arg_cong[where f = "\<lambda>x. s\<lparr>imap_store := x\<rparr>"], rule ext) (auto simp: fs option.map_id)
  show ?thesis
    unfolding e using absent by (auto simp: prune_folder_def fs folders fun_upd_idem)
qed

lemma pruneMailbox_removes:
  assumes "ok \<Longrightarrow> \<forall>f. \<not> re_fails env address f" "re_configured env"
  shows "removes ok (\<lambda>s a f d. a = address \<and> f \<in> set folders \<and> re_before env cutoff d)
    (catchM (pruneMailbox env address folders cutoff) (\<lambda>_. returnM ()))"
proof -
  have loop: "\<exists>r E. forM fl (prune_folder env address cutoff) s = (r, erase E s) \<and>
      (\<forall>a f d. E a f d \<longrightarrow> a = address \<and> f \<in> set fl \<and> re_before env cutoff d) \<and>
      (ok \<longrightarrow> erase E s = erase (\<lambda>a f d. a = address \<and> f \<in> set fl \<and> re_before env cutoff d) s)"
    if "imap_store s address \<noteq> None" for fl and s :: "'z ret_scheme"
    using that
  proof (induction fl arbitrary: s)
    case Nil
    then show ?case by (intro exI[of _ "Inr ()"] exI[of _ "\<lambda>a f d. False"]) (simp add: returnM_def)
  next
    case (Cons x fl)
    show ?case
    proof (cases "re_fails env address x \<and> x \<in> fst ` set (the (imap_store s address))")
      case True
      with Cons(2) assms(1) show ?thesis
        by (intro exI[of _ "Inl imap_error"] exI[of _ "\<lambda>a f d. False"]) (auto simp: prune_folder_run thenM_def bindM_def)
    next
      case False
      let ?D = "\<lambda>a f d. a = address \<and> f = x \<and> re_before env cutoff d"
      let ?s = "erase ?D s"
      from Cons(2) have "imap_store ?s address \<noteq> None" by simp
      from Cons(1)[OF this] obtain r E where E: "forM fl (prune_folder env address cutoff) ?s = (r, erase E ?s)"
        "\<forall>a f d. E a f d \<longrightarrow> a = address \<and> f \<in> set fl \<and> re_before env cutoff d"
        "ok \<longrightarrow> erase E ?s = erase (\<lambda>a f d. a = address \<and> f \<in> set fl \<and> re_before env cutoff d) ?s" by blast
      have "erase (\<lambda>a f d. ?D a f d \<or> a = address \<and> f \<in> set fl \<and> re_before env cutoff d) s =
          erase (\<lambda>a f d. a = address \<and> f \<in> set (x # fl) \<and> re_before env cutoff d) s"
        by (rule erase_unchanged) auto
      moreover have "forM (x # fl) (prune_folder env address cutoff) s = (r, erase E ?s)"
        using Cons(2) False E(1) by (auto simp: prune_folder_run thenM_def bindM_def)
      ultimately show ?thesis using E(2,3)
        by (intro exI[of _ r] exI[of _ "\<lambda>a f d. ?D a f d \<or> E a f d"]) (auto simp: erase_erase)
    qed
  qed
  show ?thesis unfolding removes_def
  proof
    fix s :: "'z ret_scheme"
    show "\<exists>E. catchM (pruneMailbox env address folders cutoff) (\<lambda>_. returnM ()) s = (Inr (), erase E s) \<and>
        (\<forall>a f d. E a f d \<longrightarrow> a = address \<and> f \<in> set folders \<and> re_before env cutoff d) \<and>
        (ok \<longrightarrow> erase E s = erase (\<lambda>a f d. a = address \<and> f \<in> set folders \<and> re_before env cutoff d) s)"
    proof (cases "imap_store s address")
      case None
      then have "erase (\<lambda>a f d. a = address \<and> f \<in> set folders \<and> re_before env cutoff d) s = erase (\<lambda>a f d. False) s"
        by (intro erase_unchanged) auto
      with None show ?thesis
        by (intro exI[of _ "\<lambda>a f d. False"]) (simp add: catchM_def pruneMailbox_def withClient_def returnM_def)
    next
      case (Some fs)
      then have "imap_store s address \<noteq> None" by simp
      from loop[OF this, of folders] obtain r E where "forM folders (prune_folder env address cutoff) s = (r, erase E s)"
        "\<forall>a f d. E a f d \<longrightarrow> a = address \<and> f \<in> set folders \<and> re_before env cutoff d"
        "ok \<longrightarrow> erase E s = erase (\<lambda>a f d. a = address \<and> f \<in> set folders \<and> re_before env cutoff d) s" by blast
      with Some assms(2) show ?thesis
        by (intro exI[of _ E]) (auto simp: catchM_def pruneMailbox_def withClient_def returnM_def split: sum.split)
    qed
  qed
qed

subsection \<open>All policies\<close>

text \<open>What a policy may remove, and what all of them may.\<close>

definition org_doomed :: "ret_env \<Rightarrow> policy_row \<Rightarrow> 'z ret_scheme \<Rightarrow> string \<Rightarrow> string \<Rightarrow> timestamp \<Rightarrow> bool" where
  "org_doomed env p s a f d \<longleftrightarrow> \<not> fst (heldMailboxIds (rp_org_id p) s) \<and> f \<in> set (rp_folders p) \<and>
     (\<exists>i. (i, a) \<in> set (org_boxes (rp_org_id p) s) \<and> i \<notin> snd (heldMailboxIds (rp_org_id p) s)) \<and>
     re_before env (now s - the (rp_delete_after_days p) * 86400000) d"

definition doomed :: "ret_env \<Rightarrow> 'z ret_scheme \<Rightarrow> string \<Rightarrow> string \<Rightarrow> timestamp \<Rightarrow> bool" where
  "doomed env s a f d \<longleftrightarrow> (\<exists>p \<in> set (due_policies s). org_doomed env p s a f d)"

lemma stable_org_doomed: "stable (org_doomed env p)"
  unfolding stable_def by (intro allI ext) (simp add: org_doomed_def)

lemma removes_catch: "removes ok D m \<Longrightarrow> removes ok D (catchM m h)"
  unfolding removes_def catchM_def by (metis (no_types, lifting) old.prod.case old.sum.simps(6))

lemma removes_if: "(c \<Longrightarrow> removes ok D m) \<Longrightarrow> (\<not> c \<Longrightarrow> removes ok E n) \<Longrightarrow> removes ok (if c then D else E) (if c then m else n)"
  by simp

lemma boxes_removes:
  fixes boxes :: "(uuid \<times> string) list"
  assumes "ok \<Longrightarrow> \<forall>a f. \<not> re_fails env a f" "re_configured env"
  shows "removes ok (\<lambda>s a f d. \<exists>x \<in> set boxes. fst x \<notin> ids \<and> a = snd x \<and> f \<in> set folders \<and> re_before env cutoff d)
    (forM boxes (\<lambda>(i, address). if i \<in> ids then returnM ()
       else catchM (pruneMailbox env address folders cutoff) (\<lambda>_. returnM ())))"
proof (rule removes_forM)
  fix x :: "uuid \<times> string"
  obtain i address where x: "x = (i, address)" by fastforce
  show "removes ok (\<lambda>s a f d. fst x \<notin> ids \<and> a = snd x \<and> f \<in> set folders \<and> re_before env cutoff d)
      (case x of (i, address) \<Rightarrow> if i \<in> ids then returnM ()
       else catchM (pruneMailbox env address folders cutoff) (\<lambda>_. returnM ()))"
    using removes_nothing pruneMailbox_removes[of ok env address folders cutoff] assms by (auto simp: x)
qed (simp add: stable_def)

lemma pruneOrg_removes:
  assumes "ok \<Longrightarrow> \<forall>a f. \<not> re_fails env a f" "re_configured env"
  shows "removes ok (org_doomed env p) (pruneOrg env p)"
proof (cases "rp_folders p = []")
  case True
  then have "removes ok (\<lambda>s a f d. False) (pruneOrg env p)" using removes_nothing by (simp add: pruneOrg_def)
  then show ?thesis by (rule removes_cong) (simp add: org_doomed_def True)
next
  case False
  have "removes ok (org_doomed env p) (bindM (getsM (heldMailboxIds (rp_org_id p))) (\<lambda>(orgWide, ids).
        if orgWide then returnM ()
        else bindM (getsM (org_boxes (rp_org_id p))) (\<lambda>boxes.
          bindM (getsM (\<lambda>s. now s - the (rp_delete_after_days p) * 86400000)) (\<lambda>cutoff.
          forM boxes (\<lambda>(i, address).
            if i \<in> ids then returnM ()
            else catchM (pruneMailbox env address (rp_folders p) cutoff) (\<lambda>_. returnM ()))))))"
    (is "removes ok _ (bindM _ ?g)")
  proof -
    let ?D = "\<lambda>w s a f d. \<not> fst w \<and> (\<exists>x \<in> set (org_boxes (rp_org_id p) s). fst x \<notin> snd w \<and> a = snd x \<and>
        f \<in> set (rp_folders p) \<and> re_before env (now s - the (rp_delete_after_days p) * 86400000) d)"
    have "removes ok (?D w) (?g w)" for w
    proof (cases "fst w")
      case True
      then show ?thesis using removes_nothing by (simp add: split_beta)
    next
      case False
      from removes_gets[OF removes_gets[OF boxes_removes[OF assms]]] False show ?thesis by (simp add: split_beta)
    qed
    from removes_gets[where h = "heldMailboxIds (rp_org_id p)" and D = ?D, OF this] show ?thesis
      by (rule removes_cong) (force simp: org_doomed_def)
  qed
  with False show ?thesis by (simp add: pruneOrg_def)
qed

lemma runDuePruning_removes:
  assumes "ok \<Longrightarrow> \<forall>a f. \<not> re_fails env a f" "re_configured env"
  shows "removes ok (doomed env) (runDuePruning env)"
proof -
  have "removes ok (\<lambda>s a f d. \<exists>p \<in> set ps. org_doomed env p s a f d) (forM ps (\<lambda>p. catchM (pruneOrg env p) (\<lambda>_. returnM ())))" for ps
    by (rule removes_forM[OF removes_catch[OF pruneOrg_removes[OF assms]] stable_org_doomed])
  from removes_gets[where h = due_policies and D = "\<lambda>ps s a f d. \<exists>p \<in> set ps. org_doomed env p s a f d", OF this]
  have "removes ok (doomed env) (bindM (getsM due_policies) (\<lambda>ps. forM ps (\<lambda>p. catchM (pruneOrg env p) (\<lambda>_. returnM ()))))"
    by (rule removes_cong) (simp add: doomed_def)
  with assms(2) show ?thesis by (simp add: runDuePruning_def)
qed

subsection \<open>Holds\<close>

lemma heldMailboxIds_iff:
  "fst (heldMailboxIds org s) \<longleftrightarrow> (\<exists>h \<in> set (legal_holds s). lh_org_id h = org \<and> lh_released_at h = None \<and> lh_mailbox_id h = None)"
  "m \<in> snd (heldMailboxIds org s) \<longleftrightarrow> (\<exists>h \<in> set (legal_holds s). lh_org_id h = org \<and> lh_released_at h = None \<and> lh_mailbox_id h = Some m)"
proof -
  let ?f = "\<lambda>r (orgWide, ids). case r of None \<Rightarrow> (True, ids) | Some m \<Rightarrow> (orgWide, insert m ids)"
  have "fold ?f rs (b, ids) = (b \<or> None \<in> set rs, ids \<union> {m. Some m \<in> set rs})" for rs b and ids :: "uuid set"
    by (induction rs arbitrary: b ids) (auto split: option.splits)
  then have "heldMailboxIds org s = (None \<in> set (map lh_mailbox_id (filter (\<lambda>h. lh_org_id h = org \<and> lh_released_at h = None) (legal_holds s))),
      {m. Some m \<in> set (map lh_mailbox_id (filter (\<lambda>h. lh_org_id h = org \<and> lh_released_at h = None) (legal_holds s)))})"
    by (simp add: heldMailboxIds_def)
  then show "fst (heldMailboxIds org s) \<longleftrightarrow> (\<exists>h \<in> set (legal_holds s). lh_org_id h = org \<and> lh_released_at h = None \<and> lh_mailbox_id h = None)"
    "m \<in> snd (heldMailboxIds org s) \<longleftrightarrow> (\<exists>h \<in> set (legal_holds s). lh_org_id h = org \<and> lh_released_at h = None \<and> lh_mailbox_id h = Some m)"
    by (auto simp: image_iff eq_commute[of None] eq_commute[of "Some _"])
qed

definition on_hold :: "'z ret_scheme \<Rightarrow> uuid \<Rightarrow> uuid \<Rightarrow> bool" where
  "on_hold s org m \<longleftrightarrow> (\<exists>h \<in> set (legal_holds s). lh_org_id h = org \<and> lh_released_at h = None \<and>
     (lh_mailbox_id h = None \<or> lh_mailbox_id h = Some m))"

lemma doomed_iff:
  "doomed env s a f d \<longleftrightarrow> (\<exists>p m dm n. p \<in> set (retention_policies s) \<and> rp_enabled p \<and> rp_delete_after_days p = Some n \<and> 0 < n \<and>
     f \<in> set (rp_folders p) \<and> m \<in> set (mailboxes s) \<and> dm \<in> set (domains s) \<and> d_id dm = mb_domain_id m \<and> d_org_id dm = rp_org_id p \<and>
     mb_status m = ''active'' \<and> a = mb_local_part m @ ''@'' @ d_name dm \<and> \<not> on_hold s (rp_org_id p) (mb_id m) \<and>
     re_before env (now s - n * 86400000) d)"
  (is "_ \<longleftrightarrow> (\<exists>p m dm n. ?R p m dm n)")
proof
  have hold: "on_hold s org m \<longleftrightarrow> fst (heldMailboxIds org s) \<or> m \<in> snd (heldMailboxIds org s)" for org m
    by (auto simp: on_hold_def heldMailboxIds_iff)
  {
    assume "doomed env s a f d"
    then obtain p i where p: "p \<in> set (due_policies s)" "f \<in> set (rp_folders p)" "(i, a) \<in> set (org_boxes (rp_org_id p) s)"
      "\<not> on_hold s (rp_org_id p) i" "re_before env (now s - the (rp_delete_after_days p) * 86400000) d"
      unfolding doomed_def org_doomed_def hold by blast
    from p(1) obtain n where "p \<in> set (retention_policies s)" "rp_enabled p" "rp_delete_after_days p = Some n" "0 < n"
      by (auto simp: due_policies_def split: option.splits)
    moreover from p(3) obtain m dm where "m \<in> set (mailboxes s)" "dm \<in> set (domains s)" "d_id dm = mb_domain_id m"
      "d_org_id dm = rp_org_id p" "mb_status m = ''active''" "a = mb_local_part m @ ''@'' @ d_name dm" "i = mb_id m"
      by (auto simp: org_boxes_def)
    ultimately have "?R p m dm n" using p by simp
    then show "\<exists>p m dm n. ?R p m dm n" by blast
  }
  assume "\<exists>p m dm n. ?R p m dm n"
  then obtain p m dm n where r: "?R p m dm n" by blast
  then have "p \<in> set (due_policies s)" by (simp add: due_policies_def)
  moreover from r have "(mb_id m, a) \<in> set (org_boxes (rp_org_id p) s)" by (auto simp: org_boxes_def)
  ultimately show "doomed env s a f d"
    using r unfolding doomed_def org_doomed_def hold by (intro bexI[of _ p]) auto
qed

section \<open>Properties\<close>

text \<open>
  C11: retention removes expired mail and nothing else. A run of the worker always returns and
  changes only the mail store. Every message it removes is in a folder of an enabled policy
  with a positive age limit, in an active mailbox of the policy's organization that is under no
  active hold (neither its own nor one on the whole organization), and is reported by the
  server as older than the limit. When the master user is configured and no command fails,
  all of these messages are gone from every mailbox that can be reached.
\<close>

theorem pruning_removes_exactly_the_expired:
  "(\<exists>E. runDuePruning env s = (Inr (), erase E s) \<and> (\<forall>a f d. E a f d \<longrightarrow> doomed env s a f d)) \<and>
   (re_configured env \<and> (\<forall>a f. \<not> re_fails env a f) \<longrightarrow> runDuePruning env s = (Inr (), erase (doomed env s) s))"
proof (cases "re_configured env")
  case False
  then have "runDuePruning env s = (Inr (), erase (\<lambda>a f d. False) s)" by (simp add: runDuePruning_def returnM_def)
  with False show ?thesis by blast
next
  case True
  have "removes (\<forall>a f. \<not> re_fails env a f) (doomed env) (runDuePruning env)"
    by (rule runDuePruning_removes) (use True in auto)
  then obtain E where "runDuePruning env s = (Inr (), erase E s)" "\<forall>a f d. E a f d \<longrightarrow> doomed env s a f d"
    "(\<forall>a f. \<not> re_fails env a f) \<longrightarrow> erase E s = erase (doomed env s) s" unfolding removes_def by blast
  then show ?thesis by auto
qed

text \<open>
  mail under a legal hold survives. Whatever the policies are and whatever fails, a run of
  the worker leaves the mailbox untouched when there is an active hold on it or on its
  organization, given that no other mailbox has its address (the tables make local part and
  domain unique).
\<close>

theorem held_mail_is_never_pruned:
  assumes "m \<in> set (mailboxes s)" "dm \<in> set (domains s)" "d_id dm = mb_domain_id m"
    and "on_hold s (d_org_id dm) (mb_id m)"
    and "\<forall>m' \<in> set (mailboxes s). \<forall>dm' \<in> set (domains s). d_id dm' = mb_domain_id m' \<longrightarrow>
       mb_local_part m' @ ''@'' @ d_name dm' = mb_local_part m @ ''@'' @ d_name dm \<longrightarrow> m' = m \<and> dm' = dm"
  shows "imap_store (snd (runDuePruning env s)) (mb_local_part m @ ''@'' @ d_name dm) = imap_store s (mb_local_part m @ ''@'' @ d_name dm)"
proof -
  let ?a = "mb_local_part m @ ''@'' @ d_name dm"
  obtain E where E: "runDuePruning env s = (Inr (), erase E s)" "\<forall>a f d. E a f d \<longrightarrow> doomed env s a f d"
  proof (cases "re_configured env")
    case True
    have "removes False (doomed env) (runDuePruning env)" by (rule runDuePruning_removes) (use True in auto)
    then show ?thesis using that unfolding removes_def by blast
  next
    case False
    then show ?thesis by (intro that[of "\<lambda>a f d. False"]) (simp_all add: runDuePruning_def returnM_def)
  qed
  have "\<not> doomed env s ?a f d" for f d
  proof
    assume "doomed env s ?a f d"
    then obtain p m' dm' where "p \<in> set (retention_policies s)" "m' \<in> set (mailboxes s)" "dm' \<in> set (domains s)" "d_id dm' = mb_domain_id m'" "d_org_id dm' = rp_org_id p"
      "?a = mb_local_part m' @ ''@'' @ d_name dm'" "\<not> on_hold s (rp_org_id p) (mb_id m')"
      unfolding doomed_iff by (elim exE conjE) (rule that; assumption)
    with assms(4,5) show False by metis
  qed
  with E(2) have "E ?a f = (\<lambda>d. False)" for f by (intro ext) blast
  with E(1) show ?thesis by (simp add: option.map_id)
qed

text \<open>
  the first change of a retention policy is lost. When an organization has no policy row
  yet, \<open>updatePolicy\<close> returns successfully with the column defaults, disabled and without an
  age limit, whatever the request asked for.
\<close>

theorem first_policy_update_is_lost:
  assumes "updatePolicy env meta p orgId req ip s = (Inr d, t)" "orgId \<notin> rp_org_id ` set (retention_policies s)"
  shows "d = \<lparr>pd_org_id = orgId, pd_enabled = False, pd_delete_after_days = None, pd_folders = [''Trash'', ''Junk''],
      pd_master_configured = re_configured env, pd_updated_at = now s\<rparr> \<and>
    retention_policies t = retention_policies s @ [default_policy orgId (Some (p_user_id p)) (now s)]"
proof -
  have "find (\<lambda>r. rp_org_id r = orgId) (retention_policies s) = None"
    using assms(2) by (auto simp: find_None_iff_all)
  with assms(1) show ?thesis
    by (auto simp: updatePolicy_def svc_iffs requireRole_Inr upsert_policy_def toPolicy_def default_policy_def audit_insert_def)
qed

definition ret_demo :: ret where
  "ret_demo = \<lparr>now = 900000000, next_id = 40, organizations = [], users = [alice],
     org_members = [\<lparr>m_org_id = 20, m_user_id = 11, m_role = Owner, m_created_at = 0\<rparr>], sessions = [], api_keys = [],
     domains = [plain_domain 26 20 ''acme.io'' None],
     mailboxes = [\<lparr>mb_id = 30, mb_domain_id = 26, mb_local_part = ''ann'', mb_name = ''ann'', mb_password_hash = ''pw2'', mb_quota_mb = 100,
       mb_quota_used_bytes = 0, mb_status = ''active'', mb_imap_enabled = True, mb_pop3_enabled = True, mb_smtp_enabled = True,
       mb_sieve_enabled = True, mb_autoresponder = None, mb_forward_to = [], mb_forward_keep_copy = True, mb_created_at = 0,
       mb_updated_at = 0\<rparr>],
     aliases = [], mail_groups = [], mail_group_members = [], invites = [], webhook_endpoints = [], webhook_deliveries = [], audit_logs = [],
     retention_policies = [\<lparr>rp_org_id = 20, rp_enabled = True, rp_delete_after_days = Some 5, rp_folders = [''Trash''],
       rp_updated_by = None, rp_updated_at = 0\<rparr>], legal_holds = [],
     imap_store = (\<lambda>a. if a = ''ann@acme.io'' then Some [(''Trash'', [7 \<mapsto> 100, 8 \<mapsto> 899999999])] else None)\<rparr>"

definition ret_demo_env :: ret_env where
  "ret_demo_env = \<lparr>re_configured = True, re_before = (\<lambda>c d. d < c), re_fails = (\<lambda>_ _. False)\<rparr>"

theorem pruning_removes_exactly_the_expired_witness:
  "imap_store (snd (runDuePruning ret_demo_env ret_demo)) ''ann@acme.io'' = Some [(''Trash'', [8 \<mapsto> 899999999])]"
proof -
  have "runDuePruning ret_demo_env ret_demo = (Inr (), erase (doomed ret_demo_env ret_demo) ret_demo)"
    using pruning_removes_exactly_the_expired[of ret_demo_env ret_demo] by (simp add: ret_demo_env_def)
  moreover have "doomed ret_demo_env ret_demo ''ann@acme.io'' ''Trash'' = (\<lambda>d. d < 468000000)"
    by (rule ext) (simp add: doomed_iff on_hold_def ret_demo_def ret_demo_env_def)
  ultimately show ?thesis by (auto simp: ret_demo_def erase_folder_def fun_eq_iff)
qed

theorem held_mail_is_never_pruned_witness:
  "imap_store (snd (runDuePruning ret_demo_env (ret_demo\<lparr>legal_holds := [\<lparr>lh_id = 1, lh_org_id = 20, lh_mailbox_id = Some 30,
      lh_reason = [], lh_created_by = None, lh_created_at = 0, lh_released_at = None, lh_released_by = None\<rparr>]\<rparr>))) ''ann@acme.io'' =
    Some [(''Trash'', [7 \<mapsto> 100, 8 \<mapsto> 899999999])]"
  using held_mail_is_never_pruned[of "hd (mailboxes ret_demo)" "ret_demo\<lparr>legal_holds := [\<lparr>lh_id = 1, lh_org_id = 20, lh_mailbox_id = Some 30,
      lh_reason = [], lh_created_by = None, lh_created_at = 0, lh_released_at = None, lh_released_by = None\<rparr>]\<rparr>" "hd (domains ret_demo)" ret_demo_env]
  by (simp add: on_hold_def ret_demo_def)

theorem first_policy_update_is_lost_witness:
  "\<exists>d t. updatePolicy ret_demo_env (\<lambda>_. []) (as_user 11) 20 \<lparr>ur_enabled = Some True, ur_delete_after_days = Some (Some 30), ur_folders = None\<rparr>
     None (ret_demo\<lparr>retention_policies := []\<rparr>) = (Inr d, t) \<and> \<not> pd_enabled d"
proof -
  have "\<exists>d t. updatePolicy ret_demo_env (\<lambda>_. []) (as_user 11) 20 \<lparr>ur_enabled = Some True, ur_delete_after_days = Some (Some 30), ur_folders = None\<rparr>
     None (ret_demo\<lparr>retention_policies := []\<rparr>) = (Inr d, t)"
    by (simp add: updatePolicy_def requireRole_def memberRole_def fk_user_def upsert_policy_def svc_simps audit_log_run ret_demo_def
        as_user_def alice_def)
  then obtain d t where u: "updatePolicy ret_demo_env (\<lambda>_. []) (as_user 11) 20 \<lparr>ur_enabled = Some True, ur_delete_after_days = Some (Some 30),
     ur_folders = None\<rparr> None (ret_demo\<lparr>retention_policies := []\<rparr>) = (Inr d, t)" by blast
  from first_policy_update_is_lost[OF u] u show ?thesis by auto
qed

end
