(* ===== verification/JM_Sieve.thy ===== *)
theory JM_Sieve
  imports JM_Prelude
begin

text \<open>
  The filter compiler (\<open>apps/api/src/webmail/sieve-compile.ts\<close>) and, as the reference it is
  checked against, a lexer for the Sieve language (RFC 5228): white space, hash comments,
  quoted strings with backslash escapes, words and punctuation.

  The em dash in the header comment of the script is written as its three UTF-8 bytes.
\<close>

section \<open>Rules\<close>

datatype sieve_field = FFrom | FTo | FCc | FSubject | FAny
datatype sieve_op = OContains | OIs | OMatches
datatype sieve_action_type = AFileinto | AKeep | ADiscard | ASeen | AFlag | ARedirect | AStop
datatype sieve_match = MatchAll | MatchAny

record sieve_condition =
  sc_field :: sieve_field
  sc_op :: sieve_op
  sc_value :: string

record sieve_action =
  sa_type :: sieve_action_type
  sa_arg :: "string option"

record compilable_rule =
  cr_name :: string
  cr_match :: sieve_match
  cr_conditions :: "sieve_condition list"
  cr_actions :: "sieve_action list"

fun field_name :: "sieve_field \<Rightarrow> string" where
  "field_name FFrom = ''from''"
| "field_name FTo = ''to''"
| "field_name FCc = ''cc''"
| "field_name FSubject = ''subject''"
| "field_name FAny = ''any''"

section \<open>The compiler\<close>

abbreviation newline :: char where "newline \<equiv> CHR 0x0A"

definition ANY_HEADERS :: "string list" where
  "ANY_HEADERS = [''from'', ''to'', ''cc'', ''subject'']"

fun OP_TEST :: "sieve_op \<Rightarrow> string" where
  "OP_TEST OContains = '':contains''"
| "OP_TEST OIs = '':is''"
| "OP_TEST OMatches = '':matches''"

definition quote :: "string \<Rightarrow> string" where
  "quote v = [CHR 0x22] @
     replace_chars (\<lambda>c. if c = CHR 0x22 then [CHR 0x5C, CHR 0x22] else [c])
       (replace_chars (\<lambda>c. if c = CHR 0x5C then [CHR 0x5C, CHR 0x5C] else [c]) v) @ [CHR 0x22]"

definition headerList :: "sieve_field \<Rightarrow> string" where
  "headerList field =
     (let headers = (if field = FAny then ANY_HEADERS else [field_name field])
      in ''['' @ join '', '' (map quote headers) @ '']'')"

definition compileCondition :: "sieve_condition \<Rightarrow> string" where
  "compileCondition cond =
     ''header '' @ OP_TEST (sc_op cond) @ '' '' @ headerList (sc_field cond) @ '' '' @ quote (sc_value cond)"

definition actionRequires :: "sieve_action \<Rightarrow> string list" where
  "actionRequires a =
     (case sa_type a of
        AFileinto \<Rightarrow> [''fileinto'', ''mailbox'']
      | ASeen \<Rightarrow> [''imap4flags'']
      | AFlag \<Rightarrow> [''imap4flags'']
      | _ \<Rightarrow> [])"

definition compileAction :: "sieve_action \<Rightarrow> string" where
  "compileAction a =
     (let arg = (case sa_arg a of None \<Rightarrow> [] | Some x \<Rightarrow> x) in
      case sa_type a of
        AFileinto \<Rightarrow> ''fileinto :create '' @ quote arg @ '';''
      | AKeep \<Rightarrow> ''keep;''
      | ADiscard \<Rightarrow> ''discard;''
      | ASeen \<Rightarrow> ''addflag '' @ [CHR 0x22, CHR 0x5C, CHR 0x5C] @ ''Seen'' @ [CHR 0x22] @ '';''
      | AFlag \<Rightarrow> ''addflag '' @ quote arg @ '';''
      | ARedirect \<Rightarrow> ''redirect '' @ quote arg @ '';''
      | AStop \<Rightarrow> ''stop;'')"

definition indent :: "string list \<Rightarrow> string" where
  "indent lines = join [newline] (map (\<lambda>l. ''  '' @ l) lines)"

definition compileRule :: "compilable_rule \<Rightarrow> string" where
  "compileRule rule =
     (let body = indent (map compileAction (cr_actions rule));
          header = ''# '' @ cr_name rule in
      if cr_conditions rule = [] then header @ [newline] @ body
      else
        let tests = map compileCondition (cr_conditions rule);
            test = (if length tests = 1 then tests ! 0
                    else (if cr_match rule = MatchAny then ''anyof'' else ''allof'') @ '' ('' @ join '', '' tests @ '')'')
        in header @ [newline] @ ''if '' @ test @ '' {'' @ [newline] @ body @ [newline] @ ''}'')"

definition collectRequires :: "compilable_rule list \<Rightarrow> string list" where
  "collectRequires rules =
     (let present = concat (map (\<lambda>r. concat (map actionRequires (cr_actions r))) rules)
      in filter (\<lambda>r. r \<in> set present) [''fileinto'', ''mailbox'', ''imap4flags''])"

definition SCRIPT_HEADER :: string where
  "SCRIPT_HEADER = ''# Generated by JustMail '' @ [CHR 0xE2, CHR 0x80, CHR 0x94] @
     '' do not edit; managed via the Filters UI.''"

definition compileScript :: "compilable_rule list \<Rightarrow> string" where
  "compileScript rules =
     (let requires = collectRequires rules;
          parts = [SCRIPT_HEADER] @
            (if requires \<noteq> [] then [''require ['' @ join '', '' (map quote requires) @ ''];''] else []) @
            map compileRule rules
      in join [newline, newline] parts @ [newline])"

section \<open>The lexer of the reference\<close>

datatype tok = Word string | Str string | Punct char

datatype mode = Code | Comment | Quoted string | Escaped string | InWord string

definition word_char :: "char \<Rightarrow> bool" where
  "word_char c = (let n = of_char c :: nat in 97 \<le> n \<and> n \<le> 122 \<or> 65 \<le> n \<and> n \<le> 90 \<or> 48 \<le> n \<and> n \<le> 58 \<or> n = 95)"

definition punct_char :: "char \<Rightarrow> bool" where
  "punct_char c \<longleftrightarrow> c \<in> set '';,(){}[]''"

definition sieve_space :: "char \<Rightarrow> bool" where
  "sieve_space c \<longleftrightarrow> c = CHR '' '' \<or> c = CHR 0x09 \<or> c = CHR 0x0D \<or> c = newline"

function lexer :: "mode \<Rightarrow> string \<Rightarrow> tok list option" where
  "lexer Code [] = Some []"
| "lexer Code (c # cs) =
     (if sieve_space c then lexer Code cs
      else if c = CHR ''#'' then lexer Comment cs
      else if c = CHR 0x22 then lexer (Quoted []) cs
      else if punct_char c then map_option (Cons (Punct c)) (lexer Code cs)
      else if word_char c then lexer (InWord [c]) cs
      else None)"
| "lexer Comment [] = Some []"
| "lexer Comment (c # cs) = (if c = newline then lexer Code cs else lexer Comment cs)"
| "lexer (Quoted acc) [] = None"
| "lexer (Quoted acc) (c # cs) =
     (if c = CHR 0x22 then map_option (Cons (Str (rev acc))) (lexer Code cs)
      else if c = CHR 0x5C then lexer (Escaped acc) cs
      else lexer (Quoted (c # acc)) cs)"
| "lexer (Escaped acc) [] = None"
| "lexer (Escaped acc) (c # cs) = lexer (Quoted (c # acc)) cs"
| "lexer (InWord acc) [] = Some [Word (rev acc)]"
| "lexer (InWord acc) (c # cs) =
     (if word_char c then lexer (InWord (c # acc)) cs
      else map_option (Cons (Word (rev acc))) (lexer Code (c # cs)))"
  by pat_completeness auto
termination by (relation "measure (\<lambda>(m, s). 2 * length s + (case m of InWord _ \<Rightarrow> 1 | _ \<Rightarrow> 0))") auto

section \<open>Lexing the compiled text\<close>

text \<open>\<open>s\<close> is read as the tokens \<open>ts\<close>, whatever follows.\<close>

definition lexes :: "string \<Rightarrow> tok list \<Rightarrow> bool" where
  "lexes s ts \<longleftrightarrow> (\<forall>r. lexer Code (s @ r) = (case lexer Code r of None \<Rightarrow> None | Some x \<Rightarrow> Some (ts @ x)))"

lemma lexes_Nil: "lexes [] []"
  by (simp add: lexes_def split: option.split)

lemma lexes_append: "lexes s ts \<Longrightarrow> lexes s' ts' \<Longrightarrow> lexes (s @ s') (ts @ ts')"
  by (simp add: lexes_def split: option.split)

lemma lexes_space: "sieve_space c \<Longrightarrow> lexes [c] []"
  by (simp add: lexes_def split: option.split)

lemma lexes_punct:
  assumes "punct_char c"
  shows "lexes [c] [Punct c]"
proof -
  from assms have "\<not> sieve_space c" "c \<noteq> CHR ''#''" "c \<noteq> CHR 0x22"
    by (auto simp: punct_char_def sieve_space_def)
  with assms show ?thesis by (simp add: lexes_def split: option.split)
qed

lemma lex_inword: "list_all word_char w \<Longrightarrow> lexer (InWord acc) (w @ r) = lexer (InWord (rev w @ acc)) r"
  by (induction w arbitrary: acc) auto

lemma word_char_only: "word_char x \<Longrightarrow> \<not> sieve_space x \<and> x \<noteq> CHR ''#'' \<and> x \<noteq> CHR 0x22 \<and> \<not> punct_char x"
  by (auto simp: word_char_def sieve_space_def punct_char_def)

lemma lexes_word:
  assumes "list_all word_char w" "w \<noteq> []" "\<not> word_char c" "lexes [c] ts"
  shows "lexes (w @ [c]) (Word w # ts)"
proof -
  obtain x xs where w: "w = x # xs" using assms(2) by (cases w) auto
  then have x: "word_char x" using assms(1) by simp
  have "lexer Code (w @ c # r) = map_option (Cons (Word w)) (lexer Code ([c] @ r))" for r
    using x word_char_only[OF x] assms(1,3) w lex_inword[of xs "[x]" "c # r"] by simp
  with assms(4) show ?thesis by (simp add: lexes_def split: option.split)
qed

definition escape :: "string \<Rightarrow> string" where
  "escape v = concat (map (\<lambda>c. if c = CHR 0x22 \<or> c = CHR 0x5C then [CHR 0x5C, c] else [c]) v)"

lemma quote_escape: "quote v = [CHR 0x22] @ escape v @ [CHR 0x22]"
  by (induction v) (auto simp: quote_def escape_def replace_chars_def)

lemma lex_quoted: "lexer (Quoted acc) (escape v @ r) = lexer (Quoted (rev v @ acc)) r"
  by (induction v arbitrary: acc) (auto simp: escape_def)

lemma lexes_quote: "lexes (quote v) [Str v]"
  unfolding lexes_def quote_escape by (simp add: lex_quoted sieve_space_def split: option.split)

lemma lex_comment: "newline \<notin> set s \<Longrightarrow> lexer Comment (s @ newline # r) = lexer Code r"
  by (induction s) auto

lemma lexes_comment: "newline \<notin> set s \<Longrightarrow> lexes (''#'' @ s @ [newline]) []"
  by (simp add: lexes_def lex_comment sieve_space_def split: option.split)

section \<open>Commands and their parser\<close>

datatype sact = SFileinto string | SKeep | SDiscard | SAddflag string | SRedirect string | SStop

datatype stest = SHeader string "string list" string

datatype cmd = SRequire "string list" | SDo sact | SIf bool "stest list" "sact list" \<comment> \<open>any of the tests, or all\<close>

fun parse_strings :: "tok list \<Rightarrow> (string list \<times> tok list) option" where
  "parse_strings (Str s # Punct c # r) =
     (if c = CHR '']'' then Some ([s], r)
      else if c = CHR '','' then map_option (\<lambda>(xs, r). (s # xs, r)) (parse_strings r)
      else None)"
| "parse_strings _ = None"

fun parse_test :: "tok list \<Rightarrow> (stest \<times> tok list) option" where
  "parse_test (Word h # Word m # Punct b # r) =
     (if h = ''header'' \<and> b = CHR ''['' then
        (case parse_strings r of Some (hs, Str v # r') \<Rightarrow> Some (SHeader m hs v, r') | _ \<Rightarrow> None)
      else None)"
| "parse_test _ = None"

fun parse_act :: "tok list \<Rightarrow> (sact \<times> tok list) option" where
  "parse_act (Word w # Punct c # r) =
     (if c \<noteq> CHR '';'' then None
      else if w = ''keep'' then Some (SKeep, r) else if w = ''discard'' then Some (SDiscard, r)
      else if w = ''stop'' then Some (SStop, r) else None)"
| "parse_act (Word w # Str s # Punct c # r) =
     (if c \<noteq> CHR '';'' then None
      else if w = ''addflag'' then Some (SAddflag s, r) else if w = ''redirect'' then Some (SRedirect s, r) else None)"
| "parse_act (Word w # Word k # Str s # Punct c # r) =
     (if w = ''fileinto'' \<and> k = '':create'' \<and> c = CHR '';'' then Some (SFileinto s, r) else None)"
| "parse_act _ = None"

lemma parse_strings_shorter: "parse_strings ts = Some (xs, r) \<Longrightarrow> length r < length ts"
  by (induction ts arbitrary: xs r rule: parse_strings.induct) (fastforce split: if_splits)+

lemma parse_test_shorter: "parse_test ts = Some (x, r) \<Longrightarrow> length r < length ts"
  by (induction ts rule: parse_test.induct) (auto split: if_splits option.splits list.splits tok.splits dest!: parse_strings_shorter)

lemma parse_act_shorter: "parse_act ts = Some (x, r) \<Longrightarrow> length r < length ts"
  by (induction ts rule: parse_act.induct) (auto split: if_splits)

text \<open>Tests up to the closing parenthesis, actions up to the closing brace, commands to the end.\<close>

function parse_tests :: "tok list \<Rightarrow> (stest list \<times> tok list) option" where
  "parse_tests ts =
     (case parse_test ts of
        Some (x, Punct c # r) \<Rightarrow>
          if c = CHR '')'' then Some ([x], r)
          else if c = CHR '','' then map_option (\<lambda>(xs, r). (x # xs, r)) (parse_tests r)
          else None
      | _ \<Rightarrow> None)"
  by pat_completeness auto
termination by (relation "measure length") (auto dest: parse_test_shorter)

function parse_acts :: "tok list \<Rightarrow> (sact list \<times> tok list) option" where
  "parse_acts ts =
     (case ts of
        Punct c # r \<Rightarrow> if c = CHR ''}'' then Some ([], r) else None
      | _ \<Rightarrow> (case parse_act ts of
               Some (a, r) \<Rightarrow> map_option (\<lambda>(xs, r). (a # xs, r)) (parse_acts r)
             | None \<Rightarrow> None))"
  by pat_completeness auto
termination by (relation "measure length") (auto dest: parse_act_shorter)

definition parse_if :: "tok list \<Rightarrow> (cmd \<times> tok list) option" where
  "parse_if ts =
     (case (case ts of
              Word w # Punct c # r \<Rightarrow>
                if w \<in> {''anyof'', ''allof''} \<and> c = CHR ''('' then map_option (\<lambda>(xs, r). (w = ''anyof'', xs, r)) (parse_tests r) else None
            | _ \<Rightarrow> map_option (\<lambda>(x, r). (False, [x], r)) (parse_test ts)) of
        Some (anyof, xs, Punct b # r) \<Rightarrow>
          if b = CHR ''{'' then map_option (\<lambda>(as, r). (SIf anyof xs as, r)) (parse_acts r) else None
      | _ \<Rightarrow> None)"

definition parse_cmd :: "tok list \<Rightarrow> (cmd \<times> tok list) option" where
  "parse_cmd ts =
     (case ts of
        Word w # r \<Rightarrow>
          if w = ''if'' then parse_if r
          else if w = ''require'' then
            (case r of Punct b # r' \<Rightarrow>
               if b \<noteq> CHR ''['' then None
               else (case parse_strings r' of
                       Some (xs, Punct e # r'') \<Rightarrow> if e = CHR '';'' then Some (SRequire xs, r'') else None
                     | _ \<Rightarrow> None)
             | _ \<Rightarrow> None)
          else map_option (\<lambda>(a, r). (SDo a, r)) (parse_act ts)
      | _ \<Rightarrow> None)"

text \<open>Each command takes at least one token, so the number of tokens is fuel enough.\<close>

fun parse_cmds :: "nat \<Rightarrow> tok list \<Rightarrow> cmd list option" where
  "parse_cmds n [] = Some []"
| "parse_cmds 0 ts = None"
| "parse_cmds (Suc n) ts =
     (case parse_cmd ts of Some (c, r) \<Rightarrow> map_option (Cons c) (parse_cmds n r) | None \<Rightarrow> None)"

definition parse_script :: "string \<Rightarrow> cmd list option" where
  "parse_script s = Option.bind (lexer Code s) (\<lambda>ts. parse_cmds (length ts) ts)"

section \<open>Running a script\<close>

text \<open>
  \<open>hdr m hs v\<close> says whether a header test holds on the message at hand. Running gives the
  actions taken, up to the first \<open>stop\<close>, and whether one was reached.
\<close>

fun test_holds :: "(string \<Rightarrow> string list \<Rightarrow> string \<Rightarrow> bool) \<Rightarrow> stest \<Rightarrow> bool" where
  "test_holds hdr (SHeader m hs v) = hdr m hs v"

fun do_acts :: "sact list \<Rightarrow> sact list \<times> bool" where
  "do_acts [] = ([], False)"
| "do_acts (a # as) = (if a = SStop then ([], True) else (case do_acts as of (xs, b) \<Rightarrow> (a # xs, b)))"

fun exec :: "(string \<Rightarrow> string list \<Rightarrow> string \<Rightarrow> bool) \<Rightarrow> cmd list \<Rightarrow> sact list" where
  "exec hdr [] = []"
| "exec hdr (SRequire xs # cs) = exec hdr cs"
| "exec hdr (SDo a # cs) = (if a = SStop then [] else a # exec hdr cs)"
| "exec hdr (SIf anyof ts as # cs) =
     (if (if anyof then list_ex (test_holds hdr) ts else list_all (test_holds hdr) ts)
      then (case do_acts as of (xs, b) \<Rightarrow> xs @ (if b then [] else exec hdr cs))
      else exec hdr cs)"

fun needs :: "sact \<Rightarrow> string set" where
  "needs (SFileinto s) = {''fileinto'', ''mailbox''}"
| "needs (SAddflag s) = {''imap4flags''}"
| "needs _ = {}"

fun cmd_needs :: "cmd \<Rightarrow> string set" where
  "cmd_needs (SRequire xs) = {}"
| "cmd_needs (SDo a) = needs a"
| "cmd_needs (SIf b ts as) = \<Union> (needs ` set as)"

fun cmd_declares :: "cmd \<Rightarrow> string set" where
  "cmd_declares (SRequire xs) = set xs"
| "cmd_declares _ = {}"

section \<open>What the rules mean\<close>

definition rule_act :: "sieve_action \<Rightarrow> sact" where
  "rule_act a =
     (let arg = (case sa_arg a of None \<Rightarrow> [] | Some x \<Rightarrow> x) in
      case sa_type a of AFileinto \<Rightarrow> SFileinto arg | AKeep \<Rightarrow> SKeep | ADiscard \<Rightarrow> SDiscard
      | ASeen \<Rightarrow> SAddflag (CHR 0x5C # ''Seen'') | AFlag \<Rightarrow> SAddflag arg | ARedirect \<Rightarrow> SRedirect arg | AStop \<Rightarrow> SStop)"

definition cond_headers :: "sieve_condition \<Rightarrow> string list" where
  "cond_headers c = (if sc_field c = FAny then ANY_HEADERS else [field_name (sc_field c)])"

definition cond_holds :: "(string \<Rightarrow> string list \<Rightarrow> string \<Rightarrow> bool) \<Rightarrow> sieve_condition \<Rightarrow> bool" where
  "cond_holds hdr c = hdr (OP_TEST (sc_op c)) (cond_headers c) (sc_value c)"

text \<open>A rule without conditions always fires; otherwise any or all of its conditions decide.\<close>

definition fires :: "(string \<Rightarrow> string list \<Rightarrow> string \<Rightarrow> bool) \<Rightarrow> compilable_rule \<Rightarrow> bool" where
  "fires hdr r \<longleftrightarrow> cr_conditions r = [] \<or>
     (if cr_match r = MatchAny then list_ex (cond_holds hdr) (cr_conditions r) else list_all (cond_holds hdr) (cr_conditions r))"

text \<open>The actions of the rules that fire, in order, up to the first \<open>stop\<close>.\<close>

definition filter_actions :: "(string \<Rightarrow> string list \<Rightarrow> string \<Rightarrow> bool) \<Rightarrow> compilable_rule list \<Rightarrow> sact list" where
  "filter_actions hdr rules =
     takeWhile (\<lambda>a. a \<noteq> SStop) (concat (map (\<lambda>r. if fires hdr r then map rule_act (cr_actions r) else []) rules))"

section \<open>The tokens of the compiled rules\<close>

fun sep :: "tok list list \<Rightarrow> tok list" where
  "sep [] = []"
| "sep [x] = x"
| "sep (x # y # xs) = x @ Punct (CHR '','') # sep (y # xs)"

fun act_tokens :: "sact \<Rightarrow> tok list" where
  "act_tokens (SFileinto s) = [Word ''fileinto'', Word '':create'', Str s, Punct (CHR '';'')]"
| "act_tokens SKeep = [Word ''keep'', Punct (CHR '';'')]"
| "act_tokens SDiscard = [Word ''discard'', Punct (CHR '';'')]"
| "act_tokens (SAddflag s) = [Word ''addflag'', Str s, Punct (CHR '';'')]"
| "act_tokens (SRedirect s) = [Word ''redirect'', Str s, Punct (CHR '';'')]"
| "act_tokens SStop = [Word ''stop'', Punct (CHR '';'')]"

definition cond_test :: "sieve_condition \<Rightarrow> stest" where
  "cond_test c = SHeader (OP_TEST (sc_op c)) (cond_headers c) (sc_value c)"

definition cond_tokens :: "sieve_condition \<Rightarrow> tok list" where
  "cond_tokens c = [Word ''header'', Word (OP_TEST (sc_op c)), Punct (CHR ''['')] @
     sep (map (\<lambda>x. [Str x]) (cond_headers c)) @ [Punct (CHR '']''), Str (sc_value c)]"

definition test_tokens :: "compilable_rule \<Rightarrow> tok list" where
  "test_tokens r =
     (if length (cr_conditions r) = 1 then cond_tokens (cr_conditions r ! 0)
      else [Word (if cr_match r = MatchAny then ''anyof'' else ''allof''), Punct (CHR ''('')] @
           sep (map cond_tokens (cr_conditions r)) @ [Punct (CHR '')'')])"

definition rule_tokens :: "compilable_rule \<Rightarrow> tok list" where
  "rule_tokens r =
     (let body = concat (map (\<lambda>a. act_tokens (rule_act a)) (cr_actions r)) in
      if cr_conditions r = [] then body
      else Word ''if'' # test_tokens r @ [Punct (CHR ''{'')] @ body @ [Punct (CHR ''}'')])"

definition require_tokens :: "string list \<Rightarrow> tok list" where
  "require_tokens xs = (if xs = [] then [] else [Word ''require'', Punct (CHR ''['')] @ sep (map (\<lambda>x. [Str x]) xs) @
     [Punct (CHR '']''), Punct (CHR '';'')])"

text \<open>Literal pieces of the templates, read by evaluation.\<close>

lemmas lex_eval = lexes_def word_char_def punct_char_def sieve_space_def

lemma lexes_literals:
  "lexes '', '' [Punct (CHR '','')]" "lexes ''['' [Punct (CHR ''['')]" "lexes '']'' [Punct (CHR '']'')]"
  "lexes '' '' []" "lexes ''  '' []" "lexes ''header '' [Word ''header'']" "lexes '';'' [Punct (CHR '';'')]"
  "lexes ''];'' [Punct (CHR '']''), Punct (CHR '';'')]" "lexes ''if '' [Word ''if'']" "lexes '' {'' [Punct (CHR ''{'')]"
  "lexes ''}'' [Punct (CHR ''}'')]" "lexes '')'' [Punct (CHR '')'')]" "lexes [newline] []" "lexes [newline, newline] []"
  "lexes ''require ['' [Word ''require'', Punct (CHR ''['')]" "lexes ''anyof ('' [Word ''anyof'', Punct (CHR ''('')]"
  "lexes ''allof ('' [Word ''allof'', Punct (CHR ''('')]" "lexes ''fileinto :create '' [Word ''fileinto'', Word '':create'']"
  "lexes ''addflag '' [Word ''addflag'']" "lexes ''redirect '' [Word ''redirect'']" "lexes ''keep;'' [Word ''keep'', Punct (CHR '';'')]"
  "lexes ''discard;'' [Word ''discard'', Punct (CHR '';'')]" "lexes ''stop;'' [Word ''stop'', Punct (CHR '';'')]"
  by (simp_all add: lex_eval split: option.split)

lemma lexes_op: "lexes (OP_TEST m @ '' '') [Word (OP_TEST m)]"
  by (cases m) (simp_all add: lex_eval split: option.split)

lemma lexes_sep:
  "(\<And>x. x \<in> set xs \<Longrightarrow> lexes (f x) (g x)) \<Longrightarrow> lexes (join '', '' (map f xs)) (sep (map g xs))"
proof (induction xs rule: induct_list012)
  case (3 x y xs)
  then have "lexes (f x @ '', '' @ join '', '' (map f (y # xs))) (g x @ [Punct (CHR '','')] @ sep (map g (y # xs)))"
    by (intro lexes_append lexes_literals) auto
  then show ?case by simp
qed (auto intro: lexes_Nil)

lemma lexes_lines:
  assumes "lexes s []"
  shows "(\<And>x. x \<in> set xs \<Longrightarrow> lexes (f x) (g x)) \<Longrightarrow> lexes (join s (map f xs)) (concat (map g xs))"
proof (induction xs rule: induct_list012)
  case (3 x y xs)
  then have "lexes (f x @ s @ join s (map f (y # xs))) (g x @ [] @ concat (map g (y # xs)))"
    using assms by (intro lexes_append) auto
  then show ?case by simp
qed (auto intro: lexes_Nil)

lemma lexes_strings: "lexes (join '', '' (map quote xs)) (sep (map (\<lambda>x. [Str x]) xs))"
  by (rule lexes_sep) (rule lexes_quote)

lemma lexes_condition: "lexes (compileCondition c) (cond_tokens c)"
proof -
  have "lexes (''header '' @ (OP_TEST (sc_op c) @ '' '') @ (''['' @ join '', '' (map quote (cond_headers c)) @ '']'') @ '' '' @ quote (sc_value c))
      ([Word ''header''] @ [Word (OP_TEST (sc_op c))] @
       ([Punct (CHR ''['')] @ sep (map (\<lambda>x. [Str x]) (cond_headers c)) @ [Punct (CHR '']'')]) @ [] @ [Str (sc_value c)])"
    by (intro lexes_append lexes_literals lexes_op lexes_strings lexes_quote)
  then show ?thesis
    by (simp add: compileCondition_def headerList_def cond_tokens_def cond_headers_def Let_def)
qed

lemma lexes_action: "lexes (compileAction a) (act_tokens (rule_act a))"
proof -
  have arg: "lexes (w @ quote v @ '';'') (ws @ [Str v] @ [Punct (CHR '';'')])" if "lexes w ws" for w v ws
    using that by (intro lexes_append lexes_literals lexes_quote)
  have seen: "quote (CHR 0x5C # ''Seen'') = [CHR 0x22, CHR 0x5C, CHR 0x5C] @ ''Seen'' @ [CHR 0x22]"
    by (simp add: quote_escape escape_def)
  show ?thesis
    using arg[OF lexes_literals(18)] arg[OF lexes_literals(19)] arg[OF lexes_literals(20)] seen
      arg[OF lexes_literals(19), of "CHR 0x5C # ''Seen''"] lexes_literals(21,22,23)
    by (cases "sa_type a") (simp_all add: compileAction_def rule_act_def Let_def)
qed

lemma lexes_body: "lexes (indent (map compileAction as)) (concat (map (\<lambda>a. act_tokens (rule_act a)) as))"
proof -
  have "lexes (''  '' @ compileAction a) ([] @ act_tokens (rule_act a))" for a
    by (intro lexes_append lexes_literals lexes_action)
  then show ?thesis
    unfolding indent_def map_map o_def by (intro lexes_lines lexes_literals) simp
qed

lemma lexes_rule:
  assumes "newline \<notin> set (cr_name r)"
  shows "lexes (compileRule r) (rule_tokens r)"
proof -
  let ?body = "concat (map (\<lambda>a. act_tokens (rule_act a)) (cr_actions r))"
  have head: "lexes ((''# '' @ cr_name r) @ [newline]) []"
    using lexes_comment[of "'' '' @ cr_name r"] assms by simp
  let ?tests = "map compileCondition (cr_conditions r)"
  let ?t = "if length ?tests = 1 then ?tests ! 0
      else (if cr_match r = MatchAny then ''anyof'' else ''allof'') @ '' ('' @ join '', '' ?tests @ '')''"
  have t: "lexes ?t (test_tokens r)" if "cr_conditions r \<noteq> []"
  proof -
    have "lexes (join '', '' ?tests) (sep (map cond_tokens (cr_conditions r)))"
      by (rule lexes_sep) (rule lexes_condition)
    then have "lexes (''anyof ('' @ join '', '' ?tests @ '')'') ([Word ''anyof'', Punct (CHR ''('')] @ sep (map cond_tokens (cr_conditions r)) @ [Punct (CHR '')'')])"
      "lexes (''allof ('' @ join '', '' ?tests @ '')'') ([Word ''allof'', Punct (CHR ''('')] @ sep (map cond_tokens (cr_conditions r)) @ [Punct (CHR '')'')])"
      by (intro lexes_append lexes_literals; assumption)+
    then show ?thesis
      using lexes_condition that by (auto simp: test_tokens_def)
  qed
  show ?thesis
  proof (cases "cr_conditions r = []")
    case True
    from lexes_append[OF head lexes_body[of "cr_actions r"]] show ?thesis
      by (simp add: compileRule_def rule_tokens_def True)
  next
    case False
    have "lexes (((''# '' @ cr_name r) @ [newline]) @ ''if '' @ ?t @ '' {'' @ [newline] @ indent (map compileAction (cr_actions r)) @ [newline] @ ''}'')
      ([] @ [Word ''if''] @ test_tokens r @ [Punct (CHR ''{'')] @ [] @ ?body @ [] @ [Punct (CHR ''}'')])"
      by (intro lexes_append lexes_literals head t lexes_body False)
    then show ?thesis using False by (simp add: compileRule_def rule_tokens_def Let_def)
  qed
qed

lemma lex_script:
  assumes "\<forall>r \<in> set rules. newline \<notin> set (cr_name r)"
  shows "lexer Code (compileScript rules) = Some (require_tokens (collectRequires rules) @ concat (map rule_tokens rules))"
proof -
  let ?rq = "collectRequires rules"
  define req where "req = (if ?rq \<noteq> [] then [(''require ['' @ join '', '' (map quote ?rq) @ ''];'', require_tokens ?rq)] else [])"
  define parts where "parts = req @ map (\<lambda>r. (compileRule r, rule_tokens r)) rules"
  have "lexes (''require ['' @ join '', '' (map quote ?rq) @ ''];'') ([Word ''require'', Punct (CHR ''['')] @ sep (map (\<lambda>x. [Str x]) ?rq) @ [Punct (CHR '']''), Punct (CHR '';'')])"
    by (intro lexes_append lexes_literals lexes_strings)
  then have p: "lexes (fst x) (snd x)" if "x \<in> set parts" for x
    using that assms lexes_rule by (auto simp: parts_def req_def require_tokens_def split: if_splits)
  have toks: "concat (map snd parts) = require_tokens ?rq @ concat (map rule_tokens rules)"
    by (simp add: parts_def req_def require_tokens_def o_def)
  have "lexes (join [newline, newline] (map fst parts)) (concat (map snd parts))"
    using p by (intro lexes_lines lexes_literals) auto
  from lexes_append[OF this lexes_literals(13)]
  have body: "lexes (join [newline, newline] (map fst parts) @ [newline]) (concat (map snd parts))" by simp
  have hd: "lexes (SCRIPT_HEADER @ [newline]) []"
    using lexes_comment[of "tl SCRIPT_HEADER"] by (simp add: SCRIPT_HEADER_def)
  have text_eq: "compileScript rules = (SCRIPT_HEADER @ [newline]) @
      (if parts = [] then [] else [newline] @ join [newline, newline] (map fst parts) @ [newline])"
  proof -
    have e: "[SCRIPT_HEADER] @ (if ?rq \<noteq> [] then [''require ['' @ join '', '' (map quote ?rq) @ ''];''] else []) @ map compileRule rules =
        SCRIPT_HEADER # map fst parts" by (simp add: parts_def req_def o_def)
    show ?thesis unfolding compileScript_def Let_def e by (cases parts) (auto simp: join_Cons)
  qed
  have "lexes (compileScript rules) (concat (map snd parts))"
    using lexes_append[OF hd lexes_append[OF lexes_literals(13) body]] hd unfolding text_eq by (cases "parts = []") simp_all
  then have "lexer Code (compileScript rules @ []) = (case lexer Code [] of None \<Rightarrow> None | Some x \<Rightarrow> Some (concat (map snd parts) @ x))"
    unfolding lexes_def by blast
  then show ?thesis using toks by simp
qed

section \<open>Parsing the tokens back\<close>

lemma parse_strings_sep: "xs \<noteq> [] \<Longrightarrow> parse_strings (sep (map (\<lambda>x. [Str x]) xs) @ Punct (CHR '']'') # r) = Some (xs, r)"
  by (induction xs rule: induct_list012) auto

lemma parse_cond: "parse_test (cond_tokens c @ r) = Some (cond_test c, r)"
proof -
  have "cond_headers c \<noteq> []" by (simp add: cond_headers_def ANY_HEADERS_def)
  from parse_strings_sep[OF this] show ?thesis by (simp add: cond_tokens_def cond_test_def)
qed

lemma parse_tests_sep: "cs \<noteq> [] \<Longrightarrow> parse_tests (sep (map cond_tokens cs) @ Punct (CHR '')'') # r) = Some (map cond_test cs, r)"
proof (induction cs rule: induct_list012)
  case (2 c)
  then show ?case by (subst parse_tests.simps) (simp add: parse_cond)
next
  case (3 c d cs)
  have "parse_test (sep (map cond_tokens (c # d # cs)) @ Punct (CHR '')'') # r) =
      Some (cond_test c, Punct (CHR '','') # sep (map cond_tokens (d # cs)) @ Punct (CHR '')'') # r)"
    using parse_cond[of c] by simp
  with 3 show ?case by (subst parse_tests.simps) simp
qed simp

lemma parse_act_tokens: "parse_act (act_tokens a @ r) = Some (a, r)"
  by (cases a) simp_all

lemma act_tokens_word: "\<exists>w ts. act_tokens a = Word w # ts \<and> w \<notin> {''if'', ''require''}"
  by (cases a) simp_all

lemma parse_acts_concat: "parse_acts (concat (map act_tokens as) @ Punct (CHR ''}'') # r) = Some (as, r)"
proof (induction as)
  case Nil
  then show ?case by (subst parse_acts.simps) simp
next
  case (Cons a as)
  obtain w ts where a: "act_tokens a = Word w # ts" using act_tokens_word by blast
  from parse_act_tokens[of a "concat (map act_tokens as) @ Punct (CHR ''}'') # r"] Cons show ?case
    by (subst parse_acts.simps) (simp add: a)
qed

definition rule_cmds :: "compilable_rule \<Rightarrow> cmd list" where
  "rule_cmds r =
     (if cr_conditions r = [] then map (\<lambda>a. SDo (rule_act a)) (cr_actions r)
      else [SIf (length (cr_conditions r) \<noteq> 1 \<and> cr_match r = MatchAny) (map cond_test (cr_conditions r)) (map rule_act (cr_actions r))])"

definition require_cmds :: "string list \<Rightarrow> cmd list" where
  "require_cmds xs = (if xs = [] then [] else [SRequire xs])"

text \<open>The tokens \<open>ts\<close> are read as the commands \<open>cs\<close>, whatever follows.\<close>

definition parses :: "tok list \<Rightarrow> cmd list \<Rightarrow> bool" where
  "parses ts cs \<longleftrightarrow> length cs \<le> length ts \<and>
     (\<forall>n r. parse_cmds (length cs + n) (ts @ r) = (case parse_cmds n r of None \<Rightarrow> None | Some ds \<Rightarrow> Some (cs @ ds)))"

lemma parses_Nil: "parses [] []"
  by (simp add: parses_def split: option.split)

lemma parses_append:
  assumes "parses ts cs" "parses us ds"
  shows "parses (ts @ us) (cs @ ds)"
proof -
  have "parse_cmds (length (cs @ ds) + n) ((ts @ us) @ r) = (case parse_cmds n r of None \<Rightarrow> None | Some es \<Rightarrow> Some ((cs @ ds) @ es))" for n r
    using assms by (simp add: parses_def add.assoc split: option.split)
  with assms show ?thesis by (simp add: parses_def)
qed

lemma parses_one: "ts \<noteq> [] \<Longrightarrow> (\<And>r. parse_cmd (ts @ r) = Some (c, r)) \<Longrightarrow> parses ts [c]"
  by (cases ts) (auto simp: parses_def Suc_le_eq split: option.split)

lemma parses_concat: "(\<And>x. x \<in> set xs \<Longrightarrow> parses (f x) (g x)) \<Longrightarrow> parses (concat (map f xs)) (concat (map g xs))"
  by (induction xs) (auto intro: parses_Nil parses_append)

lemma parses_act: "parses (act_tokens a) [SDo a]"
proof (rule parses_one)
  obtain w ts where a: "act_tokens a = Word w # ts" "w \<notin> {''if'', ''require''}" using act_tokens_word by blast
  then show "act_tokens a \<noteq> []" by simp
  show "parse_cmd (act_tokens a @ r) = Some (SDo a, r)" for r
    using parse_act_tokens[of a r] a by (auto simp: parse_cmd_def)
qed

lemma parses_require: "parses (require_tokens xs) (require_cmds xs)"
proof (cases "xs = []")
  case True
  then show ?thesis by (simp add: require_tokens_def require_cmds_def parses_Nil)
next
  case False
  then show ?thesis
    unfolding require_cmds_def by (simp, intro parses_one) (simp_all add: require_tokens_def parse_cmd_def parse_strings_sep)
qed

lemma parse_if_rule:
  assumes "cr_conditions r \<noteq> []"
  shows "parse_if (test_tokens r @ Punct (CHR ''{'') # concat (map (\<lambda>a. act_tokens (rule_act a)) (cr_actions r)) @ Punct (CHR ''}'') # rest) =
    Some (hd (rule_cmds r), rest)"
proof -
  let ?body = "concat (map (\<lambda>a. act_tokens (rule_act a)) (cr_actions r)) @ Punct (CHR ''}'') # rest"
  have body: "parse_acts ?body = Some (map rule_act (cr_actions r), rest)"
    using parse_acts_concat[of "map rule_act (cr_actions r)" rest] by (simp add: o_def)
  show ?thesis
  proof (cases "length (cr_conditions r) = 1")
    case True
    then obtain c where c: "cr_conditions r = [c]" by (cases "cr_conditions r") auto
    from parse_cond[of c "Punct (CHR ''{'') # ?body"] body show ?thesis
      by (simp add: parse_if_def test_tokens_def c rule_cmds_def cond_tokens_def)
  next
    case False
    with parse_tests_sep[OF assms, of "Punct (CHR ''{'') # ?body"] body assms show ?thesis
      by (auto simp: parse_if_def test_tokens_def rule_cmds_def)
  qed
qed

lemma parses_rule: "parses (rule_tokens r) (rule_cmds r)"
proof (cases "cr_conditions r = []")
  case True
  have "parses (concat (map (\<lambda>a. act_tokens (rule_act a)) (cr_actions r))) (concat (map (\<lambda>a. [SDo (rule_act a)]) (cr_actions r)))"
    by (rule parses_concat) (rule parses_act)
  with True show ?thesis by (simp add: rule_tokens_def rule_cmds_def)
next
  case False
  then have "rule_cmds r = [hd (rule_cmds r)]" by (simp add: rule_cmds_def)
  moreover have "parses (rule_tokens r) [hd (rule_cmds r)]"
    using False parse_if_rule[OF False] by (intro parses_one) (simp_all add: rule_tokens_def parse_cmd_def)
  ultimately show ?thesis by simp
qed

lemma parse_compiled:
  assumes "\<forall>r \<in> set rules. newline \<notin> set (cr_name r)"
  shows "parse_script (compileScript rules) = Some (require_cmds (collectRequires rules) @ concat (map rule_cmds rules))"
proof -
  let ?ts = "require_tokens (collectRequires rules) @ concat (map rule_tokens rules)"
  let ?cs = "require_cmds (collectRequires rules) @ concat (map rule_cmds rules)"
  have p: "parses ?ts ?cs"
    by (intro parses_append parses_require parses_concat parses_rule)
  then have "parse_cmds (length ?cs + (length ?ts - length ?cs)) (?ts @ []) = Some (?cs @ [])"
    unfolding parses_def by (simp only: parse_cmds.simps option.case)
  moreover have "length ?cs + (length ?ts - length ?cs) = length ?ts" using p unfolding parses_def by simp
  ultimately show ?thesis
    by (simp add: parse_script_def lex_script[OF assms])
qed

section \<open>Running the parsed commands\<close>

lemma do_acts_eq: "do_acts as = (takeWhile (\<lambda>a. a \<noteq> SStop) as, SStop \<in> set as)"
  by (induction as) auto

lemma exec_do: "exec hdr (map SDo as @ cs) = takeWhile (\<lambda>a. a \<noteq> SStop) as @ (if SStop \<in> set as then [] else exec hdr cs)"
  by (induction as) auto

lemma takeWhile_append_stop:
  "takeWhile (\<lambda>a. a \<noteq> SStop) (xs @ ys) = takeWhile (\<lambda>a. a \<noteq> SStop) xs @ (if SStop \<in> set xs then [] else takeWhile (\<lambda>a. a \<noteq> SStop) ys)"
  by (induction xs) auto

lemma list_conditions: "list_all (test_holds hdr) (map cond_test cs) = list_all (cond_holds hdr) cs"
    "list_ex (test_holds hdr) (map cond_test cs) = list_ex (cond_holds hdr) cs"
  by (induction cs) (auto simp: cond_test_def cond_holds_def)

definition fired_acts :: "(string \<Rightarrow> string list \<Rightarrow> string \<Rightarrow> bool) \<Rightarrow> compilable_rule \<Rightarrow> sact list" where
  "fired_acts hdr r = (if fires hdr r then map rule_act (cr_actions r) else [])"

lemma exec_rule:
  "exec hdr (rule_cmds r @ cs) = takeWhile (\<lambda>a. a \<noteq> SStop) (fired_acts hdr r) @ (if SStop \<in> set (fired_acts hdr r) then [] else exec hdr cs)"
proof (cases "cr_conditions r")
  case Nil
  have "rule_cmds r = map SDo (map rule_act (cr_actions r))" by (simp add: rule_cmds_def Nil)
  then show ?thesis by (simp only: exec_do) (simp add: fired_acts_def fires_def Nil)
next
  case (Cons c ds)
  then show ?thesis
    using list_conditions[of hdr "c # ds"]
    by (cases ds) (auto simp: rule_cmds_def fired_acts_def fires_def do_acts_eq)
qed

lemma exec_rules: "exec hdr (concat (map rule_cmds rules)) = filter_actions hdr rules"
proof (induction rules)
  case (Cons r rules)
  have "filter_actions hdr (r # rules) = takeWhile (\<lambda>a. a \<noteq> SStop) (fired_acts hdr r) @
      (if SStop \<in> set (fired_acts hdr r) then [] else filter_actions hdr rules)"
    by (simp only: filter_actions_def fired_acts_def list.map concat.simps takeWhile_append_stop)
  with Cons show ?case by (simp add: exec_rule)
qed (simp add: filter_actions_def)

lemma exec_require: "exec hdr (require_cmds xs @ cs) = exec hdr cs"
  by (simp add: require_cmds_def)

lemma needs_rule: "needs (rule_act a) = set (actionRequires a)"
  by (cases "sa_type a") (auto simp: rule_act_def actionRequires_def Let_def)

lemma needs_declared:
  "\<Union> (cmd_needs ` set (concat (map rule_cmds rules))) = set (collectRequires rules)"
proof -
  have "\<Union> (cmd_needs ` set (rule_cmds r)) = set (concat (map actionRequires (cr_actions r)))" for r
    by (auto simp: rule_cmds_def needs_rule)
  then have "\<Union> (cmd_needs ` set (concat (map rule_cmds rules))) = set (concat (map (\<lambda>r. concat (map actionRequires (cr_actions r))) rules))"
    by (induction rules) auto
  moreover have "set (concat (map (\<lambda>r. concat (map actionRequires (cr_actions r))) rules)) \<subseteq> set [''fileinto'', ''mailbox'', ''imap4flags'']"
  proof
    fix x assume "x \<in> set (concat (map (\<lambda>r. concat (map actionRequires (cr_actions r))) rules))"
    then obtain a where "x \<in> set (actionRequires a)" by auto
    then show "x \<in> set [''fileinto'', ''mailbox'', ''imap4flags'']"
      by (cases "sa_type a") (auto simp: actionRequires_def)
  qed
  ultimately show ?thesis unfolding collectRequires_def Let_def set_filter by blast
qed

section \<open>Properties\<close>

text \<open>
  C12: the filter compiler is correct. For rules whose names stay on one line, the compiled
  script is a well-formed Sieve script, whatever quotes and backslashes the values contain: it
  parses, it declares every extension its commands use, and on every message (given by which
  header tests hold on it) running it takes exactly the actions of the rules that fire, in
  order, up to the first stop.
\<close>

theorem compiled_script_runs_the_rules:
  assumes "\<forall>r \<in> set rules. newline \<notin> set (cr_name r)"
  shows "\<exists>cmds. parse_script (compileScript rules) = Some cmds \<and>
    \<Union> (cmd_needs ` set cmds) \<subseteq> \<Union> (cmd_declares ` set cmds) \<and>
    (\<forall>hdr. exec hdr cmds = filter_actions hdr rules)"
proof -
  let ?rq = "require_cmds (collectRequires rules)"
  have "\<Union> (cmd_needs ` set ?rq) = {}" "\<Union> (cmd_declares ` set ?rq) = set (collectRequires rules)"
    by (auto simp: require_cmds_def)
  then have "\<Union> (cmd_needs ` set (?rq @ concat (map rule_cmds rules))) \<subseteq> \<Union> (cmd_declares ` set (?rq @ concat (map rule_cmds rules)))"
    using needs_declared[of rules] by (simp only: set_append image_Un Union_Un_distrib) blast
  then show ?thesis using parse_compiled[OF assms] by (simp add: exec_require exec_rules)
qed

definition spam_rule :: compilable_rule where
  "spam_rule = \<lparr>cr_name = ''spam'', cr_match = MatchAny,
     cr_conditions = [\<lparr>sc_field = FSubject, sc_op = OContains, sc_value = ''a'' @ [CHR 0x22] @ ''b''\<rparr>,
                      \<lparr>sc_field = FAny, sc_op = OIs, sc_value = [CHR 0x5C]\<rparr>],
     cr_actions = [\<lparr>sa_type = AFileinto, sa_arg = Some ''junk''\<rparr>, \<lparr>sa_type = AStop, sa_arg = None\<rparr>]\<rparr>"

definition keep_rule :: compilable_rule where
  "keep_rule = \<lparr>cr_name = ''keep'', cr_match = MatchAll, cr_conditions = [], cr_actions = [\<lparr>sa_type = AKeep, sa_arg = None\<rparr>]\<rparr>"

theorem compiled_script_runs_the_rules_witness:
  "\<exists>cmds. parse_script (compileScript [spam_rule, keep_rule]) = Some cmds \<and>
     exec (\<lambda>m hs v. hs = [''subject'']) cmds = [SFileinto ''junk''] \<and> exec (\<lambda>m hs v. False) cmds = [SKeep]"
proof -
  have "\<forall>r \<in> set [spam_rule, keep_rule]. newline \<notin> set (cr_name r)" by (simp add: spam_rule_def keep_rule_def)
  from compiled_script_runs_the_rules[OF this] obtain cmds where c: "parse_script (compileScript [spam_rule, keep_rule]) = Some cmds"
    "\<forall>hdr. exec hdr cmds = filter_actions hdr [spam_rule, keep_rule]" by blast
  have "filter_actions (\<lambda>m hs v. hs = [''subject'']) [spam_rule, keep_rule] = [SFileinto ''junk'']"
    "filter_actions (\<lambda>m hs v. False) [spam_rule, keep_rule] = [SKeep]"
    by (simp_all add: filter_actions_def fires_def cond_holds_def cond_headers_def rule_act_def spam_rule_def keep_rule_def)
  with c show ?thesis by auto
qed

text \<open>
  the name of a rule can carry commands into the script. The name is copied into a comment
  as it is, and nothing keeps line breaks out of it: for a rule that keeps every message, with
  a name of two lines, the compiled script parses to one that discards every message first.
\<close>

definition evil_rule :: compilable_rule where
  "evil_rule = \<lparr>cr_name = ''x'' @ [newline] @ ''discard;'', cr_match = MatchAll, cr_conditions = [],
     cr_actions = [\<lparr>sa_type = AKeep, sa_arg = None\<rparr>]\<rparr>"

theorem rule_name_injects_commands:
  "parse_script (compileScript [evil_rule]) = Some [SDo SDiscard, SDo SKeep] \<and> filter_actions hdr [evil_rule] = [SKeep]"
proof -
  have "lexer Code (compileScript [evil_rule]) = Some [Word ''discard'', Punct (CHR '';''), Word ''keep'', Punct (CHR '';'')]"
    by (simp add: compileScript_def collectRequires_def actionRequires_def SCRIPT_HEADER_def compileRule_def indent_def
        compileAction_def evil_rule_def sieve_space_def word_char_def punct_char_def)
  then have "parse_script (compileScript [evil_rule]) = Some [SDo SDiscard, SDo SKeep]"
    by (simp add: parse_script_def parse_cmd_def eval_nat_numeral)
  moreover have "filter_actions hdr [evil_rule] = [SKeep]"
    by (simp add: filter_actions_def fires_def rule_act_def evil_rule_def)
  ultimately show ?thesis by blast
qed

end
