(* ===== verification/JM_SieveService.thy ===== *)
theory JM_SieveService
  imports JM_Sieve JM_Auth "HOL-Library.Multiset"
begin

text \<open>
  \<open>SieveService\<close> (\<open>apps/api/src/webmail/sieve.service.ts\<close>): the filter rules of a mailbox and
  the one active script on the mail server.

  The state adds the rules table, the reconcile leases (the Redis keys with their expiry) and
  the active script of every account. What the mail server does with an upload is a parameter
  of the environment: whether the text became the active script, and whether the dialogue
  ended without an error.
\<close>

record sieve_row =
  sr_id :: uuid
  sr_org_id :: uuid
  sr_mailbox_id :: uuid
  sr_name :: string
  sr_priority :: int
  sr_enabled :: bool
  sr_match :: sieve_match
  sr_conditions :: "sieve_condition list"
  sr_actions :: "sieve_action list"
  sr_script_source :: string
  sr_created_at :: timestamp

record sieve_rule_dto =
  sd_id :: uuid
  sd_name :: string
  sd_priority :: int
  sd_enabled :: bool
  sd_match :: sieve_match
  sd_conditions :: "sieve_condition list"
  sd_actions :: "sieve_action list"
  sd_script_source :: string

record sieve_rule_request = compilable_rule +
  sq_enabled :: bool

record sieve_sys = sys +
  sieve_rules :: "sieve_row list"
  sieve_leases :: "(uuid \<times> timestamp) list"
  active_scripts :: "string \<Rightarrow> string option"

record push_outcome =
  po_stored :: bool
  po_returned :: bool

type_synonym pusher = "string \<Rightarrow> string \<Rightarrow> string \<Rightarrow> push_outcome"

definition toRule :: "sieve_row \<Rightarrow> sieve_rule_dto" where
  "toRule r = \<lparr>sd_id = sr_id r, sd_name = sr_name r, sd_priority = sr_priority r, sd_enabled = sr_enabled r,
     sd_match = sr_match r, sd_conditions = sr_conditions r, sd_actions = sr_actions r,
     sd_script_source = sr_script_source r\<rparr>"

definition row_rule :: "sieve_row \<Rightarrow> compilable_rule" where
  "row_rule r = \<lparr>cr_name = sr_name r, cr_match = sr_match r, cr_conditions = sr_conditions r, cr_actions = sr_actions r\<rparr>"

definition request_rule :: "sieve_rule_request \<Rightarrow> compilable_rule" where
  "request_rule r = \<lparr>cr_name = cr_name r, cr_match = cr_match r, cr_conditions = cr_conditions r, cr_actions = cr_actions r\<rparr>"

definition RECONCILE_TTL_SECONDS :: int where "RECONCILE_TTL_SECONDS = 600"

definition resolveSieveMailbox :: "uuid \<Rightarrow> uuid \<Rightarrow> principal \<Rightarrow> ('z db_scheme, string) svc" where
  "resolveSieveMailbox orgId mailboxId p =
     thenM (case p_mailbox_id p of
              Some m \<Rightarrow> throwIf (m \<noteq> mailboxId \<or> (case p_org_id p of None \<Rightarrow> False | Some x \<Rightarrow> x \<noteq> orgId))
                          (ForbiddenException ''Mailbox not accessible'' None)
            | None \<Rightarrow> thenM (requireRole orgId (p_user_id p) Member) (returnM ()))
     (bindM (getsM (\<lambda>s. find_in_org mb_id mb_domain_id (mailboxes s) (domains s) orgId mailboxId)) (\<lambda>row.
      bindM (someM row (NotFoundException ''Mailbox not found'' None)) (\<lambda>(m, d).
      returnM (mb_local_part m @ ''@'' @ d_name d))))"

definition loadRules :: "uuid \<Rightarrow> 'z sieve_sys_scheme \<Rightarrow> sieve_row list" where
  "loadRules mailboxId s =
     sort_key sr_priority (sort_key sr_created_at (filter (\<lambda>r. sr_mailbox_id r = mailboxId) (sieve_rules s)))"

text \<open>Connect, STARTTLS, authenticate, PUTSCRIPT, SETACTIVE, logout.\<close>

definition pushScript :: "pusher \<Rightarrow> string \<Rightarrow> string \<Rightarrow> string \<Rightarrow> ('z sieve_sys_scheme, unit) svc" where
  "pushScript push address password script = (\<lambda>s.
     let o' = push address password script;
         t = (if po_stored o' then s\<lparr>active_scripts := (active_scripts s)(address \<mapsto> script)\<rparr> else s)
     in if po_returned o' then (Inr (), t) else (Inl (HttpException 500 ''Error'' None), t))"

definition set_lease :: "uuid \<Rightarrow> 'z sieve_sys_scheme \<Rightarrow> 'z sieve_sys_scheme" where
  "set_lease mailboxId s =
     s\<lparr>sieve_leases := (mailboxId, now s + RECONCILE_TTL_SECONDS * 1000) # filter (\<lambda>(m, e). m \<noteq> mailboxId) (sieve_leases s)\<rparr>"

definition leased :: "uuid \<Rightarrow> 'z sieve_sys_scheme \<Rightarrow> bool" where
  "leased mailboxId s = list_ex (\<lambda>(m, e). m = mailboxId \<and> now s < e) (sieve_leases s)"

definition markReconciled :: "auth_env \<Rightarrow> uuid \<Rightarrow> ('z sieve_sys_scheme, unit) svc" where
  "markReconciled env mailboxId = (if ae_use_redis env then modifyM (set_lease mailboxId) else returnM ())"

definition sieve_creds :: "auth_env \<Rightarrow> uuid \<Rightarrow> uuid \<Rightarrow> ('z sieve_sys_scheme, (string \<times> string) option) svc" where
  "sieve_creds env sessionId mailboxId =
     on_creds (cred_get (ae_use_redis env) (ae_unseal env) (ae_cred_ttl_seconds env) sessionId mailboxId)"

definition sync :: "auth_env \<Rightarrow> pusher \<Rightarrow> principal \<Rightarrow> uuid \<Rightarrow> string \<Rightarrow> ('z sieve_sys_scheme, unit) svc" where
  "sync env push p mailboxId address =
     bindM (sieve_creds env (p_session_id p) mailboxId) (\<lambda>creds.
     bindM (someM creds (ForbiddenException ''Mailbox locked'' (Some ''Unlock the mailbox first by entering its password.''))) (\<lambda>(a, password).
     bindM (getsM (\<lambda>s. map row_rule (filter sr_enabled (loadRules mailboxId s)))) (\<lambda>enabled.
     thenM (catchM (pushScript push address password (compileScript enabled))
              (\<lambda>err. throwM (HttpException 502 ''Filter saved, but activating it on the mail server failed'' None)))
     (markReconciled env mailboxId))))"

definition reconcile ::
  "auth_env \<Rightarrow> pusher \<Rightarrow> principal \<Rightarrow> uuid \<Rightarrow> string \<Rightarrow> sieve_row list \<Rightarrow> ('z sieve_sys_scheme, unit) svc" where
  "reconcile env push p mailboxId address rows =
     (let enabled = map row_rule (filter sr_enabled rows) in
      if enabled = [] then returnM ()
      else bindM (sieve_creds env (p_session_id p) mailboxId) (\<lambda>creds.
        case creds of
          None \<Rightarrow> returnM ()
        | Some (a, password) \<Rightarrow>
            bindM (getsM (\<lambda>s. ae_use_redis env \<and> leased mailboxId s)) (\<lambda>taken.
            if taken then returnM ()
            else thenM (if ae_use_redis env then modifyM (set_lease mailboxId) else returnM ())
                   (catchM (pushScript push address password (compileScript enabled)) (\<lambda>err. returnM ())))))"

definition listRules :: "auth_env \<Rightarrow> pusher \<Rightarrow> principal \<Rightarrow> uuid \<Rightarrow> uuid \<Rightarrow> ('z sieve_sys_scheme, sieve_rule_dto list) svc" where
  "listRules env push p orgId mailboxId =
     bindM (resolveSieveMailbox orgId mailboxId p) (\<lambda>address.
     bindM (getsM (loadRules mailboxId)) (\<lambda>rows.
     thenM (reconcile env push p mailboxId address rows)
     (returnM (map toRule rows))))"

definition next_priority :: "sieve_row list \<Rightarrow> int" where
  "next_priority rows = (if rows = [] then 0 else Max (sr_priority ` set rows) + 1)"

definition insert_rule :: "uuid \<Rightarrow> uuid \<Rightarrow> sieve_rule_request \<Rightarrow> string \<Rightarrow> ('z sieve_sys_scheme, sieve_row) svc" where
  "insert_rule orgId mailboxId input source = (\<lambda>s.
     let r = \<lparr>sr_id = next_id s, sr_org_id = orgId, sr_mailbox_id = mailboxId, sr_name = cr_name input,
              sr_priority = next_priority (filter (\<lambda>r. sr_mailbox_id r = mailboxId) (sieve_rules s)),
              sr_enabled = sq_enabled input, sr_match = cr_match input, sr_conditions = cr_conditions input,
              sr_actions = cr_actions input, sr_script_source = source, sr_created_at = now s\<rparr>
     in (Inr r, s\<lparr>sieve_rules := sieve_rules s @ [r], next_id := next_id s + 1\<rparr>))"

definition createRule ::
  "auth_env \<Rightarrow> pusher \<Rightarrow> principal \<Rightarrow> uuid \<Rightarrow> uuid \<Rightarrow> sieve_rule_request \<Rightarrow> ('z sieve_sys_scheme, sieve_rule_dto) svc" where
  "createRule env push p orgId mailboxId input =
     bindM (resolveSieveMailbox orgId mailboxId p) (\<lambda>address.
     bindM (insert_rule orgId mailboxId input (compileRule (request_rule input))) (\<lambda>r.
     thenM (sync env push p mailboxId address)
     (thenM (audit_log (user_entry (Some orgId) p ''webmail.sieve.create'' ''mailbox'' mailboxId None
               [(''rule'', JStr (show_nat (sr_id r))), (''name'', JStr (cr_name input))]))
     (returnM (toRule r)))))"

definition write_rule :: "uuid \<Rightarrow> uuid \<Rightarrow> sieve_rule_request \<Rightarrow> string \<Rightarrow> 'z sieve_sys_scheme \<Rightarrow> 'z sieve_sys_scheme" where
  "write_rule mailboxId i input source s =
     s\<lparr>sieve_rules := map (\<lambda>r. if sr_id r = i \<and> sr_mailbox_id r = mailboxId
         then r\<lparr>sr_name := cr_name input, sr_enabled := sq_enabled input, sr_match := cr_match input,
                sr_conditions := cr_conditions input, sr_actions := cr_actions input, sr_script_source := source\<rparr>
         else r) (sieve_rules s)\<rparr>"

definition updateRule ::
  "auth_env \<Rightarrow> pusher \<Rightarrow> principal \<Rightarrow> uuid \<Rightarrow> uuid \<Rightarrow> uuid \<Rightarrow> sieve_rule_request \<Rightarrow> ('z sieve_sys_scheme, sieve_rule_dto) svc" where
  "updateRule env push p orgId mailboxId i input =
     bindM (resolveSieveMailbox orgId mailboxId p) (\<lambda>address.
     thenM (modifyM (write_rule mailboxId i input (compileRule (request_rule input))))
     (bindM (getsM (\<lambda>s. find (\<lambda>r. sr_id r = i \<and> sr_mailbox_id r = mailboxId) (sieve_rules s))) (\<lambda>row.
      bindM (someM row (NotFoundException ''Filter not found'' None)) (\<lambda>r.
      thenM (sync env push p mailboxId address)
     (thenM (audit_log (user_entry (Some orgId) p ''webmail.sieve.update'' ''mailbox'' mailboxId None
               [(''rule'', JStr (show_nat i)), (''name'', JStr (cr_name input))]))
     (returnM (toRule r)))))))"

definition drop_rule :: "uuid \<Rightarrow> uuid \<Rightarrow> 'z sieve_sys_scheme \<Rightarrow> 'z sieve_sys_scheme" where
  "drop_rule mailboxId i s =
     s\<lparr>sieve_rules := filter (\<lambda>r. \<not> (sr_id r = i \<and> sr_mailbox_id r = mailboxId)) (sieve_rules s)\<rparr>"

definition deleteRule ::
  "auth_env \<Rightarrow> pusher \<Rightarrow> principal \<Rightarrow> uuid \<Rightarrow> uuid \<Rightarrow> uuid \<Rightarrow> ('z sieve_sys_scheme, unit) svc" where
  "deleteRule env push p orgId mailboxId i =
     bindM (resolveSieveMailbox orgId mailboxId p) (\<lambda>address.
     bindM (getsM (\<lambda>s. \<exists>r \<in> set (sieve_rules s). sr_id r = i \<and> sr_mailbox_id r = mailboxId)) (\<lambda>hit.
     thenM (modifyM (drop_rule mailboxId i))
     (thenM (throwIf (\<not> hit) (NotFoundException ''Filter not found'' None))
     (thenM (sync env push p mailboxId address)
     (audit_log (user_entry (Some orgId) p ''webmail.sieve.delete'' ''mailbox'' mailboxId None
        [(''rule'', JStr (show_nat i))]))))))"

section \<open>Facts on the handlers\<close>

definition enabled_rules :: "uuid \<Rightarrow> 'z sieve_sys_scheme \<Rightarrow> compilable_rule list" where
  "enabled_rules mailboxId s = map row_rule (filter sr_enabled (loadRules mailboxId s))"

lemma loadRules_cong: "sieve_rules t = sieve_rules s \<Longrightarrow> loadRules m t = loadRules m s"
  by (simp add: loadRules_def)

lemma readonly_resolve [readonly_intro]: "readonly (resolveSieveMailbox org m p)"
  unfolding resolveSieveMailbox_def by (auto intro!: readonly_intro split: option.splits)

lemma sieve_creds_frame:
  assumes "sieve_creds env sid mid s = (r, t)"
  shows "sieve_rules t = sieve_rules s \<and> active_scripts t = active_scripts s \<and> now t = now s"
  using assms by (auto simp: sieve_creds_def on_creds_def split: prod.splits)

lemma markReconciled_frame:
  "\<exists>t. markReconciled env m s = (Inr (), t) \<and> sieve_rules t = sieve_rules s \<and> active_scripts t = active_scripts s"
  by (simp add: markReconciled_def modifyM_def returnM_def set_lease_def)

lemma audit_sieve_frame [simp]:
  "sieve_rules (audit_insert e s) = sieve_rules s" "active_scripts (audit_insert e s) = active_scripts s"
  by (simp_all add: audit_insert_def)

text \<open>A server that reports success has taken the script.\<close>

definition honest :: "pusher \<Rightarrow> bool" where
  "honest push \<longleftrightarrow> (\<forall>a pw sc. po_returned (push a pw sc) \<longrightarrow> po_stored (push a pw sc))"

lemma sync_Inr:
  assumes "sync env push p m address s = (Inr x, t)" "honest push"
  shows "sieve_rules t = sieve_rules s \<and> active_scripts t = (active_scripts s)(address \<mapsto> compileScript (enabled_rules m s))"
proof -
  from assms(1) obtain a pw s1 s2 where c: "sieve_creds env (p_session_id p) m s = (Inr (Some (a, pw)), s1)"
    and q: "catchM (pushScript push address pw (compileScript (enabled_rules m s1)))
        (\<lambda>err. throwM (HttpException 502 ''Filter saved, but activating it on the mail server failed'' None)) s1 = (Inr (), s2)"
    and mk: "markReconciled env m s2 = (Inr x, t)"
    by (auto simp: sync_def bindM_Inr thenM_Inr someM_Inr leafM enabled_rules_def)
  from q have "po_returned (push address pw (compileScript (enabled_rules m s1)))"
    by (auto simp: catchM_def pushScript_def Let_def throwM_def split: if_splits)
  with q assms(2) have "s2 = s1\<lparr>active_scripts := (active_scripts s1)(address \<mapsto> compileScript (enabled_rules m s1))\<rparr>"
    by (auto simp: catchM_def pushScript_def Let_def honest_def split: if_splits)
  with markReconciled_frame[of env m s2] mk sieve_creds_frame[OF c] loadRules_cong[of s1 s m] show ?thesis
    by (auto simp: enabled_rules_def)
qed

lemma sync_failed:
  assumes "\<And>pw sc. \<not> po_stored (push address pw sc) \<and> \<not> po_returned (push address pw sc)"
  shows "\<exists>e t. sync env push p m address s = (Inl e, t) \<and> sieve_rules t = sieve_rules s \<and> active_scripts t = active_scripts s"
proof -
  obtain r s1 where c: "sieve_creds env (p_session_id p) m s = (r, s1)" by fastforce
  note f = sieve_creds_frame[OF c]
  show ?thesis
  proof (cases r)
    case (Inl e)
    with c f show ?thesis by (simp add: sync_def bindM_def)
  next
    case (Inr o')
    with c f assms show ?thesis
      by (cases o') (auto simp: sync_def bindM_def thenM_def someM_def returnM_def throwM_def getsM_def catchM_def pushScript_def Let_def)
  qed
qed

lemma reconcile_nothing:
  "filter sr_enabled rows = [] \<Longrightarrow> reconcile env push p m address rows s = (Inr (), s)"
  by (simp add: reconcile_def returnM_def)

lemma listRules_nothing:
  assumes "enabled_rules m s = []" "listRules env push p org m s = (r, t)"
  shows "t = s"
proof -
  obtain q u where a: "resolveSieveMailbox org m p s = (q, u)" by fastforce
  with readonly_resolve have u: "u = s" by (blast dest: readonlyD)
  from assms(1) have e: "filter sr_enabled (loadRules m s) = []" by (simp add: enabled_rules_def)
  show ?thesis
  proof (cases q)
    case (Inl x)
    with assms(2) a u show ?thesis by (simp add: listRules_def bindM_def)
  next
    case (Inr address)
    with assms(2) a u reconcile_nothing[OF e, of env push p m address s] show ?thesis
      by (simp add: listRules_def bindM_def thenM_def getsM_def returnM_def)
  qed
qed

subsection \<open>The three writers\<close>

datatype filter_call = AddRule sieve_rule_request | ChangeRule uuid sieve_rule_request | RemoveRule uuid

definition run_filter_call ::
  "auth_env \<Rightarrow> pusher \<Rightarrow> principal \<Rightarrow> uuid \<Rightarrow> uuid \<Rightarrow> filter_call \<Rightarrow> ('z sieve_sys_scheme, unit) svc" where
  "run_filter_call env push p org m call =
     (case call of
        AddRule input \<Rightarrow> thenM (createRule env push p org m input) (returnM ())
      | ChangeRule i input \<Rightarrow> thenM (updateRule env push p org m i input) (returnM ())
      | RemoveRule i \<Rightarrow> deleteRule env push p org m i)"

text \<open>What a call does to the table of rules.\<close>

definition as_requested :: "sieve_rule_request \<Rightarrow> sieve_row \<Rightarrow> bool" where
  "as_requested input r \<longleftrightarrow> sr_name r = cr_name input \<and> sr_enabled r = sq_enabled input \<and> sr_match r = cr_match input \<and>
     sr_conditions r = cr_conditions input \<and> sr_actions r = cr_actions input"

definition table_after :: "uuid \<Rightarrow> filter_call \<Rightarrow> sieve_row list \<Rightarrow> sieve_row list \<Rightarrow> bool" where
  "table_after m call rs rs' =
     (case call of
        AddRule input \<Rightarrow> (\<exists>r. rs' = rs @ [r] \<and> sr_mailbox_id r = m \<and> as_requested input r \<and>
          (\<forall>q \<in> set rs. sr_mailbox_id q = m \<longrightarrow> sr_priority q < sr_priority r))
      | ChangeRule i input \<Rightarrow>
          (\<exists>q \<in> set rs. sr_id q = i \<and> sr_mailbox_id q = m) \<and>
          list_all2 (\<lambda>q r. if sr_id q = i \<and> sr_mailbox_id q = m
             then as_requested input r \<and> sr_id r = i \<and> sr_mailbox_id r = m \<and> sr_priority r = sr_priority q \<and>
                  sr_created_at r = sr_created_at q
             else r = q) rs rs'
      | RemoveRule i \<Rightarrow>
          (\<exists>q \<in> set rs. sr_id q = i \<and> sr_mailbox_id q = m) \<and>
          rs' = filter (\<lambda>r. \<not> (sr_id r = i \<and> sr_mailbox_id r = m)) rs)"

text \<open>The enabled rules of the mailbox, by priority and then by age.\<close>

definition in_force :: "uuid \<Rightarrow> sieve_row list \<Rightarrow> sieve_row list \<Rightarrow> bool" where
  "in_force m rs rows \<longleftrightarrow> mset rows = filter_mset (\<lambda>r. sr_mailbox_id r = m \<and> sr_enabled r) (mset rs) \<and>
     sorted_wrt (\<lambda>q r. sr_priority q < sr_priority r \<or> sr_priority q = sr_priority r \<and> sr_created_at q \<le> sr_created_at r) rows"

lemma sorted_wrt_sort_twice:
  fixes f g :: "'a \<Rightarrow> int"
  shows "sorted_wrt (\<lambda>x y. f x < f y \<or> f x = f y \<and> g x \<le> g y) (sort_key f (sort_key g xs))"
proof -
  let ?ys = "sort_key f (sort_key g xs)"
  have eq: "filter (\<lambda>x. f x = k) ?ys = filter (\<lambda>x. f x = k) (sort_key g xs)" for k
    by (rule sort_key_stable)
  have s: "sorted (map f ?ys)" by simp
  have t: "sorted (map g (filter (\<lambda>x. f x = k) ?ys))" for k
    unfolding eq by (rule sorted_filter) simp
  have "sorted_wrt (\<lambda>x y. f x < f y \<or> f x = f y \<and> g x \<le> g y) ys"
    if "sorted (map f ys)" "\<And>k. sorted (map g (filter (\<lambda>x. f x = k) ys))" for ys
    using that
  proof (induction ys)
    case (Cons y ys)
    have "sorted (map g (filter (\<lambda>x. f x = k) ys))" for k using Cons.prems(2)[of k] by (auto split: if_splits)
    with Cons have "sorted_wrt (\<lambda>x y. f x < f y \<or> f x = f y \<and> g x \<le> g y) ys" by simp
    moreover have "f y < f z \<or> f y = f z \<and> g y \<le> g z" if "z \<in> set ys" for z
      using that Cons.prems(1) Cons.prems(2)[of "f y"] by (cases "f z = f y") auto
    ultimately show ?case by simp
  qed simp
  with s t show ?thesis by blast
qed

lemma loadRules_in_force: "in_force m (sieve_rules s) (filter sr_enabled (loadRules m s))"
proof -
  have "mset (filter sr_enabled (loadRules m s)) = filter_mset (\<lambda>r. sr_mailbox_id r = m \<and> sr_enabled r) (mset (sieve_rules s))"
    by (simp add: loadRules_def filter_filter_mset conj_commute flip: mset_filter) (simp add: filter_filter_mset conj_commute)
  moreover have "sorted_wrt (\<lambda>q r. sr_priority q < sr_priority r \<or> sr_priority q = sr_priority r \<and> sr_created_at q \<le> sr_created_at r)
      (filter sr_enabled (loadRules m s))"
    unfolding loadRules_def by (rule sorted_wrt_filter[OF sorted_wrt_sort_twice])
  ultimately show ?thesis by (simp add: in_force_def)
qed

text \<open>Every writer ends in \<open>sync\<close> on the rules it leaves, then logs.\<close>

lemma filter_call_syncs:
  assumes "run_filter_call env push p org m call s = (Inr (), t)"
  shows "\<exists>address u x w e. resolveSieveMailbox org m p s = (Inr address, s) \<and> sync env push p m address u = (Inr x, w) \<and>
    t = audit_insert e w \<and> table_after m call (sieve_rules s) (sieve_rules u) \<and> active_scripts u = active_scripts s"
proof (cases call)
  case (AddRule input)
  with assms obtain address v r u x w e where a: "resolveSieveMailbox org m p s = (Inr address, v)"
    and i: "insert_rule org m input (compileRule (request_rule input)) v = (Inr r, u)"
    and w: "sync env push p m address u = (Inr x, w)" "t = audit_insert e w"
    by (auto simp: run_filter_call_def createRule_def bindM_Inr thenM_Inr audit_log_iffs leafM)
  have v: "v = s" using readonlyD[OF readonly_resolve a] .
  from i have u: "sieve_rules u = sieve_rules s @ [r]" "active_scripts u = active_scripts s" "sr_mailbox_id r = m" "as_requested input r"
    "sr_priority r = next_priority (filter (\<lambda>r. sr_mailbox_id r = m) (sieve_rules s))"
    by (auto simp: insert_rule_def Let_def v as_requested_def)
  have "sr_priority q < sr_priority r" if "q \<in> set (sieve_rules s)" "sr_mailbox_id q = m" for q
  proof -
    let ?R = "filter (\<lambda>r. sr_mailbox_id r = m) (sieve_rules s)"
    have "q \<in> set ?R" using that by simp
    then have "?R \<noteq> []" "sr_priority q \<le> Max (sr_priority ` set ?R)" by (auto simp: filter_empty_conv intro!: Max_ge)
    then show ?thesis by (simp add: u(5) next_priority_def)
  qed
  with u AddRule have "table_after m call (sieve_rules s) (sieve_rules u)" by (simp add: table_after_def)
  with a v w u(2) show ?thesis by blast
next
  case (ChangeRule i input)
  let ?u = "\<lambda>v. write_rule m i input (compileRule (request_rule input)) v"
  from ChangeRule assms obtain address v r x w e where a: "resolveSieveMailbox org m p s = (Inr address, v)"
    and r: "find (\<lambda>r. sr_id r = i \<and> sr_mailbox_id r = m) (sieve_rules (?u v)) = Some r"
    and w: "sync env push p m address (?u v) = (Inr x, w)" "t = audit_insert e w"
    by (auto simp: run_filter_call_def updateRule_def bindM_Inr thenM_Inr audit_log_iffs leafM someM_Inr)
  have v: "v = s" using readonlyD[OF readonly_resolve a] .
  from find_SomeD[OF r] v have "\<exists>q \<in> set (sieve_rules s). sr_id q = i \<and> sr_mailbox_id q = m"
    by (auto simp: write_rule_def split: if_splits)
  then have "table_after m call (sieve_rules s) (sieve_rules (?u s))"
    by (auto simp: table_after_def ChangeRule write_rule_def as_requested_def list_all2_map2 intro!: list.rel_refl_strong)
  moreover have "active_scripts (?u s) = active_scripts s" by (simp add: write_rule_def)
  ultimately show ?thesis using a v w by blast
next
  case (RemoveRule i)
  with assms obtain address v x w e where a: "resolveSieveMailbox org m p s = (Inr address, v)"
    and hit: "\<exists>q \<in> set (sieve_rules v). sr_id q = i \<and> sr_mailbox_id q = m"
    and w: "sync env push p m address (drop_rule m i v) = (Inr x, w)" "t = audit_insert e w"
    by (auto simp: run_filter_call_def deleteRule_def bindM_Inr thenM_Inr leafM audit_log_iffs throwIf_Inr) blast
  have v: "v = s" using readonlyD[OF readonly_resolve a] .
  with hit RemoveRule have "table_after m call (sieve_rules s) (sieve_rules (drop_rule m i s))"
    "active_scripts (drop_rule m i s) = active_scripts s"
    by (simp_all add: table_after_def drop_rule_def)
  with a v w show ?thesis by blast
qed

lemma resolve_address:
  assumes "resolveSieveMailbox org m p s = (Inr address, t)"
  shows "\<exists>mb d. mb \<in> set (mailboxes s) \<and> mb_id mb = m \<and> d \<in> set (domains s) \<and> d_id d = mb_domain_id mb \<and> d_org_id d = org \<and>
    address = mb_local_part mb @ ''@'' @ d_name d"
  using assms by (auto simp: resolveSieveMailbox_def find_in_org_def thenM_Inr bindM_Inr leafM someM_Inr requireRole_Inr throwIf_Inr
      dest!: find_SomeD split: option.splits) blast+

section \<open>Properties\<close>

text \<open>
  C13: what is saved is what the server runs. When creating, changing or deleting a rule returns,
  the table has changed by exactly that: a new rule comes after the others of the mailbox, a changed one
  keeps its place. The active script of the mailbox's account parses, and running it takes exactly
  the actions of the mailbox's own enabled rules as they are stored, in the order of their priority
  and age; the scripts of other accounts are as before. The hypotheses are that the server reports
  success only for a script it has taken, and that the rule names have one line.
\<close>

theorem saved_filters_are_active:
  assumes "honest push" "run_filter_call env push p org m call s = (Inr (), t)"
    and "\<forall>r \<in> set (sieve_rules t). sr_mailbox_id r = m \<and> sr_enabled r \<longrightarrow> newline \<notin> set (sr_name r)"
  shows "table_after m call (sieve_rules s) (sieve_rules t) \<and>
    (\<exists>mb d address script cmds rows. mb \<in> set (mailboxes s) \<and> mb_id mb = m \<and> d \<in> set (domains s) \<and> d_id d = mb_domain_id mb \<and>
      d_org_id d = org \<and> address = mb_local_part mb @ ''@'' @ d_name d \<and>
      active_scripts t = (active_scripts s)(address \<mapsto> script) \<and> parse_script script = Some cmds \<and>
      in_force m (sieve_rules t) rows \<and>
      (\<forall>hdr. exec hdr cmds = filter_actions hdr (map (\<lambda>r. \<lparr>cr_name = sr_name r, cr_match = sr_match r,
         cr_conditions = sr_conditions r, cr_actions = sr_actions r\<rparr>) rows)))"
proof -
  from filter_call_syncs[OF assms(2)] obtain address u x w e where a: "resolveSieveMailbox org m p s = (Inr address, s)"
    and w: "sync env push p m address u = (Inr x, w)" "t = audit_insert e w"
    and u: "table_after m call (sieve_rules s) (sieve_rules u)" "active_scripts u = active_scripts s"
    by blast
  from sync_Inr[OF w(1) assms(1)] w(2) u(2) have t: "sieve_rules t = sieve_rules u"
    "active_scripts t = (active_scripts s)(address \<mapsto> compileScript (enabled_rules m t))"
    using loadRules_cong[of t u m] by (auto simp: enabled_rules_def)
  let ?rows = "filter sr_enabled (loadRules m t)"
  have rows: "in_force m (sieve_rules t) ?rows" by (rule loadRules_in_force)
  have en: "enabled_rules m t = map (\<lambda>r. \<lparr>cr_name = sr_name r, cr_match = sr_match r, cr_conditions = sr_conditions r,
      cr_actions = sr_actions r\<rparr>) ?rows"
    by (simp add: enabled_rules_def row_rule_def)
  have "\<forall>r \<in> set (enabled_rules m t). newline \<notin> set (cr_name r)"
    using assms(3) by (auto simp: en loadRules_def)
  from parse_compiled[OF this] obtain cmds where "parse_script (compileScript (enabled_rules m t)) = Some cmds"
    "\<forall>hdr. exec hdr cmds = filter_actions hdr (enabled_rules m t)"
    by (force simp: exec_require exec_rules)
  with t(2) have "\<exists>script cmds rows. active_scripts t = (active_scripts s)(address \<mapsto> script) \<and> parse_script script = Some cmds \<and>
      in_force m (sieve_rules t) rows \<and>
      (\<forall>hdr. exec hdr cmds = filter_actions hdr (map (\<lambda>r. \<lparr>cr_name = sr_name r, cr_match = sr_match r,
         cr_conditions = sr_conditions r, cr_actions = sr_actions r\<rparr>) rows))"
    using rows unfolding en by blast
  then obtain script cmds rows where r: "active_scripts t = (active_scripts s)(address \<mapsto> script)" "parse_script script = Some cmds"
      "in_force m (sieve_rules t) rows"
      "\<forall>hdr. exec hdr cmds = filter_actions hdr (map (\<lambda>r. \<lparr>cr_name = sr_name r, cr_match = sr_match r,
         cr_conditions = sr_conditions r, cr_actions = sr_actions r\<rparr>) rows)" by blast
  from resolve_address[OF a] obtain mb d where md: "mb \<in> set (mailboxes s)" "mb_id mb = m" "d \<in> set (domains s)"
    "d_id d = mb_domain_id mb" "d_org_id d = org" "address = mb_local_part mb @ ''@'' @ d_name d" by blast
  show ?thesis
    using u(1) unfolding t(1)
    by (rule conjI, intro exI[of _ mb] exI[of _ d] exI[of _ address] exI[of _ script] exI[of _ cmds] exI[of _ rows] conjI)
      (use r md t(1) in simp_all)
qed

text \<open>
  a filter that was deleted can run for ever. When the upload fails while the last enabled
  rule is deleted, the rule is gone but the server keeps the old script; listing the rules,
  which is meant to heal such a difference, does nothing for a mailbox without enabled rules,
  at any later time, for any caller and any state of the server.
\<close>

theorem deleted_filter_keeps_running:
  assumes "resolveSieveMailbox org m p s = (Inr address, s)" "\<exists>r \<in> set (sieve_rules s). sr_id r = i \<and> sr_mailbox_id r = m"
    and "\<forall>r \<in> set (sieve_rules s). sr_mailbox_id r = m \<and> sr_enabled r \<longrightarrow> sr_id r = i"
    and "\<forall>pw sc. \<not> po_stored (push address pw sc) \<and> \<not> po_returned (push address pw sc)"
  shows "\<exists>e t. deleteRule env push p org m i s = (Inl e, t) \<and> enabled_rules m t = [] \<and> active_scripts t = active_scripts s \<and>
    (\<forall>env' push' p' n. active_scripts (snd (listRules env' push' p' org m (t\<lparr>now := n\<rparr>))) = active_scripts s)"
proof -
  let ?u = "drop_rule m i s"
  from sync_failed[of push address env p m ?u] assms(4) obtain e t where
    t: "sync env push p m address ?u = (Inl e, t)" "sieve_rules t = sieve_rules ?u" "active_scripts t = active_scripts ?u" by auto
  have del: "deleteRule env push p org m i s = (Inl e, t)"
    using assms(1,2) t(1) by (auto simp: deleteRule_def bindM_def thenM_def getsM_def modifyM_def throwIf_def returnM_def)
  have none: "enabled_rules m u = []" if "sieve_rules u = sieve_rules ?u" for u :: "'a sieve_sys_scheme"
    using assms(3) that by (auto simp: enabled_rules_def loadRules_def drop_rule_def filter_empty_conv)
  have "active_scripts (snd (listRules env' push' p' org m (t\<lparr>now := n\<rparr>))) = active_scripts s" for env' push' p' n
    using listRules_nothing[OF none surjective_pairing, of "t\<lparr>now := n\<rparr>" env' push' p' org] t by (simp add: drop_rule_def)
  with del none[OF t(2)] t(3) show ?thesis by (auto simp: drop_rule_def)
qed

section \<open>A mailbox with one filter\<close>

definition sieve_demo :: sieve_sys where
  "sieve_demo = \<lparr>now = 0, next_id = 60, organizations = [], users = [ann],
     org_members = [\<lparr>m_org_id = 20, m_user_id = 11, m_role = Owner, m_created_at = 0\<rparr>], sessions = [], api_keys = [],
     domains = [plain_domain 26 20 ''acme.io'' None],
     mailboxes = [ann_box], aliases = [], mail_groups = [], mail_group_members = [], invites = [], webhook_endpoints = [],
     webhook_deliveries = [], audit_logs = [], webauthn_credentials = [], webauthn_challenges = [],
     sys_creds = snd (settings_store rev 600 0 30 ''ann@acme.io'' ''pw2'' (no_creds 0)), sys_pool = empty_pool, sys_watchers = \<lparr>wa_map = [], wa_open = []\<rparr>,
     sieve_rules = [\<lparr>sr_id = 50, sr_org_id = 20, sr_mailbox_id = 30, sr_name = ''all'', sr_priority = 0,
       sr_enabled = True, sr_match = MatchAll, sr_conditions = [], sr_actions = [\<lparr>sa_type = ADiscard, sa_arg = None\<rparr>],
       sr_script_source = [], sr_created_at = 0\<rparr>], sieve_leases = [], active_scripts = (\<lambda>_. Some ''discard;'')\<rparr>"

lemma sieve_demo_resolves: "resolveSieveMailbox 20 30 (as_user 11) sieve_demo = (Inr ''ann@acme.io'', sieve_demo)"
  by (simp add: resolveSieveMailbox_def requireRole_def memberRole_def find_in_org_def svc_simps as_user_def sieve_demo_def ann_box_def)

lemma sieve_demo_creds: "\<exists>t. sieve_creds demo_env 0 30 (drop_rule 30 50 sieve_demo) = (Inr (Some (''ann@acme.io'', ''pw2'')), t)"
proof -
  have "settings_inv (1 + int 599) (no_creds 0)" by (simp add: settings_inv_def no_creds_def)
  from settings_backend.store_then_get[OF this, of "\<lambda>c. Some (rev c)" rev "''pw2''" 0 30 "''ann@acme.io''"] obtain t u where
    t: "settings_store rev 600 0 30 ''ann@acme.io'' ''pw2'' (no_creds 0) = (Inr (), t)"
      "settings_get (\<lambda>c. Some (rev c)) 600 0 30 t = (Inr (Some (''ann@acme.io'', ''pw2'')), u)" by auto
  from t(1) have "c_now t = 0" by (auto simp: settings_store_def modifyM_def put_setting_def no_creds_def)
  then have "t\<lparr>c_now := 0\<rparr> = t" by simp
  with t show ?thesis
    by (simp add: sieve_creds_def on_creds_def cred_get_def demo_env_def sieve_demo_def drop_rule_def)
qed

definition good_push :: pusher where "good_push a pw sc = \<lparr>po_stored = True, po_returned = True\<rparr>"
definition dead_push :: pusher where "dead_push a pw sc = \<lparr>po_stored = False, po_returned = False\<rparr>"

theorem saved_filters_are_active_witness:
  "\<exists>t script cmds. run_filter_call demo_env good_push (as_user 11) 20 30 (RemoveRule 50) sieve_demo = (Inr (), t) \<and>
     sieve_rules t = [] \<and> active_scripts t ''ann@acme.io'' = Some script \<and> parse_script script = Some cmds \<and>
     (\<forall>hdr. exec hdr cmds = filter_actions hdr [])"
proof -
  obtain u where u: "sieve_creds demo_env 0 30 (drop_rule 30 50 sieve_demo) = (Inr (Some (''ann@acme.io'', ''pw2'')), u)"
    using sieve_demo_creds by blast
  have "\<exists>t. run_filter_call demo_env good_push (as_user 11) 20 30 (RemoveRule 50) sieve_demo = (Inr (), t)"
    using u sieve_demo_resolves
    by (simp add: run_filter_call_def deleteRule_def sync_def bindM_def thenM_def getsM_def modifyM_def throwIf_def returnM_def someM_def
        catchM_def pushScript_def good_push_def markReconciled_def audit_log_run as_user_def Let_def) (simp add: demo_env_def sieve_demo_def)
  then obtain t where t: "run_filter_call demo_env good_push (as_user 11) 20 30 (RemoveRule 50) sieve_demo = (Inr (), t)" by blast
  have "honest good_push" by (simp add: honest_def good_push_def)
  from filter_call_syncs[OF t] have "\<exists>u x w e address. sync demo_env good_push (as_user 11) 30 address u = (Inr x, w) \<and> t = audit_insert e w \<and>
      sieve_rules u = []" by (auto simp: table_after_def sieve_demo_def)
  then have none: "sieve_rules t = []" using sync_Inr[OF _ \<open>honest good_push\<close>] by fastforce
  then have one_line: "\<forall>r \<in> set (sieve_rules t). sr_mailbox_id r = 30 \<and> sr_enabled r \<longrightarrow> newline \<notin> set (sr_name r)" by simp
  from saved_filters_are_active[OF \<open>honest good_push\<close> t one_line] obtain mb d script cmds rows where
    m: "mb \<in> set (mailboxes sieve_demo)" "d \<in> set (domains sieve_demo)"
      "active_scripts t = (active_scripts sieve_demo)((mb_local_part mb @ ''@'' @ d_name d) \<mapsto> script)"
      "parse_script script = Some cmds" "in_force 30 (sieve_rules t) rows"
      "\<forall>hdr. exec hdr cmds = filter_actions hdr (map (\<lambda>r. \<lparr>cr_name = sr_name r, cr_match = sr_match r,
         cr_conditions = sr_conditions r, cr_actions = sr_actions r\<rparr>) rows)" by (elim conjE exE) (rule that; blast)
  from m(5) none have "rows = []" by (simp add: in_force_def)
  moreover from m(1,2) have "mb_local_part mb @ ''@'' @ d_name d = ''ann@acme.io''" by (simp add: sieve_demo_def ann_box_def)
  ultimately show ?thesis using t none m(3,4,6) by auto
qed

theorem deleted_filter_keeps_running_witness:
  "\<exists>e t. deleteRule demo_env dead_push (as_user 11) 20 30 50 sieve_demo = (Inl e, t) \<and> enabled_rules 30 t = [] \<and>
     active_scripts (snd (listRules demo_env good_push (as_user 11) 20 30 (t\<lparr>now := 9999999\<rparr>))) ''ann@acme.io'' = Some ''discard;''"
proof -
  have r: "\<exists>r \<in> set (sieve_rules sieve_demo). sr_id r = 50 \<and> sr_mailbox_id r = 30"
    "\<forall>r \<in> set (sieve_rules sieve_demo). sr_mailbox_id r = 30 \<and> sr_enabled r \<longrightarrow> sr_id r = 50"
    "active_scripts sieve_demo ''ann@acme.io'' = Some ''discard;''" by (simp_all add: sieve_demo_def)
  have "\<forall>pw sc. \<not> po_stored (dead_push ''ann@acme.io'' pw sc) \<and> \<not> po_returned (dead_push ''ann@acme.io'' pw sc)"
    by (simp add: dead_push_def)
  from deleted_filter_keeps_running[where push = dead_push, OF sieve_demo_resolves r(1,2) this, of demo_env] r(3) show ?thesis by metis
qed

end
