(* ===== verification/JM_Throttle.thy ===== *)
theory JM_Throttle
  imports JM_Prelude
begin

text \<open>
  The fixed-window rate limiter (\<open>apps/api/src/common/throttler.guard.ts\<close>): counters in Redis
  (\<open>INCR\<close>, \<open>EXPIRE\<close>, \<open>TTL\<close>), or in a map of the process when Redis is not configured or a
  command fails. Which commands of a call fail is an argument.
\<close>

record bucket =
  b_count :: nat
  b_reset_at :: int

record thr =
  t_now :: int
  t_redis :: "string \<Rightarrow> (nat \<times> int option) option"
  t_memory :: "(string \<times> bucket) list"

record redis_faults =
  f_incr :: bool
  f_expire :: bool
  f_ttl :: bool

section \<open>Redis counters\<close>

definition counter :: "thr \<Rightarrow> string \<Rightarrow> (nat \<times> int option) option" where
  "counter s k = Option.bind (t_redis s k) (\<lambda>(c, e). case e of None \<Rightarrow> Some (c, e) | Some t \<Rightarrow> if t_now s < t then Some (c, e) else None)"

definition r_incr :: "string \<Rightarrow> thr \<Rightarrow> nat \<times> thr" where
  "r_incr k s = (case counter s k of
       None \<Rightarrow> (1, s\<lparr>t_redis := (t_redis s)(k \<mapsto> (1, None))\<rparr>)
     | Some (c, e) \<Rightarrow> (Suc c, s\<lparr>t_redis := (t_redis s)(k \<mapsto> (Suc c, e))\<rparr>))"

definition r_expire :: "string \<Rightarrow> int \<Rightarrow> thr \<Rightarrow> thr" where
  "r_expire k ttl s = (case counter s k of
       None \<Rightarrow> s
     | Some (c, e) \<Rightarrow> s\<lparr>t_redis := (t_redis s)(k \<mapsto> (c, Some (t_now s + ttl * 1000)))\<rparr>)"

text \<open>Seconds left, rounded; -1 without expiry, -2 without a key.\<close>

definition r_ttl :: "string \<Rightarrow> thr \<Rightarrow> int" where
  "r_ttl k s = (case counter s k of None \<Rightarrow> - 2 | Some (c, None) \<Rightarrow> - 1 | Some (c, Some t) \<Rightarrow> (t - t_now s + 500) div 1000)"

section \<open>Counting a request\<close>

definition sweep :: "int \<Rightarrow> (string \<times> bucket) list \<Rightarrow> (string \<times> bucket) list" where
  "sweep nw m = filter (\<lambda>(k, b). \<not> b_reset_at b \<le> nw) m"

definition map_set :: "string \<Rightarrow> bucket \<Rightarrow> (string \<times> bucket) list \<Rightarrow> (string \<times> bucket) list" where
  "map_set k b m = (if k \<in> fst ` set m then map (\<lambda>(k', b'). if k' = k then (k', b) else (k', b')) m else m @ [(k, b)])"

definition hitMemory :: "string \<Rightarrow> int \<Rightarrow> thr \<Rightarrow> (nat \<times> int) \<times> thr" where
  "hitMemory key ttl s =
     (let nw = t_now s;
          fresh = (let m = map_set key \<lparr>b_count = 1, b_reset_at = nw + ttl * 1000\<rparr> (t_memory s)
                   in ((1, ttl), s\<lparr>t_memory := (if length m > 50000 then sweep nw m else m)\<rparr>))
      in case map_of (t_memory s) key of
           None \<Rightarrow> fresh
         | Some b \<Rightarrow>
             if b_reset_at b \<le> nw then fresh
             else ((Suc (b_count b), max 1 (- ((- (b_reset_at b - nw)) div 1000))),
                   s\<lparr>t_memory := map_set key (b\<lparr>b_count := Suc (b_count b)\<rparr>) (t_memory s)\<rparr>))"

definition hit :: "bool \<Rightarrow> redis_faults \<Rightarrow> string \<Rightarrow> int \<Rightarrow> thr \<Rightarrow> (nat \<times> int) \<times> thr" where
  "hit useRedis f key ttl s =
     (if \<not> useRedis then hitMemory key ttl s
      else if f_incr f then hitMemory key ttl s
      else case r_incr key s of (count, s1) \<Rightarrow>
        if count = 1 then
          (if f_expire f then hitMemory key ttl s1 else ((count, ttl), r_expire key ttl s1))
        else if f_ttl f then hitMemory key ttl s1
        else let remaining = r_ttl key s1 in ((count, if remaining > 0 then remaining else ttl), s1))"

section \<open>The guard\<close>

record thr_request =
  tq_http :: bool
  tq_skip :: bool
  tq_override :: "(int \<times> int) option" \<comment> \<open>limit and seconds of \<open>@Throttle\<close>\<close>
  tq_route :: string \<comment> \<open>class name, dot, handler name\<close>
  tq_ip :: "string option"
  tq_remote :: "string option"

record thr_config =
  tc_redis :: bool
  tc_global_max :: int
  tc_global_ttl :: int

definition truthy :: "string option \<Rightarrow> string option" where
  "truthy x = (case x of None \<Rightarrow> None | Some v \<Rightarrow> if v = [] then None else Some v)"

definition request_ip :: "thr_request \<Rightarrow> string" where
  "request_ip req = (case truthy (tq_ip req) of Some v \<Rightarrow> v
     | None \<Rightarrow> (case truthy (tq_remote req) of Some v \<Rightarrow> v | None \<Rightarrow> ''unknown''))"

definition throttle_key :: "thr_request \<Rightarrow> string" where
  "throttle_key req = ''throttle:'' @ (case tq_override req of None \<Rightarrow> ''global'' | Some _ \<Rightarrow> tq_route req) @ '':'' @ request_ip req"

text \<open>The headers set on the response, and whether the request goes on.\<close>

definition throttle :: "thr_config \<Rightarrow> redis_faults \<Rightarrow> thr_request \<Rightarrow> thr \<Rightarrow> ((string \<times> string) list \<times> (exn + unit)) \<times> thr" where
  "throttle cfg f req s =
     (if \<not> tq_http req \<or> tq_skip req then (([], Inr ()), s)
      else
        let limit = (case tq_override req of None \<Rightarrow> tc_global_max cfg | Some (l, t) \<Rightarrow> l);
            ttl = (case tq_override req of None \<Rightarrow> tc_global_ttl cfg | Some (l, t) \<Rightarrow> t)
        in case hit (tc_redis cfg) f (throttle_key req) ttl s of ((count, ttlRemaining), s1) \<Rightarrow>
          let hs = [(''X-RateLimit-Limit'', show_int limit), (''X-RateLimit-Remaining'', show_int (max 0 (limit - int count)))]
          in if int count > limit
             then ((hs @ [(''Retry-After'', show_int ttlRemaining)],
                    Inl (HttpException 429 ''Too Many Requests'' (Some ''Rate limit exceeded. Please slow down and try again.''))), s1)
             else ((hs, Inr ()), s1))"

section \<open>The contract of a window counter\<close>

text \<open>
  What both back ends promise: the first request of a key opens a window of \<open>ttl\<close> seconds,
  every further one in it counts up, other keys are not affected, and a window is forgotten
  when its time has passed.
\<close>

locale window_counter =
  fixes count_hit :: "string \<Rightarrow> int \<Rightarrow> 's \<Rightarrow> (nat \<times> int) \<times> 's"
    and window :: "'s \<Rightarrow> string \<Rightarrow> (nat \<times> int) option"
    and clock :: "'s \<Rightarrow> int"
    and pass :: "int \<Rightarrow> 's \<Rightarrow> 's"
    and ok :: "'s \<Rightarrow> bool"
  assumes hit_opens: "ok s \<Longrightarrow> 0 < ttl \<Longrightarrow> window s k = None \<Longrightarrow>
      fst (fst (count_hit k ttl s)) = 1 \<and> window (snd (count_hit k ttl s)) k = Some (1, clock s + ttl * 1000)"
    and hit_counts: "ok s \<Longrightarrow> 0 < ttl \<Longrightarrow> window s k = Some (c, r) \<Longrightarrow>
      fst (fst (count_hit k ttl s)) = Suc c \<and> window (snd (count_hit k ttl s)) k = Some (Suc c, r)"
    and hit_frame: "ok s \<Longrightarrow> 0 < ttl \<Longrightarrow> k' \<noteq> k \<Longrightarrow> window (snd (count_hit k ttl s)) k' = window s k'"
    and hit_ok: "ok s \<Longrightarrow> 0 < ttl \<Longrightarrow> ok (snd (count_hit k ttl s)) \<and> clock (snd (count_hit k ttl s)) = clock s"
    and pass_ok: "ok s \<Longrightarrow> 0 \<le> d \<Longrightarrow> ok (pass d s) \<and> clock (pass d s) = clock s + d"
    and pass_window: "ok s \<Longrightarrow> 0 \<le> d \<Longrightarrow>
      window (pass d s) k = (case window s k of None \<Rightarrow> None | Some (c, r) \<Rightarrow> if clock s + d < r then Some (c, r) else None)"
begin

text \<open>The counts seen by a series of requests of one key, each after some waiting.\<close>

fun burst :: "string \<Rightarrow> int \<Rightarrow> int list \<Rightarrow> 's \<Rightarrow> nat list" where
  "burst k ttl [] s = []"
| "burst k ttl (d # ds) s = (let x = count_hit k ttl (pass d s) in fst (fst x) # burst k ttl ds (snd x))"

lemma burst_counts:
  assumes "ok s" "0 < ttl" "window s k = Some (c, r)" "\<forall>d \<in> set ds. 0 \<le> d" "clock s + sum_list ds < r"
  shows "burst k ttl ds s = [Suc c ..< Suc c + length ds]"
  using assms
proof (induction ds arbitrary: s c)
  case (Cons d ds)
  have sum: "0 \<le> sum_list ds" using Cons(5) by (intro sum_list_nonneg) auto
  have p: "ok (pass d s)" "clock (pass d s) = clock s + d" using pass_ok[of s d] Cons by auto
  have w: "window (pass d s) k = Some (c, r)" using pass_window[of s d k] Cons sum by simp
  note h = hit_counts[OF p(1) Cons(3) w] hit_ok[OF p(1) Cons(3), of k]
  have "burst k ttl ds (snd (count_hit k ttl (pass d s))) = [Suc (Suc c) ..< Suc (Suc c) + length ds]"
    using Cons h p by (intro Cons(1)[where c = "Suc c"]) auto
  with h show ?case using upt_conv_Cons[of "Suc c" "Suc c + length (d # ds)"] by (simp add: Let_def del: upt_Suc)
qed simp

lemma window_counts:
  assumes "ok s" "0 < ttl" "window s k = None" "\<forall>d \<in> set (d # ds). 0 \<le> d" "sum_list ds < ttl * 1000"
  shows "burst k ttl (d # ds) s = [1 ..< Suc (Suc (length ds))]"
proof -
  have p: "ok (pass d s)" "clock (pass d s) = clock s + d" using pass_ok[of s d] assms by auto
  have w: "window (pass d s) k = None" using pass_window[of s d k] assms by simp
  note h = hit_opens[OF p(1) assms(2) w] hit_ok[OF p(1) assms(2), of k]
  have "burst k ttl ds (snd (count_hit k ttl (pass d s))) = [Suc 1 ..< Suc 1 + length ds]"
    using h p assms by (intro burst_counts[where r = "clock (pass d s) + ttl * 1000"]) auto
  with h show ?thesis using upt_conv_Cons[of 1 "Suc (Suc (length ds))"] by (simp add: Let_def del: upt_Suc)
qed

end

section \<open>Both back ends are window counters\<close>

definition pass_time :: "int \<Rightarrow> thr \<Rightarrow> thr" where
  "pass_time d s = s\<lparr>t_now := t_now s + d\<rparr>"

subsection \<open>The map of the process\<close>

definition mem_window :: "thr \<Rightarrow> string \<Rightarrow> (nat \<times> int) option" where
  "mem_window s k = Option.bind (map_of (t_memory s) k) (\<lambda>b. if t_now s < b_reset_at b then Some (b_count b, b_reset_at b) else None)"

definition mem_ok :: "thr \<Rightarrow> bool" where
  "mem_ok s \<longleftrightarrow> distinct (map fst (t_memory s))"

lemma map_of_replace:
  "map_of (map (\<lambda>(j, b'). if j = k then (j, b) else (j, b')) m) i = (if i = k then map_option (\<lambda>_. b) (map_of m k) else map_of m i)"
proof (induction m)
  case (Cons x m)
  then show ?case by (cases x; cases "i = k") simp_all
qed simp

lemma map_set_of: "map_of (map_set k b m) i = (if i = k then Some b else map_of m i)"
proof (cases "map_of m k")
  case None
  then have "k \<notin> fst ` set m" by (simp add: map_of_eq_None_iff)
  with None show ?thesis by (simp add: map_set_def map_add_def split: option.split)
next
  case (Some b')
  then have "k \<in> fst ` set m" by (metis map_of_eq_None_iff option.distinct(1))
  with Some show ?thesis by (simp add: map_set_def map_of_replace)
qed

lemma map_set_keys: "distinct (map fst m) \<Longrightarrow> distinct (map fst (map_set k b m))"
proof -
  have "map fst (map (\<lambda>(k', b'). if k' = k then (k', b) else (k', b')) m) = map fst m" by (induction m) auto
  moreover assume "distinct (map fst m)"
  ultimately show ?thesis by (simp add: map_set_def del: map_map)
qed

lemma sweep_of:
  "distinct (map fst m) \<Longrightarrow> map_of (sweep nw m) k = Option.bind (map_of m k) (\<lambda>b. if b_reset_at b \<le> nw then None else Some b)"
proof (induction m)
  case (Cons x m)
  then have "fst x \<notin> fst ` set (sweep nw m)" by (auto simp: sweep_def)
  then have "map_of (sweep nw m) (fst x) = None" by (simp add: map_of_eq_None_iff)
  with Cons show ?case by (cases x) (auto simp: sweep_def)
qed (simp add: sweep_def)

lemma sweep_keys: "distinct (map fst m) \<Longrightarrow> distinct (map fst (sweep nw m))"
  by (auto simp: sweep_def distinct_map_filter)

interpretation memory: window_counter hitMemory mem_window t_now pass_time mem_ok
proof
  fix s :: thr and k :: string and ttl :: int
  assume ok: "mem_ok s" and ttl: "0 < ttl"
  define m where "m = map_set k \<lparr>b_count = 1, b_reset_at = t_now s + ttl * 1000\<rparr> (t_memory s)"
  have m: "distinct (map fst m)" using ok by (simp add: m_def mem_ok_def map_set_keys)
  define s1 where "s1 = s\<lparr>t_memory := (if length m > 50000 then sweep (t_now s) m else m)\<rparr>"
  have opens: "hitMemory k ttl s = ((1, ttl), s1)" if "mem_window s k = None"
    using that by (auto simp: hitMemory_def mem_window_def s1_def m_def Let_def not_less split: option.splits if_splits)
  have swept: "mem_window (s\<lparr>t_memory := sweep (t_now s) m\<rparr>) i = mem_window (s\<lparr>t_memory := m\<rparr>) i" for i
    by (cases "map_of m i") (auto simp: mem_window_def sweep_of[OF m])
  have "mem_window (s\<lparr>t_memory := m\<rparr>) i = (if i = k then Some (1, t_now s + ttl * 1000) else mem_window s i)" for i
    using ttl by (simp add: mem_window_def m_def map_set_of)
  with swept have s1: "mem_window s1 i = (if i = k then Some (1, t_now s + ttl * 1000) else mem_window s i)" for i
    by (simp add: s1_def)
  have ok1: "mem_ok s1" "t_now s1 = t_now s" using m by (auto simp: mem_ok_def s1_def sweep_keys)
  have counts: "\<exists>x. hitMemory k ttl s = ((Suc c, x), s\<lparr>t_memory := map_set k (b\<lparr>b_count := Suc c\<rparr>) (t_memory s)\<rparr>)"
    if "map_of (t_memory s) k = Some b" "b_count b = c" "t_now s < b_reset_at b" for b c
    using that by (simp add: hitMemory_def Let_def)
  {
    assume "mem_window s k = None"
    with opens s1 show "fst (fst (hitMemory k ttl s)) = 1 \<and> mem_window (snd (hitMemory k ttl s)) k = Some (1, t_now s + ttl * 1000)" by simp
  next
    fix c r assume "mem_window s k = Some (c, r)"
    then obtain b where b: "map_of (t_memory s) k = Some b" "b_count b = c" "b_reset_at b = r" "t_now s < r"
      by (auto simp: mem_window_def split: bind_splits if_splits)
    with counts[of b c] show "fst (fst (hitMemory k ttl s)) = Suc c \<and> mem_window (snd (hitMemory k ttl s)) k = Some (Suc c, r)"
      by (auto simp: mem_window_def map_set_of)
  next
    show "mem_ok (snd (hitMemory k ttl s)) \<and> t_now (snd (hitMemory k ttl s)) = t_now s"
    proof (cases "mem_window s k")
      case None
      with opens ok1 show ?thesis by simp
    next
      case (Some w)
      then obtain b where "map_of (t_memory s) k = Some b" "t_now s < b_reset_at b"
        by (auto simp: mem_window_def split: bind_splits if_splits)
      with counts[of b] ok show ?thesis by (auto simp: mem_ok_def map_set_keys)
    qed
  next
    fix k' assume ne: "k' \<noteq> k"
    show "mem_window (snd (hitMemory k ttl s)) k' = mem_window s k'"
    proof (cases "mem_window s k")
      case None
      with opens s1 ne show ?thesis by simp
    next
      case (Some w)
      then obtain b where "map_of (t_memory s) k = Some b" "t_now s < b_reset_at b"
        by (auto simp: mem_window_def split: bind_splits if_splits)
      with counts[of b] ne show ?thesis by (auto simp: mem_window_def map_set_of)
    qed
  }
next
  fix s :: thr and d :: int and k
  assume "mem_ok s" "0 \<le> d"
  then show "mem_ok (pass_time d s) \<and> t_now (pass_time d s) = t_now s + d" by (simp add: mem_ok_def pass_time_def)
  from \<open>0 \<le> d\<close> show "mem_window (pass_time d s) k = (case mem_window s k of None \<Rightarrow> None | Some (c, r) \<Rightarrow> if t_now s + d < r then Some (c, r) else None)"
    by (auto simp: mem_window_def pass_time_def split: bind_splits option.splits if_splits)
qed

subsection \<open>Redis\<close>

definition no_faults :: redis_faults where
  "no_faults = \<lparr>f_incr = False, f_expire = False, f_ttl = False\<rparr>"

definition redis_window :: "thr \<Rightarrow> string \<Rightarrow> (nat \<times> int) option" where
  "redis_window s k = (case counter s k of Some (c, Some r) \<Rightarrow> Some (c, r) | _ \<Rightarrow> None)"

text \<open>Every counter has been counted up and has an expiry.\<close>

definition redis_ok :: "thr \<Rightarrow> bool" where
  "redis_ok s \<longleftrightarrow> (\<forall>k c e. t_redis s k = Some (c, e) \<longrightarrow> 0 < c \<and> e \<noteq> None)"

lemma redis_hit:
  assumes "redis_ok s" "0 < ttl"
  shows "redis_window s k = None \<Longrightarrow> hit True no_faults k ttl s = ((1, ttl), s\<lparr>t_redis := (t_redis s)(k \<mapsto> (1, Some (t_now s + ttl * 1000)))\<rparr>)"
    and "redis_window s k = Some (c, r) \<Longrightarrow>
      \<exists>x. hit True no_faults k ttl s = ((Suc c, x), s\<lparr>t_redis := (t_redis s)(k \<mapsto> (Suc c, Some r))\<rparr>) \<and> t_now s < r \<and> t_redis s k = Some (c, Some r)"
proof -
  assume "redis_window s k = None"
  moreover have "counter s k \<noteq> Some (c, None)" for c :: nat
    using assms(1) by (auto simp: counter_def redis_ok_def split: bind_splits option.splits if_splits)
  ultimately have "counter s k = None" by (cases "counter s k") (fastforce simp: redis_window_def split: option.splits)+
  then show "hit True no_faults k ttl s = ((1, ttl), s\<lparr>t_redis := (t_redis s)(k \<mapsto> (1, Some (t_now s + ttl * 1000)))\<rparr>)"
    by (simp add: hit_def no_faults_def r_incr_def r_expire_def counter_def)
next
  assume "redis_window s k = Some (c, r)"
  then have "counter s k = Some (c, Some r)" by (auto simp: redis_window_def split: option.splits)
  moreover from this have "t_redis s k = Some (c, Some r)" "t_now s < r"
    by (auto simp: counter_def split: bind_splits option.splits if_splits)
  moreover from this assms(1) have "0 < c" by (auto simp: redis_ok_def)
  ultimately show "\<exists>x. hit True no_faults k ttl s = ((Suc c, x), s\<lparr>t_redis := (t_redis s)(k \<mapsto> (Suc c, Some r))\<rparr>) \<and> t_now s < r \<and> t_redis s k = Some (c, Some r)"
    by (simp add: hit_def no_faults_def r_incr_def Let_def)
qed

lemma redis_window_upd:
  "redis_window (s\<lparr>t_redis := (t_redis s)(k \<mapsto> (c, Some r))\<rparr>) k' =
     (if k' = k then (if t_now s < r then Some (c, r) else None) else redis_window s k')"
proof -
  have "t_redis s k' = Some (a, e) \<Longrightarrow> ?thesis" for a e
    by (cases e) (simp_all add: redis_window_def counter_def)
  moreover have "t_redis s k' = None \<Longrightarrow> ?thesis" by (simp add: redis_window_def counter_def)
  ultimately show ?thesis by (cases "t_redis s k'") auto
qed

interpretation redis: window_counter "hit True no_faults" redis_window t_now pass_time redis_ok
proof
  fix s :: thr and k :: string and ttl :: int
  assume ok: "redis_ok s" and ttl: "0 < ttl"
  note h = redis_hit[OF ok ttl]
  {
    assume "redis_window s k = None"
    with h(1) ttl show "fst (fst (hit True no_faults k ttl s)) = 1 \<and> redis_window (snd (hit True no_faults k ttl s)) k = Some (1, t_now s + ttl * 1000)"
      by (simp add: redis_window_upd)
  next
    fix c r assume "redis_window s k = Some (c, r)"
    from h(2)[OF this] show "fst (fst (hit True no_faults k ttl s)) = Suc c \<and> redis_window (snd (hit True no_faults k ttl s)) k = Some (Suc c, r)"
      by (auto simp: redis_window_upd)
  next
    have keeps: "0 < c \<Longrightarrow> redis_ok (s\<lparr>t_redis := (t_redis s)(k \<mapsto> (c, Some r))\<rparr>)" for c r
      using ok by (simp add: redis_ok_def)
    show "redis_ok (snd (hit True no_faults k ttl s)) \<and> t_now (snd (hit True no_faults k ttl s)) = t_now s"
    proof (cases "redis_window s k")
      case None
      with h(1) keeps show ?thesis by simp
    next
      case (Some w)
      with h(2)[of k "fst w" "snd w"] keeps show ?thesis by auto
    qed
  next
    fix k' assume "k' \<noteq> k"
    then show "redis_window (snd (hit True no_faults k ttl s)) k' = redis_window s k'"
      using h(1)[of k] h(2)[of k] by (cases "redis_window s k") (fastforce simp: redis_window_upd)+
  }
next
  fix s :: thr and d :: int and k
  assume ok: "redis_ok s" "0 \<le> d"
  then show "redis_ok (pass_time d s) \<and> t_now (pass_time d s) = t_now s + d" by (simp add: redis_ok_def pass_time_def)
  from ok show "redis_window (pass_time d s) k = (case redis_window s k of None \<Rightarrow> None | Some (c, r) \<Rightarrow> if t_now s + d < r then Some (c, r) else None)"
    by (auto simp: redis_window_def counter_def pass_time_def redis_ok_def split: bind_splits option.splits if_splits)
qed

section \<open>What the guard admits\<close>

definition thr_limit :: "thr_config \<Rightarrow> thr_request \<Rightarrow> int" where
  "thr_limit cfg req = (case tq_override req of None \<Rightarrow> tc_global_max cfg | Some (l, t) \<Rightarrow> l)"

definition thr_ttl :: "thr_config \<Rightarrow> thr_request \<Rightarrow> int" where
  "thr_ttl cfg req = (case tq_override req of None \<Rightarrow> tc_global_ttl cfg | Some (l, t) \<Rightarrow> t)"

definition thr_window :: "thr_config \<Rightarrow> thr \<Rightarrow> string \<Rightarrow> (nat \<times> int) option" where
  "thr_window cfg s k = (if tc_redis cfg then redis_window s k else mem_window s k)"

definition thr_ok :: "thr_config \<Rightarrow> thr \<Rightarrow> bool" where
  "thr_ok cfg s = (if tc_redis cfg then redis_ok s else mem_ok s)"

text \<open>The same request sent again and again, each time after waiting: which ones go on.\<close>

fun throttle_burst :: "thr_config \<Rightarrow> thr_request \<Rightarrow> int list \<Rightarrow> thr \<Rightarrow> bool list" where
  "throttle_burst cfg req [] s = []"
| "throttle_burst cfg req (d # ds) s =
     (case throttle cfg no_faults req (pass_time d s) of ((_, r), s1) \<Rightarrow> (r = Inr ()) # throttle_burst cfg req ds s1)"

lemma throttle_by_hit:
  assumes "tq_http req" "\<not> tq_skip req"
  shows "snd (throttle cfg f req s) = snd (hit (tc_redis cfg) f (throttle_key req) (thr_ttl cfg req) s)"
    and "snd (fst (throttle cfg f req s)) = Inr () \<longleftrightarrow>
      int (fst (fst (hit (tc_redis cfg) f (throttle_key req) (thr_ttl cfg req) s))) \<le> thr_limit cfg req"
  using assms by (auto simp: throttle_def thr_ttl_def thr_limit_def Let_def split: prod.splits)

lemma throttle_burst_redis:
  assumes "tq_http req" "\<not> tq_skip req" "tc_redis cfg"
  shows "throttle_burst cfg req ds s = map (\<lambda>c. int c \<le> thr_limit cfg req) (redis.burst (throttle_key req) (thr_ttl cfg req) ds s)"
proof (induction ds arbitrary: s)
  case (Cons d ds)
  note t = throttle_by_hit[OF assms(1,2), of cfg no_faults "pass_time d s"]
  have "throttle_burst cfg req (d # ds) s =
    (snd (fst (throttle cfg no_faults req (pass_time d s))) = Inr ()) # throttle_burst cfg req ds (snd (throttle cfg no_faults req (pass_time d s)))"
    by (simp split: prod.split)
  also have "\<dots> = map (\<lambda>c. int c \<le> thr_limit cfg req) (redis.burst (throttle_key req) (thr_ttl cfg req) (d # ds) s)"
    unfolding t Cons by (simp add: assms(3) Let_def)
  finally show ?case .
qed simp

lemma throttle_burst_memory:
  assumes "tq_http req" "\<not> tq_skip req" "\<not> tc_redis cfg"
  shows "throttle_burst cfg req ds s = map (\<lambda>c. int c \<le> thr_limit cfg req) (memory.burst (throttle_key req) (thr_ttl cfg req) ds s)"
proof (induction ds arbitrary: s)
  case (Cons d ds)
  note t = throttle_by_hit[OF assms(1,2), of cfg no_faults "pass_time d s"]
  have "throttle_burst cfg req (d # ds) s =
    (snd (fst (throttle cfg no_faults req (pass_time d s))) = Inr ()) # throttle_burst cfg req ds (snd (throttle cfg no_faults req (pass_time d s)))"
    by (simp split: prod.split)
  also have "\<dots> = map (\<lambda>c. int c \<le> thr_limit cfg req) (memory.burst (throttle_key req) (thr_ttl cfg req) (d # ds) s)"
    unfolding t Cons by (simp add: assms(3) hit_def Let_def)
  finally show ?case .
qed simp

lemma within_limit_prefix:
  "map (\<lambda>c. int c \<le> l) [1 ..< Suc n] = replicate (min n (nat l)) True @ replicate (n - nat l) False"
proof (intro nth_equalityI)
  fix i assume "i < length (map (\<lambda>c. int c \<le> l) [1 ..< Suc n])"
  then have "i < n" by (simp del: upt_Suc)
  then show "map (\<lambda>c. int c \<le> l) [1 ..< Suc n] ! i = (replicate (min n (nat l)) True @ replicate (n - nat l) False) ! i"
    by (auto simp: nth_append simp del: upt_Suc)
qed auto

text \<open>C36: With either back end, the first requests of a fresh window are let through up to the
  limit of the route and every further one before the window closes is refused with 429.\<close>

theorem window_admits_exactly_the_limit:
  assumes "tq_http req" "\<not> tq_skip req" "thr_ok cfg s" "0 < thr_ttl cfg req"
    and "thr_window cfg s (throttle_key req) = None"
    and "\<forall>d \<in> set (d0 # ds). 0 \<le> d" "sum_list ds < thr_ttl cfg req * 1000"
  shows "throttle_burst cfg req (d0 # ds) s =
    replicate (min (length (d0 # ds)) (nat (thr_limit cfg req))) True @ replicate (length (d0 # ds) - nat (thr_limit cfg req)) False"
proof (cases "tc_redis cfg")
  case True
  with assms have "redis.burst (throttle_key req) (thr_ttl cfg req) (d0 # ds) s = [1 ..< Suc (length (d0 # ds))]"
    using redis.window_counts[of s "thr_ttl cfg req" "throttle_key req" d0 ds] by (simp add: thr_ok_def thr_window_def)
  then show ?thesis unfolding throttle_burst_redis[OF assms(1,2) True] by (simp only: within_limit_prefix)
next
  case False
  with assms have "memory.burst (throttle_key req) (thr_ttl cfg req) (d0 # ds) s = [1 ..< Suc (length (d0 # ds))]"
    using memory.window_counts[of s "thr_ttl cfg req" "throttle_key req" d0 ds] by (simp add: thr_ok_def thr_window_def)
  then show ?thesis unfolding throttle_burst_memory[OF assms(1,2) False] by (simp only: within_limit_prefix)
qed

definition idle_thr :: thr where
  "idle_thr = \<lparr>t_now = 5, t_redis = (\<lambda>_. None), t_memory = []\<rparr>"

definition login_route :: thr_request where
  "login_route = \<lparr>tq_http = True, tq_skip = False, tq_override = Some (2, 60), tq_route = ''AuthController.login'', tq_ip = Some ''10.0.0.1'', tq_remote = None\<rparr>"

definition redis_config :: thr_config where
  "redis_config = \<lparr>tc_redis = True, tc_global_max = 300, tc_global_ttl = 60\<rparr>"

lemma window_admits_exactly_the_limit_witness:
  "throttle_burst redis_config login_route [3, 1000, 2000] idle_thr = [True, True, False]"
  using window_admits_exactly_the_limit[of login_route redis_config idle_thr 3 "[1000, 2000]"]
  by (simp add: login_route_def redis_config_def idle_thr_def thr_ok_def redis_ok_def thr_ttl_def thr_limit_def
      thr_window_def redis_window_def counter_def numeral_2_eq_2)

subsection \<open>A counter that lost its expiry\<close>

lemma hit_stuck:
  assumes "t_redis s k = Some (c, None)" "0 < c"
  shows "fst (fst (hit True no_faults k ttl (pass_time d s))) = Suc c"
    and "t_redis (snd (hit True no_faults k ttl (pass_time d s))) k = Some (Suc c, None)"
  using assms by (simp_all add: hit_def no_faults_def r_incr_def counter_def pass_time_def Let_def)

lemma burst_stuck:
  "t_redis s k = Some (c, None) \<Longrightarrow> 0 < c \<Longrightarrow> redis.burst k ttl ds s = [Suc c ..< Suc c + length ds]"
proof (induction ds arbitrary: s c)
  case (Cons d ds)
  note h = hit_stuck[OF Cons(2,3), of ttl d]
  have "redis.burst k ttl ds (snd (hit True no_faults k ttl (pass_time d s))) = [Suc (Suc c) ..< Suc (Suc c) + length ds]"
    by (rule Cons(1)[OF h(2)]) simp
  with h show ?case using upt_conv_Cons[of "Suc c" "Suc c + length (d # ds)"] by (simp add: Let_def del: upt_Suc)
qed simp

text \<open>\<open>INCR\<close> and \<open>EXPIRE\<close> are two commands. When the second one fails on the first request of a
  window the counter stays without an expiry, and from then on the client is refused once the
  limit is used up, however long it waits between its requests.\<close>

theorem lost_expiry_throttles_for_ever:
  assumes "tq_http req" "\<not> tq_skip req" "tc_redis cfg" "t_redis s (throttle_key req) = None"
    and "f_incr f = False" "f_expire f = True"
  shows "throttle_burst cfg req ds (snd (throttle cfg f req s)) = map (\<lambda>c. int c \<le> thr_limit cfg req) [2 ..< 2 + length ds]"
proof -
  have "t_redis (snd (hitMemory k ttl s')) = t_redis s'" for k ttl s'
    by (simp add: hitMemory_def Let_def split: option.split)
  then have "t_redis (snd (throttle cfg f req s)) (throttle_key req) = Some (1, None)"
    unfolding throttle_by_hit(1)[OF assms(1,2)] using assms(3-) by (simp add: hit_def r_incr_def counter_def)
  from burst_stuck[OF this] show ?thesis unfolding throttle_burst_redis[OF assms(1-3)] by (simp add: numeral_2_eq_2)
qed

lemma lost_expiry_throttles_for_ever_witness:
  "throttle_burst redis_config login_route [10000000, 10000000, 10000000]
     (snd (throttle redis_config \<lparr>f_incr = False, f_expire = True, f_ttl = False\<rparr> login_route idle_thr)) = [True, False, False]"
  using lost_expiry_throttles_for_ever[of login_route redis_config idle_thr "\<lparr>f_incr = False, f_expire = True, f_ttl = False\<rparr>" "[10000000, 10000000, 10000000]"]
  by (simp add: login_route_def redis_config_def idle_thr_def thr_limit_def upt_rec)

end
