(* ===== verification/JM_DomainModel.thy ===== *)
theory JM_DomainModel
  imports JM_Tenant JM_Webhooks
begin

text \<open>
  \<open>DomainsService\<close> (\<open>apps/api/src/domains/domains.service.ts\<close>) with the BIMI helpers
  (\<open>domains/bimi.ts\<close>) and the tenant prefix of \<open>StorageService\<close>
  (\<open>storage/storage.service.ts\<close>): the domains of an organization, the DNS records they are
  expected to publish, proof of ownership, and the brand logo.

  The table \<open>dns_records\<close> and the object store (full key to body) extend the database. The
  resolver's answer, the random verification token, UTF-8 decoding and base64 are arguments.
\<close>

section \<open>State\<close>

record dns_row =
  dr_id :: uuid
  dr_domain_id :: uuid
  dr_purpose :: string
  dr_type :: string
  dr_name :: string
  dr_content :: string
  dr_ttl :: int
  dr_priority :: "int option"
  dr_managed :: bool
  dr_provider_record_id :: "string option"
  dr_observed_content :: "string option"
  dr_check_status :: string
  dr_last_checked_at :: "timestamp option"
  dr_created_at :: timestamp
  dr_updated_at :: timestamp

record dom_db = db +
  dns_records :: "dns_row list"
  objects :: "string \<Rightarrow> string option"

record dom_env =
  de_web_host :: "string option" \<comment> \<open>\<open>JM_WEB_HOST\<close>\<close>
  de_public_ip4 :: string \<comment> \<open>\<open>JM_PUBLIC_IP4\<close>, empty when unset\<close>
  de_utf8 :: "string \<Rightarrow> string"
  de_base64 :: "string \<Rightarrow> string"
  de_put_fails :: bool
  de_remove_fails :: bool

section \<open>The storage prefix\<close>

definition storage_key :: "uuid \<Rightarrow> string \<Rightarrow> string" where
  "storage_key orgId path =
     join ''/'' (''org'' # show_nat orgId # filter (\<lambda>p. p \<noteq> [] \<and> p \<noteq> ''..'') (split_on CHR ''/'' path))"

section \<open>Templates of the expected records\<close>

record seed_record =
  sr_purpose :: string
  sr_type :: string
  sr_name :: string
  sr_content :: string
  sr_ttl :: int
  sr_priority :: "int option"

definition SEED_RECORDS :: "seed_record list" where
  "SEED_RECORDS =
    [\<lparr>sr_purpose = ''verification'', sr_type = ''TXT'', sr_name = ''_justmail-verify.${DOMAIN}'',
       sr_content = ''justmail-verify=${TOKEN}'', sr_ttl = 300, sr_priority = None\<rparr>,
     \<lparr>sr_purpose = ''mx'', sr_type = ''MX'', sr_name = ''${DOMAIN}'', sr_content = ''mail.${MAIL_ROOT}'', sr_ttl = 3600, sr_priority = Some 10\<rparr>,
     \<lparr>sr_purpose = ''spf'', sr_type = ''TXT'', sr_name = ''${DOMAIN}'', sr_content = ''v=spf1 mx include:${MAIL_ROOT} ~all'',
       sr_ttl = 3600, sr_priority = None\<rparr>,
     \<lparr>sr_purpose = ''dmarc'', sr_type = ''TXT'', sr_name = ''_dmarc.${DOMAIN}'',
       sr_content = ''v=DMARC1; p=quarantine; rua=mailto:dmarc@${DOMAIN}; ruf=mailto:dmarc@${DOMAIN}; fo=1'', sr_ttl = 3600, sr_priority = None\<rparr>,
     \<lparr>sr_purpose = ''mta_sts'', sr_type = ''TXT'', sr_name = ''_mta-sts.${DOMAIN}'', sr_content = ''v=STSv1; id=${TOKEN}'', sr_ttl = 3600, sr_priority = None\<rparr>,
     \<lparr>sr_purpose = ''tls_rpt'', sr_type = ''TXT'', sr_name = ''_smtp._tls.${DOMAIN}'',
       sr_content = ''v=TLSRPTv1; rua=mailto:tls-rpt@${DOMAIN}'', sr_ttl = 3600, sr_priority = None\<rparr>,
     \<lparr>sr_purpose = ''autoconfig'', sr_type = ''CNAME'', sr_name = ''autoconfig.${DOMAIN}'', sr_content = ''autoconfig.${MAIL_ROOT}'',
       sr_ttl = 3600, sr_priority = None\<rparr>,
     \<lparr>sr_purpose = ''autodiscover'', sr_type = ''CNAME'', sr_name = ''autodiscover.${DOMAIN}'', sr_content = ''autodiscover.${MAIL_ROOT}'',
       sr_ttl = 3600, sr_priority = None\<rparr>,
     \<lparr>sr_purpose = ''bimi'', sr_type = ''TXT'', sr_name = ''default._bimi.${DOMAIN}'',
       sr_content = ''v=BIMI1; l=https://${DOMAIN}/.well-known/bimi-logo.svg; a='', sr_ttl = 3600, sr_priority = None\<rparr>,
     \<lparr>sr_purpose = ''caa'', sr_type = ''CAA'', sr_name = ''${DOMAIN}'',
       sr_content = ''0 issue '' @ [CHR 0x22] @ ''letsencrypt.org'' @ [CHR 0x22], sr_ttl = 3600, sr_priority = None\<rparr>]"

definition MAIL_HOST_A_RECORDS :: "(string \<times> string) list" where
  "MAIL_HOST_A_RECORDS =
    [(''custom'', ''mail.${MAIL_ROOT}''), (''autoconfig'', ''autoconfig.${MAIL_ROOT}''),
     (''autodiscover'', ''autodiscover.${MAIL_ROOT}''), (''mta_sts'', ''mta-sts.${MAIL_ROOT}'')]"

text \<open>\<open>s.replace(re, v)\<close> for a global expression without special characters; \<open>v\<close> has no \<open>$\<close>.\<close>

fun replace_all :: "string \<Rightarrow> string \<Rightarrow> string \<Rightarrow> string" where
  "replace_all pat v [] = []"
| "replace_all pat v (c # cs) =
     (if pat \<noteq> [] \<and> startsWith (c # cs) pat then v @ replace_all pat v (drop (length pat - 1) cs) else c # replace_all pat v cs)"

definition subst_tmpl :: "string \<Rightarrow> string \<Rightarrow> string \<Rightarrow> string \<Rightarrow> string" where
  "subst_tmpl name token mailRoot s =
     replace_all ''${MAIL_ROOT}'' mailRoot (replace_all ''${TOKEN}'' token (replace_all ''${DOMAIN}'' name s))"

definition extractRoot :: "string \<Rightarrow> string" where
  "extractRoot host =
     (let parts = split_on CHR ''.'' host
      in if length parts \<ge> 2 then join ''.'' (drop (length parts - 2) parts) else host)"

definition mailRoot :: "dom_env \<Rightarrow> string" where
  "mailRoot env = extractRoot (case de_web_host env of None \<Rightarrow> ''justmail.local'' | Some h \<Rightarrow> h)"

text \<open>\<open>INSERT INTO dns_records ... ON CONFLICT DO NOTHING\<close>.\<close>

definition insert_dns ::
  "uuid \<Rightarrow> string \<Rightarrow> string \<Rightarrow> string \<Rightarrow> string \<Rightarrow> int \<Rightarrow> int option \<Rightarrow> 'z dom_db_scheme \<Rightarrow> 'z dom_db_scheme" where
  "insert_dns dm purpose ty name content ttl prio s =
     (if \<exists>r \<in> set (dns_records s). dr_domain_id r = dm \<and> dr_purpose r = purpose \<and> dr_name r = name \<and> dr_type r = ty then s
      else s\<lparr>dns_records := dns_records s @
               [\<lparr>dr_id = next_id s, dr_domain_id = dm, dr_purpose = purpose, dr_type = ty, dr_name = name, dr_content = content,
                 dr_ttl = ttl, dr_priority = prio, dr_managed = True, dr_provider_record_id = None, dr_observed_content = None,
                 dr_check_status = ''unknown'', dr_last_checked_at = None, dr_created_at = now s, dr_updated_at = now s\<rparr>],
             next_id := next_id s + 1\<rparr>)"

definition seedMailHostRecords :: "dom_env \<Rightarrow> uuid \<Rightarrow> 'z dom_db_scheme \<Rightarrow> 'z dom_db_scheme" where
  "seedMailHostRecords env dm s =
     (if de_public_ip4 env = [] then s
      else fold (\<lambda>(purpose, name). insert_dns dm purpose ''A'' (replace_all ''${MAIL_ROOT}'' (mailRoot env) name) (de_public_ip4 env) 3600 None)
             MAIL_HOST_A_RECORDS s)"

definition seed_one :: "uuid \<Rightarrow> string \<Rightarrow> string \<Rightarrow> string \<Rightarrow> seed_record \<Rightarrow> 'z dom_db_scheme \<Rightarrow> 'z dom_db_scheme" where
  "seed_one dm name token root r =
     (if name = root \<and> (sr_purpose r = ''autoconfig'' \<or> sr_purpose r = ''autodiscover'') then id
      else insert_dns dm (sr_purpose r) (sr_type r) (subst_tmpl name token root (sr_name r))
             (if sr_purpose r = ''spf'' \<and> name = root then ''v=spf1 mx ~all'' else subst_tmpl name token root (sr_content r))
             (sr_ttl r) (sr_priority r))"

definition seedDnsRecords :: "dom_env \<Rightarrow> uuid \<Rightarrow> string \<Rightarrow> string \<Rightarrow> 'z dom_db_scheme \<Rightarrow> 'z dom_db_scheme" where
  "seedDnsRecords env dm name token s =
     (let s1 = fold (seed_one dm name token (mailRoot env)) SEED_RECORDS s
      in if name = mailRoot env then seedMailHostRecords env dm s1 else s1)"

section \<open>Domains\<close>

record domain_dto =
  dd_id :: uuid
  dd_org_id :: uuid
  dd_name :: string
  dd_status :: string
  dd_verification_token :: string
  dd_is_primary :: bool
  dd_catch_all_target :: "string option"
  dd_max_mailboxes :: "int option"
  dd_max_quota_mb :: "int option"
  dd_outbound_mode :: outbound_mode
  dd_retention_days :: "int option"
  dd_mailbox_count :: nat
  dd_created_at :: timestamp

definition mailbox_count :: "'z dom_db_scheme \<Rightarrow> uuid \<Rightarrow> nat" where
  "mailbox_count s dm = length (filter (\<lambda>m. mb_domain_id m = dm) (mailboxes s))"

definition toDomain :: "domain_row \<Rightarrow> nat \<Rightarrow> domain_dto" where
  "toDomain r n = \<lparr>dd_id = d_id r, dd_org_id = d_org_id r, dd_name = d_name r, dd_status = d_status r,
     dd_verification_token = d_verification_token r, dd_is_primary = d_is_primary r, dd_catch_all_target = d_catch_all_target r,
     dd_max_mailboxes = d_max_mailboxes r, dd_max_quota_mb = d_max_quota_mb r, dd_outbound_mode = d_outbound_mode r,
     dd_retention_days = None, dd_mailbox_count = n, dd_created_at = d_created_at r\<rparr>"

record create_domain_request =
  cd_name :: string
  cd_is_primary :: "bool option"

text \<open>Every field of the update may be absent; the nullable ones may also be set to null.\<close>

record update_domain_request =
  ud_is_primary :: "bool option"
  ud_catch_all_target :: "string option option"
  ud_max_mailboxes :: "int option option"
  ud_max_quota_mb :: "int option option"
  ud_outbound_mode :: "outbound_mode option"
  ud_retention_days :: "int option option"
  ud_status :: "string option"

definition listDomains :: "uuid \<Rightarrow> uuid \<Rightarrow> ('z dom_db_scheme, domain_dto list) svc" where
  "listDomains orgId userId =
     thenM (requireRole orgId userId Viewer)
     (getsM (\<lambda>s. map (\<lambda>d. toDomain d (mailbox_count s (d_id d)))
        (sort_key d_created_at (filter (\<lambda>d. d_org_id d = orgId) (domains s)))))"

definition getDomain :: "uuid \<Rightarrow> uuid \<Rightarrow> uuid \<Rightarrow> ('z dom_db_scheme, domain_dto) svc" where
  "getDomain orgId domainId userId =
     thenM (requireRole orgId userId Viewer)
     (bindM (getsM (\<lambda>s. (find (\<lambda>d. d_id d = domainId \<and> d_org_id d = orgId) (domains s), mailbox_count s domainId))) (\<lambda>(row, n).
      bindM (someM row (NotFoundException ''Domain not found'' None)) (\<lambda>d. returnM (toDomain d n))))"

definition clear_primary :: "uuid \<Rightarrow> uuid option \<Rightarrow> 'z dom_db_scheme \<Rightarrow> 'z dom_db_scheme" where
  "clear_primary orgId except s =
     s\<lparr>domains := map (\<lambda>d. if d_org_id d = orgId \<and> Some (d_id d) \<noteq> except \<and> d_is_primary d then d\<lparr>d_is_primary := False\<rparr> else d) (domains s)\<rparr>"

text \<open>\<open>INSERT INTO domains\<close>: the organization must exist and the name is unique (\<open>citext\<close>).\<close>

definition insert_domain :: "uuid \<Rightarrow> string \<Rightarrow> bool option \<Rightarrow> string \<Rightarrow> ('z dom_db_scheme, uuid) svc" where
  "insert_domain orgId name primary token = (\<lambda>s.
     if orgId \<notin> o_id ` set (organizations s) then (Inl (DbError ''23503''), s)
     else if \<exists>d \<in> set (domains s). ci_eq (d_name d) name then (Inl (DbError ''23505''), s)
     else (Inr (next_id s),
           s\<lparr>domains := domains s @
               [\<lparr>d_id = next_id s, d_org_id = orgId, d_name = name, d_status = ''pending_verification'', d_max_mailboxes = None,
                 d_verification_token = token, d_is_primary = (case primary of None \<Rightarrow> False | Some b \<Rightarrow> b), d_catch_all_target = None,
                 d_max_quota_mb = None, d_outbound_mode = Inherit, d_bimi_logo_key = None,
                 d_created_at = now s, d_updated_at = now s\<rparr>],
             next_id := next_id s + 1\<rparr>))"

definition createDomain ::
  "dom_env \<Rightarrow> string \<Rightarrow> principal \<Rightarrow> uuid \<Rightarrow> create_domain_request \<Rightarrow> string option \<Rightarrow> ('z dom_db_scheme, domain_dto) svc" where
  "createDomain env token p orgId req ip =
     thenM (requireRole orgId (p_user_id p) Admin)
     (let name = toLowerCase (cd_name req) in
      bindM (catchM (tx
          (thenM (if cd_is_primary req = Some True then modifyM (clear_primary orgId None) else returnM ())
          (bindM (insert_domain orgId name (cd_is_primary req) token) (\<lambda>i.
           thenM (modifyM (seedDnsRecords env i name token)) (returnM i)))))
        (unique_to_conflict ''Domain already in use'')) (\<lambda>i.
      thenM (audit_log (user_entry (Some orgId) p ''domain.create'' ''domain'' i ip [(''name'', JStr name)]))
      (getDomain orgId i (p_user_id p))))"

definition apply_domain_update :: "update_domain_request \<Rightarrow> timestamp \<Rightarrow> domain_row \<Rightarrow> domain_row" where
  "apply_domain_update req nw d =
     d\<lparr>d_is_primary := (case ud_is_primary req of None \<Rightarrow> d_is_primary d | Some b \<Rightarrow> b),
       d_catch_all_target := (case ud_catch_all_target req of None \<Rightarrow> d_catch_all_target d | Some v \<Rightarrow> v),
       d_max_mailboxes := (case ud_max_mailboxes req of None \<Rightarrow> d_max_mailboxes d | Some v \<Rightarrow> v),
       d_max_quota_mb := (case ud_max_quota_mb req of None \<Rightarrow> d_max_quota_mb d | Some v \<Rightarrow> v),
       d_outbound_mode := (case ud_outbound_mode req of None \<Rightarrow> d_outbound_mode d | Some v \<Rightarrow> v),
       d_status := (case ud_status req of None \<Rightarrow> d_status d | Some v \<Rightarrow> v),
       d_updated_at := nw\<rparr>"

definition write_domain :: "uuid \<Rightarrow> (timestamp \<Rightarrow> domain_row \<Rightarrow> domain_row) \<Rightarrow> 'z dom_db_scheme \<Rightarrow> 'z dom_db_scheme" where
  "write_domain i f s = s\<lparr>domains := map (\<lambda>d. if d_id d = i then f (now s) d else d) (domains s)\<rparr>"

text \<open>
  The table has no column \<open>retention_days\<close>: an update that sets it is refused by the database as a whole.
\<close>

definition updateDomain ::
  "principal \<Rightarrow> uuid \<Rightarrow> uuid \<Rightarrow> update_domain_request \<Rightarrow> json \<Rightarrow> string option \<Rightarrow> ('z dom_db_scheme, domain_dto) svc" where
  "updateDomain p orgId domainId req meta ip =
     thenM (requireRole orgId (p_user_id p) Admin)
     (thenM (getDomain orgId domainId (p_user_id p))
     (thenM (tx (thenM (if ud_is_primary req = Some True then modifyM (clear_primary orgId (Some domainId)) else returnM ())
                (if ud_retention_days req \<noteq> None then throwM (DbError ''42703'')
                 else modifyM (write_domain domainId (apply_domain_update req)))))
     (thenM (audit_log (user_entry (Some orgId) p ''domain.update'' ''domain'' domainId ip [(''meta'', meta)]))
     (getDomain orgId domainId (p_user_id p)))))"

text \<open>\<open>DELETE FROM domains\<close> with its cascades, the DNS records included.\<close>

definition delete_domain :: "uuid \<Rightarrow> 'z dom_db_scheme \<Rightarrow> 'z dom_db_scheme" where
  "delete_domain i s =
     (delete_domains (\<lambda>d. d_id d = i) s)\<lparr>dns_records := filter (\<lambda>r. dr_domain_id r \<noteq> i) (dns_records s)\<rparr>"

definition removeDomain :: "principal \<Rightarrow> uuid \<Rightarrow> uuid \<Rightarrow> string option \<Rightarrow> ('z dom_db_scheme, unit) svc" where
  "removeDomain p orgId domainId ip =
     thenM (requireRole orgId (p_user_id p) Admin)
     (bindM (getDomain orgId domainId (p_user_id p)) (\<lambda>domain.
      thenM (throwIf (dd_mailbox_count domain > 0) (ConflictException ''Domain has mailboxes'' (Some ''Delete mailboxes first.'')))
     (thenM (modifyM (delete_domain domainId))
     (audit_log (user_entry (Some orgId) p ''domain.delete'' ''domain'' domainId ip [(''name'', JStr (dd_name domain))])))))"

section \<open>Proof of ownership\<close>

record dns_dto =
  nd_id :: uuid
  nd_purpose :: string
  nd_type :: string
  nd_name :: string
  nd_content :: string
  nd_ttl :: int
  nd_priority :: "int option"
  nd_observed_content :: "string option"
  nd_check_status :: string
  nd_last_checked_at :: "timestamp option"

definition toDns :: "dns_row \<Rightarrow> dns_dto" where
  "toDns r = \<lparr>nd_id = dr_id r, nd_purpose = dr_purpose r, nd_type = dr_type r, nd_name = dr_name r, nd_content = dr_content r,
     nd_ttl = dr_ttl r, nd_priority = dr_priority r, nd_observed_content = dr_observed_content r,
     nd_check_status = dr_check_status r, nd_last_checked_at = dr_last_checked_at r\<rparr>"

definition getDns ::
  "(string \<Rightarrow> 'k :: linorder) \<Rightarrow> dom_env \<Rightarrow> uuid \<Rightarrow> uuid \<Rightarrow> uuid \<Rightarrow> ('z dom_db_scheme, dns_dto list) svc" where
  "getDns coll env orgId domainId userId =
     thenM (requireRole orgId userId Viewer)
     (bindM (getDomain orgId domainId userId) (\<lambda>domain.
      thenM (if dd_name domain = mailRoot env \<and> de_public_ip4 env \<noteq> [] then modifyM (seedMailHostRecords env domainId) else returnM ())
      (getsM (\<lambda>s. map toDns (sort_key (\<lambda>r. coll (dr_purpose r)) (sort_key (\<lambda>r. coll (dr_name r))
         (filter (\<lambda>r. dr_domain_id r = domainId) (dns_records s))))))))"

text \<open>The answer of \<open>resolveTxt\<close>: the message of an error, or the records with their chunks.\<close>

type_synonym txt_answer = "string + string list list"

definition txt_proves :: "string \<Rightarrow> txt_answer \<Rightarrow> bool" where
  "txt_proves token ans = (case ans of Inl _ \<Rightarrow> False | Inr records \<Rightarrow> (''justmail-verify='' @ token) \<in> set (map concat records))"

definition txt_observed :: "txt_answer \<Rightarrow> string" where
  "txt_observed ans = (case ans of Inl msg \<Rightarrow> msg | Inr records \<Rightarrow> join ''; '' (map concat records))"

definition mark_checked :: "uuid \<Rightarrow> string \<Rightarrow> string \<Rightarrow> 'z dom_db_scheme \<Rightarrow> 'z dom_db_scheme" where
  "mark_checked dm status observed s =
     s\<lparr>dns_records := map (\<lambda>r. if dr_domain_id r = dm \<and> dr_purpose r = ''verification''
          then r\<lparr>dr_check_status := status, dr_observed_content := Some observed, dr_last_checked_at := Some (now s)\<rparr> else r) (dns_records s)\<rparr>"

definition next_status :: "bool \<Rightarrow> string \<Rightarrow> string" where
  "next_status ok status = (if ok then ''active'' else if status = ''active'' then ''active'' else ''verifying'')"

definition verifyDomain ::
  "(string \<Rightarrow> 'k :: linorder) \<Rightarrow> dom_env \<Rightarrow> (string \<Rightarrow> txt_answer) \<Rightarrow> principal \<Rightarrow> uuid \<Rightarrow> uuid \<Rightarrow> string option
     \<Rightarrow> ('z dom_db_scheme, string \<times> dns_dto list) svc" where
  "verifyDomain coll env resolveTxt p orgId domainId ip =
     thenM (requireRole orgId (p_user_id p) Member)
     (bindM (getDomain orgId domainId (p_user_id p)) (\<lambda>domain.
      let ans = resolveTxt (''_justmail-verify.'' @ dd_name domain);
          ok = txt_proves (dd_verification_token domain) ans;
          observed = txt_observed ans;
          nextStatus = next_status ok (dd_status domain)
      in thenM (tx (thenM (modifyM (mark_checked domainId (if ok then ''ok'' else if observed \<noteq> [] then ''drifted'' else ''missing'') observed))
                   (if dd_status domain \<noteq> nextStatus
                    then modifyM (write_domain domainId (\<lambda>nw d. d\<lparr>d_status := nextStatus, d_updated_at := nw\<rparr>)) else returnM ())))
        (thenM (audit_log (user_entry (Some orgId) p ''domain.verify'' ''domain'' domainId ip [(''ok'', JBool ok), (''status'', JStr nextStatus)]))
        (thenM (if ok \<and> dd_status domain \<noteq> ''active''
                then emit orgId ''domain.verified'' (JObj [(''id'', JStr (show_nat domainId)), (''name'', JStr (dd_name domain))]) else returnM ())
        (bindM (getDns coll env orgId domainId (p_user_id p)) (\<lambda>records. returnM (nextStatus, records)))))))"

section \<open>Brand logos\<close>

definition BIMI_MAX_BYTES :: nat where
  "BIMI_MAX_BYTES = 32 * 1024"

text \<open>Regular expressions of \<open>validateBimiSvg\<close>: does some suffix start with a match?\<close>

fun some_suffix :: "(string \<Rightarrow> bool) \<Rightarrow> string \<Rightarrow> bool" where
  "some_suffix P [] = P []"
| "some_suffix P (c # cs) = (P (c # cs) \<or> some_suffix P cs)"

definition after :: "string \<Rightarrow> string \<Rightarrow> string option" where
  "after pre s = (if startsWith (toLowerCase (take (length pre) s)) (toLowerCase pre) \<and> length pre \<le> length s then Some (drop (length pre) s) else None)"

definition is_word :: "char \<Rightarrow> bool" where
  "is_word c = (let n = of_char c :: nat in 48 \<le> n \<and> n \<le> 57 \<or> 65 \<le> n \<and> n \<le> 90 \<or> 97 \<le> n \<and> n \<le> 122 \<or> n = 95)"

text \<open>\<open><name[\s/>]\<close>; the slash is in the class only for some tags.\<close>

definition opens_tag :: "string \<Rightarrow> bool \<Rightarrow> string \<Rightarrow> bool" where
  "opens_tag name slash = some_suffix (\<lambda>s. case after (CHR ''<'' # name) s of
     Some (c # cs) \<Rightarrow> js_space c \<or> c = CHR ''>'' \<or> slash \<and> c = CHR ''/'' | _ \<Rightarrow> False)"

text \<open>\<open>\son\w+\s*=\<close>\<close>

definition has_handler :: "string \<Rightarrow> bool" where
  "has_handler = some_suffix (\<lambda>s. case s of [] \<Rightarrow> False | c # cs \<Rightarrow> js_space c \<and>
     (case after ''on'' cs of None \<Rightarrow> False
      | Some r \<Rightarrow> takeWhile is_word r \<noteq> [] \<and> startsWith (dropWhile js_space (dropWhile is_word r)) ''=''))"

text \<open>\<open>(?:xlink:href|href)\s*=\s*["'](?:https?:|\/\/|data:)\<close>; the first alternative is a suffix of the second.\<close>

definition has_remote_ref :: "string \<Rightarrow> bool" where
  "has_remote_ref = some_suffix (\<lambda>s. case after ''href'' s of None \<Rightarrow> False
     | Some r \<Rightarrow> (case dropWhile js_space r of
         [] \<Rightarrow> False
       | e # r1 \<Rightarrow> e = CHR ''='' \<and> (case dropWhile js_space r1 of
            [] \<Rightarrow> False
          | q # r2 \<Rightarrow> (q = CHR 0x22 \<or> q = CHR 0x27) \<and>
              (after ''http:'' r2 \<noteq> None \<or> after ''https:'' r2 \<noteq> None \<or> after ''//'' r2 \<noteq> None \<or> after ''data:'' r2 \<noteq> None))))"

text \<open>\<open><!DOCTYPE[^>]+\[\<close>\<close>

definition has_entities :: "string \<Rightarrow> bool" where
  "has_entities s = (some_suffix (\<lambda>s. after ''<!ENTITY'' s \<noteq> None) s \<or>
     some_suffix (\<lambda>s. case after ''<!DOCTYPE'' s of None \<Rightarrow> False | Some r \<Rightarrow> CHR ''['' \<in> set (drop 1 (takeWhile (\<lambda>c. c \<noteq> CHR ''>'') r))) s)"

definition validateBimiSvg :: "(string \<Rightarrow> string) \<Rightarrow> string \<Rightarrow> string option \<Rightarrow> string option" where
  "validateBimiSvg utf8 body contentType =
     (let ct = (case contentType of None \<Rightarrow> [] | Some c \<Rightarrow> c); svg = utf8 body in
      if ct \<noteq> [] \<and> \<not> startsWith (toLowerCase ct) ''image/svg+xml'' then Some (''Logo must be image/svg+xml, got '' @ ct)
      else if body = [] then Some ''Logo is empty''
      else if length body > BIMI_MAX_BYTES
        then Some (''Logo is '' @ show_nat (length body) @ '' bytes; the limit is '' @ show_nat BIMI_MAX_BYTES)
      else if \<not> opens_tag ''svg'' False svg then Some ''File does not contain an <svg> root element''
      else if opens_tag ''script'' True svg then Some ''SVG must not contain <script>''
      else if opens_tag ''foreignObject'' True svg then Some ''SVG must not contain <foreignObject>''
      else if has_handler svg then Some ''SVG must not contain inline event handlers (on*)''
      else if has_remote_ref svg then Some ''SVG must not reference external or data: URLs''
      else if has_entities svg then Some ''SVG must not declare entities (XXE risk)''
      else None)"

definition bimiLogoUrl :: "string \<Rightarrow> string" where
  "bimiLogoUrl dmn = ''https://'' @ dmn @ ''/'' @ ''.well-known/bimi-logo.svg''"

definition bimiRecordContent :: "string \<Rightarrow> string" where
  "bimiRecordContent dmn = ''v=BIMI1; l='' @ bimiLogoUrl dmn @ ''; a=''"

text \<open>\<open>(?:^|;)\s*p\s*=\s*([a-z]+)\<close>, ignoring case: the leftmost match.\<close>

definition is_alpha :: "char \<Rightarrow> bool" where
  "is_alpha c = (let n = of_char c :: nat in 65 \<le> n \<and> n \<le> 90 \<or> 97 \<le> n \<and> n \<le> 122)"

definition policy_at :: "string \<Rightarrow> string option" where
  "policy_at s = Option.bind (after ''p'' (dropWhile js_space s)) (\<lambda>r.
     Option.bind (after ''='' (dropWhile js_space r)) (\<lambda>v.
       let w = takeWhile is_alpha (dropWhile js_space v) in if w = [] then None else Some w))"

fun policy_scan :: "bool \<Rightarrow> string \<Rightarrow> string option" where
  "policy_scan here [] = (if here then policy_at [] else None)"
| "policy_scan here (c # cs) =
     (case (if here then policy_at (c # cs) else None) of Some v \<Rightarrow> Some v | None \<Rightarrow> policy_scan (c = CHR '';'') cs)"

definition dmarcPolicy :: "string option \<Rightarrow> string option" where
  "dmarcPolicy content = (case content of None \<Rightarrow> None | Some c \<Rightarrow> if c = [] then None else map_option toLowerCase (policy_scan True c))"

definition bimiDmarcOk :: "string option \<Rightarrow> bool" where
  "bimiDmarcOk policy = (policy = Some ''quarantine'' \<or> policy = Some ''reject'')"

record bimi_status =
  bs_has_logo :: bool
  bs_record :: string
  bs_logo_url :: string
  bs_logo_data_url :: "string option"
  bs_dmarc_policy :: "string option"
  bs_dmarc_ok :: bool

definition bimiStorageKey :: "uuid \<Rightarrow> string" where
  "bimiStorageKey domainId = ''bimi/'' @ show_nat domainId @ ''.svg''"

definition streamToBuffer :: "uuid \<Rightarrow> string \<Rightarrow> 'z dom_db_scheme \<Rightarrow> string option" where
  "streamToBuffer orgId key s = Option.bind (objects s (storage_key orgId key)) (\<lambda>b. if length b > 256 * 1024 then None else Some b)"

definition getBimi :: "dom_env \<Rightarrow> uuid \<Rightarrow> uuid \<Rightarrow> uuid \<Rightarrow> ('z dom_db_scheme, bimi_status) svc" where
  "getBimi env orgId domainId userId =
     thenM (requireRole orgId userId Viewer)
     (bindM (getsM (\<lambda>s. find (\<lambda>d. d_id d = domainId \<and> d_org_id d = orgId) (domains s))) (\<lambda>row.
      bindM (someM row (NotFoundException ''Domain not found'' None)) (\<lambda>d.
      getsM (\<lambda>s.
        let policy = dmarcPolicy (map_option dr_content (find (\<lambda>r. dr_domain_id r = domainId \<and> dr_purpose r = ''dmarc'') (dns_records s)));
            data = (case d_bimi_logo_key d of None \<Rightarrow> None
                    | Some key \<Rightarrow> if key = [] then None
                        else map_option (\<lambda>b. ''data:image/svg+xml;base64,'' @ de_base64 env b) (streamToBuffer orgId key s))
        in \<lparr>bs_has_logo = (d_bimi_logo_key d \<noteq> None), bs_record = bimiRecordContent (d_name d), bs_logo_url = bimiLogoUrl (d_name d),
            bs_logo_data_url = data, bs_dmarc_policy = policy, bs_dmarc_ok = bimiDmarcOk policy\<rparr>))))"

definition uploadBimi ::
  "dom_env \<Rightarrow> principal \<Rightarrow> uuid \<Rightarrow> uuid \<Rightarrow> string \<Rightarrow> string option \<Rightarrow> string option \<Rightarrow> ('z dom_db_scheme, bimi_status) svc" where
  "uploadBimi env p orgId domainId body contentType ip =
     thenM (requireRole orgId (p_user_id p) Admin)
     (thenM (getDomain orgId domainId (p_user_id p))
     (thenM (case validateBimiSvg (de_utf8 env) body contentType of
               Some reason \<Rightarrow> throwM (BadRequestException ''Invalid BIMI logo'' (Some reason)) | None \<Rightarrow> returnM ())
     (let key = bimiStorageKey domainId in
      thenM (throwIf (de_put_fails env) (HttpException 500 ''Error'' None))
     (thenM (modifyM (\<lambda>s. s\<lparr>objects := (objects s)(storage_key orgId key \<mapsto> body)\<rparr>))
     (thenM (modifyM (write_domain domainId (\<lambda>nw d. d\<lparr>d_bimi_logo_key := Some key, d_updated_at := nw\<rparr>)))
     (thenM (audit_log (user_entry (Some orgId) p ''domain.bimi.upload'' ''domain'' domainId ip [(''bytes'', JNum (int (length body)))]))
     (getBimi env orgId domainId (p_user_id p))))))))"

definition removeBimi ::
  "dom_env \<Rightarrow> principal \<Rightarrow> uuid \<Rightarrow> uuid \<Rightarrow> string option \<Rightarrow> ('z dom_db_scheme, bimi_status) svc" where
  "removeBimi env p orgId domainId ip =
     thenM (requireRole orgId (p_user_id p) Admin)
     (bindM (getsM (\<lambda>s. find (\<lambda>d. d_id d = domainId \<and> d_org_id d = orgId) (domains s))) (\<lambda>row.
      bindM (someM row (NotFoundException ''Domain not found'' None)) (\<lambda>d.
      thenM (case d_bimi_logo_key d of
               None \<Rightarrow> returnM ()
             | Some key \<Rightarrow> if key = [] then returnM ()
                 else thenM (modifyM (\<lambda>s. if de_remove_fails env then s else s\<lparr>objects := (objects s)(storage_key orgId key := None)\<rparr>))
                     (thenM (modifyM (write_domain domainId (\<lambda>nw d. d\<lparr>d_bimi_logo_key := None, d_updated_at := nw\<rparr>)))
                     (audit_log (user_entry (Some orgId) p ''domain.bimi.remove'' ''domain'' domainId ip []))))
      (getBimi env orgId domainId (p_user_id p)))))"

definition bimiLogoForHost :: "string \<Rightarrow> 'z dom_db_scheme \<Rightarrow> (uuid \<times> string) option" where
  "bimiLogoForHost host s =
     (case find (\<lambda>d. ci_eq (d_name d) (toLowerCase host) \<and> d_status d = ''active'') (domains s) of
        None \<Rightarrow> None
      | Some d \<Rightarrow> (case d_bimi_logo_key d of None \<Rightarrow> None | Some key \<Rightarrow> if key = [] then None else Some (d_org_id d, key)))"

definition bimiStream :: "uuid \<Rightarrow> string \<Rightarrow> 'z dom_db_scheme \<Rightarrow> string option" where
  "bimiStream orgId key s = objects s (storage_key orgId key)"

end
