(* ===== verification/JM_Domains.thy ===== *)
theory JM_Domains
  imports JM_DomainModel
begin

text \<open>
  What the domain service guarantees: its invariants over every run, the effect of creation and
  verification, and the ways around verification. The definitions are in \<open>JM_DomainModel\<close>.
\<close>

section \<open>Invariants of the component\<close>

definition one_primary :: "domain_row list \<Rightarrow> bool" where
  "one_primary ds \<longleftrightarrow> (\<forall>d \<in> set ds. \<forall>d' \<in> set ds. d_is_primary d \<and> d_is_primary d' \<and> d_org_id d = d_org_id d' \<longrightarrow> d_id d = d_id d')"

definition domains_ok :: "uuid \<Rightarrow> domain_row list \<Rightarrow> bool" where
  "domains_ok n ds \<longleftrightarrow>
     ids_below n (map d_id ds) \<and> distinct (map (\<lambda>d. toLowerCase (d_name d)) ds) \<and> one_primary ds \<and>
     (\<forall>d \<in> set ds. d_bimi_logo_key d = None \<or> d_bimi_logo_key d = Some (bimiStorageKey (d_id d)))"

definition dns_key :: "dns_row \<Rightarrow> uuid \<times> string \<times> string \<times> string" where
  "dns_key r = (dr_domain_id r, dr_purpose r, dr_name r, dr_type r)"

definition valid_logo :: "(string \<Rightarrow> string) \<Rightarrow> string \<Rightarrow> bool" where
  "valid_logo utf8 body \<longleftrightarrow> validateBimiSvg utf8 body None = None"

definition dom_inv :: "(string \<Rightarrow> string) \<Rightarrow> 'z dom_db_scheme \<Rightarrow> bool" where
  "dom_inv utf8 s \<longleftrightarrow>
     domains_ok (next_id s) (domains s) \<and> distinct (map dns_key (dns_records s)) \<and>
     (\<forall>org i body. objects s (storage_key org (bimiStorageKey i)) = Some body \<longrightarrow> valid_logo utf8 body)"

lemma domains_ok_mono: "domains_ok n ds \<Longrightarrow> n \<le> m \<Longrightarrow> domains_ok m ds"
  by (auto simp: domains_ok_def ids_below_def)

lemma domains_ok_filter: "domains_ok n ds \<Longrightarrow> domains_ok n (filter P ds)"
proof -
  have "one_primary ds \<Longrightarrow> one_primary (filter P ds)" unfolding one_primary_def by auto
  then show "domains_ok n ds \<Longrightarrow> ?thesis" by (auto simp: domains_ok_def ids_below_filter distinct_map_filter)
qed

text \<open>Rewriting rows keeps the invariant when keys stay and no row becomes primary.\<close>

lemma domains_ok_map:
  assumes "domains_ok n ds"
    and "\<And>d. d_id (f d) = d_id d" "\<And>d. d_org_id (f d) = d_org_id d" "\<And>d. d_name (f d) = d_name d"
    and "\<And>d. d_is_primary (f d) \<Longrightarrow> d_is_primary d"
    and "\<And>d. d \<in> set ds \<Longrightarrow> d_bimi_logo_key (f d) = None \<or> d_bimi_logo_key (f d) = d_bimi_logo_key d \<or> d_bimi_logo_key (f d) = Some (bimiStorageKey (d_id d))"
  shows "domains_ok n (map f ds)"
proof -
  have "one_primary (map f ds)" if "one_primary ds"
    using that unfolding one_primary_def set_map ball_simps assms(2,3) by (metis assms(5))
  moreover have "\<forall>d \<in> set ds. d_bimi_logo_key (f d) = None \<or> d_bimi_logo_key (f d) = Some (bimiStorageKey (d_id d))"
    using assms(1,6) unfolding domains_ok_def by metis
  ultimately show ?thesis using assms(1) by (auto simp: domains_ok_def o_def assms(2,4))
qed

text \<open>Making one row primary is sound once the other primary rows of its organization are cleared.\<close>

lemma domains_ok_promote:
  assumes "domains_ok n ds" and "\<And>d. d \<in> set ds \<Longrightarrow> d_id d = i \<Longrightarrow> d_org_id d = org"
    and "\<And>d. d_id (f d) = d_id d" "\<And>d. d_org_id (f d) = d_org_id d" "\<And>d. d_name (f d) = d_name d" "\<And>d. d_bimi_logo_key (f d) = d_bimi_logo_key d"
    and "\<And>d. d_is_primary (f d) \<Longrightarrow> d_id d = i \<or> d_is_primary d \<and> d_org_id d \<noteq> org"
  shows "domains_ok n (map f ds)"
proof -
  have "one_primary (map f ds)" if "one_primary ds"
    using that assms(2) unfolding one_primary_def set_map ball_simps assms(3,4) by (metis assms(7))
  then show ?thesis using assms(1) by (auto simp: domains_ok_def o_def assms(3,5,6))
qed

lemma domains_ok_insert:
  assumes "domains_ok n ds" "d_id d = n" "\<forall>x \<in> set ds. \<not> ci_eq (d_name x) (d_name d)" "d_bimi_logo_key d = None"
    and "\<forall>x \<in> set ds. d_is_primary d \<and> d_is_primary x \<longrightarrow> d_org_id x \<noteq> d_org_id d"
  shows "domains_ok (n + 1) (ds @ [d])"
proof -
  have "one_primary (ds @ [d])" if "one_primary ds"
    using that assms(5) unfolding one_primary_def set_append ball_Un list.set ball_simps by (intro conjI) metis+
  moreover have "ids_below (n + 1) (map d_id (ds @ [d]))" using assms(1,2) ids_below_snoc[of n "map d_id ds"] by (simp add: domains_ok_def)
  ultimately show ?thesis using assms by (auto simp: domains_ok_def ci_eq_def)
qed

lemma insert_dns_frame [simp]:
  "domains (insert_dns dm pu ty nm co ttl pr s) = domains s" "objects (insert_dns dm pu ty nm co ttl pr s) = objects s"
  "organizations (insert_dns dm pu ty nm co ttl pr s) = organizations s" "org_members (insert_dns dm pu ty nm co ttl pr s) = org_members s"
  "api_keys (insert_dns dm pu ty nm co ttl pr s) = api_keys s" "now (insert_dns dm pu ty nm co ttl pr s) = now s"
  "mailboxes (insert_dns dm pu ty nm co ttl pr s) = mailboxes s" "webhook_deliveries (insert_dns dm pu ty nm co ttl pr s) = webhook_deliveries s"
  by (simp_all add: insert_dns_def)

lemma write_domain_frame [simp]:
  "next_id (write_domain i f s) = next_id s" "dns_records (write_domain i f s) = dns_records s" "objects (write_domain i f s) = objects s"
  "organizations (write_domain i f s) = organizations s" "org_members (write_domain i f s) = org_members s"
  "api_keys (write_domain i f s) = api_keys s" "now (write_domain i f s) = now s" "mailboxes (write_domain i f s) = mailboxes s"
  "webhook_endpoints (write_domain i f s) = webhook_endpoints s" "webhook_deliveries (write_domain i f s) = webhook_deliveries s"
  "domains (write_domain i f s) = map (\<lambda>d. if d_id d = i then f (now s) d else d) (domains s)"
  by (simp_all add: write_domain_def)

lemma clear_primary_frame [simp]:
  "next_id (clear_primary org ex s) = next_id s" "dns_records (clear_primary org ex s) = dns_records s"
  "objects (clear_primary org ex s) = objects s" "now (clear_primary org ex s) = now s"
  "organizations (clear_primary org ex s) = organizations s" "org_members (clear_primary org ex s) = org_members s"
  "api_keys (clear_primary org ex s) = api_keys s" "mailboxes (clear_primary org ex s) = mailboxes s"
  "domains (clear_primary org ex s) =
     map (\<lambda>d. if d_org_id d = org \<and> Some (d_id d) \<noteq> ex \<and> d_is_primary d then d\<lparr>d_is_primary := False\<rparr> else d) (domains s)"
  by (simp_all add: clear_primary_def)

lemma mark_checked_frame [simp]:
  "next_id (mark_checked i st ob s) = next_id s" "domains (mark_checked i st ob s) = domains s"
  "objects (mark_checked i st ob s) = objects s" "now (mark_checked i st ob s) = now s"
  "organizations (mark_checked i st ob s) = organizations s" "org_members (mark_checked i st ob s) = org_members s"
  "api_keys (mark_checked i st ob s) = api_keys s" "mailboxes (mark_checked i st ob s) = mailboxes s"
  "webhook_endpoints (mark_checked i st ob s) = webhook_endpoints s" "webhook_deliveries (mark_checked i st ob s) = webhook_deliveries s"
  by (simp_all add: mark_checked_def)

lemma mark_checked_keys [simp]: "map dns_key (dns_records (mark_checked i st ob s)) = map dns_key (dns_records s)"
  by (simp add: mark_checked_def dns_key_def)

lemma dom_inv_insert_dns: "dom_inv u s \<Longrightarrow> dom_inv u (insert_dns dm pu ty nm co ttl pr s)"
  by (simp add: dom_inv_def insert_dns_def dns_key_def domains_ok_mono[where n = "next_id s"] image_iff) blast

lemma dom_inv_seed_hosts: "dom_inv u s \<Longrightarrow> dom_inv u (seedMailHostRecords env dm s)"
  by (auto simp: seedMailHostRecords_def MAIL_HOST_A_RECORDS_def intro!: dom_inv_insert_dns)

lemma dom_inv_seed: "dom_inv u s \<Longrightarrow> dom_inv u (seedDnsRecords env dm name token s)"
proof -
  assume i: "dom_inv u s"
  have "dom_inv u s' \<Longrightarrow> dom_inv u (fold (seed_one dm name token root) rs s')" for rs root and s' :: "'a dom_db_scheme"
    by (induction rs arbitrary: s') (auto simp: seed_one_def intro!: dom_inv_insert_dns)
  with i show ?thesis by (auto simp: seedDnsRecords_def Let_def intro!: dom_inv_seed_hosts)
qed

lemma dom_inv_audit: "dom_inv u s \<Longrightarrow> dom_inv u (audit_insert e s)"
  by (auto simp: dom_inv_def audit_insert_def intro: domains_ok_mono)

lemma preserves_audit_dom [preserve_intro]: "preserves (dom_inv u) (audit_log e)"
  unfolding audit_log_def by (intro preserve_intro dom_inv_audit)

lemma dom_inv_write:
  assumes "dom_inv u s"
    and "\<And>nw d. d_id (f nw d) = d_id d \<and> d_org_id (f nw d) = d_org_id d \<and> d_name (f nw d) = d_name d \<and> (d_is_primary (f nw d) \<longrightarrow> d_is_primary d)"
    and "\<And>nw d. d_id d = i \<Longrightarrow> d_bimi_logo_key (f nw d) = None \<or> d_bimi_logo_key (f nw d) = d_bimi_logo_key d \<or> d_bimi_logo_key (f nw d) = Some (bimiStorageKey i)"
  shows "dom_inv u (write_domain i f s)"
proof -
  have "domains_ok (next_id s) (map (\<lambda>d. if d_id d = i then f (now s) d else d) (domains s))"
    using assms by (intro domains_ok_map) (auto simp: dom_inv_def split: if_splits)
  with assms(1) show ?thesis by (simp add: dom_inv_def)
qed

lemma readonly_getDomain [readonly_intro]: "readonly (getDomain org dm uid)"
  unfolding getDomain_def by (auto intro!: readonly_intro split: prod.split)

lemma readonly_getBimi [readonly_intro]: "readonly (getBimi env org dm uid)"
  unfolding getBimi_def by (intro readonly_intro)

lemma getDomain_Inr:
  "getDomain org dm uid s = (Inr x, t) \<longleftrightarrow> t = s \<and> effectiveRole s org uid \<noteq> None \<and>
     (\<exists>d. find (\<lambda>d. d_id d = dm \<and> d_org_id d = org) (domains s) = Some d \<and> x = toDomain d (mailbox_count s dm))"
  by (auto simp: getDomain_def run_iffs requireRole_Inr)

lemma preserves_getDns [preserve_intro]: "preserves (dom_inv u) (getDns coll env org dm uid)"
  unfolding getDns_def
  by (intro preserve_intro readonly_preserves[OF readonly_requireRole] readonly_preserves[OF readonly_getDomain])
     (auto intro: dom_inv_seed_hosts)

lemma preserves_emit_dom [preserve_intro]: "preserves (dom_inv u) (emit org ev pl)"
  unfolding emit_def
  by (intro preserve_intro) (auto simp: dom_inv_def enqueue_def intro: domains_ok_mono)

lemma preserves_verify: "preserves (dom_inv u) (verifyDomain coll env res p org dm ip)"
proof -
  have "dom_inv u s \<Longrightarrow> dom_inv u (mark_checked i st ob s)" for i st ob and s :: "'a dom_db_scheme"
    by (simp add: dom_inv_def del: map_map map_eq_conv)
  moreover have "dom_inv u s \<Longrightarrow> dom_inv u (write_domain i (\<lambda>nw d. d\<lparr>d_status := st, d_updated_at := nw\<rparr>) s)" for i st and s :: "'a dom_db_scheme"
    by (rule dom_inv_write) auto
  ultimately show ?thesis
    unfolding verifyDomain_def Let_def
    by (intro preserve_intro readonly_preserves[OF readonly_requireRole] readonly_preserves[OF readonly_getDomain])
qed

lemma tx_two_writes:
  "thenM (tx (thenM (if c then modifyM f else returnM ()) (if b then throwM e else modifyM g))) n s =
     (if b then (Inl e, s) else n (g (if c then f s else s)))"
  by (simp add: tx_def svc_simps)

lemma preserves_update: "preserves (dom_inv u) (updateDomain p org dm req meta ip)"
  unfolding preserves_def
proof (intro allI impI)
  fix s :: "'a dom_db_scheme"
  assume i: "dom_inv u s"
  let ?w = "write_domain dm (apply_domain_update req)"
  have primary: "dom_inv u (?w (clear_primary org (Some dm) s))" if "getDomain org dm (p_user_id p) s = (Inr x, s)" "ud_is_primary req = Some True" for x
  proof -
    from that(1) obtain d where "d \<in> set (domains s)" "d_id d = dm" "d_org_id d = org"
      by (auto simp: getDomain_Inr dest: find_SomeD)
    with i have own: "\<And>d'. d' \<in> set (domains s) \<Longrightarrow> d_id d' = dm \<Longrightarrow> d_org_id d' = org"
      by (auto simp: dom_inv_def domains_ok_def ids_below_def distinct_map dest: inj_onD)
    let ?c = "\<lambda>d. if d_org_id d = org \<and> Some (d_id d) \<noteq> Some dm \<and> d_is_primary d then d\<lparr>d_is_primary := False\<rparr> else d"
    let ?g = "\<lambda>d. if d_id d = dm then apply_domain_update req (now s) d else d"
    have "domains_ok (next_id s) (map (?g \<circ> ?c) (domains s))"
      using i that(2) by (intro domains_ok_promote[OF _ own]) (auto simp: dom_inv_def apply_domain_update_def split: if_splits)
    then have "domains_ok (next_id s) (domains (?w (clear_primary org (Some dm) s)))"
      by (simp cong: if_cong)
    with i show ?thesis by (simp add: dom_inv_def del: write_domain_frame(11))
  qed
  have plain: "dom_inv u (?w s)" if "ud_is_primary req \<noteq> Some True"
    using i that by (intro dom_inv_write) (auto simp: apply_domain_update_def split: option.splits)
  show "dom_inv u (snd (updateDomain p org dm req meta ip s))"
    unfolding updateDomain_def
    apply (rule snd_thenM_ro[where I = "dom_inv u", OF readonly_requireRole i])
    apply (rule snd_thenM_ro[where I = "dom_inv u", OF readonly_getDomain i])
    unfolding tx_two_writes thenM_audit
    apply (cases "ud_retention_days req \<noteq> None", simp add: i)
    apply (simp only: if_False)
    apply (rule preservesD[where I = "dom_inv u", OF readonly_preserves[OF readonly_getDomain]])
    apply (rule dom_inv_audit)
    using primary plain by (cases "ud_is_primary req = Some True") simp_all
qed

lemma dom_inv_clear: "dom_inv u s \<Longrightarrow> dom_inv u (clear_primary org ex s)"
proof -
  assume i: "dom_inv u s"
  then have "domains_ok (next_id s) (domains (clear_primary org ex s))"
    unfolding clear_primary_frame by (intro domains_ok_map) (auto simp: dom_inv_def split: if_splits)
  with i show ?thesis by (simp add: dom_inv_def del: clear_primary_frame(9))
qed

lemma dom_inv_insert_domain:
  assumes "dom_inv u s" "\<forall>d \<in> set (domains s). primary = Some True \<longrightarrow> d_org_id d = org \<longrightarrow> \<not> d_is_primary d"
  shows "dom_inv u (snd (insert_domain org name primary token s))"
  using assms by (auto simp: insert_domain_def dom_inv_def intro!: domains_ok_insert[unfolded Suc_eq_plus1[symmetric]] split: option.split)

lemma preserves_create: "preserves (dom_inv u) (createDomain env token p org req ip)"
proof -
  let ?ins = "\<lambda>name. thenM (if cd_is_primary req = Some True then modifyM (clear_primary org None) else returnM ())
    (bindM (insert_domain org name (cd_is_primary req) token) (\<lambda>i. thenM (modifyM (seedDnsRecords env i name token)) (returnM i))) :: ('a dom_db_scheme, uuid) svc"
  have ins: "preserves (dom_inv u) (?ins name)" for name
    unfolding preserves_def
  proof (intro allI impI)
    fix s :: "'a dom_db_scheme"
    assume i: "dom_inv u s"
    define s1 where "s1 = (if cd_is_primary req = Some True then clear_primary org None s else s)"
    have "dom_inv u s1" using i by (simp add: s1_def dom_inv_clear)
    then have j: "dom_inv u (snd (insert_domain org name (cd_is_primary req) token s1))"
    proof (rule dom_inv_insert_domain)
      have "\<not> d_is_primary d" if "d \<in> set (domains (clear_primary org None s))" "d_org_id d = org" for d
      proof -
        from that(1) have "d \<in> (\<lambda>x. if d_org_id x = org \<and> d_is_primary x then x\<lparr>d_is_primary := False\<rparr> else x) ` set (domains s)"
          by (simp cong: if_cong)
        then obtain x where x: "d = (if d_org_id x = org \<and> d_is_primary x then x\<lparr>d_is_primary := False\<rparr> else x)" by blast
        with that(2) show ?thesis by (cases "d_org_id x = org \<and> d_is_primary x") auto
      qed
      then show "\<forall>d \<in> set (domains s1). cd_is_primary req = Some True \<longrightarrow> d_org_id d = org \<longrightarrow> \<not> d_is_primary d"
        by (simp add: s1_def del: clear_primary_frame)
    qed
    have run: "?ins name s = bindM (insert_domain org name (cd_is_primary req) token) (\<lambda>i. thenM (modifyM (seedDnsRecords env i name token)) (returnM i)) s1"
      by (simp add: s1_def thenM_modifyM thenM_returnM)
    have "preserves (dom_inv u) (thenM (modifyM (seedDnsRecords env i name token)) (returnM i) :: ('a dom_db_scheme, uuid) svc)" for i
      by (intro preserve_intro dom_inv_seed)
    with j show "dom_inv u (snd (?ins name s))" unfolding run
      by (auto simp: bindM_def preserves_def split: prod.splits sum.splits)
  qed
  show ?thesis unfolding createDomain_def Let_def
    by (intro preserve_intro ins readonly_preserves[OF readonly_requireRole] readonly_preserves[OF readonly_getDomain])
qed

lemma preserves_remove: "preserves (dom_inv u) (removeDomain p org dm ip)"
proof -
  have "dom_inv u (delete_domain dm s)" if "dom_inv u s" for s :: "'a dom_db_scheme"
    using that by (simp add: dom_inv_def delete_domain_def delete_domains_def delete_mailboxes_def delete_groups_def Let_def
        domains_ok_filter distinct_map_filter)
  then show ?thesis unfolding removeDomain_def
    by (intro preserve_intro readonly_preserves[OF readonly_requireRole] readonly_preserves[OF readonly_getDomain])
qed

text \<open>The content type only decides whether the type is named in the refusal.\<close>

lemma validate_body: "validateBimiSvg utf8 body ct = None \<Longrightarrow> valid_logo utf8 body"
  by (auto simp: validateBimiSvg_def valid_logo_def Let_def split: if_splits)

lemma preserves_upload: "preserves (dom_inv (de_utf8 env)) (uploadBimi env p org dm body ct ip)"
proof -
  let ?u = "de_utf8 env"
  have store: "dom_inv ?u (s\<lparr>objects := (objects s)(k \<mapsto> body)\<rparr>)" if "dom_inv ?u s" "validateBimiSvg ?u body ct = None" for s :: "'a dom_db_scheme" and k
    using that validate_body[OF that(2)] by (auto simp: dom_inv_def)
  have logo: "dom_inv ?u (write_domain dm (\<lambda>nw d. d\<lparr>d_bimi_logo_key := Some (bimiStorageKey dm), d_updated_at := nw\<rparr>) s)" if "dom_inv ?u s" for s :: "'a dom_db_scheme"
    using that by (rule dom_inv_write) auto
  show ?thesis
  proof (cases "validateBimiSvg ?u body ct")
    case None
    show ?thesis unfolding uploadBimi_def Let_def None option.case
      by (intro preserve_intro store[OF _ None] logo readonly_preserves[OF readonly_requireRole] readonly_preserves[OF readonly_getDomain]
          readonly_preserves[OF readonly_getBimi])
  next
    case (Some reason)
    show ?thesis unfolding uploadBimi_def Some option.case thenM_throwM
      by (intro readonly_preserves readonly_intro readonly_requireRole readonly_getDomain)
  qed
qed

lemma preserves_removeBimi: "preserves (dom_inv u) (removeBimi env p org dm ip)"
proof -
  have drop: "dom_inv u (if c then s else s\<lparr>objects := (objects s)(k := None)\<rparr>)" if "dom_inv u s" for s :: "'a dom_db_scheme" and c k
    using that by (auto simp: dom_inv_def)
  have logo: "dom_inv u (write_domain dm (\<lambda>nw d. d\<lparr>d_bimi_logo_key := None, d_updated_at := nw\<rparr>) s)" if "dom_inv u s" for s :: "'a dom_db_scheme"
    using that by (rule dom_inv_write) auto
  have "preserves (dom_inv u) (case k of None \<Rightarrow> returnM () | Some key \<Rightarrow> if key = [] then returnM ()
      else thenM (modifyM (\<lambda>s. if de_remove_fails env then s else s\<lparr>objects := (objects s)(storage_key org key := None)\<rparr>))
        (thenM (modifyM (write_domain dm (\<lambda>nw d. d\<lparr>d_bimi_logo_key := None, d_updated_at := nw\<rparr>)))
        (audit_log e) :: ('a dom_db_scheme, unit) svc))" for k e
    by (cases k) (auto intro!: preserve_intro drop logo)
  then show ?thesis unfolding removeBimi_def
    by (intro preserve_intro readonly_preserves[OF readonly_requireRole] readonly_preserves[OF readonly_getBimi])
qed

section \<open>Runs of the service\<close>

text \<open>Any caller, any request, any answer of the resolver; only the UTF-8 decoder stays the same.\<close>

inductive dom_step :: "(string \<Rightarrow> string) \<Rightarrow> dom_db \<Rightarrow> dom_db \<Rightarrow> bool" for u where
  create: "de_utf8 env = u \<Longrightarrow> dom_step u s (snd (createDomain env token p org creq ip s))"
| update: "dom_step u s (snd (updateDomain p org dm ureq meta ip s))"
| remove: "dom_step u s (snd (removeDomain p org dm ip s))"
| verify: "de_utf8 env = u \<Longrightarrow> dom_step u s (snd (verifyDomain (id :: string \<Rightarrow> string) env res p org dm ip s))"
| dns: "de_utf8 env = u \<Longrightarrow> dom_step u s (snd (getDns (id :: string \<Rightarrow> string) env org dm uid s))"
| upload: "de_utf8 env = u \<Longrightarrow> dom_step u s (snd (uploadBimi env p org dm body ct ip s))"
| unbrand: "de_utf8 env = u \<Longrightarrow> dom_step u s (snd (removeBimi env p org dm ip s))"
| time: "0 \<le> d \<Longrightarrow> dom_step u s (s\<lparr>now := now s + d\<rparr>)"

lemma dom_step_inv: "dom_step u s t \<Longrightarrow> dom_inv u s \<Longrightarrow> dom_inv u t"
proof (induction rule: dom_step.induct)
  case (time d s)
  then show ?case by (simp add: dom_inv_def)
qed (auto intro: preservesD[OF preserves_create] preservesD[OF preserves_update] preservesD[OF preserves_remove]
    preservesD[OF preserves_verify] preservesD[OF preserves_getDns] preservesD[OF preserves_upload] preservesD[OF preserves_removeBimi])

lemma dom_steps_inv: "(dom_step u)\<^sup>*\<^sup>* s t \<Longrightarrow> dom_inv u s \<Longrightarrow> dom_inv u t"
  by (induction rule: rtranclp_induct) (auto intro: dom_step_inv)

text \<open>C14: Whatever calls of the domain service run, in any order, an organization never has two
  primary domains, no two domains of the installation have the same name up to case, and the
  expected records of a domain have distinct keys.\<close>

theorem one_primary_domain:
  assumes "(dom_step u)\<^sup>*\<^sup>* s t" "dom_inv u s" "d \<in> set (domains t)" "d' \<in> set (domains t)"
  shows "(d_is_primary d \<and> d_is_primary d' \<and> d_org_id d = d_org_id d' \<longrightarrow> d = d') \<and>
    (ci_eq (d_name d) (d_name d') \<longrightarrow> d = d') \<and> distinct (map dns_key (dns_records t))"
proof -
  have i: "dom_inv u t" using dom_steps_inv assms(1,2) by blast
  then have ids: "inj_on d_id (set (domains t))" and names: "inj_on (\<lambda>d. toLowerCase (d_name d)) (set (domains t))" and p: "one_primary (domains t)"
    by (simp_all add: dom_inv_def domains_ok_def ids_below_def distinct_map)
  from p assms(3,4) inj_onD[OF ids] have "d_is_primary d \<and> d_is_primary d' \<and> d_org_id d = d_org_id d' \<longrightarrow> d = d'"
    unfolding one_primary_def by blast
  moreover from inj_onD[OF names _ assms(3,4)] have "ci_eq (d_name d) (d_name d') \<longrightarrow> d = d'" by (simp add: ci_eq_def)
  ultimately show ?thesis using i by (simp add: dom_inv_def)
qed

text \<open>The logo that the public route streams for a host name belongs to an active domain of that
  name and is one that passed the checks of \<open>validateBimiSvg\<close>: it is at most 32 KiB and carries no
  script, no event handler, no remote reference and no entity.\<close>

theorem served_logo_is_validated:
  assumes "(dom_step u)\<^sup>*\<^sup>* s t" "dom_inv u s"
    and "bimiLogoForHost host t = Some (org, key)" "bimiStream org key t = Some body"
  shows "(\<exists>d \<in> set (domains t). ci_eq (d_name d) host \<and> d_status d = ''active'' \<and> d_org_id d = org) \<and>
    length body \<le> 32768 \<and> \<not> opens_tag ''script'' True (u body) \<and> \<not> opens_tag ''foreignObject'' True (u body) \<and>
    \<not> has_handler (u body) \<and> \<not> has_remote_ref (u body) \<and> \<not> has_entities (u body)"
proof -
  have i: "dom_inv u t" using dom_steps_inv assms(1,2) by blast
  from assms(3) obtain d where f: "find (\<lambda>d. ci_eq (d_name d) (toLowerCase host) \<and> d_status d = ''active'') (domains t) = Some d"
    and k: "d_bimi_logo_key d = Some key" "d_org_id d = org"
    by (auto simp: bimiLogoForHost_def split: option.splits if_splits)
  from find_SomeD[OF f] have d: "d \<in> set (domains t)" "ci_eq (d_name d) host" "d_status d = ''active''" by (auto simp: ci_eq_def)
  with i k have "key = bimiStorageKey (d_id d)" by (auto simp: dom_inv_def domains_ok_def)
  with i assms(4) have "valid_logo u body" by (simp add: dom_inv_def bimiStream_def)
  with d k show ?thesis by (auto simp: valid_logo_def validateBimiSvg_def Let_def BIMI_MAX_BYTES_def split: if_splits)
qed

section \<open>The expected records of a new domain\<close>

text \<open>What a tenant is told to publish, written out: purpose, type, name, content, TTL and priority.\<close>

type_synonym rr = "string \<times> string \<times> string \<times> string \<times> int \<times> int option"

definition expected_records :: "dom_env \<Rightarrow> string \<Rightarrow> string \<Rightarrow> rr list" where
  "expected_records env name token =
     (let root = mailRoot env; own = (name = root) in
      [(''verification'', ''TXT'', ''_justmail-verify.'' @ name, ''justmail-verify='' @ token, 300, None),
       (''mx'', ''MX'', name, ''mail.'' @ root, 3600, Some 10),
       (''spf'', ''TXT'', name, if own then ''v=spf1 mx ~all'' else ''v=spf1 mx include:'' @ root @ '' ~all'', 3600, None),
       (''dmarc'', ''TXT'', ''_dmarc.'' @ name,
          ''v=DMARC1; p=quarantine; rua=mailto:dmarc@'' @ name @ ''; ruf=mailto:dmarc@'' @ name @ ''; fo=1'', 3600, None),
       (''mta_sts'', ''TXT'', ''_mta-sts.'' @ name, ''v=STSv1; id='' @ token, 3600, None),
       (''tls_rpt'', ''TXT'', ''_smtp._tls.'' @ name, ''v=TLSRPTv1; rua=mailto:tls-rpt@'' @ name, 3600, None)] @
      (if own then [] else
        [(''autoconfig'', ''CNAME'', ''autoconfig.'' @ name, ''autoconfig.'' @ root, 3600, None),
         (''autodiscover'', ''CNAME'', ''autodiscover.'' @ name, ''autodiscover.'' @ root, 3600, None)]) @
      [(''bimi'', ''TXT'', ''default._bimi.'' @ name, bimiRecordContent name, 3600, None),
       (''caa'', ''CAA'', name, ''0 issue '' @ [CHR 0x22] @ ''letsencrypt.org'' @ [CHR 0x22], 3600, None)] @
      (if own \<and> de_public_ip4 env \<noteq> [] then
        [(''custom'', ''A'', ''mail.'' @ root, de_public_ip4 env, 3600, None),
         (''autoconfig'', ''A'', ''autoconfig.'' @ root, de_public_ip4 env, 3600, None),
         (''autodiscover'', ''A'', ''autodiscover.'' @ root, de_public_ip4 env, 3600, None),
         (''mta_sts'', ''A'', ''mta-sts.'' @ root, de_public_ip4 env, 3600, None)] else []))"

definition dns_view :: "uuid \<Rightarrow> 'z dom_db_scheme \<Rightarrow> rr list" where
  "dns_view dm s = map (\<lambda>r. (dr_purpose r, dr_type r, dr_name r, dr_content r, dr_ttl r, dr_priority r)) (filter (\<lambda>r. dr_domain_id r = dm) (dns_records s))"

definition rr_key :: "rr \<Rightarrow> string \<times> string \<times> string" where
  "rr_key = (\<lambda>(pu, ty, nm, _). (pu, nm, ty))"

definition add_rr :: "uuid \<Rightarrow> rr \<Rightarrow> 'z dom_db_scheme \<Rightarrow> 'z dom_db_scheme" where
  "add_rr dm = (\<lambda>(pu, ty, nm, co, ttl, pr). insert_dns dm pu ty nm co ttl pr)"

lemma replace_all_none: "CHR ''$'' \<notin> set s \<Longrightarrow> replace_all (CHR ''$'' # p) v s = s"
  by (induction s) auto

lemma replace_all_skip: "CHR ''$'' \<notin> set xs \<Longrightarrow> replace_all (CHR ''$'' # p) v (xs @ ys) = xs @ replace_all (CHR ''$'' # p) v ys"
  by (induction xs) auto

lemma dns_view_add:
  "rr_key r \<notin> rr_key ` set (dns_view dm s) \<Longrightarrow> dns_view dm (add_rr dm r s) = dns_view dm s @ [r]"
  "dm' \<noteq> dm \<Longrightarrow> dns_view dm' (add_rr dm r s) = dns_view dm' s"
  by (auto simp: add_rr_def dns_view_def rr_key_def insert_dns_def image_iff split: prod.splits)

lemma dns_view_add_all:
  "distinct (map rr_key rs) \<Longrightarrow> rr_key ` set rs \<inter> rr_key ` set (dns_view dm s) = {} \<Longrightarrow>
     dns_view dm (fold (add_rr dm) rs s) = dns_view dm s @ rs"
proof (induction rs arbitrary: s)
  case (Cons r rs)
  from Cons.prems have v: "dns_view dm (add_rr dm r s) = dns_view dm s @ [r]" by (intro dns_view_add(1)) auto
  have "dns_view dm (fold (add_rr dm) rs (add_rr dm r s)) = dns_view dm (add_rr dm r s) @ rs"
    by (rule Cons.IH) (use Cons.prems in \<open>auto simp: v\<close>)
  then show ?case by (simp add: v)
qed simp

lemma dns_view_frame: "dm' \<noteq> dm \<Longrightarrow> dns_view dm' (fold (add_rr dm) rs s) = dns_view dm' s"
  by (induction rs arbitrary: s) (auto simp: dns_view_add(2))

lemma expected_keys: "distinct (map rr_key (expected_records env name token))"
  by (cases "name = mailRoot env"; cases "de_public_ip4 env = []") (simp_all add: expected_records_def rr_key_def Let_def)

lemma seed_is_expected:
  assumes "CHR ''$'' \<notin> set name" "CHR ''$'' \<notin> set token" "CHR ''$'' \<notin> set (mailRoot env)"
  shows "seedDnsRecords env dm name token s = fold (add_rr dm) (expected_records env name token) s"
  using assms
  by (cases "name = mailRoot env")
     (simp_all add: seedDnsRecords_def seedMailHostRecords_def SEED_RECORDS_def MAIL_HOST_A_RECORDS_def seed_one_def subst_tmpl_def
        expected_records_def add_rr_def Let_def replace_all_none replace_all_skip bimiRecordContent_def bimiLogoUrl_def)

section \<open>Proof of ownership\<close>

lemma find_domain_map:
  fixes f :: "domain_row \<Rightarrow> domain_row"
  shows "(\<And>d. d_id (f d) = d_id d \<and> d_org_id (f d) = d_org_id d) \<Longrightarrow>
     find (\<lambda>d. d_id d = dm \<and> d_org_id d = org) (map f ds) = map_option f (find (\<lambda>d. d_id d = dm \<and> d_org_id d = org) ds)"
  by (subst find_map_frame) auto

lemma seedMailHost_frame [simp]:
  "domains (seedMailHostRecords env dm s) = domains s" "webhook_deliveries (seedMailHostRecords env dm s) = webhook_deliveries s"
  "org_members (seedMailHostRecords env dm s) = org_members s" "api_keys (seedMailHostRecords env dm s) = api_keys s"
  "now (seedMailHostRecords env dm s) = now s"
  by (simp_all add: seedMailHostRecords_def MAIL_HOST_A_RECORDS_def)

lemma getDns_run:
  assumes "effectiveRole s org uid = Some r" "find (\<lambda>d. d_id d = dm \<and> d_org_id d = org) (domains s) = Some d"
  shows "\<exists>recs t. getDns coll env org dm uid s = (Inr recs, t) \<and> domains t = domains s \<and> webhook_deliveries t = webhook_deliveries s"
proof -
  have "requireRole org uid Viewer s = (Inr r, s)" using assms(1) by (cases r) (simp_all add: requireRole_Inr)
  moreover have "getDomain org dm uid s = (Inr (toDomain d (mailbox_count s dm)), s)" using assms by (simp add: getDomain_Inr)
  ultimately show ?thesis
    by (simp add: getDns_def thenM_pass bindM_pass toDomain_def) (simp add: svc_simps)
qed

text \<open>The state right after the verification transaction and the audit entry.\<close>

definition verified_state ::
  "bool \<Rightarrow> string \<Rightarrow> string \<Rightarrow> domain_row \<Rightarrow> 'z dom_db_scheme \<Rightarrow> 'z dom_db_scheme" where
  "verified_state ok status observed d s =
     (let s1 = mark_checked (d_id d) status observed s; st = next_status ok (d_status d)
      in if d_status d \<noteq> st then write_domain (d_id d) (\<lambda>nw x. x\<lparr>d_status := st, d_updated_at := nw\<rparr>) s1 else s1)"

lemma domains_verified:
  "domains (verified_state ok a b d s) = map (\<lambda>x. if d_id x = d_id d \<and> next_status ok (d_status d) \<noteq> d_status d
     then x\<lparr>d_status := next_status ok (d_status d), d_updated_at := now s\<rparr> else x) (domains s)"
  by (cases "next_status ok (d_status d) = d_status d") (simp_all add: verified_state_def Let_def cong: if_cong)

lemma emit_dom_run: "\<exists>t. emit org ev pl s = (Inr (), t) \<and> domains t = domains s \<and> org_members t = org_members s \<and> api_keys t = api_keys s \<and> now t = now s"
  by (simp add: emit_def svc_simps enqueue_def)

lemma tx_write_then: "thenM (tx (thenM (modifyM f) (if c then modifyM g else returnM ()))) n s = n (if c then g (f s) else f s)"
  by (simp add: tx_def svc_simps)

lemma toDomain_sel [simp]:
  "dd_name (toDomain d n) = d_name d" "dd_status (toDomain d n) = d_status d" "dd_verification_token (toDomain d n) = d_verification_token d"
  "dd_id (toDomain d n) = d_id d" "dd_org_id (toDomain d n) = d_org_id d"
  by (simp_all add: toDomain_def)

lemma verify_run:
  fixes res :: "string \<Rightarrow> txt_answer" and d :: domain_row and s :: "'a dom_db_scheme"
  assumes role: "effectiveRole s org (p_user_id p) = Some r" "ROLE_RANK Member \<le> ROLE_RANK r"
    and d: "find (\<lambda>d. d_id d = dm \<and> d_org_id d = org) (domains s) = Some d"
  defines "ans \<equiv> res (''_justmail-verify.'' @ d_name d)"
  defines "ok \<equiv> txt_proves (d_verification_token d) ans"
  defines "s1 \<equiv> verified_state ok (if ok then ''ok'' else if txt_observed ans \<noteq> [] then ''drifted'' else ''missing'') (txt_observed ans) d s"
  shows "\<exists>recs t. verifyDomain coll env res p org dm ip s = (Inr (next_status ok (d_status d), recs), t) \<and> domains t = domains s1 \<and>
    (\<not> (ok \<and> d_status d \<noteq> ''active'') \<longrightarrow> webhook_deliveries t = webhook_deliveries s)"
proof -
  have id: "d_id d = dm" using find_SomeD[OF d] by simp
  have req: "requireRole org (p_user_id p) Member s = (Inr r, s)" using role by (simp add: requireRole_Inr)
  have get: "getDomain org dm (p_user_id p) s = (Inr (toDomain d (mailbox_count s dm)), s)" using role d by (simp add: getDomain_Inr)
  define e where "e = user_entry (Some org) p ''domain.verify'' ''domain'' dm ip [(''ok'', JBool ok), (''status'', JStr (next_status ok (d_status d)))]"
  define s2 where "s2 = audit_insert e s1"
  define em :: "('a dom_db_scheme, unit) svc" where
    "em = (if ok \<and> d_status d \<noteq> ''active'' then emit org ''domain.verified'' (JObj [(''id'', JStr (show_nat dm)), (''name'', JStr (d_name d))]) else returnM ())"
  obtain s3 where emit: "em s2 = (Inr (), s3)"
    and s3: "domains s3 = domains s2" "org_members s3 = org_members s2" "api_keys s3 = api_keys s2" "now s3 = now s2"
    and quiet: "\<not> (ok \<and> d_status d \<noteq> ''active'') \<longrightarrow> webhook_deliveries s3 = webhook_deliveries s2"
    using emit_dom_run[of org "''domain.verified''" _ s2] by (cases "ok \<and> d_status d \<noteq> ''active''") (auto simp: returnM_def em_def)
  have s1: "org_members s1 = org_members s" "api_keys s1 = api_keys s" "now s1 = now s" "webhook_deliveries s1 = webhook_deliveries s"
    by (simp_all add: s1_def verified_state_def Let_def)
  have "find (\<lambda>d. d_id d = dm \<and> d_org_id d = org) (domains s1) \<noteq> None"
    using d by (auto simp: s1_def verified_state_def Let_def find_domain_map)
  then obtain d1 where d1: "find (\<lambda>d. d_id d = dm \<and> d_org_id d = org) (domains s3) = Some d1" by (auto simp: s3 s2_def)
  have "effectiveRole s3 org (p_user_id p) = Some r"
    using role(1) effectiveRole_cong[of s3 s] by (simp add: s3 s2_def s1)
  from getDns_run[OF this d1, of coll env] obtain recs t where g: "getDns coll env org dm (p_user_id p) s3 = (Inr recs, t)"
    "domains t = domains s3" "webhook_deliveries t = webhook_deliveries s3" by blast
  have "verifyDomain coll env res p org dm ip s = (Inr (next_status ok (d_status d), recs), t)"
  proof -
    let ?st = "next_status ok (d_status d)"
    let ?mc = "mark_checked dm (if ok then ''ok'' else if txt_observed ans \<noteq> [] then ''drifted'' else ''missing'') (txt_observed ans)"
    have s1_eq: "(if d_status d \<noteq> ?st then write_domain dm (\<lambda>nw d. d\<lparr>d_status := ?st, d_updated_at := nw\<rparr>) (?mc s) else ?mc s) = s1"
      by (simp only: s1_def verified_state_def Let_def id)
    show ?thesis
      by (simp only: verifyDomain_def Let_def thenM_pass[where m = "requireRole org (p_user_id p) Member", OF req]
          bindM_pass[where m = "getDomain org dm (p_user_id p)", OF get] toDomain_sel ans_def[symmetric] ok_def[symmetric]
          tx_write_then s1_eq thenM_audit e_def[symmetric] s2_def[symmetric] em_def[symmetric] thenM_pass[where m = em, OF emit]
          bindM_pass[where m = "getDns coll env org dm (p_user_id p)", OF g(1)]) (simp only: returnM_def)
  qed
  with g s1 quiet show ?thesis by (auto simp: s3 s2_def)
qed

text \<open>C15: \<open>verify\<close> answers \<open>active\<close> exactly for a domain that was active already or for which one of
  the TXT records the resolver gives for \<open>_justmail-verify\<close> below its name reads, its chunks joined, as
  \<open>justmail-verify=\<close> followed by the token of the domain; otherwise the domain is left in \<open>verifying\<close>. No other domain changes, and subscribers hear of \<open>domain.verified\<close> only on the
  first activation.\<close>

theorem verify_needs_the_token:
  assumes "verifyDomain coll env res p org dm ip s = (Inr (st, recs), t)" "dom_inv u s"
  shows "\<exists>d \<in> set (domains s). d_id d = dm \<and> d_org_id d = org \<and>
    (st = ''active'' \<longleftrightarrow> d_status d = ''active'' \<or>
       (\<exists>records chunks. res (''_justmail-verify.'' @ d_name d) = Inr records \<and> chunks \<in> set records \<and>
          concat chunks = ''justmail-verify='' @ d_verification_token d)) \<and>
    (st \<noteq> ''active'' \<longrightarrow> st = ''verifying'') \<and>
    domains t = map (\<lambda>x. if x = d \<and> st \<noteq> d_status d then x\<lparr>d_status := st, d_updated_at := now s\<rparr> else x) (domains s) \<and>
    (webhook_deliveries t \<noteq> webhook_deliveries s \<longrightarrow> st = ''active'' \<and> d_status d \<noteq> ''active'')"
proof -
  from assms(1) obtain r d where role: "effectiveRole s org (p_user_id p) = Some r" "ROLE_RANK Member \<le> ROLE_RANK r"
    and d: "find (\<lambda>d. d_id d = dm \<and> d_org_id d = org) (domains s) = Some d"
    by (auto simp: verifyDomain_def run_iffs requireRole_Inr getDomain_Inr)
  let ?ok = "txt_proves (d_verification_token d) (res (''_justmail-verify.'' @ d_name d))"
  from verify_run[OF role d, of coll env res ip] assms(1)
  have st: "st = next_status ?ok (d_status d)"
    and dt: "domains t = domains (verified_state ?ok (if ?ok then ''ok'' else if txt_observed (res (''_justmail-verify.'' @ d_name d)) \<noteq> [] then ''drifted'' else ''missing'')
      (txt_observed (res (''_justmail-verify.'' @ d_name d))) d s)"
    and wh: "\<not> (?ok \<and> d_status d \<noteq> ''active'') \<longrightarrow> webhook_deliveries t = webhook_deliveries s" by auto
  from find_SomeD[OF d] have mem: "d \<in> set (domains s)" and id: "d_id d = dm" "d_org_id d = org" by auto
  have same: "x \<in> set (domains s) \<Longrightarrow> d_id x = dm \<longleftrightarrow> x = d" for x
    using assms(2) mem id by (auto simp: dom_inv_def domains_ok_def ids_below_def distinct_map dest: inj_onD)
  have doms: "domains t = map (\<lambda>x. if x = d \<and> st \<noteq> d_status d then x\<lparr>d_status := st, d_updated_at := now s\<rparr> else x) (domains s)"
    unfolding dt domains_verified st[symmetric] id by (rule map_cong) (simp_all add: same)
  have ok: "?ok \<longleftrightarrow> (\<exists>records chunks. res (''_justmail-verify.'' @ d_name d) = Inr records \<and> chunks \<in> set records \<and>
      concat chunks = ''justmail-verify='' @ d_verification_token d)"
    by (cases "res (''_justmail-verify.'' @ d_name d)") (auto simp: txt_proves_def image_iff eq_commute[of "concat _"])
  show ?thesis
    by (rule bexI[of _ d], unfold ok[symmetric]) (use doms mem id wh st in \<open>auto simp: next_status_def split: if_splits\<close>)
qed

section \<open>Creating a domain\<close>

lemma insert_domain_Inr:
  "insert_domain org name primary token s = (Inr i, t) \<longleftrightarrow> i = next_id s \<and> org \<in> o_id ` set (organizations s) \<and>
     (\<forall>d \<in> set (domains s). \<not> ci_eq (d_name d) name) \<and> t = snd (insert_domain org name primary token s)"
  by (auto simp: insert_domain_def)

lemma insert_domain_row:
  assumes "insert_domain org name primary token s = (Inr i, t)"
  shows "\<exists>d. domains t = domains s @ [d] \<and> d_id d = i \<and> d_org_id d = org \<and> d_name d = name \<and> d_verification_token d = token \<and>
    d_status d = ''pending_verification''"
    and "dns_records t = dns_records s" "org_members t = org_members s" "api_keys t = api_keys s" "now t = now s"
  using assms by (auto simp: insert_domain_def split: if_splits)

lemma seed_frame [simp]:
  "domains (seedDnsRecords env dm name token s) = domains s" "org_members (seedDnsRecords env dm name token s) = org_members s"
  "api_keys (seedDnsRecords env dm name token s) = api_keys s" "now (seedDnsRecords env dm name token s) = now s"
proof -
  have "domains (fold (seed_one dm name token root) rs s') = domains s' \<and> org_members (fold (seed_one dm name token root) rs s') = org_members s' \<and>
    api_keys (fold (seed_one dm name token root) rs s') = api_keys s' \<and> now (fold (seed_one dm name token root) rs s') = now s'" for rs root name and s' :: "'a dom_db_scheme"
    by (induction rs arbitrary: s') (simp_all add: seed_one_def)
  then show "domains (seedDnsRecords env dm name token s) = domains s" "org_members (seedDnsRecords env dm name token s) = org_members s"
    "api_keys (seedDnsRecords env dm name token s) = api_keys s" "now (seedDnsRecords env dm name token s) = now s"
    by (simp_all add: seedDnsRecords_def Let_def)
qed

text \<open>A successful creation: the row it adds, the records it seeds, and the caller's role.\<close>

lemma create_run:
  assumes "createDomain env token p org req ip s = (Inr x, t)" and "dom_inv u s"
  defines "name \<equiv> toLowerCase (cd_name req)"
  shows "\<exists>r d s1 e. effectiveRole s org (p_user_id p) = Some r \<and> ROLE_RANK Admin \<le> ROLE_RANK r \<and>
    effectiveRole t org (p_user_id p) = Some r \<and>
    find (\<lambda>d. d_id d = dd_id x \<and> d_org_id d = org) (domains t) = Some d \<and> x = toDomain d (dd_mailbox_count x) \<and>
    d_name d = name \<and> d_verification_token d = token \<and> d_status d = ''pending_verification'' \<and>
    dd_id x = next_id s \<and> dns_records s1 = dns_records s \<and> t = audit_insert e (seedDnsRecords env (next_id s) name token s1)"
proof -
  define s0 where "s0 = (if cd_is_primary req = Some True then clear_primary org None s else s)"
  have s0: "next_id s0 = next_id s" "dns_records s0 = dns_records s" "org_members s0 = org_members s" "api_keys s0 = api_keys s" "now s0 = now s"
    by (simp_all add: s0_def)
  have ids: "\<forall>d \<in> set (domains s0). d_id d < next_id s"
    using assms(2) dom_inv_clear[of u s org None] by (auto simp: s0_def dom_inv_def domains_ok_def ids_below_def simp del: clear_primary_frame(9))
  from assms(1) obtain r i s1 e where r: "effectiveRole s org (p_user_id p) = Some r" "ROLE_RANK Admin \<le> ROLE_RANK r"
    and ins: "insert_domain org name (cd_is_primary req) token s0 = (Inr i, s1)"
    and get: "getDomain org i (p_user_id p) (audit_insert e (seedDnsRecords env i name token s1)) = (Inr x, t)"
    by (cases "cd_is_primary req = Some True")
       (auto simp: createDomain_def Let_def svc_iffs catch_conflict_Inr requireRole_Inr s0_def name_def)
  have i: "i = next_id s" using ins by (simp add: insert_domain_Inr s0)
  note row = insert_domain_row[OF ins]
  from row(1) obtain d where d: "domains s1 = domains s0 @ [d]" "d_id d = i" "d_org_id d = org" "d_name d = name"
    "d_verification_token d = token" "d_status d = ''pending_verification''" by blast
  have t: "t = audit_insert e (seedDnsRecords env i name token s1)" using get by (simp add: getDomain_Inr)
  have "find (\<lambda>d. d_id d = i \<and> d_org_id d = org) (domains s0) = None" using ids by (auto simp: find_None_iff_all i)
  then have f: "find (\<lambda>d. d_id d = i \<and> d_org_id d = org) (domains t) = Some d" by (simp add: t d find_snoc)
  have "effectiveRole t org (p_user_id p) = Some r" using r(1) effectiveRole_cong[of t s] by (simp add: t row s0)
  moreover have "dd_id x = i \<and> x = toDomain d (dd_mailbox_count x)"
    using get f t by (auto simp: getDomain_Inr d(2) toDomain_def)
  ultimately show ?thesis using r f d t i row(2) s0(2) by auto
qed

lemma create_succeeds:
  fixes s :: "'a dom_db_scheme"
  assumes "effectiveRole s org (p_user_id p) = Some r" "ROLE_RANK Admin \<le> ROLE_RANK r" "org \<in> o_id ` set (organizations s)"
    and "\<forall>d \<in> set (domains s). \<not> ci_eq (d_name d) (toLowerCase (cd_name req))"
  shows "\<exists>x t. createDomain env token p org req ip s = (Inr x, t)"
proof -
  let ?name = "toLowerCase (cd_name req)"
  define s0 where "s0 = (if cd_is_primary req = Some True then clear_primary org None s else s)"
  have s0: "org_members s0 = org_members s" "api_keys s0 = api_keys s" "now s0 = now s" "organizations s0 = organizations s"
    by (simp_all add: s0_def)
  have "\<exists>y \<in> set (domains s). d_name d = d_name y" if "d \<in> set (domains s0)" for d
    using that by (auto simp: s0_def split: if_splits)
  with assms(4) have fresh: "\<forall>d \<in> set (domains s0). \<not> ci_eq (d_name d) ?name" by metis
  obtain i s1 where ins: "insert_domain org ?name (cd_is_primary req) token s0 = (Inr i, s1)"
    using assms(3) fresh by (simp add: insert_domain_def s0)
  note row = insert_domain_row[OF ins]
  define t where "t = audit_insert (user_entry (Some org) p ''domain.create'' ''domain'' i ip [(''name'', JStr ?name)]) (seedDnsRecords env i ?name token s1)"
  have req: "requireRole org (p_user_id p) Admin s = (Inr r, s)" using assms by (simp add: requireRole_Inr)
  define m :: "('a dom_db_scheme, uuid) svc" where "m = catchM (tx
          (thenM (if cd_is_primary req = Some True then modifyM (clear_primary org None) else returnM ())
          (bindM (insert_domain org ?name (cd_is_primary req) token) (\<lambda>i.
           thenM (modifyM (seedDnsRecords env i ?name token)) (returnM i)))))
        (unique_to_conflict ''Domain already in use'')"
  have m: "m s = (Inr i, seedDnsRecords env i ?name token s1)"
    unfolding m_def catch_conflict_Inr tx_Inr using ins
    by (cases "cd_is_primary req = Some True") (simp_all add: s0_def thenM_modifyM thenM_returnM bindM_pass[where m = "insert_domain org ?name (cd_is_primary req) token"] svc_simps)
  from row(1) have "find (\<lambda>d. d_id d = i \<and> d_org_id d = org) (domains t) \<noteq> None" by (auto simp: t_def find_None_iff_all)
  moreover have "effectiveRole t org (p_user_id p) = Some r" using assms(1) effectiveRole_cong[of t s] by (simp add: t_def row s0)
  ultimately obtain x where get: "getDomain org i (p_user_id p) t = (Inr x, t)" by (auto simp: getDomain_Inr)
  have "createDomain env token p org req ip s = (Inr x, t)"
    unfolding createDomain_def Let_def thenM_pass[where m = "requireRole org (p_user_id p) Admin", OF req] m_def[symmetric] bindM_pass[where m = m, OF m]
      thenM_audit using get by (simp add: t_def)
  then show ?thesis by blast
qed

text \<open>C16: A new domain starts unproven and is told to publish exactly the expected records, with no
  placeholder left; the records of the other domains stay as they are. Once the verification record
  it was given is published as written, \<open>verify\<close> by the same caller succeeds and activates it.\<close>

theorem new_domain_can_be_verified:
  assumes "createDomain env token p org req ip s = (Inr x, t)" "dom_inv u s"
    and "\<forall>r \<in> set (dns_records s). dr_domain_id r < next_id s"
    and "CHR ''$'' \<notin> set (toLowerCase (cd_name req))" "CHR ''$'' \<notin> set token" "CHR ''$'' \<notin> set (mailRoot env)"
    and "\<forall>(purpose, ty, nm, content, rest) \<in> set (dns_view (dd_id x) t). purpose = ''verification'' \<longrightarrow> (\<exists>rs. res nm = Inr rs \<and> [content] \<in> set rs)"
  shows "dd_status x = ''pending_verification'' \<and>
    dns_view (dd_id x) t = expected_records env (toLowerCase (cd_name req)) token \<and>
    (\<forall>dm. dm \<noteq> dd_id x \<longrightarrow> dns_view dm t = dns_view dm s) \<and>
    (\<exists>recs t'. verifyDomain coll env res p org (dd_id x) ip t = (Inr (''active'', recs), t'))"
proof -
  let ?name = "toLowerCase (cd_name req)"
  from create_run[OF assms(1,2)] obtain r d s1 e where c: "effectiveRole s org (p_user_id p) = Some r" "ROLE_RANK Admin \<le> ROLE_RANK r"
    "effectiveRole t org (p_user_id p) = Some r" "find (\<lambda>d. d_id d = dd_id x \<and> d_org_id d = org) (domains t) = Some d"
    "x = toDomain d (dd_mailbox_count x)" "d_name d = ?name" "d_verification_token d = token" "d_status d = ''pending_verification''"
    "dd_id x = next_id s" "dns_records s1 = dns_records s" "t = audit_insert e (seedDnsRecords env (next_id s) ?name token s1)" by blast
  have audit: "dns_view dm (audit_insert e' s') = dns_view dm s'" for dm e' and s' :: "'a dom_db_scheme"
    by (simp add: dns_view_def audit_insert_def)
  have old: "dns_view dm s1 = dns_view dm s" for dm by (simp add: dns_view_def c(10))
  have "dns_view (next_id s) s = []" using assms(3) by (auto simp: dns_view_def filter_empty_conv)
  then have view: "dns_view (dd_id x) t = expected_records env ?name token"
    using dns_view_add_all[OF expected_keys, of env ?name token "next_id s" s1]
    by (simp add: c(9,11) audit seed_is_expected[OF assms(4-6)] old)
  moreover have "dm \<noteq> dd_id x \<longrightarrow> dns_view dm t = dns_view dm s" for dm
    by (simp add: c(9,11) audit seed_is_expected[OF assms(4-6)] dns_view_frame old)
  moreover have "dd_status x = ''pending_verification''" using c(5,8) by (metis toDomain_sel(2))
  moreover have "txt_proves token (res (''_justmail-verify.'' @ ?name))"
  proof -
    have "(''verification'', ''TXT'', ''_justmail-verify.'' @ ?name, ''justmail-verify='' @ token, 300, None) \<in> set (dns_view (dd_id x) t)"
      unfolding view by (simp add: expected_records_def Let_def)
    with assms(7) obtain rs where "res (''_justmail-verify.'' @ ?name) = Inr rs" "[''justmail-verify='' @ token] \<in> set rs" by fastforce
    then show ?thesis by (force simp: txt_proves_def)
  qed
  moreover have "ROLE_RANK Member \<le> ROLE_RANK r" using c(2) by (cases r) auto
  ultimately show ?thesis
    using verify_run[OF c(3) _ c(4), of coll env res ip] by (simp add: c(6,7) next_status_def) blast
qed

section \<open>Activation without proof\<close>

text \<open>Setting the retention of a domain never works: the column does not exist.\<close>

lemma retention_update_fails:
  assumes "effectiveRole s org (p_user_id p) = Some r" "ROLE_RANK Admin \<le> ROLE_RANK r"
    and "find (\<lambda>d. d_id d = dm \<and> d_org_id d = org) (domains s) = Some d" "ud_retention_days req = Some v"
  shows "updateDomain p org dm req meta ip s = (Inl (DbError ''42703''), s)"
proof -
  have req: "requireRole org (p_user_id p) Admin s = (Inr r, s)" using assms by (simp add: requireRole_Inr)
  have get: "getDomain org dm (p_user_id p) s = (Inr (toDomain d (mailbox_count s dm)), s)" using assms by (simp add: getDomain_Inr)
  show ?thesis
    unfolding updateDomain_def thenM_pass[where m = "requireRole org (p_user_id p) Admin", OF req]
      thenM_pass[where m = "getDomain org dm (p_user_id p)", OF get] tx_two_writes by (simp add: assms(4))
qed

lemma update_run:
  assumes "effectiveRole s org (p_user_id p) = Some r" "ROLE_RANK Admin \<le> ROLE_RANK r"
    and "find (\<lambda>d. d_id d = dm \<and> d_org_id d = org) (domains s) = Some d" and "ud_retention_days req = None"
  shows "\<exists>x t. updateDomain p org dm req meta ip s = (Inr x, t) \<and> dns_records t = dns_records s \<and>
    dd_status x = (case ud_status req of None \<Rightarrow> d_status d | Some v \<Rightarrow> v)"
proof -
  let ?s1 = "\<lambda>e. audit_insert e (write_domain dm (apply_domain_update req) (if ud_is_primary req = Some True then clear_primary org (Some dm) s else s))"
  define e where "e = user_entry (Some org) p ''domain.update'' ''domain'' dm ip [(''meta'', meta)]"
  have req: "requireRole org (p_user_id p) Admin s = (Inr r, s)" using assms by (simp add: requireRole_Inr)
  have get: "getDomain org dm (p_user_id p) s = (Inr (toDomain d (mailbox_count s dm)), s)" using assms by (simp add: getDomain_Inr)
  have id: "d_id d = dm" using find_SomeD[OF assms(3)] by simp
  have role: "effectiveRole (?s1 e) org (p_user_id p) = Some r" using assms(1) effectiveRole_cong[of "?s1 e" s] by simp
  have "\<exists>d'. find (\<lambda>d. d_id d = dm \<and> d_org_id d = org) (domains (?s1 e)) = Some d' \<and> d_status d' = (case ud_status req of None \<Rightarrow> d_status d | Some v \<Rightarrow> v)"
    using assms(3) id by (auto simp: find_domain_map apply_domain_update_def split: if_splits)
  then obtain d' where d': "find (\<lambda>d. d_id d = dm \<and> d_org_id d = org) (domains (?s1 e)) = Some d'"
    "d_status d' = (case ud_status req of None \<Rightarrow> d_status d | Some v \<Rightarrow> v)" by blast
  have run: "updateDomain p org dm req meta ip s = (Inr (toDomain d' (mailbox_count (?s1 e) dm)), ?s1 e)"
    unfolding updateDomain_def thenM_pass[where m = "requireRole org (p_user_id p) Admin", OF req] thenM_pass[where m = "getDomain org dm (p_user_id p)", OF get]
      tx_two_writes thenM_audit e_def[symmetric] by (simp add: assms(4) getDomain_Inr role d'(1) del: write_domain_frame audit_insert_frame)
  have "dns_records (?s1 e) = dns_records s" by (simp add: audit_insert_def)
  with d'(2) show ?thesis unfolding run by simp
qed

text \<open>The proof of ownership is not the only way to an active domain. An admin sets the status of
  any domain of the organization to \<open>active\<close> with an update, whatever the DNS says; and a plain
  member who runs \<open>verify\<close> on a suspended domain whose record is still published lifts the
  suspension.\<close>

theorem status_can_be_set_without_proof:
  assumes "dom_inv u s" "d \<in> set (domains s)" "d_org_id d = org"
    and "effectiveRole s org (p_user_id p) = Some Admin" "ud_status req = Some ''active''" "ud_retention_days req = None"
    and "effectiveRole s org (p_user_id q) = Some Member" "txt_proves (d_verification_token d) (res (''_justmail-verify.'' @ d_name d))"
  shows "(\<exists>x t. updateDomain p org (d_id d) req meta ip s = (Inr x, t) \<and> dd_status x = ''active'' \<and> dns_records t = dns_records s) \<and>
    (\<exists>recs t. verifyDomain coll env res q org (d_id d) ip s = (Inr (''active'', recs), t))"
proof -
  have "distinct (map d_id (domains s))" using assms(1) by (simp add: dom_inv_def domains_ok_def ids_below_def)
  from find_key_unique[OF this assms(2) refl, of "\<lambda>d. d_org_id d = org"]
  have f: "find (\<lambda>y. d_id y = d_id d \<and> d_org_id y = org) (domains s) = Some d" by (simp add: assms(3))
  show ?thesis
    using update_run[OF assms(4) _ f assms(6), of meta ip] verify_run[OF assms(7) _ f, of coll env res ip] assms(5,8)
    by (simp add: next_status_def) blast
qed

section \<open>Examples\<close>

definition dom_acme :: dom_db where
  "dom_acme = db.extend (acme_mail\<lparr>domains := [(plain_domain 26 20 ''acme.io'' None)\<lparr>d_status := ''suspended''\<rparr>],
       org_members := [\<lparr>m_org_id = 20, m_user_id = 11, m_role = Admin, m_created_at = 0\<rparr>, \<lparr>m_org_id = 20, m_user_id = 12, m_role = Member, m_created_at = 0\<rparr>]\<rparr>)
     (dom_db.fields [] (\<lambda>_. None))"

definition plain_env :: dom_env where
  "plain_env = \<lparr>de_web_host = Some ''mail.example.com'', de_public_ip4 = [], de_utf8 = id, de_base64 = id, de_put_fails = False, de_remove_fails = False\<rparr>"

definition activate :: update_domain_request where
  "activate = \<lparr>ud_is_primary = Some True, ud_catch_all_target = None, ud_max_mailboxes = None, ud_max_quota_mb = None, ud_outbound_mode = None,
     ud_retention_days = None, ud_status = Some ''active''\<rparr>"

lemma dom_acme_eval:
  "domains dom_acme = [(plain_domain 26 20 ''acme.io'' None)\<lparr>d_status := ''suspended''\<rparr>]" "dns_records dom_acme = []" "objects dom_acme = (\<lambda>_. None)"
  "next_id dom_acme = 30" "now dom_acme = 0" "api_keys dom_acme = []" "organizations dom_acme = organizations acme_mail" "mailboxes dom_acme = []"
  "org_members dom_acme = [\<lparr>m_org_id = 20, m_user_id = 11, m_role = Admin, m_created_at = 0\<rparr>, \<lparr>m_org_id = 20, m_user_id = 12, m_role = Member, m_created_at = 0\<rparr>]"
  by (simp_all add: dom_acme_def db.defs dom_db.defs acme_mail_eval)

lemma dom_acme_ok: "dom_inv u dom_acme"
  by (simp add: dom_inv_def domains_ok_def ids_below_def one_primary_def dom_acme_eval)

lemma dom_acme_role: "effectiveRole dom_acme 20 11 = Some Admin" "effectiveRole dom_acme 20 12 = Some Member"
  by (simp_all add: effectiveRole_def memberRole_def liveKey_def dom_acme_eval)

lemma one_primary_domain_witness:
  "distinct (map dns_key (dns_records (snd (updateDomain (as_user 11) 20 26 activate JNull None dom_acme))))"
proof -
  let ?t = "snd (updateDomain (as_user 11) 20 26 activate JNull None dom_acme)"
  have "(dom_step id)\<^sup>*\<^sup>* dom_acme ?t" by (intro r_into_rtranclp dom_step.update)
  moreover have "(plain_domain 26 20 ''acme.io'' None)\<lparr>d_is_primary := True\<rparr> \<in> set (domains ?t)"
    by (simp add: updateDomain_def svc_simps requireRole_def getDomain_def dom_acme_role tx_def audit_log_run activate_def
        apply_domain_update_def dom_acme_eval memberRole_def)
  ultimately show ?thesis using one_primary_domain[OF _ dom_acme_ok] by blast
qed

lemma verify_needs_the_token_witness:
  "\<exists>recs t recs' t'. verifyDomain (id :: string \<Rightarrow> string) plain_env (\<lambda>_. Inr [[''v=spf1'']]) (as_user 12) 20 26 None dom_acme =
      (Inr (''verifying'', recs), t) \<and> map d_status (domains t) = [''verifying''] \<and>
    verifyDomain (id :: string \<Rightarrow> string) plain_env (\<lambda>_. Inr [[''justmail-'', ''verify=cafe'']]) (as_user 12) 20 26 None dom_acme =
      (Inr (''active'', recs'), t') \<and> map d_status (domains t') = [''active'']"
proof -
  have f: "find (\<lambda>d. d_id d = 26 \<and> d_org_id d = 20) (domains dom_acme) = Some ((plain_domain 26 20 ''acme.io'' None)\<lparr>d_status := ''suspended''\<rparr>)"
    by (simp add: dom_acme_eval)
  have r: "effectiveRole dom_acme 20 (p_user_id (as_user 12)) = Some Member" by (simp add: dom_acme_role)
  from verify_run[OF r _ f, of "id :: string \<Rightarrow> string" plain_env "\<lambda>_. Inr [[''v=spf1'']]" None]
  obtain recs t where v: "verifyDomain (id :: string \<Rightarrow> string) plain_env (\<lambda>_. Inr [[''v=spf1'']]) (as_user 12) 20 26 None dom_acme =
      (Inr (''verifying'', recs), t)"
    by (auto simp: txt_proves_def next_status_def)
  from verify_run[OF r _ f, of "id :: string \<Rightarrow> string" plain_env "\<lambda>_. Inr [[''justmail-'', ''verify=cafe'']]" None]
  obtain recs' t' where v': "verifyDomain (id :: string \<Rightarrow> string) plain_env (\<lambda>_. Inr [[''justmail-'', ''verify=cafe'']]) (as_user 12) 20 26 None dom_acme =
      (Inr (''active'', recs'), t')"
    by (auto simp: txt_proves_def next_status_def)
  from verify_needs_the_token[OF v dom_acme_ok[of id]] verify_needs_the_token[OF v' dom_acme_ok[of id]]
  have "map d_status (domains t) = [''verifying'']" "map d_status (domains t') = [''active'']"
    by (auto simp: dom_acme_eval)
  with v v' show ?thesis by simp
qed

definition branded_acme :: dom_db where
  "branded_acme = dom_acme\<lparr>domains := [(plain_domain 26 20 ''acme.io'' None)\<lparr>d_bimi_logo_key := Some (bimiStorageKey 26)\<rparr>], objects := (\<lambda>_. Some ''<svg>'')\<rparr>"

lemma served_logo_is_validated_witness:
  "bimiLogoForHost ''acme.io'' branded_acme = Some (20, bimiStorageKey 26) \<and> bimiStream 20 (bimiStorageKey 26) branded_acme = Some ''<svg>'' \<and>
   \<not> has_remote_ref (id ''<svg>'')"
proof -
  have host: "bimiLogoForHost ''acme.io'' branded_acme = Some (20, bimiStorageKey 26)"
    by (simp add: bimiLogoForHost_def branded_acme_def ci_eq_def toLowerCase_def js_lower_def bimiStorageKey_def)
  have body: "bimiStream 20 (bimiStorageKey 26) branded_acme = Some ''<svg>''" by (simp add: bimiStream_def branded_acme_def)
  have "valid_logo id ''<svg>''"
    by (simp add: valid_logo_def validateBimiSvg_def BIMI_MAX_BYTES_def opens_tag_def after_def has_handler_def has_remote_ref_def has_entities_def
        js_space_def toLowerCase_def js_lower_def)
  then have "dom_inv id branded_acme"
    by (simp add: dom_inv_def domains_ok_def ids_below_def one_primary_def branded_acme_def dom_acme_eval)
  from served_logo_is_validated[OF rtranclp.rtrancl_refl this host body] host body show ?thesis by blast
qed

lemma new_domain_can_be_verified_witness:
  "\<exists>x t recs t'. createDomain plain_env ''cafe'' (as_user 11) 20 \<lparr>cd_name = ''new.io'', cd_is_primary = None\<rparr> None dom_acme = (Inr x, t) \<and>
     verifyDomain (id :: string \<Rightarrow> string) plain_env (\<lambda>_. Inr (map (\<lambda>(purpose, ty, nm, content, rest). [content]) (dns_view (dd_id x) t))) (as_user 11) 20 (dd_id x) None t =
       (Inr (''active'', recs), t')"
proof -
  let ?req = "\<lparr>cd_name = ''new.io'', cd_is_primary = None\<rparr>"
  have low: "toLowerCase ''new.io'' = ''new.io''" by (simp add: toLowerCase_def js_lower_def)
  have "\<exists>x t. createDomain plain_env ''cafe'' (as_user 11) 20 ?req None dom_acme = (Inr x, t)"
    by (rule create_succeeds[where r = Admin]) (simp_all add: dom_acme_role dom_acme_eval acme_mail_eval ci_eq_def toLowerCase_def js_lower_def)
  then obtain x t where run: "createDomain plain_env ''cafe'' (as_user 11) 20 ?req None dom_acme = (Inr x, t)" by blast
  let ?res = "\<lambda>_. Inr (map (\<lambda>(purpose, ty, nm, content, rest). [content]) (dns_view (dd_id x) t))"
  have root: "CHR ''$'' \<notin> set (mailRoot plain_env)" by (simp add: mailRoot_def plain_env_def extractRoot_def)
  have name: "CHR ''$'' \<notin> set (toLowerCase (cd_name ?req))" and token: "CHR ''$'' \<notin> set ''cafe''" by (simp_all add: low)
  have fk: "\<forall>r \<in> set (dns_records dom_acme). dr_domain_id r < next_id dom_acme" by (simp add: dom_acme_eval)
  have "\<forall>(purpose, ty, nm, content, rest) \<in> set (dns_view (dd_id x) t). purpose = ''verification'' \<longrightarrow> (\<exists>rs. ?res nm = Inr rs \<and> [content] \<in> set rs)"
    by (auto intro!: rev_image_eqI)
  from new_domain_can_be_verified[OF run dom_acme_ok[of id] fk name token root this, of "id :: string \<Rightarrow> string"]
  have "\<exists>recs t'. verifyDomain (id :: string \<Rightarrow> string) plain_env ?res (as_user 11) 20 (dd_id x) None t = (Inr (''active'', recs), t')"
    by blast
  with run show ?thesis by auto
qed

lemma status_can_be_set_without_proof_witness:
  "(\<exists>x t. updateDomain (as_user 11) 20 26 activate JNull None dom_acme = (Inr x, t) \<and> dd_status x = ''active'' \<and> dns_records t = dns_records dom_acme) \<and>
   (\<exists>recs t. verifyDomain (id :: string \<Rightarrow> string) plain_env (\<lambda>_. Inr [[''justmail-verify='', ''cafe'']]) (as_user 12) 20 26 None dom_acme = (Inr (''active'', recs), t))"
  using status_can_be_set_without_proof[OF dom_acme_ok[of id], of "(plain_domain 26 20 ''acme.io'' None)\<lparr>d_status := ''suspended''\<rparr>" 20 "as_user 11" activate
      "as_user 12" "\<lambda>_. Inr [[''justmail-verify='', ''cafe'']]" JNull None "id :: string \<Rightarrow> string" plain_env]
  by (simp add: dom_acme_eval dom_acme_role activate_def txt_proves_def)

end
