(* ===== verification/JM_Dns.thy ===== *)
theory JM_Dns
  imports JM_DomainModel
begin

text \<open>
  Publishing the expected records (\<open>apps/api/src/dkim\<close>): the matching of expected against existing
  records (\<open>dns-reconcile.ts\<close>), the Cloudflare and deSEC clients (\<open>cloudflare.ts\<close>,
  \<open>desec.ts\<close>) behind the provider interface (\<open>dns-provider.ts\<close>), and \<open>DnsService\<close>
  (\<open>dns.service.ts\<close>): synchronisation, rechecks and the zone file.

  The HTTP interfaces of the two providers and the resolver are parameters. The records a provider
  holds are a field of the state, of a type the provider's interface chooses.
\<close>

section \<open>Matching records\<close>

record prec =
  pr_id :: string
  pr_type :: string
  pr_name :: string
  pr_content :: string
  pr_priority :: "int option"
  pr_ttl :: int

text \<open>\<open>s.replace(/^"|"$/g, "")\<close>\<close>

definition unquote :: "string \<Rightarrow> string" where
  "unquote s = (let a = (if s \<noteq> [] \<and> hd s = CHR 0x22 then tl s else s)
     in if a \<noteq> [] \<and> last a = CHR 0x22 then butlast a else a)"

definition strip :: "string \<Rightarrow> string" where
  "strip s = trim (unquote s)"

text \<open>\<open>^(v=spf1|...)\b\<close>: the scheme is not followed by a word character.\<close>

definition TXT_SCHEMES :: "string list" where
  "TXT_SCHEMES = [''v=spf1'', ''v=dmarc1'', ''v=stsv1'', ''v=tlsrptv1'', ''v=bimi1'', ''v=dkim1'']"

definition scheme_at :: "string \<Rightarrow> string \<Rightarrow> bool" where
  "scheme_at c k = (startsWith c k \<and> (case drop (length k) c of [] \<Rightarrow> True | x # _ \<Rightarrow> \<not> is_word x))"

definition txtKind :: "string \<Rightarrow> string option" where
  "txtKind content =
     (let c = toLowerCase (strip content)
      in case find (scheme_at c) TXT_SCHEMES of
           Some k \<Rightarrow> Some k
         | None \<Rightarrow> if startsWith c ''justmail-verify='' then Some ''justmail-verify'' else None)"

subsection \<open>CAA records\<close>

record caa_tuple =
  ca_flags :: nat
  ca_tag :: string
  ca_value :: string

definition is_alnum :: "char \<Rightarrow> bool" where
  "is_alnum c = (is_alpha c \<or> is_digit c)"

text \<open>\<open>^(\d+)\s+([a-z0-9]+)\s+"?([^"]*)"?\s*$\<close>, ignoring case, on the trimmed text.\<close>

definition parseCaa :: "string \<Rightarrow> caa_tuple option" where
  "parseCaa input =
     (let t = trim input;
          fl = takeWhile is_digit t; r1 = dropWhile is_digit t;
          r2 = dropWhile js_space r1;
          tag = takeWhile is_alnum r2; r3 = dropWhile is_alnum r2;
          r4 = dropWhile js_space r3;
          r5 = (if r4 \<noteq> [] \<and> hd r4 = CHR 0x22 then tl r4 else r4);
          val = takeWhile (\<lambda>c. c \<noteq> CHR 0x22) r5; r6 = dropWhile (\<lambda>c. c \<noteq> CHR 0x22) r5;
          r7 = (if r6 \<noteq> [] then tl r6 else r6)
      in if fl = [] \<or> r2 = r1 \<or> tag = [] \<or> r4 = r3 \<or> \<not> list_all js_space r7 then None
         else Some \<lparr>ca_flags = digits_val fl, ca_tag = toLowerCase tag, ca_value = toLowerCase (trim val)\<rparr>)"

text \<open>The object a resolver returns: the critical flag and its string-valued properties.\<close>

record caa_object =
  co_critical :: "nat option"
  co_props :: "(string \<times> string) list"

definition parseCaaObject :: "caa_object \<Rightarrow> caa_tuple option" where
  "parseCaaObject ob =
     (let flags = (case co_critical ob of None \<Rightarrow> 0 | Some n \<Rightarrow> n)
      in case find (\<lambda>tag. map_of (co_props ob) tag \<noteq> None) [''issue'', ''issuewild'', ''iodef'', ''contactemail'', ''contactphone''] of
           None \<Rightarrow> None
         | Some tag \<Rightarrow> Some \<lparr>ca_flags = flags, ca_tag = tag, ca_value = toLowerCase (trim (the (map_of (co_props ob) tag)))\<rparr>)"

definition caaEqual :: "caa_tuple option \<Rightarrow> caa_tuple option \<Rightarrow> bool" where
  "caaEqual a b = (case (a, b) of
     (Some x, Some y) \<Rightarrow> ca_flags x = ca_flags y \<and> ca_tag x = ca_tag y \<and> ca_value x = ca_value y | _ \<Rightarrow> False)"

definition caaToString :: "caa_tuple \<Rightarrow> string" where
  "caaToString t = show_nat (ca_flags t) @ '' '' @ ca_tag t @ '' '' @ [CHR 0x22] @ ca_value t @ [CHR 0x22]"

subsection \<open>Choosing the record to overwrite\<close>

text \<open>\<open>s.split(/\s+/)\<close>\<close>

function split_ws :: "string \<Rightarrow> string list" where
  "split_ws s =
     (let w = takeWhile (\<lambda>c. \<not> js_space c) s; r = dropWhile (\<lambda>c. \<not> js_space c) s
      in if r = [] then [w] else w # split_ws (dropWhile js_space r))"
  by pat_completeness auto

lemma split_ws_shrinks:
  assumes "dropWhile (\<lambda>c. \<not> js_space c) s \<noteq> []"
  shows "length (dropWhile js_space (dropWhile (\<lambda>c. \<not> js_space c) s)) < length s"
proof -
  obtain c cs where c: "dropWhile (\<lambda>c. \<not> js_space c) s = c # cs" using assms by (cases "dropWhile (\<lambda>c. \<not> js_space c) s") auto
  then have "js_space c" by (metis dropWhile_eq_Cons_conv)
  then have "length (dropWhile js_space (c # cs)) \<le> length cs" by (simp add: length_dropWhile_le)
  also have "length cs < length s" using c length_dropWhile_le[of "\<lambda>c. \<not> js_space c" s] by simp
  finally show ?thesis by (simp add: c)
qed

termination split_ws
proof (relation "measure length")
  fix s w r :: string
  assume "r = dropWhile (\<lambda>c. \<not> js_space c) s" "r \<noteq> []"
  then show "(dropWhile js_space r, s) \<in> measure length" using split_ws_shrinks[of s] by simp
qed simp

declare split_ws.simps [simp del]

definition drop_dot :: "string \<Rightarrow> string" where
  "drop_dot s = (if s \<noteq> [] \<and> last s = CHR ''.'' then butlast s else s)"

definition mxHost :: "string \<Rightarrow> string" where
  "mxHost content =
     (let parts = split_ws (trim content); host = (if length parts > 1 then parts ! 1 else parts ! 0)
      in toLowerCase (drop_dot host))"

definition chooseExisting :: "string \<Rightarrow> string \<Rightarrow> prec list \<Rightarrow> prec option" where
  "chooseExisting ty content existing =
     (case find (\<lambda>e. strip (pr_content e) = strip content) existing of
        Some e \<Rightarrow> Some e
      | None \<Rightarrow>
          if ty = ''TXT'' then
            (case txtKind content of None \<Rightarrow> None | Some kind \<Rightarrow> find (\<lambda>e. txtKind (pr_content e) = Some kind) existing)
          else if ty = ''MX'' then find (\<lambda>e. mxHost (pr_content e) = mxHost content) existing
          else if ty = ''CAA'' then None
          else (case existing of [] \<Rightarrow> None | e # _ \<Rightarrow> Some e))"

definition staleDuplicates :: "string \<Rightarrow> string \<Rightarrow> prec list \<Rightarrow> prec option \<Rightarrow> prec list" where
  "staleDuplicates ty content existing chosen =
     (if ty \<noteq> ''TXT'' then []
      else case txtKind content of
             None \<Rightarrow> []
           | Some kind \<Rightarrow> filter (\<lambda>e. txtKind (pr_content e) = Some kind \<and> Some (pr_id e) \<noteq> map_option pr_id chosen) existing)"

section \<open>Providers\<close>

record dns_input =
  di_type :: string
  di_name :: string
  di_content :: string
  di_ttl :: int
  di_priority :: "int option"

text \<open>The interface \<open>DnsProvider\<close> over the provider's own state \<open>'w\<close>; a thrown error is its message.\<close>

record 'w dns_provider =
  dp_name :: string
  dp_findZoneId :: "string \<Rightarrow> 'w \<Rightarrow> string + string option"
  dp_listRecords :: "string \<Rightarrow> string \<Rightarrow> string \<Rightarrow> 'w \<Rightarrow> string + prec list"
  dp_upsertRecord :: "string \<Rightarrow> prec option \<Rightarrow> dns_input \<Rightarrow> 'w \<Rightarrow> (string + prec) \<times> 'w"
  dp_deleteRecord :: "string \<Rightarrow> string \<Rightarrow> 'w \<Rightarrow> (string + unit) \<times> 'w"

definition unconfigured :: "string \<Rightarrow> 'w dns_provider" where
  "unconfigured name =
     (let msg = ''DNS provider '' @ [CHR 0x22] @ name @ [CHR 0x22] @ '' is selected but not configured''
      in \<lparr>dp_name = name, dp_findZoneId = (\<lambda>_ _. Inl msg), dp_listRecords = (\<lambda>_ _ _ _. Inl msg),
          dp_upsertRecord = (\<lambda>_ _ _ w. (Inl msg, w)), dp_deleteRecord = (\<lambda>_ _ w. (Inl msg, w))\<rparr>)"

subsection \<open>Cloudflare\<close>

text \<open>
  The requests of the client: zones of a name, records of a zone by name and type, \<open>PUT\<close> and
  \<open>POST\<close> of a record body, \<open>DELETE\<close>. A body carries the content, or the CAA fields instead.
\<close>

record cf_body =
  cb_type :: string
  cb_name :: string
  cb_ttl :: int
  cb_proxied :: bool
  cb_content :: "string option"
  cb_priority :: "int option"
  cb_data :: "caa_tuple option"

record 'w cf_api =
  ca_zones :: "string \<Rightarrow> 'w \<Rightarrow> string + string list"
  ca_records :: "string \<Rightarrow> string \<Rightarrow> string \<Rightarrow> 'w \<Rightarrow> string + prec list"
  ca_put :: "string \<Rightarrow> string \<Rightarrow> cf_body \<Rightarrow> 'w \<Rightarrow> (string + prec) \<times> 'w"
  ca_post :: "string \<Rightarrow> cf_body \<Rightarrow> 'w \<Rightarrow> (string + prec) \<times> 'w"
  ca_delete :: "string \<Rightarrow> string \<Rightarrow> 'w \<Rightarrow> (string + unit) \<times> 'w"

text \<open>The first of the suffixes \<open>a.b.c\<close>, \<open>b.c\<close> that is a zone; the last label alone is not tried.\<close>

fun cf_zone_loop :: "'w cf_api \<Rightarrow> string list \<Rightarrow> 'w \<Rightarrow> string + string option" where
  "cf_zone_loop api [] w = Inr None"
| "cf_zone_loop api [p] w = Inr None"
| "cf_zone_loop api (p # q # ps) w =
     (case ca_zones api (join ''.'' (p # q # ps)) w of
        Inl err \<Rightarrow> Inl err
      | Inr (z # _) \<Rightarrow> Inr (Some z)
      | Inr [] \<Rightarrow> cf_zone_loop api (q # ps) w)"

definition cf_findZoneId :: "'w cf_api \<Rightarrow> string \<Rightarrow> 'w \<Rightarrow> string + string option" where
  "cf_findZoneId api dmn = cf_zone_loop api (split_on CHR ''.'' dmn)"

definition cf_body_of :: "dns_input \<Rightarrow> string + cf_body" where
  "cf_body_of payload =
     (let record = \<lparr>cb_type = di_type payload, cb_name = di_name payload, cb_ttl = di_ttl payload, cb_proxied = False,
                    cb_content = None, cb_priority = None, cb_data = None\<rparr>
      in if di_type payload = ''CAA'' then
           (case parseCaa (di_content payload) of
              None \<Rightarrow> Inl (''Invalid CAA record content: '' @ di_content payload)
            | Some caa \<Rightarrow> Inr (record\<lparr>cb_data := Some caa\<rparr>))
         else Inr (record\<lparr>cb_content := Some (di_content payload), cb_priority := di_priority payload\<rparr>))"

definition cf_upsertRecord :: "'w cf_api \<Rightarrow> string \<Rightarrow> prec option \<Rightarrow> dns_input \<Rightarrow> 'w \<Rightarrow> (string + prec) \<times> 'w" where
  "cf_upsertRecord api zoneId existing payload w =
     (case cf_body_of payload of
        Inl err \<Rightarrow> (Inl err, w)
      | Inr body \<Rightarrow> (case existing of Some e \<Rightarrow> ca_put api zoneId (pr_id e) body w | None \<Rightarrow> ca_post api zoneId body w))"

definition cloudflare :: "'w cf_api \<Rightarrow> 'w dns_provider" where
  "cloudflare api = \<lparr>dp_name = ''cloudflare'', dp_findZoneId = cf_findZoneId api, dp_listRecords = ca_records api,
     dp_upsertRecord = cf_upsertRecord api, dp_deleteRecord = ca_delete api\<rparr>"

subsection \<open>deSEC\<close>

definition endsWith :: "string \<Rightarrow> string \<Rightarrow> bool" where
  "endsWith s p = startsWith (rev s) (rev p)"

definition contains :: "string \<Rightarrow> string \<Rightarrow> bool" where
  "contains s p = some_suffix (\<lambda>x. startsWith x p) s"

definition subnameFor :: "string \<Rightarrow> string \<Rightarrow> string" where
  "subnameFor zn name =
     (let n = drop_dot name; z = drop_dot zn
      in if n = z then [] else if endsWith n (CHR ''.'' # z) then take (length n - (length z + 1)) n else n)"

definition synthId :: "string \<Rightarrow> string \<Rightarrow> string" where
  "synthId subname ty = subname @ ''/'' @ ty"

text \<open>\<open>s.replace(/"\s+"/g, "")\<close>\<close>

definition joined :: "string \<Rightarrow> bool" where
  "joined cs = (cs \<noteq> [] \<and> js_space (hd cs) \<and> dropWhile js_space cs \<noteq> [] \<and> hd (dropWhile js_space cs) = CHR 0x22)"

function remove_joins :: "string \<Rightarrow> string" where
  "remove_joins [] = []"
| "remove_joins (c # cs) =
     (if c = CHR 0x22 \<and> joined cs then remove_joins (tl (dropWhile js_space cs)) else c # remove_joins cs)"
  by pat_completeness auto

termination remove_joins
proof (relation "measure length")
  fix c :: char and cs :: string
  have "length (tl (dropWhile js_space cs)) \<le> length cs" using length_dropWhile_le[of js_space cs] by (simp add: le_diff_conv)
  then show "(tl (dropWhile js_space cs), c # cs) \<in> measure length" by simp
qed simp_all

text \<open>\<open>s.match(/.{1,255}/gs) ?? [""]\<close>\<close>

fun chunks :: "string \<Rightarrow> string list" where
  "chunks s = (if length s \<le> 255 then [s] else take 255 s # chunks (drop 255 s))"

declare chunks.simps [simp del]

definition dquote :: "string \<Rightarrow> string" where
  "dquote c = [CHR 0x22] @ c @ [CHR 0x22]"

definition encodeContent :: "string \<Rightarrow> string \<Rightarrow> int option \<Rightarrow> string" where
  "encodeContent ty content priority =
     (if ty = ''TXT'' then join '' '' (map dquote (chunks (unquote (remove_joins content))))
      else case priority of
             Some n \<Rightarrow> if ty = ''MX'' then show_int n @ '' '' @ (if endsWith content ''.'' then content else content @ ''.'') else content
           | None \<Rightarrow> content)"

text \<open>\<open>Number(prio)\<close>; \<open>NaN\<close> is \<open>None\<close>.\<close>

definition to_number :: "string \<Rightarrow> int option" where
  "to_number s = (if s = [] then Some 0 else if list_all is_digit s then Some (int (digits_val s)) else None)"

definition decodeContent :: "string \<Rightarrow> string \<Rightarrow> string \<times> int option" where
  "decodeContent ty rec =
     (if ty = ''TXT'' then (unquote (remove_joins rec), None)
      else if ty = ''MX'' then (case split_ws rec of [] \<Rightarrow> ([], None) | prio # rest \<Rightarrow> (drop_dot (join '' '' rest), to_number prio))
      else (rec, None))"

record rrset =
  rs_subname :: string
  rs_type :: string
  rs_ttl :: int
  rs_records :: "string list"

record 'w desec_api =
  da_domains :: "'w \<Rightarrow> string + string list"
  da_get :: "string \<Rightarrow> string \<Rightarrow> string \<Rightarrow> 'w \<Rightarrow> string + rrset option"
  da_put :: "string \<Rightarrow> string \<Rightarrow> string \<Rightarrow> rrset \<Rightarrow> 'w \<Rightarrow> (string + unit) \<times> 'w"
  da_delete :: "string \<Rightarrow> string \<Rightarrow> string \<Rightarrow> 'w \<Rightarrow> (string + unit) \<times> 'w"

definition rr_slot :: "string \<Rightarrow> string" where
  "rr_slot subname = (if subname = [] then ''@'' else subname)"

fun ds_zone_loop :: "string list \<Rightarrow> string list \<Rightarrow> string option" where
  "ds_zone_loop owned [] = None"
| "ds_zone_loop owned [p] = None"
| "ds_zone_loop owned (p # q # ps) =
     (if join ''.'' (p # q # ps) \<in> set owned then Some (join ''.'' (p # q # ps)) else ds_zone_loop owned (q # ps))"

definition ds_findZoneId :: "'w desec_api \<Rightarrow> string \<Rightarrow> 'w \<Rightarrow> string + string option" where
  "ds_findZoneId api dmn w =
     (case da_domains api w of
        Inl err \<Rightarrow> Inl err
      | Inr names \<Rightarrow> Inr (ds_zone_loop (map drop_dot names) (split_on CHR ''.'' (drop_dot dmn))))"

definition ds_listRecords :: "'w desec_api \<Rightarrow> string \<Rightarrow> string \<Rightarrow> string \<Rightarrow> 'w \<Rightarrow> string + prec list" where
  "ds_listRecords api zoneId name ty w =
     (let subname = subnameFor zoneId name
      in case da_get api zoneId (rr_slot subname) ty w of
           Inl msg \<Rightarrow> if contains msg '': 404'' then Inr [] else Inl msg
         | Inr None \<Rightarrow> Inr []
         | Inr (Some rs) \<Rightarrow> Inr (map (\<lambda>rec. \<lparr>pr_id = synthId subname ty, pr_type = ty, pr_name = drop_dot name,
                pr_content = fst (decodeContent ty rec), pr_priority = snd (decodeContent ty rec), pr_ttl = rs_ttl rs\<rparr>) (rs_records rs)))"

definition ds_upsertRecord :: "'w desec_api \<Rightarrow> string \<Rightarrow> prec option \<Rightarrow> dns_input \<Rightarrow> 'w \<Rightarrow> (string + prec) \<times> 'w" where
  "ds_upsertRecord api zoneId existing payload w =
     (let subname = subnameFor zoneId (di_name payload)
      in case da_put api zoneId (rr_slot subname) (di_type payload)
                \<lparr>rs_subname = subname, rs_type = di_type payload, rs_ttl = max (di_ttl payload) 3600,
                 rs_records = [encodeContent (di_type payload) (di_content payload) (di_priority payload)]\<rparr> w of
           (Inl err, w1) \<Rightarrow> (Inl err, w1)
         | (Inr _, w1) \<Rightarrow> (Inr \<lparr>pr_id = synthId subname (di_type payload), pr_type = di_type payload, pr_name = di_name payload,
                                 pr_content = di_content payload, pr_priority = di_priority payload, pr_ttl = di_ttl payload\<rparr>, w1))"

definition ds_deleteRecord :: "'w desec_api \<Rightarrow> string \<Rightarrow> string \<Rightarrow> 'w \<Rightarrow> (string + unit) \<times> 'w" where
  "ds_deleteRecord api zoneId i w =
     (let parts = split_on CHR ''/'' i; ty = (if length parts > 1 then parts ! 1 else ''undefined'')
      in da_delete api zoneId (rr_slot (parts ! 0)) ty w)"

definition desec :: "'w desec_api \<Rightarrow> 'w dns_provider" where
  "desec api = \<lparr>dp_name = ''desec'', dp_findZoneId = ds_findZoneId api, dp_listRecords = ds_listRecords api,
     dp_upsertRecord = ds_upsertRecord api, dp_deleteRecord = ds_deleteRecord api\<rparr>"

definition getDnsProvider :: "string \<Rightarrow> bool \<Rightarrow> 'w cf_api \<Rightarrow> 'w desec_api \<Rightarrow> 'w dns_provider" where
  "getDnsProvider selected desec_token cf ds =
     (if selected = ''cloudflare'' then cloudflare cf
      else if selected = ''desec'' \<and> desec_token then desec ds
      else unconfigured selected)"

definition dnsProviderStatus :: "string \<Rightarrow> bool \<Rightarrow> bool \<Rightarrow> string \<times> bool" where
  "dnsProviderStatus selected cf_token desec_token =
     (selected, selected = ''cloudflare'' \<and> cf_token \<or> selected = ''desec'' \<and> desec_token)"

section \<open>Synchronisation\<close>

record 'w dns_db = dom_db +
  zones :: 'w

definition readP :: "('w \<Rightarrow> string + 'a) \<Rightarrow> (('w, 'z) dns_db_scheme, 'a) svc" where
  "readP f = (\<lambda>s. case f (zones s) of Inl msg \<Rightarrow> (Inl (HttpException 500 msg None), s) | Inr x \<Rightarrow> (Inr x, s))"

definition writeP :: "('w \<Rightarrow> (string + 'a) \<times> 'w) \<Rightarrow> (('w, 'z) dns_db_scheme, 'a) svc" where
  "writeP f = (\<lambda>s. case f (zones s) of (Inl msg, w) \<Rightarrow> (Inl (HttpException 500 msg None), s\<lparr>zones := w\<rparr>) | (Inr x, w) \<Rightarrow> (Inr x, s\<lparr>zones := w\<rparr>))"

definition mark_synced :: "uuid \<Rightarrow> string \<Rightarrow> ('w, 'z) dns_db_scheme \<Rightarrow> ('w, 'z) dns_db_scheme" where
  "mark_synced i pid s = s\<lparr>dns_records := map (\<lambda>r. if dr_id r = i
     then r\<lparr>dr_provider_record_id := Some pid, dr_check_status := ''propagating'', dr_updated_at := now s\<rparr> else r) (dns_records s)\<rparr>"

definition sync_record :: "'w dns_provider \<Rightarrow> string \<Rightarrow> dns_row \<Rightarrow> (('w, 'z) dns_db_scheme, string) svc" where
  "sync_record prov zoneId r =
     bindM (readP (dp_listRecords prov zoneId (dr_name r) (dr_type r))) (\<lambda>existing.
     let chosen = chooseExisting (dr_type r) (dr_content r) existing;
         exact = (case chosen of None \<Rightarrow> False | Some c \<Rightarrow> strip (pr_content c) = strip (dr_content r))
     in bindM (writeP (dp_upsertRecord prov zoneId chosen
                 \<lparr>di_type = dr_type r, di_name = dr_name r, di_content = dr_content r, di_ttl = dr_ttl r, di_priority = dr_priority r\<rparr>)) (\<lambda>cfRec.
        let stale = staleDuplicates (dr_type r) (dr_content r) existing (Some cfRec)
        in thenM (forM stale (\<lambda>dup. writeP (dp_deleteRecord prov zoneId (pr_id dup))))
          (thenM (modifyM (mark_synced (dr_id r) (pr_id cfRec)))
          (returnM (if length stale > 0 then ''fixed ('' @ show_nat (length stale) @ '' stale removed)''
                    else if chosen = None then ''created'' else if exact then ''kept'' else ''updated'')))))"

fun sync_loop :: "'w dns_provider \<Rightarrow> string \<Rightarrow> dns_row list \<Rightarrow> (('w, 'z) dns_db_scheme, (string \<times> string) list) svc" where
  "sync_loop prov zoneId [] = returnM []"
| "sync_loop prov zoneId (r # rs) =
     bindM (catchM (sync_record prov zoneId r) (\<lambda>err. returnM ''error'')) (\<lambda>action.
     bindM (sync_loop prov zoneId rs) (\<lambda>applied. returnM ((dr_purpose r, action) # applied)))"

definition syncToProvider ::
  "'w dns_provider \<Rightarrow> principal \<Rightarrow> uuid \<Rightarrow> uuid \<Rightarrow> string option \<Rightarrow> (('w, 'z) dns_db_scheme, (string \<times> string) list) svc" where
  "syncToProvider prov p orgId domainId ip =
     thenM (requireRole orgId (p_user_id p) Admin)
     (bindM (getsM (\<lambda>s. find (\<lambda>d. d_id d = domainId \<and> d_org_id d = orgId) (domains s))) (\<lambda>row.
      bindM (someM row (NotFoundException ''Domain not found'' None)) (\<lambda>d.
      bindM (readP (dp_findZoneId prov (d_name d))) (\<lambda>found.
      bindM (someM (Option.bind found (\<lambda>z. if z = [] then None else Some z)) (NotFoundException ''DNS zone not found''
               (Some (''No '' @ dp_name prov @ '' zone for '' @ d_name d @ ''. Add it to your DNS provider first.'')))) (\<lambda>zoneId.
      bindM (getsM (\<lambda>s. filter (\<lambda>r. dr_domain_id r = domainId \<and> dr_managed r) (dns_records s))) (\<lambda>records.
      bindM (sync_loop prov zoneId records) (\<lambda>applied.
      thenM (audit_log (user_entry (Some orgId) p ''dns.sync'' ''domain'' domainId ip
               [(''applied'', JArr (map (\<lambda>(pu, ac). JObj [(''purpose'', JStr pu), (''action'', JStr ac)]) applied))]))
      (returnM applied))))))))"

section \<open>Rechecks\<close>

record dns_error =
  err_code :: string
  err_msg :: string

record resolver =
  rv_txt :: "string \<Rightarrow> dns_error + string list list"
  rv_mx :: "string \<Rightarrow> dns_error + (nat \<times> string) list"
  rv_cname :: "string \<Rightarrow> dns_error + string list"
  rv_caa :: "string \<Rightarrow> dns_error + caa_object list"
  rv_json :: "string \<Rightarrow> string \<Rightarrow> dns_error + string" \<comment> \<open>\<open>JSON.stringify\<close> of any other answer, by name and type\<close>

definition resolveOne :: "resolver \<Rightarrow> string \<Rightarrow> string \<Rightarrow> dns_error + string" where
  "resolveOne rv ty name =
     (if ty = ''TXT'' then map_sum id (\<lambda>t. join '' | '' (map concat t)) (rv_txt rv name)
      else if ty = ''MX'' then map_sum id (\<lambda>m. join '' | '' (map (\<lambda>(n, x). show_nat n @ '' '' @ x) m)) (rv_mx rv name)
      else if ty = ''CNAME'' then map_sum id (join '' | '') (rv_cname rv name)
      else rv_json rv name ty)"

definition verdict :: "bool \<Rightarrow> string option \<Rightarrow> string" where
  "verdict matches observed = (if matches then ''ok'' else case observed of None \<Rightarrow> ''missing'' | Some ob \<Rightarrow> if ob = [] then ''missing'' else ''drifted'')"

definition lookup_failed :: "dns_error \<Rightarrow> string option \<times> string" where
  "lookup_failed err = (if err_code err = ''ENOTFOUND'' \<or> err_code err = ''ENODATA'' then (None, ''missing'') else (Some (err_msg err), ''error''))"

definition check_record :: "resolver \<Rightarrow> dns_row \<Rightarrow> string option \<times> string" where
  "check_record rv r =
     (if dr_type r = ''CAA'' then
        (case rv_caa rv (dr_name r) of
           Inl err \<Rightarrow> lookup_failed err
         | Inr recs \<Rightarrow>
             let parsed = List.map_filter parseCaaObject recs;
                 observed = (if parsed \<noteq> [] then Some (join '' | '' (map caaToString parsed)) else None)
             in (observed, verdict (\<exists>p \<in> set parsed. caaEqual (Some p) (parseCaa (dr_content r))) observed))
      else
        (case resolveOne rv (dr_type r) (dr_name r) of
           Inl err \<Rightarrow> lookup_failed err
         | Inr observed \<Rightarrow> (Some observed, verdict (contains observed (strip (dr_content r))) (Some observed))))"

definition write_check :: "uuid \<Rightarrow> string option \<times> string \<Rightarrow> 'z dom_db_scheme \<Rightarrow> 'z dom_db_scheme" where
  "write_check i res s = s\<lparr>dns_records := map (\<lambda>r. if dr_id r = i
     then r\<lparr>dr_observed_content := fst res, dr_check_status := snd res, dr_last_checked_at := Some (now s)\<rparr> else r) (dns_records s)\<rparr>"

definition checkRecords :: "resolver \<Rightarrow> uuid \<Rightarrow> ('z dom_db_scheme, unit) svc" where
  "checkRecords rv domainId =
     bindM (getsM (\<lambda>s. filter (\<lambda>r. dr_domain_id r = domainId) (dns_records s))) (\<lambda>rows.
     forM rows (\<lambda>r. modifyM (write_check (dr_id r) (check_record rv r))))"

definition dnsCheck :: "(string \<Rightarrow> 'k :: linorder) \<Rightarrow> resolver \<Rightarrow> uuid \<Rightarrow> uuid \<Rightarrow> uuid \<Rightarrow> ('z dom_db_scheme, dns_dto list) svc" where
  "dnsCheck coll rv orgId domainId userId =
     thenM (requireRole orgId userId Viewer)
     (bindM (getsM (\<lambda>s. find (\<lambda>d. d_id d = domainId \<and> d_org_id d = orgId) (domains s))) (\<lambda>owned.
      thenM (someM owned (NotFoundException ''Domain not found'' None))
     (thenM (checkRecords rv domainId)
     (getsM (\<lambda>s. map toDns (sort_key (\<lambda>r. coll (dr_purpose r)) (sort_key (\<lambda>r. coll (dr_name r))
         (filter (\<lambda>r. dr_domain_id r = domainId) (dns_records s)))))))))"

definition recheck_due :: "timestamp \<Rightarrow> dns_row \<Rightarrow> bool" where
  "recheck_due nw r = (dr_check_status r \<in> {''propagating'', ''missing'', ''error''} \<or>
     (case dr_last_checked_at r of None \<Rightarrow> True | Some t \<Rightarrow> t < nw - 6 * 3600 * 1000))"

definition recheckDue :: "resolver \<Rightarrow> ('z dom_db_scheme, nat) svc" where
  "recheckDue rv =
     bindM (getsM (\<lambda>s. js_dedupe (map dr_domain_id (filter (recheck_due (now s)) (dns_records s))))) (\<lambda>rows.
     thenM (forM rows (\<lambda>dm. catchM (checkRecords rv dm) (\<lambda>err. returnM ())))
     (returnM (length rows)))"

section \<open>The zone file\<close>

definition fqdn :: "string \<Rightarrow> string" where
  "fqdn name = (if endsWith name ''.'' then name else name @ ''.'')"

definition txtRdata :: "string \<Rightarrow> string" where
  "txtRdata content = join '' '' (map (\<lambda>c. dquote (replace_chars (\<lambda>x. if x = CHR 0x22 then [CHR 0x5C, CHR 0x22] else [x]) c)) (chunks content))"

definition zone_line :: "dns_row \<Rightarrow> string" where
  "zone_line r =
     (let tab = [CHR 0x09]; head = fqdn (dr_name r) @ tab @ show_int (dr_ttl r) @ tab @ ''IN'' @ tab @ dr_type r
      in head @ tab @
         (if dr_type r = ''TXT'' then txtRdata (dr_content r)
          else if dr_type r = ''MX'' then show_int (case dr_priority r of None \<Rightarrow> 10 | Some n \<Rightarrow> n) @ '' '' @ fqdn (dr_content r)
          else if dr_type r = ''CNAME'' then fqdn (dr_content r)
          else dr_content r))"

definition toZoneFile :: "string \<Rightarrow> dns_row list \<Rightarrow> string" where
  "toZoneFile dmn records =
     join [CHR 0x0A]
       ([''; JustMail DNS records for '' @ dmn,
         ''; Import into any authoritative DNS server (BIND, PowerDNS, Knot, NSD, Technitium, dnsmasq).'',
         ''; Owner names are fully qualified. After the zone reloads, click '' @ dquote ''Recheck'' @ '' to verify.'',
         []] @ map zone_line records) @ [CHR 0x0A]"

definition zoneFile :: "(string \<Rightarrow> 'k :: linorder) \<Rightarrow> uuid \<Rightarrow> uuid \<Rightarrow> uuid \<Rightarrow> ('z dom_db_scheme, string \<times> string) svc" where
  "zoneFile coll orgId domainId userId =
     thenM (requireRole orgId userId Viewer)
     (bindM (getsM (\<lambda>s. find (\<lambda>d. d_id d = domainId \<and> d_org_id d = orgId) (domains s))) (\<lambda>row.
      bindM (someM row (NotFoundException ''Domain not found'' None)) (\<lambda>d.
      getsM (\<lambda>s. (d_name d @ ''.zone'', toZoneFile (d_name d)
        (sort_key (\<lambda>r. coll (dr_purpose r)) (sort_key (\<lambda>r. coll (dr_name r)) (filter (\<lambda>r. dr_domain_id r = domainId) (dns_records s)))))))))"

end
