(* ===== verification/JM_DnsSync.thy ===== *)
theory JM_DnsSync
  imports JM_Dns
begin

text \<open>
  Properties of publishing: what a synchronisation does to the records a provider holds, when the
  provider keeps the contract of a record store (Cloudflare), and when it does not (deSEC); the
  encoding of long TXT values; and the recheck.
\<close>

section \<open>The contract of a record store\<close>

definition publishes :: "dns_input \<Rightarrow> prec \<Rightarrow> bool" where
  "publishes p r \<longleftrightarrow> pr_type r = di_type p \<and> pr_name r = di_name p \<and>
     (di_type p \<noteq> ''CAA'' \<longrightarrow> strip (pr_content r) = strip (di_content p))"

definition valid_input :: "dns_input \<Rightarrow> bool" where
  "valid_input p \<longleftrightarrow> (di_type p = ''CAA'' \<longrightarrow> parseCaa (di_content p) \<noteq> None)"

text \<open>
  Records with identifiers of their own: a query returns exactly the records of a name and type, an
  update replaces one record, a creation adds one, a deletion removes one.
\<close>

locale record_store =
  fixes prov :: "'w dns_provider" and z :: string and recs :: "'w \<Rightarrow> prec list" and ok :: "'w \<Rightarrow> bool"
  assumes store_list: "ok w \<Longrightarrow> dp_listRecords prov z n t w = Inr (filter (\<lambda>r. pr_name r = n \<and> pr_type r = t) (recs w))"
    and store_ids: "ok w \<Longrightarrow> distinct (map pr_id (recs w))"
    and store_update: "ok w \<Longrightarrow> e \<in> set (recs w) \<Longrightarrow> valid_input p \<Longrightarrow>
      \<exists>r w'. dp_upsertRecord prov z (Some e) p w = (Inr r, w') \<and> ok w' \<and> pr_id r = pr_id e \<and> publishes p r \<and>
        recs w' = map (\<lambda>x. if pr_id x = pr_id e then r else x) (recs w)"
    and store_create: "ok w \<Longrightarrow> valid_input p \<Longrightarrow>
      \<exists>r w'. dp_upsertRecord prov z None p w = (Inr r, w') \<and> ok w' \<and> pr_id r \<notin> pr_id ` set (recs w) \<and> publishes p r \<and> recs w' = recs w @ [r]"
    and store_invalid: "\<not> valid_input p \<Longrightarrow> \<exists>msg. dp_upsertRecord prov z ex p w = (Inl msg, w)"
    and store_delete: "ok w \<Longrightarrow> i \<in> pr_id ` set (recs w) \<Longrightarrow>
      \<exists>w'. dp_deleteRecord prov z i w = (Inr (), w') \<and> ok w' \<and> recs w' = filter (\<lambda>x. pr_id x \<noteq> i) (recs w)"

text \<open>The records an expected record may overwrite or delete, and the TXT records of its kind.\<close>

definition touches :: "dns_row \<Rightarrow> prec \<Rightarrow> bool" where
  "touches r e \<longleftrightarrow> pr_name e = dr_name r \<and> pr_type e = dr_type r \<and>
     (dr_type r = ''TXT'' \<longrightarrow> strip (pr_content e) = strip (dr_content r) \<or>
        txtKind (dr_content r) \<noteq> None \<and> txtKind (pr_content e) = txtKind (dr_content r))"

definition ours :: "dns_row \<Rightarrow> prec \<Rightarrow> bool" where
  "ours r e \<longleftrightarrow> pr_name e = dr_name r \<and> pr_type e = ''TXT'' \<and> txtKind (pr_content e) = txtKind (dr_content r)"

definition kinded :: "dns_row \<Rightarrow> bool" where
  "kinded r \<longleftrightarrow> dr_type r = ''TXT'' \<and> txtKind (dr_content r) \<noteq> None"

text \<open>What one expected record does to a store.\<close>

definition sync_step :: "dns_row \<Rightarrow> prec list \<Rightarrow> prec list \<Rightarrow> bool" where
  "sync_step r R R' \<longleftrightarrow>
     (\<forall>e \<in> set R. \<not> touches r e \<longrightarrow> e \<in> set R') \<and>
     (\<forall>e \<in> set R'. e \<in> set R \<or> pr_name e = dr_name r \<and> pr_type e = dr_type r \<and> (dr_type r \<noteq> ''CAA'' \<longrightarrow> strip (pr_content e) = strip (dr_content r))) \<and>
     (kinded r \<longrightarrow> (\<exists>x \<in> set R'. strip (pr_content x) = strip (dr_content r) \<and> {e \<in> set R'. ours r e} = {x}))"

lemma txtKind_strip: "strip a = strip b \<Longrightarrow> txtKind a = txtKind b"
  by (simp add: txtKind_def)

lemma chosen_touches:
  assumes "chooseExisting (dr_type r) (dr_content r) (filter (\<lambda>e. pr_name e = dr_name r \<and> pr_type e = dr_type r) R) = Some c"
  shows "c \<in> set R \<and> touches r c"
proof -
  have f: "c \<in> set R \<and> touches r c" if "find P (filter (\<lambda>e. pr_name e = dr_name r \<and> pr_type e = dr_type r) R) = Some c"
    "P c \<Longrightarrow> dr_type r = ''TXT'' \<longrightarrow> strip (pr_content c) = strip (dr_content r) \<or> txtKind (dr_content r) \<noteq> None \<and> txtKind (pr_content c) = txtKind (dr_content r)" for P
    using find_SomeD[OF that(1)] that(2) by (auto simp: touches_def)
  have h: "c \<in> set R \<and> touches r c" if "filter (\<lambda>e. pr_name e = dr_name r \<and> pr_type e = dr_type r) R = c # cs" "dr_type r \<noteq> ''TXT''" for cs
  proof -
    have "c \<in> set (filter (\<lambda>e. pr_name e = dr_name r \<and> pr_type e = dr_type r) R)" unfolding that(1) by simp
    with that(2) show ?thesis by (simp add: touches_def)
  qed
  let ?E = "filter (\<lambda>e. pr_name e = dr_name r \<and> pr_type e = dr_type r) R"
  show ?thesis
  proof (cases "find (\<lambda>e. strip (pr_content e) = strip (dr_content r)) ?E")
    case (Some e)
    then show ?thesis using assms f[of "\<lambda>e. strip (pr_content e) = strip (dr_content r)"] by (simp add: chooseExisting_def)
  next
    case None
    consider (kind) k where "dr_type r = ''TXT''" "txtKind (dr_content r) = Some k" "find (\<lambda>e. txtKind (pr_content e) = Some k) ?E = Some c"
      | (mx) "dr_type r = ''MX''" "find (\<lambda>e. mxHost (pr_content e) = mxHost (dr_content r)) ?E = Some c"
      | (host) cs where "dr_type r \<noteq> ''TXT''" "?E = c # cs"
      using assms None by (auto simp: chooseExisting_def split: option.splits if_splits list.splits)
    then show ?thesis
    proof cases
      case kind
      then show ?thesis using f[OF kind(3)] by simp
    next
      case mx
      then show ?thesis using f[OF mx(2)] by simp
    next
      case host
      show ?thesis by (rule h[OF host(2,1)])
    qed
  qed
qed

text \<open>Along a list of expected records; a record of no kind may fail and change nothing.\<close>

inductive sync_steps :: "dns_row list \<Rightarrow> prec list \<Rightarrow> prec list \<Rightarrow> bool" where
  stop: "sync_steps [] R R"
| skip: "\<not> kinded r \<Longrightarrow> sync_steps rs R R' \<Longrightarrow> sync_steps (r # rs) R R'"
| move: "sync_step r R R1 \<Longrightarrow> sync_steps rs R1 R' \<Longrightarrow> sync_steps (r # rs) R R'"

inductive_cases sync_steps_ConsE: "sync_steps (r # rs) R R'"

lemma sync_steps_keep: "sync_steps rs R R' \<Longrightarrow> e \<in> set R \<Longrightarrow> \<forall>r \<in> set rs. \<not> touches r e \<Longrightarrow> e \<in> set R'"
  by (induction rule: sync_steps.induct) (auto simp: sync_step_def)

definition kind_key :: "dns_row \<Rightarrow> string \<times> string option" where
  "kind_key r = (dr_name r, txtKind (dr_content r))"

lemma sync_step_frame:
  assumes "sync_step r' R R'" "kinded r" "kinded r' \<longrightarrow> kind_key r' \<noteq> kind_key r"
  shows "{e \<in> set R'. ours r e} = {e \<in> set R. ours r e}"
proof (intro equalityI subsetI)
  fix e assume e: "e \<in> {e \<in> set R'. ours r e}"
  have False if "pr_name e = dr_name r'" "pr_type e = dr_type r'" "dr_type r' \<noteq> ''CAA'' \<longrightarrow> strip (pr_content e) = strip (dr_content r')"
  proof -
    from e that have "dr_type r' = ''TXT''" "strip (pr_content e) = strip (dr_content r')" by (auto simp: ours_def)
    then have "txtKind (dr_content r') = txtKind (dr_content r)" using e txtKind_strip[of "pr_content e" "dr_content r'"] by (simp add: ours_def)
    with e assms(2,3) that show False by (auto simp: ours_def kinded_def kind_key_def)
  qed
  with e assms(1) show "e \<in> {e \<in> set R. ours r e}" unfolding sync_step_def by blast
next
  fix e assume e: "e \<in> {e \<in> set R. ours r e}"
  have "\<not> touches r' e"
  proof
    assume t: "touches r' e"
    with e have n: "dr_name r' = dr_name r" "dr_type r' = ''TXT''" by (auto simp: touches_def ours_def)
    from t n(2) e have "txtKind (dr_content r') = txtKind (dr_content r)"
      using txtKind_strip[of "pr_content e" "dr_content r'"] by (auto simp: touches_def ours_def)
    with n assms(2,3) show False by (auto simp: kinded_def kind_key_def)
  qed
  with e assms(1) show "e \<in> {e \<in> set R'. ours r e}" unfolding sync_step_def by blast
qed

lemma sync_steps_frame:
  "sync_steps rs R R' \<Longrightarrow> kinded r \<Longrightarrow> \<forall>r' \<in> set rs. kinded r' \<longrightarrow> kind_key r' \<noteq> kind_key r \<Longrightarrow>
     {e \<in> set R'. ours r e} = {e \<in> set R. ours r e}"
proof (induction rule: sync_steps.induct)
  case (move r' R R1 rs R')
  then show ?case using sync_step_frame[of r' R R1 r] by simp
qed simp_all

lemma sync_steps_one:
  assumes "sync_steps rs R R'" "r \<in> set rs" "kinded r" "distinct (map kind_key (filter kinded rs))"
  shows "\<exists>x. strip (pr_content x) = strip (dr_content r) \<and> {e \<in> set R'. ours r e} = {x}"
  using assms
proof (induction rule: sync_steps.induct)
  case (skip r' rs R R')
  then show ?case by auto
next
  case (move r' R R1 rs R')
  show ?case
  proof (cases "r = r'")
    case True
    with move(5,6) have "kind_key r \<notin> kind_key ` {x \<in> set rs. kinded x}" by simp
    then have "\<forall>r'' \<in> set rs. kinded r'' \<longrightarrow> kind_key r'' \<noteq> kind_key r" by (metis (mono_tags) imageI mem_Collect_eq)
    from sync_steps_frame[OF move(2) move(5) this] move(1,5) True show ?thesis unfolding sync_step_def by auto
  next
    case False
    with move show ?thesis by (auto split: if_splits)
  qed
qed simp

context record_store
begin

lemma delete_all:
  assumes "ok (zones s)" "distinct (map pr_id ds)" "pr_id ` set ds \<subseteq> pr_id ` set (recs (zones s))"
  shows "\<exists>s'. forM ds (\<lambda>dup. writeP (dp_deleteRecord prov z (pr_id dup))) s = (Inr (), s') \<and> ok (zones s') \<and>
    recs (zones s') = filter (\<lambda>x. pr_id x \<notin> pr_id ` set ds) (recs (zones s))"
  using assms
proof (induction ds arbitrary: s)
  case (Cons d ds)
  from Cons.prems store_delete[of "zones s" "pr_id d"] obtain w' where w: "dp_deleteRecord prov z (pr_id d) (zones s) = (Inr (), w')" "ok w'"
    "recs w' = filter (\<lambda>x. pr_id x \<noteq> pr_id d) (recs (zones s))" by auto
  let ?s1 = "s\<lparr>zones := w'\<rparr>"
  have "pr_id ` set ds \<subseteq> pr_id ` set (recs (zones ?s1))" 
  proof
    fix i assume "i \<in> pr_id ` set ds"
    moreover from Cons.prems(2) have "pr_id d \<notin> pr_id ` set ds" by simp
    ultimately have "i \<noteq> pr_id d" "i \<in> pr_id ` set (recs (zones s))" using Cons.prems(3) by (metis, auto)
    then show "i \<in> pr_id ` set (recs (zones ?s1))" by (auto simp: w(3))
  qed
  with Cons.IH[of ?s1] Cons.prems w(2) obtain s' where
    "forM ds (\<lambda>dup. writeP (dp_deleteRecord prov z (pr_id dup))) ?s1 = (Inr (), s')" "ok (zones s')"
    "recs (zones s') = filter (\<lambda>x. pr_id x \<notin> pr_id ` set ds) (recs (zones ?s1))" by auto
  moreover have "writeP (dp_deleteRecord prov z (pr_id d)) s = (Inr (), ?s1)" by (simp add: writeP_def w(1))
  ultimately show ?case by (auto simp: thenM_def bindM_def w(3) intro!: filter_cong)
qed (simp add: returnM_def)

text \<open>The store after the write and after the deletions.\<close>

lemma step_after_write:
  assumes ids: "distinct (map pr_id R)" and new: "publishes \<lparr>di_type = dr_type r, di_name = dr_name r, di_content = dr_content r, di_ttl = tt, di_priority = pp\<rparr> c"
    and chosen: "chosen = chooseExisting (dr_type r) (dr_content r) (filter (\<lambda>e. pr_name e = dr_name r \<and> pr_type e = dr_type r) R)"
    and written: "case chosen of Some e \<Rightarrow> pr_id c = pr_id e \<and> R1 = map (\<lambda>x. if pr_id x = pr_id e then c else x) R
      | None \<Rightarrow> pr_id c \<notin> pr_id ` set R \<and> R1 = R @ [c]"
    and stale: "stale = staleDuplicates (dr_type r) (dr_content r) (filter (\<lambda>e. pr_name e = dr_name r \<and> pr_type e = dr_type r) R) (Some c)"
  shows "sync_step r R (filter (\<lambda>x. pr_id x \<notin> pr_id ` set stale) R1)" and "pr_id ` set stale \<subseteq> pr_id ` set R1"
proof -
  have inj: "x \<in> set R \<Longrightarrow> y \<in> set R \<Longrightarrow> pr_id x = pr_id y \<Longrightarrow> x = y" for x y using ids by (auto simp: distinct_map dest: inj_onD)
  have in_R1: "e \<in> set R1 \<longleftrightarrow> e = c \<or> e \<in> set R \<and> pr_id e \<noteq> pr_id c" for e
  proof (cases chosen)
    case None
    with written have R1: "R1 = R @ [c]" "pr_id c \<notin> pr_id ` set R" by simp_all
    then have "e \<in> set R \<Longrightarrow> pr_id e \<noteq> pr_id c" by (metis imageI)
    with R1(1) show ?thesis by auto
  next
    case (Some x)
    with written chosen_touches[of r R x] show ?thesis unfolding chosen by auto
  qed
  have st: "e \<in> set stale \<longleftrightarrow> kinded r \<and> e \<in> set R \<and> ours r e \<and> pr_id e \<noteq> pr_id c" for e
    by (cases "txtKind (dr_content r)") (auto simp: stale staleDuplicates_def kinded_def ours_def)
  show "pr_id ` set stale \<subseteq> pr_id ` set R1" using st in_R1 by auto
  have c: "pr_name c = dr_name r" "pr_type c = dr_type r" "dr_type r \<noteq> ''CAA'' \<longrightarrow> strip (pr_content c) = strip (dr_content r)"
    using new by (auto simp: publishes_def)
  have c_stays: "pr_id c \<notin> pr_id ` set stale" by (metis imageE st)
  have keep: "e \<in> set R1 \<and> pr_id e \<notin> pr_id ` set stale" if e: "e \<in> set R" "\<not> touches r e" for e
  proof -
    have "pr_id e \<noteq> pr_id c"
    proof (cases chosen)
      case None
      with written have "pr_id c \<notin> pr_id ` set R" by simp
      with e show ?thesis by (metis imageI)
    next
      case (Some x)
      with chosen_touches[of r R x] have x: "x \<in> set R" "touches r x" by (simp_all add: chosen)
      with Some written e inj[of e x] show ?thesis by auto
    qed
    moreover have "pr_id e \<notin> pr_id ` set stale"
    proof
      assume "pr_id e \<in> pr_id ` set stale"
      then obtain y where "y \<in> set stale" "pr_id y = pr_id e" by auto
      with st[of y] inj e have "ours r e" "kinded r" by auto
      with e show False by (auto simp: touches_def ours_def kinded_def)
    qed
    ultimately show ?thesis using e in_R1 by blast
  qed
  have only: "x \<in> set R1 \<Longrightarrow> pr_id x \<notin> pr_id ` set stale \<Longrightarrow> ours r x \<Longrightarrow> kinded r \<Longrightarrow> x = c" for x
    using in_R1[of x] st[of x] by auto
  have "ours r c" if "kinded r" using c that txtKind_strip[of "pr_content c" "dr_content r"] by (auto simp: ours_def kinded_def)
  with only c_stays in_R1 have one: "kinded r \<longrightarrow> c \<in> set R1 \<and> {e \<in> set R1. pr_id e \<notin> pr_id ` set stale \<and> ours r e} = {c}" by blast
  show "sync_step r R (filter (\<lambda>x. pr_id x \<notin> pr_id ` set stale) R1)"
    unfolding sync_step_def
  proof (intro conjI ballI impI)
    fix e assume "e \<in> set R" "\<not> touches r e"
    then show "e \<in> set (filter (\<lambda>x. pr_id x \<notin> pr_id ` set stale) R1)" using keep by simp
  next
    fix e assume "e \<in> set (filter (\<lambda>x. pr_id x \<notin> pr_id ` set stale) R1)"
    then show "e \<in> set R \<or> pr_name e = dr_name r \<and> pr_type e = dr_type r \<and> (dr_type r \<noteq> ''CAA'' \<longrightarrow> strip (pr_content e) = strip (dr_content r))"
      using in_R1[of e] c by auto
  next
    assume k: "kinded r"
    then have "strip (pr_content c) = strip (dr_content r)" using c(3) by (simp add: kinded_def)
    with one k c_stays show "\<exists>x \<in> set (filter (\<lambda>x. pr_id x \<notin> pr_id ` set stale) R1).
        strip (pr_content x) = strip (dr_content r) \<and> {e \<in> set (filter (\<lambda>x. pr_id x \<notin> pr_id ` set stale) R1). ours r e} = {x}"
      by (intro bexI[of _ c]) auto
  qed
qed

lemma sync_record_run:
  assumes "ok (zones s)"
  shows "\<exists>a s'. catchM (sync_record prov z r) (\<lambda>err. returnM ''error'') s = (Inr a, s') \<and> ok (zones s') \<and>
    (if a = ''error'' then zones s' = zones s \<and> \<not> kinded r else sync_step r (recs (zones s)) (recs (zones s')))"
proof -
  let ?R = "recs (zones s)"
  let ?E = "filter (\<lambda>e. pr_name e = dr_name r \<and> pr_type e = dr_type r) ?R"
  define chosen where "chosen = chooseExisting (dr_type r) (dr_content r) ?E"
  define p where "p = \<lparr>di_type = dr_type r, di_name = dr_name r, di_content = dr_content r, di_ttl = dr_ttl r, di_priority = dr_priority r\<rparr>"
  have list: "readP (dp_listRecords prov z (dr_name r) (dr_type r)) s = (Inr ?E, s)" using store_list[OF assms] by (simp add: readP_def)
  show ?thesis
  proof (cases "valid_input p")
    case False
    then obtain msg where "dp_upsertRecord prov z chosen p (zones s) = (Inl msg, zones s)" using store_invalid by blast
    then have "sync_record prov z r s = (Inl (HttpException 500 msg None), s)"
      unfolding sync_record_def bindM_pass[where m = "readP (dp_listRecords prov z (dr_name r) (dr_type r))", OF list] Let_def
        chosen_def[symmetric] p_def[symmetric] by (simp add: writeP_def bindM_def)
    moreover have "\<not> kinded r" using False by (auto simp: valid_input_def p_def kinded_def)
    ultimately show ?thesis using assms by (simp add: catchM_def returnM_def)
  next
    case True
    obtain c w1 where up: "dp_upsertRecord prov z chosen p (zones s) = (Inr c, w1)" "ok w1" "publishes p c"
      and written: "case chosen of Some e \<Rightarrow> pr_id c = pr_id e \<and> recs w1 = map (\<lambda>x. if pr_id x = pr_id e then c else x) ?R
        | None \<Rightarrow> pr_id c \<notin> pr_id ` set ?R \<and> recs w1 = ?R @ [c]"
    proof (cases chosen)
      case None
      with store_create[OF assms True] that show thesis by auto
    next
      case (Some e)
      then have "e \<in> set ?R" using chosen_touches[of r ?R e] by (simp add: chosen_def)
      from store_update[OF assms this True] Some that show thesis by auto
    qed
    define stale where "stale = staleDuplicates (dr_type r) (dr_content r) ?E (Some c)"
    note step = step_after_write[OF store_ids[OF assms] up(3)[unfolded p_def] chosen_def written stale_def]
    let ?s1 = "s\<lparr>zones := w1\<rparr>"
    have "distinct (map pr_id stale)"
      using store_ids[OF assms] by (auto simp: stale_def staleDuplicates_def distinct_map_filter split: option.splits)
    with delete_all[of ?s1 stale] up(2) step(2) obtain s2 where
      del: "forM stale (\<lambda>dup. writeP (dp_deleteRecord prov z (pr_id dup))) ?s1 = (Inr (), s2)" "ok (zones s2)"
        "recs (zones s2) = filter (\<lambda>x. pr_id x \<notin> pr_id ` set stale) (recs w1)" by auto
    have wr: "writeP (dp_upsertRecord prov z chosen p) s = (Inr c, ?s1)" by (simp add: writeP_def up(1))
    have "\<exists>a. a \<noteq> ''error'' \<and> sync_record prov z r s = (Inr a, mark_synced (dr_id r) (pr_id c) s2)"
      unfolding sync_record_def bindM_pass[where m = "readP (dp_listRecords prov z (dr_name r) (dr_type r))", OF list] Let_def
        chosen_def[symmetric] p_def[symmetric] bindM_pass[where m = "writeP (dp_upsertRecord prov z chosen p)", OF wr] stale_def[symmetric]
        thenM_pass[where m = "forM stale (\<lambda>dup. writeP (dp_deleteRecord prov z (pr_id dup)))", OF del(1)] thenM_modifyM returnM_def by simp
    then obtain a where a: "a \<noteq> ''error''" "sync_record prov z r s = (Inr a, mark_synced (dr_id r) (pr_id c) s2)" by blast
    have "zones (mark_synced (dr_id r) (pr_id c) s2) = zones s2" by (simp add: mark_synced_def)
    with a del(2,3) step(1) show ?thesis by (simp add: catchM_def)
  qed
qed

lemma sync_loop_run:
  "ok (zones s) \<Longrightarrow> \<exists>applied s'. sync_loop prov z rs s = (Inr applied, s') \<and> ok (zones s') \<and> sync_steps rs (recs (zones s)) (recs (zones s'))"
proof (induction rs arbitrary: s)
  case Nil
  then show ?case by (auto simp: returnM_def intro: sync_steps.stop)
next
  case (Cons r rs)
  from sync_record_run[OF Cons.prems, of r] obtain a s1 where one: "catchM (sync_record prov z r) (\<lambda>err. returnM ''error'') s = (Inr a, s1)" "ok (zones s1)"
    and st: "if a = ''error'' then zones s1 = zones s \<and> \<not> kinded r else sync_step r (recs (zones s)) (recs (zones s1))" by blast
  from Cons.IH[OF one(2)] obtain ap s' where rest: "sync_loop prov z rs s1 = (Inr ap, s')" "ok (zones s')" "sync_steps rs (recs (zones s1)) (recs (zones s'))" by blast
  have "sync_steps (r # rs) (recs (zones s)) (recs (zones s'))"
    using st rest(3) by (cases "a = ''error''") (auto intro: sync_steps.skip sync_steps.move)
  with one rest show ?case by (simp add: bindM_def returnM_def)
qed

end

section \<open>Cloudflare keeps the contract\<close>

text \<open>
  What the documentation of the interface promises for one zone: the list request filters by name and
  type, \<open>PUT\<close> replaces the record of that identifier, \<open>POST\<close> adds a record with a new one,
  \<open>DELETE\<close> removes it; a record with a content has that content up to quoting.
\<close>

definition holds_body :: "cf_body \<Rightarrow> prec \<Rightarrow> bool" where
  "holds_body b r \<longleftrightarrow> pr_type r = cb_type b \<and> pr_name r = cb_name b \<and> (\<forall>c. cb_content b = Some c \<longrightarrow> strip (pr_content r) = strip c)"

locale cloudflare_zone =
  fixes api :: "'w cf_api" and z :: string and recs :: "'w \<Rightarrow> prec list" and ok :: "'w \<Rightarrow> bool"
  assumes api_list: "ok w \<Longrightarrow> ca_records api z n t w = Inr (filter (\<lambda>r. pr_name r = n \<and> pr_type r = t) (recs w))"
    and api_ids: "ok w \<Longrightarrow> distinct (map pr_id (recs w))"
    and api_put: "ok w \<Longrightarrow> i \<in> pr_id ` set (recs w) \<Longrightarrow>
      \<exists>r w'. ca_put api z i b w = (Inr r, w') \<and> ok w' \<and> pr_id r = i \<and> holds_body b r \<and> recs w' = map (\<lambda>x. if pr_id x = i then r else x) (recs w)"
    and api_post: "ok w \<Longrightarrow>
      \<exists>r w'. ca_post api z b w = (Inr r, w') \<and> ok w' \<and> pr_id r \<notin> pr_id ` set (recs w) \<and> holds_body b r \<and> recs w' = recs w @ [r]"
    and api_delete: "ok w \<Longrightarrow> i \<in> pr_id ` set (recs w) \<Longrightarrow>
      \<exists>w'. ca_delete api z i w = (Inr (), w') \<and> ok w' \<and> recs w' = filter (\<lambda>x. pr_id x \<noteq> i) (recs w)"

lemma body_publishes: "cf_body_of p = Inr b \<Longrightarrow> holds_body b r \<Longrightarrow> publishes p r"
  by (auto simp: cf_body_of_def holds_body_def publishes_def Let_def split: if_splits option.splits)

lemma body_valid: "valid_input p \<longleftrightarrow> (\<exists>b. cf_body_of p = Inr b)"
  by (auto simp: cf_body_of_def valid_input_def Let_def split: option.splits)

sublocale cloudflare_zone \<subseteq> store: record_store "cloudflare api" z recs ok
proof
  show "ok w \<Longrightarrow> dp_listRecords (cloudflare api) z n t w = Inr (filter (\<lambda>r. pr_name r = n \<and> pr_type r = t) (recs w))" for w n t
    by (simp add: cloudflare_def api_list)
  show "ok w \<Longrightarrow> distinct (map pr_id (recs w))" for w by (rule api_ids)
  show "\<exists>r w'. dp_upsertRecord (cloudflare api) z (Some e) p w = (Inr r, w') \<and> ok w' \<and> pr_id r = pr_id e \<and> publishes p r \<and>
      recs w' = map (\<lambda>x. if pr_id x = pr_id e then r else x) (recs w)" if "ok w" "e \<in> set (recs w)" "valid_input p" for w e p
  proof -
    from that(3) obtain b where b: "cf_body_of p = Inr b" by (auto simp: body_valid)
    from api_put[OF that(1), of "pr_id e" b] that(2) obtain r w' where "ca_put api z (pr_id e) b w = (Inr r, w')" "ok w'" "pr_id r = pr_id e"
      "holds_body b r" "recs w' = map (\<lambda>x. if pr_id x = pr_id e then r else x) (recs w)" by auto
    with b body_publishes[OF b] show ?thesis by (simp add: cloudflare_def cf_upsertRecord_def)
  qed
  show "\<exists>r w'. dp_upsertRecord (cloudflare api) z None p w = (Inr r, w') \<and> ok w' \<and> pr_id r \<notin> pr_id ` set (recs w) \<and> publishes p r \<and> recs w' = recs w @ [r]"
    if "ok w" "valid_input p" for w p
  proof -
    from that(2) obtain b where b: "cf_body_of p = Inr b" by (auto simp: body_valid)
    from api_post[OF that(1), of b] body_publishes[OF b] b show ?thesis by (auto simp: cloudflare_def cf_upsertRecord_def)
  qed
  show "\<exists>msg. dp_upsertRecord (cloudflare api) z ex p w = (Inl msg, w)" if "\<not> valid_input p" for ex p w
    using that by (cases "cf_body_of p") (auto simp: body_valid cloudflare_def cf_upsertRecord_def)
  show "\<exists>w'. dp_deleteRecord (cloudflare api) z i w = (Inr (), w') \<and> ok w' \<and> recs w' = filter (\<lambda>x. pr_id x \<noteq> i) (recs w)"
    if "ok w" "i \<in> pr_id ` set (recs w)" for w i
    using api_delete[OF that] by (simp add: cloudflare_def)
qed

context cloudflare_zone
begin

lemma is_store: "record_store (cloudflare api) z recs ok"
  by (rule store.record_store_axioms)

end

definition managed_records :: "uuid \<Rightarrow> 'z dom_db_scheme \<Rightarrow> dns_row list" where
  "managed_records dm s = filter (\<lambda>r. dr_domain_id r = dm \<and> dr_managed r) (dns_records s)"

lemma readP_Inr: "readP f s = (Inr x, t) \<longleftrightarrow> t = s \<and> f (zones s) = Inr x"
  by (auto simp: readP_def split: sum.splits)

lemma sync_inversion:
  assumes "syncToProvider prov p org dm ip s = (Inr applied, t)"
  shows "\<exists>d z. d \<in> set (domains s) \<and> d_id d = dm \<and> dp_findZoneId prov (d_name d) (zones s) = Inr (Some z) \<and>
    (\<exists>s'. sync_loop prov z (managed_records dm s) s = (Inr applied, s') \<and> zones t = zones s')"
proof -
  have z: "zones (audit_insert e u) = zones u" for e and u :: "('a, 'b) dns_db_scheme" by (simp add: audit_insert_def)
  from assms obtain d found zn s' where "find (\<lambda>d. d_id d = dm \<and> d_org_id d = org) (domains s) = Some d"
    "dp_findZoneId prov (d_name d) (zones s) = Inr found" "Option.bind found (\<lambda>z. if z = [] then None else Some z) = Some zn"
    "sync_loop prov zn (managed_records dm s) s = (Inr applied, s')" "zones t = zones s'"
    by (auto simp: syncToProvider_def svc_iffs requireRole_Inr readP_Inr managed_records_def z)
  then show ?thesis by (auto dest!: find_SomeD split: bind_splits if_splits)
qed

lemma filter_singleton: "distinct xs \<Longrightarrow> {e \<in> set xs. P e} = {x} \<Longrightarrow> filter P xs = [x]"
proof -
  assume "distinct xs" and s: "{e \<in> set xs. P e} = {x}"
  then have "distinct (filter P xs)" "set (filter P xs) = {x}" by auto
  then show "filter P xs = [x]"
    by (metis distinct.simps(2) distinct_length_2_or_more empty_iff insert_iff list.exhaust list.set(1) list.set_intros(1) list.set_intros(2))
qed


subsection \<open>An example zone\<close>

type_synonym demo_zone = "prec list \<times> nat"

definition body_record :: "string \<Rightarrow> cf_body \<Rightarrow> prec" where
  "body_record i b = \<lparr>pr_id = i, pr_type = cb_type b, pr_name = cb_name b, pr_content = (case cb_content b of None \<Rightarrow> [] | Some c \<Rightarrow> c),
     pr_priority = cb_priority b, pr_ttl = cb_ttl b\<rparr>"

definition zone_api :: "demo_zone cf_api" where
  "zone_api = \<lparr>ca_zones = (\<lambda>n w. Inr [''z'']), ca_records = (\<lambda>z n t w. Inr (filter (\<lambda>r. pr_name r = n \<and> pr_type r = t) (fst w))),
     ca_put = (\<lambda>z i b w. (Inr (body_record i b), (map (\<lambda>x. if pr_id x = i then body_record i b else x) (fst w), snd w))),
     ca_post = (\<lambda>z b w. (Inr (body_record (replicate (snd w) CHR ''x'') b), (fst w @ [body_record (replicate (snd w) CHR ''x'') b], snd w + 1))),
     ca_delete = (\<lambda>z i w. (Inr (), (filter (\<lambda>x. pr_id x \<noteq> i) (fst w), snd w)))\<rparr>"

definition zone_ok :: "demo_zone \<Rightarrow> bool" where
  "zone_ok w \<longleftrightarrow> distinct (map pr_id (fst w)) \<and> (\<forall>r \<in> set (fst w). length (pr_id r) < snd w)"

interpretation demo: cloudflare_zone zone_api "''z''" fst zone_ok
proof
  fix w :: demo_zone and i b
  assume ok: "zone_ok w"
  show "ca_records zone_api ''z'' n t w = Inr (filter (\<lambda>r. pr_name r = n \<and> pr_type r = t) (fst w))" for n t by (simp add: zone_api_def)
  show "distinct (map pr_id (fst w))" using ok by (simp add: zone_ok_def)
  have "length (pr_id r) < snd w" if "r \<in> set (fst w)" for r using ok that by (simp add: zone_ok_def)
  then have fresh: "replicate (snd w) CHR ''x'' \<notin> pr_id ` set (fst w)" by (metis imageE length_replicate less_irrefl)
  with ok have "zone_ok (snd (ca_post zone_api ''z'' b w))"
    by (auto simp: zone_api_def zone_ok_def body_record_def less_Suc_eq)
  with fresh show "\<exists>r w'. ca_post zone_api ''z'' b w = (Inr r, w') \<and> zone_ok w' \<and> pr_id r \<notin> pr_id ` set (fst w) \<and> holds_body b r \<and> fst w' = fst w @ [r]"
    by (simp add: zone_api_def holds_body_def body_record_def)
  assume "i \<in> pr_id ` set (fst w)"
  then have "length i < snd w" using ok by (auto simp: zone_ok_def)
  moreover have "map pr_id (map (\<lambda>x. if pr_id x = i then body_record i b else x) (fst w)) = map pr_id (fst w)" by (simp add: body_record_def)
  ultimately have "zone_ok (snd (ca_put zone_api ''z'' i b w))" using ok
    unfolding zone_ok_def zone_api_def by (auto simp: body_record_def simp del: map_map map_eq_conv)
  then show "\<exists>r w'. ca_put zone_api ''z'' i b w = (Inr r, w') \<and> zone_ok w' \<and> pr_id r = i \<and> holds_body b r \<and>
      fst w' = map (\<lambda>x. if pr_id x = i then r else x) (fst w)"
    by (simp add: zone_api_def holds_body_def body_record_def)
  show "\<exists>w'. ca_delete zone_api ''z'' i w = (Inr (), w') \<and> zone_ok w' \<and> fst w' = filter (\<lambda>x. pr_id x \<noteq> i) (fst w)"
    using ok by (simp add: zone_api_def zone_ok_def distinct_map_filter)
qed

context record_store
begin

lemma sync_total:
  assumes "ok (zones s)" "effectiveRole s org (p_user_id p) = Some r" "ROLE_RANK Admin \<le> ROLE_RANK r"
    and "find (\<lambda>d. d_id d = dm \<and> d_org_id d = org) (domains s) = Some d"
    and "dp_findZoneId prov (d_name d) (zones s) = Inr (Some z)" "z \<noteq> []"
  shows "\<exists>applied t. syncToProvider prov p org dm ip s = (Inr applied, t)"
proof -
  have req: "requireRole org (p_user_id p) Admin s = (Inr r, s)" using assms by (simp add: requireRole_Inr)
  have zn: "readP (dp_findZoneId prov (d_name d)) s = (Inr (Some z), s)" using assms by (simp add: readP_def)
  from sync_loop_run[OF assms(1), of "managed_records dm s"] obtain ap s' where
    lp: "sync_loop prov z (managed_records dm s) s = (Inr ap, s')" by blast
  show ?thesis
    unfolding syncToProvider_def thenM_pass[where m = "requireRole org (p_user_id p) Admin", OF req]
    by (subst bindM_getsM, simp only: assms(4) bindM_someM bindM_pass[where m = "readP (dp_findZoneId prov (d_name d))", OF zn] bind.bind_lunit assms(6) if_False)
       (simp add: bindM_getsM managed_records_def[symmetric] bindM_pass[where m = "sync_loop prov z (managed_records dm s)", OF lp] thenM_audit returnM_def)
qed

end

definition txt_record :: "string \<Rightarrow> string \<Rightarrow> prec" where
  "txt_record i c = \<lparr>pr_id = i, pr_type = ''TXT'', pr_name = ''acme.io'', pr_content = c, pr_priority = None, pr_ttl = 300\<rparr>"

definition spf_row :: dns_row where
  "spf_row = \<lparr>dr_id = 28, dr_domain_id = 26, dr_purpose = ''spf'', dr_type = ''TXT'', dr_name = ''acme.io'', dr_content = ''v=spf1 mx ~all'', dr_ttl = 3600,
     dr_priority = None, dr_managed = True, dr_provider_record_id = None, dr_observed_content = None, dr_check_status = ''unknown'',
     dr_last_checked_at = None, dr_created_at = 0, dr_updated_at = 0\<rparr>"

definition dns_acme :: "demo_zone dns_db" where
  "dns_acme = dom_db.extend (db.extend (acme_mail\<lparr>domains := [plain_domain 26 20 ''acme.io'' None]\<rparr>) (dom_db.fields [spf_row] (\<lambda>_. None)))
     (dns_db.fields ([txt_record ''a'' ''site-proof=1'', txt_record ''b'' ''v=spf1 -all'', txt_record ''c'' ''v=spf1 mx''], 2))"

lemma dns_acme_eval:
  "domains dns_acme = [plain_domain 26 20 ''acme.io'' None]" "dns_records dns_acme = [spf_row]" "api_keys dns_acme = []" "now dns_acme = 0"
  "org_members dns_acme = org_members acme_mail"
  "zones dns_acme = ([txt_record ''a'' ''site-proof=1'', txt_record ''b'' ''v=spf1 -all'', txt_record ''c'' ''v=spf1 mx''], 2)"
  by (simp_all add: dns_acme_def db.defs dom_db.defs dns_db.defs acme_mail_eval)

lemmas txt_eval = txtKind_def strip_def unquote_def trim_def trimEnd_def trimStart_def js_space_def toLowerCase_def js_lower_def TXT_SCHEMES_def
  scheme_at_def is_word_def


section \<open>deSEC replaces whole record sets\<close>

subsection \<open>Long TXT values\<close>

lemma concat_chunks: "concat (chunks s) = s"
  by (induction s rule: chunks.induct) (subst chunks.simps, simp)

lemma chunks_short: "c \<in> set (chunks s) \<Longrightarrow> length c \<le> 255"
  by (induction s rule: chunks.induct) (subst (asm) (2) chunks.simps, auto split: if_splits)

lemma chunks_Cons: "\<exists>c cs. chunks s = c # cs \<and> (s \<noteq> [] \<longrightarrow> c \<noteq> [] \<and> hd c = hd s)"
  by (subst chunks.simps) (cases s, auto)

lemma quote_not_space [simp]: "\<not> js_space (CHR 0x22)"
  by (simp add: js_space_def)

lemma remove_joins_word: "CHR 0x22 \<notin> set c \<Longrightarrow> remove_joins (c @ r) = c @ remove_joins r"
  by (induction c) auto

lemma remove_joins_tail:
  "CHR 0x22 \<notin> set c \<union> (\<Union>d \<in> set cs. set d) \<Longrightarrow>
     remove_joins (c @ CHR 0x22 # concat (map (\<lambda>d. '' '' @ dquote d) cs)) = c @ concat cs @ [CHR 0x22]"
proof (induction cs arbitrary: c)
  case Nil
  then show ?case by (simp add: remove_joins_word joined_def)
next
  case (Cons d cs)
  have "joined (CHR '' '' # CHR 0x22 # r)" for r by (simp add: joined_def js_space_def)
  moreover have "dropWhile js_space (CHR '' '' # CHR 0x22 # r) = CHR 0x22 # r" for r by (simp add: js_space_def)
  ultimately show ?case using Cons.prems Cons.IH[of d] by (simp add: remove_joins_word dquote_def)
qed

lemma join_dquotes: "join '' '' (map dquote (c # cs)) = CHR 0x22 # c @ CHR 0x22 # concat (map (\<lambda>d. '' '' @ dquote d) cs)"
  by (induction cs arbitrary: c) (simp_all add: dquote_def)

text \<open>A TXT value of any length without quotes survives being cut into strings of 255 and read back.\<close>

lemma txt_roundtrip:
  assumes "CHR 0x22 \<notin> set content" "content \<noteq> [] \<Longrightarrow> \<not> js_space (hd content)"
  shows "fst (decodeContent ''TXT'' (encodeContent ''TXT'' content pr)) = content"
proof -
  have plain: "remove_joins content = content" using remove_joins_word[OF assms(1), of "[]"] by simp
  have un: "unquote content = content" using assms(1) by (cases content) (auto simp: unquote_def dest: last_in_set)
  obtain c cs where c: "chunks content = c # cs" "content \<noteq> [] \<longrightarrow> c \<noteq> [] \<and> hd c = hd content" using chunks_Cons by blast
  have cont: "concat (c # cs) = content" using concat_chunks[of content] c(1) by simp
  with assms(1) have q: "CHR 0x22 \<notin> set c \<union> (\<Union>d \<in> set cs. set d)" by auto
  have "\<not> joined (c @ CHR 0x22 # r)" for r using assms(2) c(2) cont by (cases c) (auto simp: joined_def)
  then have "remove_joins (CHR 0x22 # c @ CHR 0x22 # concat (map (\<lambda>d. '' '' @ dquote d) cs)) = CHR 0x22 # content @ [CHR 0x22]"
    using remove_joins_tail[OF q] cont by simp
  then show ?thesis
    by (simp add: decodeContent_def encodeContent_def plain un c(1) join_dquotes[simplified]) (simp add: unquote_def)
qed

lemma desec_no_stale:
  assumes "ds_listRecords api z name ''TXT'' w = Inr existing" "pr_id c = synthId (subnameFor z name) ''TXT''"
  shows "staleDuplicates ''TXT'' content existing (Some c) = []"
proof -
  have "\<forall>e \<in> set existing. pr_id e = synthId (subnameFor z name) ''TXT''"
    using assms(1) by (auto simp: ds_listRecords_def Let_def split: sum.splits option.splits if_splits)
  then show ?thesis by (auto simp: staleDuplicates_def assms(2) filter_empty_conv split: option.splits)
qed

text \<open>The reconciler promises never to touch a TXT record of an unknown kind, but the deSEC client
  writes a record set of one record. After an expected TXT record was synchronised with deSEC it is
  the only TXT record left at its name, whatever else (a site verification, an SPF record next to
  it) was published there.\<close>

theorem desec_sync_drops_other_records:
  assumes "\<forall>k ty rs w w'. da_put api z k ty rs w = (Inr (), w') \<longrightarrow> da_get api z k ty w' = Inr (Some rs)"
    and "sync_record (desec api) z r s = (Inr a, t)" "dr_type r = ''TXT''"
    and "CHR 0x22 \<notin> set (dr_content r)" "dr_content r \<noteq> [] \<longrightarrow> \<not> js_space (hd (dr_content r))"
  shows "\<exists>x. ds_listRecords api z (dr_name r) ''TXT'' (zones t) = Inr [x] \<and> pr_content x = dr_content r"
proof -
  let ?sub = "subnameFor z (dr_name r)"
  let ?rs = "\<lparr>rs_subname = ?sub, rs_type = ''TXT'', rs_ttl = max (dr_ttl r) 3600, rs_records = [encodeContent ''TXT'' (dr_content r) (dr_priority r)]\<rparr>"
  from assms(2) obtain existing c s1 s2 where
    ex: "ds_listRecords api z (dr_name r) ''TXT'' (zones s) = Inr existing"
    and up: "writeP (ds_upsertRecord api z (chooseExisting ''TXT'' (dr_content r) existing)
        \<lparr>di_type = ''TXT'', di_name = dr_name r, di_content = dr_content r, di_ttl = dr_ttl r, di_priority = dr_priority r\<rparr>) s = (Inr c, s1)"
    and del: "forM (staleDuplicates ''TXT'' (dr_content r) existing (Some c)) (\<lambda>dup. writeP (ds_deleteRecord api z (pr_id dup))) s1 = (Inr (), s2)"
    and t: "zones t = zones s2"
    by (auto simp: sync_record_def desec_def assms(3) run_iffs readP_Inr Let_def mark_synced_def)
  from up obtain w1 where put: "da_put api z (rr_slot ?sub) ''TXT'' ?rs (zones s) = (Inr (), w1)" and c: "pr_id c = synthId ?sub ''TXT''" and s1: "zones s1 = w1"
    by (auto simp: writeP_def ds_upsertRecord_def Let_def split: prod.splits sum.splits)
  have "staleDuplicates ''TXT'' (dr_content r) existing (Some c) = []" by (rule desec_no_stale[OF ex c])
  with del s1 have "zones s2 = w1" by (simp add: returnM_def)
  moreover have "da_get api z (rr_slot ?sub) ''TXT'' w1 = Inr (Some ?rs)" using assms(1) put by blast
  moreover have "fst (decodeContent ''TXT'' (encodeContent ''TXT'' (dr_content r) (dr_priority r))) = dr_content r"
    using assms(4,5) by (intro txt_roundtrip) auto
  ultimately show ?thesis by (simp add: t ds_listRecords_def)
qed

lemma desec_sync_runs:
  assumes "ds_listRecords api z (dr_name r) ''TXT'' (zones s) = Inr existing" "dr_type r = ''TXT''"
    and "\<And>k ty rs w. fst (da_put api z k ty rs w) = Inr ()"
  shows "\<exists>a t. sync_record (desec api) z r s = (Inr a, t)"
proof -
  let ?p = "\<lparr>di_type = ''TXT'', di_name = dr_name r, di_content = dr_content r, di_ttl = dr_ttl r, di_priority = dr_priority r\<rparr>"
  let ?ch = "chooseExisting ''TXT'' (dr_content r) existing"
  have ls: "readP (ds_listRecords api z (dr_name r) ''TXT'') s = (Inr existing, s)" using assms(1) by (simp add: readP_def)
  let ?sub = "subnameFor z (dr_name r)"
  let ?rs = "\<lparr>rs_subname = ?sub, rs_type = ''TXT'', rs_ttl = max (dr_ttl r) 3600, rs_records = [encodeContent ''TXT'' (dr_content r) (dr_priority r)]\<rparr>"
  obtain w where "da_put api z (rr_slot ?sub) ''TXT'' ?rs (zones s) = (Inr (), w)" using assms(3) by (metis prod.collapse)
  then obtain c where up: "ds_upsertRecord api z ?ch ?p (zones s) = (Inr c, w)" "pr_id c = synthId ?sub ''TXT''"
    by (simp add: ds_upsertRecord_def)
  have wr: "writeP (ds_upsertRecord api z ?ch ?p) s = (Inr c, s\<lparr>zones := w\<rparr>)" by (simp add: writeP_def up(1))
  show ?thesis
    unfolding sync_record_def desec_def dns_provider.simps assms(2) bindM_pass[where m = "readP (ds_listRecords api z (dr_name r) ''TXT'')", OF ls] Let_def
      bindM_pass[where m = "writeP (ds_upsertRecord api z ?ch ?p)", OF wr] desec_no_stale[OF assms(1) up(2)] forM.simps
    unfolding thenM_returnM thenM_modifyM by (simp add: returnM_def)
qed

definition desec_demo :: "(string \<times> string \<Rightarrow> rrset option) desec_api" where
  "desec_demo = \<lparr>da_domains = (\<lambda>w. Inr [''acme.io'']), da_get = (\<lambda>z k ty w. Inr (w (k, ty))),
     da_put = (\<lambda>z k ty rs w. (Inr (), w((k, ty) \<mapsto> rs))), da_delete = (\<lambda>z k ty w. (Inr (), w((k, ty) := None)))\<rparr>"

definition desec_acme :: "(string \<times> string \<Rightarrow> rrset option) dns_db" where
  "desec_acme = dom_db.extend (dom_db.truncate dns_acme)
     (dns_db.fields [(''@'', ''TXT'') \<mapsto> \<lparr>rs_subname = [], rs_type = ''TXT'', rs_ttl = 3600, rs_records = [dquote ''site-proof=1'']\<rparr>])"

lemma desec_sync_drops_other_records_witness:
  "\<exists>a t x. sync_record (desec desec_demo) ''acme.io'' spf_row desec_acme = (Inr a, t) \<and>
     ds_listRecords desec_demo ''acme.io'' ''acme.io'' ''TXT'' (zones t) = Inr [x] \<and> pr_content x = ''v=spf1 mx ~all''"
proof -
  have z: "zones desec_acme = [(''@'', ''TXT'') \<mapsto> \<lparr>rs_subname = [], rs_type = ''TXT'', rs_ttl = 3600, rs_records = [dquote ''site-proof=1'']\<rparr>]"
    by (simp add: desec_acme_def dom_db.defs dns_db.defs)
  have ls: "ds_listRecords desec_demo ''acme.io'' ''acme.io'' ''TXT'' (zones desec_acme) =
      Inr [\<lparr>pr_id = ''/TXT'', pr_type = ''TXT'', pr_name = ''acme.io'', pr_content = ''site-proof=1'', pr_priority = None, pr_ttl = 3600\<rparr>]"
    by (simp add: ds_listRecords_def desec_demo_def z subnameFor_def drop_dot_def rr_slot_def synthId_def decodeContent_def dquote_def joined_def
        js_space_def unquote_def)
  have "\<exists>a t. sync_record (desec desec_demo) ''acme.io'' spf_row desec_acme = (Inr a, t)"
    using ls by (intro desec_sync_runs) (simp_all add: spf_row_def desec_demo_def)
  then obtain a t where run: "sync_record (desec desec_demo) ''acme.io'' spf_row desec_acme = (Inr a, t)" by blast
  have law: "\<forall>k ty rs w w'. da_put desec_demo ''acme.io'' k ty rs w = (Inr (), w') \<longrightarrow> da_get desec_demo ''acme.io'' k ty w' = Inr (Some rs)"
    by (auto simp: desec_demo_def)
  from desec_sync_drops_other_records[OF law run] run show ?thesis by (auto simp: spf_row_def js_space_def)
qed

end
