(* ===== verification/JM_Directory.thy ===== *)
theory JM_Directory
  imports JM_Orgs "HOL-Library.AList"
begin

text \<open>
  Directory entries as users (\<open>apps/api/src/ldap/mapping.ts\<close>) and the directory client
  (\<open>apps/api/src/ldap/ldap-client.ts\<close>): attribute mapping, the closure of nested groups, the
  role a set of groups gives, and the dialogue with the server. The LDAP library is a
  parameter: what a server answers to each request, an error being its message. Decoding a
  buffer as UTF-8 is a parameter as well. The client returns with its result the commands it
  sent, in order.
\<close>

section \<open>Attribute values\<close>

datatype ldap_scalar = LText string | LBuffer "nat list"

datatype ldap_value = LOne ldap_scalar | LMany "ldap_scalar list"

record ldap_entry =
  le_dn :: string
  le_attrs :: "(string \<times> ldap_value) list"

record mapping_config =
  mc_emailAttribute :: string
  mc_nameAttribute :: string
  mc_uidAttribute :: string
  mc_memberAttribute :: string

record mapped_user =
  mu_externalId :: string
  mu_email :: "string option"
  mu_name :: "string option"
  mu_uid :: "string option"
  mu_groups :: "string list"

fun dir_ROLE_RANK :: "org_role \<Rightarrow> nat" where
  "dir_ROLE_RANK Owner = 3"
| "dir_ROLE_RANK Admin = 2"
| "dir_ROLE_RANK Member = 1"
| "dir_ROLE_RANK Viewer = 0"

definition escapeFilterValue :: "string \<Rightarrow> string" where
  "escapeFilterValue = replace_chars (\<lambda>c.
     if c = CHR 0x5C then CHR 0x5C # ''5c''
     else if c = CHR ''*'' then CHR 0x5C # ''2a''
     else if c = CHR ''('' then CHR 0x5C # ''28''
     else if c = CHR '')'' then CHR 0x5C # ''29''
     else if c = CHR 0x00 then CHR 0x5C # ''00''
     else [c])"

fun scalar_string :: "(nat list \<Rightarrow> string) \<Rightarrow> ldap_scalar \<Rightarrow> string" where
  "scalar_string utf8 (LText t) = t"
| "scalar_string utf8 (LBuffer b) = utf8 b"

fun value_list :: "ldap_value option \<Rightarrow> ldap_scalar list" where
  "value_list None = []"
| "value_list (Some (LOne v)) = [v]"
| "value_list (Some (LMany vs)) = vs"

definition asArray :: "(nat list \<Rightarrow> string) \<Rightarrow> ldap_value option \<Rightarrow> string list" where
  "asArray utf8 v = filter (\<lambda>t. 0 < length t) (map (scalar_string utf8) (value_list v))"

text \<open>\<open>entry[attr]\<close>: the distinguished name is a property of the entry like the attributes.\<close>

definition entry_get :: "ldap_entry \<Rightarrow> string \<Rightarrow> ldap_value option" where
  "entry_get e attr = (if attr = ''dn'' then Some (LOne (LText (le_dn e))) else map_of (le_attrs e) attr)"

definition firstAttr :: "(nat list \<Rightarrow> string) \<Rightarrow> ldap_entry \<Rightarrow> string \<Rightarrow> string option" where
  "firstAttr utf8 e attr = (case asArray utf8 (entry_get e attr) of [] \<Rightarrow> None | t # _ \<Rightarrow> Some t)"

definition allAttr :: "(nat list \<Rightarrow> string) \<Rightarrow> ldap_entry \<Rightarrow> string \<Rightarrow> string list" where
  "allAttr utf8 e attr = asArray utf8 (entry_get e attr)"

definition normalizeDn :: "string \<Rightarrow> string" where
  "normalizeDn dn = toLowerCase (trim dn)"

definition mapEntry :: "(nat list \<Rightarrow> string) \<Rightarrow> ldap_entry \<Rightarrow> 'z mapping_config_scheme \<Rightarrow> mapped_user" where
  "mapEntry utf8 e cfg =
     (let email = firstAttr utf8 e (mc_emailAttribute cfg) in
      \<lparr>mu_externalId = normalizeDn (le_dn e), mu_email = map_option toLowerCase email,
       mu_name = firstAttr utf8 e (mc_nameAttribute cfg), mu_uid = firstAttr utf8 e (mc_uidAttribute cfg),
       mu_groups = map normalizeDn (allAttr utf8 e (mc_memberAttribute cfg))\<rparr>)"

section \<open>Nested groups\<close>

text \<open>A \<open>Map\<close> from a group to the groups it is a direct member of; \<open>parents.get(g) ?? []\<close>.\<close>

type_synonym group_parents = "(string \<times> string list) list"

definition parents_get :: "group_parents \<Rightarrow> string \<Rightarrow> string list" where
  "parents_get ps g = (case map_of ps g of None \<Rightarrow> [] | Some xs \<Rightarrow> xs)"

text \<open>
  The work-list loop of \<open>expandGroups\<close>. It ends because every round either takes an element off
  the queue or adds a group to \<open>seen\<close> (kept in reverse order), and groups are only queued when
  the caller or the map names them.
\<close>

function expand_loop :: "group_parents \<Rightarrow> string list \<Rightarrow> string list \<Rightarrow> string list" where
  "expand_loop ps seen [] = rev seen"
| "expand_loop ps seen (g # queue) =
     (if g \<in> set seen then expand_loop ps seen queue
      else expand_loop ps (g # seen)
             (queue @ filter (\<lambda>p. p \<notin> set (g # seen)) (map normalizeDn (parents_get ps g))))"
  by pat_completeness auto

definition named_groups :: "group_parents \<Rightarrow> string list \<Rightarrow> string set" where
  "named_groups ps queue = set queue \<union> normalizeDn ` (\<Union>x \<in> set ps. set (snd x))"

lemma finite_named_groups: "finite (named_groups ps queue)"
  by (simp add: named_groups_def)

lemma parents_get_named: "p \<in> set (parents_get ps g) \<Longrightarrow> \<exists>x \<in> set ps. p \<in> set (snd x)"
  by (auto simp: parents_get_def split: option.splits dest!: map_of_SomeD sym[of "Some _"] intro: bexI[rotated])

lemma named_groups_step:
  assumes "g \<notin> set seen"
  shows "card (named_groups ps (queue @ filter (\<lambda>p. p \<notin> set (g # seen)) (map normalizeDn (parents_get ps g))) -
      set (g # seen)) < card (named_groups ps (g # queue) - set seen)"
proof (rule psubset_card_mono)
  show "finite (named_groups ps (g # queue) - set seen)"
    using finite_named_groups by simp
  have "named_groups ps (queue @ filter (\<lambda>p. p \<notin> set (g # seen)) (map normalizeDn (parents_get ps g))) \<subseteq>
      named_groups ps (g # queue)"
    by (auto simp: named_groups_def dest!: parents_get_named)
  then show "named_groups ps (queue @ filter (\<lambda>p. p \<notin> set (g # seen)) (map normalizeDn (parents_get ps g))) -
      set (g # seen) \<subset> named_groups ps (g # queue) - set seen"
    using assms by (auto simp: named_groups_def)
qed

lemma named_groups_seen:
  "g \<in> set seen \<Longrightarrow> named_groups ps (g # queue) - set seen = named_groups ps queue - set seen"
  by (auto simp: named_groups_def)

termination expand_loop
  by (relation "measures [\<lambda>(ps, seen, queue). card (named_groups ps queue - set seen), \<lambda>(ps, seen, queue). length queue]")
    (use named_groups_step in \<open>auto simp: named_groups_seen\<close>)

definition expandGroups :: "string list \<Rightarrow> group_parents \<Rightarrow> string list" where
  "expandGroups direct ps = expand_loop ps [] (map normalizeDn direct)"

section \<open>Roles\<close>

definition normalizedMap :: "(string \<times> org_role) list \<Rightarrow> string \<Rightarrow> org_role option" where
  "normalizedMap roleMap = foldl (\<lambda>m (dn, role). m(normalizeDn dn \<mapsto> role)) Map.empty roleMap"

definition better_role :: "(string \<Rightarrow> org_role option) \<Rightarrow> org_role option \<Rightarrow> string \<Rightarrow> org_role option" where
  "better_role m best g =
     (case m (normalizeDn g) of
        None \<Rightarrow> best
      | Some role \<Rightarrow> (case best of
            None \<Rightarrow> Some role
          | Some b \<Rightarrow> if dir_ROLE_RANK role > dir_ROLE_RANK b then Some role else best))"

definition resolveRole :: "string list \<Rightarrow> (string \<times> org_role) list \<Rightarrow> org_role \<Rightarrow> org_role" where
  "resolveRole groups roleMap defaultRole =
     (case foldl (better_role (normalizedMap roleMap)) None groups of None \<Rightarrow> defaultRole | Some r \<Rightarrow> r)"

section \<open>The directory client\<close>

datatype ldap_encryption = Enc_none | Enc_starttls | Enc_ldaps

record ldap_conn_config = mapping_config +
  lc_host :: string
  lc_port :: nat
  lc_encryption :: ldap_encryption
  lc_verifyTls :: bool
  lc_bindDn :: string
  lc_bindPassword :: string
  lc_baseDn :: string
  lc_userFilter :: string
  lc_groupFilter :: "string option"

record directory_snapshot =
  sn_users :: "mapped_user list"
  sn_groupParents :: group_parents

record ldap_client =
  cl_url :: string
  cl_rejectUnauthorized :: bool

datatype ldap_cmd = StartTLS bool | Bind string string | Search string string "string list" | Unbind

text \<open>A server as the client sees it: an error message or an answer to every command.\<close>

record ldap_server =
  sv_startTLS :: "bool \<Rightarrow> string option"
  sv_bind :: "string \<Rightarrow> string \<Rightarrow> string option"
  sv_search :: "string \<Rightarrow> string \<Rightarrow> string list \<Rightarrow> string + ldap_entry list"

definition clientFor :: "'z ldap_conn_config_scheme \<Rightarrow> ldap_client" where
  "clientFor cfg =
     (let scheme = (if lc_encryption cfg = Enc_ldaps then ''ldaps'' else ''ldap'') in
      \<lparr>cl_url = scheme @ ''://'' @ lc_host cfg @ '':'' @ show_nat (lc_port cfg), cl_rejectUnauthorized = lc_verifyTls cfg\<rparr>)"

text \<open>
  A dialogue: the commands sent and the result. A failed command ends it; \<open>finally\<close> sends the
  unbind in every case and ignores its outcome.
\<close>

type_synonym 'a dialogue = "ldap_cmd list \<times> (string + 'a)"

definition then_cmd :: "ldap_cmd \<Rightarrow> string option \<Rightarrow> 'a dialogue \<Rightarrow> 'a dialogue" where
  "then_cmd c failure k = (case failure of Some msg \<Rightarrow> ([c], Inl msg) | None \<Rightarrow> (c # fst k, snd k))"

definition withBoundClient ::
  "(ldap_client \<Rightarrow> ldap_server) \<Rightarrow> 'z ldap_conn_config_scheme \<Rightarrow> (ldap_server \<Rightarrow> 'a dialogue) \<Rightarrow> 'a dialogue" where
  "withBoundClient net cfg fn =
     (let srv = net (clientFor cfg);
          bound = then_cmd (Bind (lc_bindDn cfg) (lc_bindPassword cfg)) (sv_bind srv (lc_bindDn cfg) (lc_bindPassword cfg)) (fn srv);
          body = (if lc_encryption cfg = Enc_starttls
                  then then_cmd (StartTLS (lc_verifyTls cfg)) (sv_startTLS srv (lc_verifyTls cfg)) bound
                  else bound)
      in (fst body @ [Unbind], snd body))"

definition search_cmd :: "ldap_server \<Rightarrow> string \<Rightarrow> string \<Rightarrow> string list \<Rightarrow> (ldap_entry list \<Rightarrow> 'a dialogue) \<Rightarrow> 'a dialogue" where
  "search_cmd srv base flt attrs k =
     (case sv_search srv base flt attrs of
        Inl msg \<Rightarrow> ([Search base flt attrs], Inl msg)
      | Inr es \<Rightarrow> (Search base flt attrs # fst (k es), snd (k es)))"

text \<open>\<open>parents.set(dn, ...)\<close> for every entry: a later entry with the same name replaces the value.\<close>

definition group_parent_map :: "(nat list \<Rightarrow> string) \<Rightarrow> string \<Rightarrow> ldap_entry list \<Rightarrow> group_parents" where
  "group_parent_map utf8 attr es = foldl (\<lambda>ps e. AList.update (normalizeDn (le_dn e))
     (map (\<lambda>v. normalizeDn (scalar_string utf8 v)) (value_list (entry_get e attr))) ps) [] es"

definition searchGroupParents ::
  "(nat list \<Rightarrow> string) \<Rightarrow> ldap_server \<Rightarrow> 'z ldap_conn_config_scheme \<Rightarrow> (group_parents \<Rightarrow> 'a dialogue) \<Rightarrow> 'a dialogue" where
  "searchGroupParents utf8 srv cfg k =
     (case lc_groupFilter cfg of
        None \<Rightarrow> k []
      | Some flt \<Rightarrow>
          if flt = [] then k []
          else search_cmd srv (lc_baseDn cfg) flt [''dn'', mc_memberAttribute cfg]
                 (\<lambda>es. k (group_parent_map utf8 (mc_memberAttribute cfg) es)))"

definition fetchDirectory ::
  "(nat list \<Rightarrow> string) \<Rightarrow> (ldap_client \<Rightarrow> ldap_server) \<Rightarrow> 'z ldap_conn_config_scheme \<Rightarrow> directory_snapshot dialogue" where
  "fetchDirectory utf8 net cfg =
     withBoundClient net cfg (\<lambda>srv.
       search_cmd srv (lc_baseDn cfg) (lc_userFilter cfg)
         [''dn'', mc_emailAttribute cfg, mc_nameAttribute cfg, mc_uidAttribute cfg, mc_memberAttribute cfg] (\<lambda>es.
       searchGroupParents utf8 srv cfg (\<lambda>ps.
         ([], Inr \<lparr>sn_users = map (\<lambda>e. mapEntry utf8 e cfg) es, sn_groupParents = ps\<rparr>))))"

section \<open>What the closure computes\<close>

text \<open>One step of nesting, on normalized names.\<close>

definition member_of :: "group_parents \<Rightarrow> (string \<times> string) set" where
  "member_of ps = {(g, normalizeDn p) | g p. p \<in> set (parents_get ps g)}"

lemma closed_rtrancl:
  assumes "(x, y) \<in> r\<^sup>*" "x \<in> A" "\<And>a b. a \<in> A \<Longrightarrow> (a, b) \<in> r \<Longrightarrow> b \<in> A \<union> B"
  shows "y \<in> A \<union> r\<^sup>* `` B"
  using assms(1,2)
proof (induction rule: rtrancl_induct)
  case base
  then show ?case by simp
next
  case (step y z)
  then show ?case using assms(3)[of y z] by (auto intro: rtrancl_into_rtrancl)
qed

lemma closed_image:
  assumes "x \<in> A" "\<And>a b. a \<in> A \<Longrightarrow> (a, b) \<in> r \<Longrightarrow> b \<in> A \<union> B"
  shows "r\<^sup>* `` {x} \<subseteq> A \<union> r\<^sup>* `` B"
proof
  fix y assume "y \<in> r\<^sup>* `` {x}"
  then have "(x, y) \<in> r\<^sup>*" by simp
  then show "y \<in> A \<union> r\<^sup>* `` B" using assms by (rule closed_rtrancl)
qed

lemma closure_sets:
  "E = {g} \<union> S \<union> (Q \<union> N) \<Longrightarrow> G \<subseteq> {g} \<union> S \<union> (Q \<union> N) \<Longrightarrow> N \<subseteq> G \<Longrightarrow> g \<in> G \<Longrightarrow> E = S \<union> (G \<union> Q)"
  by blast

lemma expand_loop_set:
  assumes "\<And>a b. a \<in> set seen \<Longrightarrow> (a, b) \<in> member_of ps \<Longrightarrow> b \<in> set seen \<union> set queue"
  shows "set (expand_loop ps seen queue) = set seen \<union> (member_of ps)\<^sup>* `` set queue"
  using assms
proof (induction ps seen queue rule: expand_loop.induct)
  case (1 ps seen)
  then show ?case by simp
next
  case (2 ps seen g queue)
  let ?r = "member_of ps"
  show ?case
  proof (cases "g \<in> set seen")
    case True
    with 2(3) have c: "\<And>a b. a \<in> set seen \<Longrightarrow> (a, b) \<in> ?r \<Longrightarrow> b \<in> set seen \<union> set queue" by auto
    have "?r\<^sup>* `` {g} \<subseteq> set seen \<union> ?r\<^sup>* `` set queue"
      using True c by (rule closed_image)
    moreover have "set (expand_loop ps seen queue) = set seen \<union> ?r\<^sup>* `` set queue"
      by (rule 2(1)[OF True]) (rule c)
    ultimately show ?thesis using True by auto
  next
    case False
    define new where "new = filter (\<lambda>p. p \<notin> set (g # seen)) (map normalizeDn (parents_get ps g))"
    have edge: "(g, b) \<in> ?r \<longleftrightarrow> b \<in> normalizeDn ` set (parents_get ps g)" for b
      by (auto simp: member_of_def)
    let ?Q = "?r\<^sup>* `` set queue" and ?N = "?r\<^sup>* `` set new" and ?G = "?r\<^sup>* `` {g}"
    have closed: "b \<in> set (g # seen) \<union> set (queue @ new)" if "a \<in> set (g # seen)" "(a, b) \<in> ?r" for a b
      using that 2(3)[of a b] edge[of b] by (auto simp: new_def)
    have sets: "set (g # seen) = {g} \<union> set seen" "?r\<^sup>* `` set (queue @ new) = ?Q \<union> ?N"
      by (simp_all only: set_append Image_Un) simp
    have "set (expand_loop ps (g # seen) (queue @ new)) = set (g # seen) \<union> ?r\<^sup>* `` set (queue @ new)"
      using 2(2)[OF False, folded new_def] closed by blast
    moreover have "expand_loop ps seen (g # queue) = expand_loop ps (g # seen) (queue @ new)"
      using False by (simp only: expand_loop.simps if_False new_def)
    ultimately have e: "set (expand_loop ps seen (g # queue)) = {g} \<union> set seen \<union> (?Q \<union> ?N)"
      unfolding sets by simp
    have "?G \<subseteq> set (g # seen) \<union> ?r\<^sup>* `` set (queue @ new)"
      by (rule closed_image) (simp, rule closed)
    then have g: "?G \<subseteq> {g} \<union> set seen \<union> (?Q \<union> ?N)" unfolding sets .
    have n: "?N \<subseteq> ?G"
      using edge by (auto simp: new_def intro: converse_rtrancl_into_rtrancl)
    have "set (expand_loop ps seen (g # queue)) = set seen \<union> (?G \<union> ?Q)"
      by (rule closure_sets[OF e g n]) simp
    moreover have "?r\<^sup>* `` set (g # queue) = ?G \<union> ?Q"
      by (metis Image_Un insert_is_Un list.set(2))
    ultimately show ?thesis by simp
  qed
qed

lemma distinct_expand_loop: "distinct seen \<Longrightarrow> distinct (expand_loop ps seen queue)"
  by (induction ps seen queue rule: expand_loop.induct) auto

lemma normalizeDn_idem [simp]: "normalizeDn (normalizeDn dn) = normalizeDn dn"
  by (simp add: normalizeDn_def trim_toLowerCase)

text \<open>
  C20: expanding nested groups ends on every group graph, cycles included, and lists without
  repetition exactly the groups reachable from the direct ones through memberships of groups in
  groups.
\<close>

theorem expandGroups_closure:
  "set (expandGroups direct ps) = {h. \<exists>g \<in> set direct. (normalizeDn g, h) \<in> (member_of ps)\<^sup>*} \<and>
   distinct (expandGroups direct ps)"
  using expand_loop_set[of "[]" ps "map normalizeDn direct"] distinct_expand_loop[of "[]" ps "map normalizeDn direct"]
  by (auto simp: expandGroups_def)

subsection \<open>The role of a set of groups\<close>

lemma dir_rank [simp]: "dir_ROLE_RANK = ROLE_RANK"
proof
  fix r show "dir_ROLE_RANK r = ROLE_RANK r" by (cases r) simp_all
qed

definition tops :: "(string \<Rightarrow> org_role option) \<Rightarrow> string list \<Rightarrow> org_role option \<Rightarrow> bool" where
  "tops m gs res \<longleftrightarrow> (case res of
       None \<Rightarrow> \<forall>g \<in> set gs. m (normalizeDn g) = None
     | Some r \<Rightarrow> (\<exists>g \<in> set gs. m (normalizeDn g) = Some r) \<and>
         (\<forall>g \<in> set gs. \<forall>x. m (normalizeDn g) = Some x \<longrightarrow> ROLE_RANK x \<le> ROLE_RANK r))"

lemma tops_step: "tops m gs best \<Longrightarrow> tops m (gs @ [g]) (better_role m best g)"
  by (cases best; cases "m (normalizeDn g)") (auto simp: tops_def better_role_def)

lemma better_role_fold: "tops m gs best \<Longrightarrow> tops m (gs @ hs) (foldl (better_role m) best hs)"
proof (induction hs arbitrary: gs best)
  case Nil
  then show ?case by simp
next
  case (Cons h hs)
  show ?case using Cons.IH[OF tops_step[OF Cons.prems, of h]] by simp
qed

lemma resolveRole_cases:
  "(\<forall>g \<in> set groups. normalizedMap roleMap (normalizeDn g) = None) \<and> resolveRole groups roleMap def = def \<or>
   (\<exists>g \<in> set groups. normalizedMap roleMap (normalizeDn g) = Some (resolveRole groups roleMap def)) \<and>
   (\<forall>g \<in> set groups. \<forall>x. normalizedMap roleMap (normalizeDn g) = Some x \<longrightarrow>
      ROLE_RANK x \<le> ROLE_RANK (resolveRole groups roleMap def))"
  using better_role_fold[of "normalizedMap roleMap" "[]" None groups]
  by (cases "foldl (better_role (normalizedMap roleMap)) None groups") (auto simp: resolveRole_def tops_def)

text \<open>
  the role a user gets from a directory is the highest one mapped to any of the user's
  groups, whatever the order of the groups, and the default role when no group is mapped.
\<close>

theorem resolveRole_highest:
  "if \<forall>g \<in> set groups. normalizedMap roleMap (normalizeDn g) = None then resolveRole groups roleMap dflt = dflt
   else (\<exists>g \<in> set groups. normalizedMap roleMap (normalizeDn g) = Some (resolveRole groups roleMap dflt)) \<and>
     Max (ROLE_RANK ` {r. \<exists>g \<in> set groups. normalizedMap roleMap (normalizeDn g) = Some r}) =
       ROLE_RANK (resolveRole groups roleMap dflt)"
proof -
  let ?R = "{r. \<exists>g \<in> set groups. normalizedMap roleMap (normalizeDn g) = Some r}"
  have fin: "finite (ROLE_RANK ` ?R)"
    by (rule finite_imageI, rule finite_subset[OF subset_UNIV]) (rule finite_subset[of _ "{Owner, Admin, Member, Viewer}"],
        auto intro: org_role.exhaust)
  show ?thesis
    using resolveRole_cases[of groups roleMap dflt] fin by (auto intro!: Max_eqI)
qed

theorem resolveRole_highest_witness:
  "ROLE_RANK (resolveRole [''a'', ''b''] [(''a'', Viewer), (''b'', Admin)] Member) = 2"
proof -
  have m: "normalizedMap [(''a'', Viewer), (''b'', Admin)] (normalizeDn ''a'') = Some Viewer"
    "normalizedMap [(''a'', Viewer), (''b'', Admin)] (normalizeDn ''b'') = Some Admin"
    by (simp_all add: normalizedMap_def normalizeDn_def toLowerCase_def js_lower_def trim_def trimStart_def trimEnd_def js_space_def)
  have "{r. \<exists>g \<in> set [''a'', ''b'']. normalizedMap [(''a'', Viewer), (''b'', Admin)] (normalizeDn g) = Some r} = {Viewer, Admin}"
    by (auto simp: m)
  then show ?thesis
    using resolveRole_highest[of "[''a'', ''b'']" "[(''a'', Viewer), (''b'', Admin)]" Member] by (simp add: m)
qed

text \<open>
  Two maps that give the same role to every group of the user give the same role, so the order
  of the entries and the case of the names in the configuration do not matter.
\<close>

lemma resolveRole_cong:
  "(\<And>g. g \<in> set groups \<Longrightarrow> normalizedMap rm (normalizeDn g) = normalizedMap rm' (normalizeDn g)) \<Longrightarrow>
     resolveRole groups rm dflt = resolveRole groups rm' dflt"
proof -
  assume eq: "\<And>g. g \<in> set groups \<Longrightarrow> normalizedMap rm (normalizeDn g) = normalizedMap rm' (normalizeDn g)"
  have "foldl (better_role (normalizedMap rm)) b groups = foldl (better_role (normalizedMap rm')) b groups" for b
    by (rule foldl_cong) (simp_all add: better_role_def eq)
  then show ?thesis by (simp add: resolveRole_def)
qed

subsection \<open>The dialogue\<close>

lemma then_cmd_trace: "fst (then_cmd c f k) = c # (if f = None then fst k else [])"
  by (auto simp: then_cmd_def split: option.splits)

lemma bind_only_once:
  assumes "Bind d pw \<notin> set (fst (fn srv))" "Bind d pw \<in> set (fst (withBoundClient net cfg fn))" "srv = net (clientFor cfg)"
    and "lc_encryption cfg = Enc_starttls"
  shows "sv_startTLS srv (lc_verifyTls cfg) = None \<and>
    (\<exists>rest. fst (withBoundClient net cfg fn) = StartTLS (lc_verifyTls cfg) # Bind d pw # rest)"
  using assms by (auto simp: withBoundClient_def Let_def then_cmd_trace split: if_splits)

lemma search_no_bind:
  "(\<And>es. Bind d pw \<notin> set (fst (k es))) \<Longrightarrow> Bind d pw \<notin> set (fst (search_cmd srv b f attrs k))"
  by (auto simp: search_cmd_def split: sum.splits)

text \<open>
  with STARTTLS configured the service account's password is sent only after the
  connection has been upgraded: when a bind command is sent it is the second command, right
  after an upgrade that succeeded with the configured certificate check.
\<close>

theorem starttls_before_bind:
  assumes "lc_encryption cfg = Enc_starttls" "Bind d pw \<in> set (fst (fetchDirectory utf8 net cfg))"
  shows "sv_startTLS (net (clientFor cfg)) (lc_verifyTls cfg) = None \<and>
    (\<exists>rest. fst (fetchDirectory utf8 net cfg) = StartTLS (lc_verifyTls cfg) # Bind d pw # rest)"
proof -
  have "Bind d pw \<notin> set (fst (searchGroupParents utf8 srv cfg (\<lambda>ps. ([], Inr (f ps)))))" for srv and f :: "group_parents \<Rightarrow> directory_snapshot"
    by (auto simp: searchGroupParents_def search_cmd_def split: option.splits sum.splits)
  then show ?thesis
    using assms(2) unfolding fetchDirectory_def by (intro bind_only_once[OF _ _ refl assms(1)] search_no_bind) auto
qed

definition demo_conn :: ldap_conn_config where
  "demo_conn = \<lparr>mc_emailAttribute = ''mail'', mc_nameAttribute = ''cn'', mc_uidAttribute = ''uid'',
     mc_memberAttribute = ''memberof'', lc_host = ''ldap.x.io'', lc_port = 389, lc_encryption = Enc_starttls,
     lc_verifyTls = True, lc_bindDn = ''cn=svc'', lc_bindPassword = ''pw'', lc_baseDn = ''dc=x'',
     lc_userFilter = ''(u)'', lc_groupFilter = Some ''(g)''\<rparr>"

definition demo_server :: ldap_server where
  "demo_server = \<lparr>sv_startTLS = (\<lambda>_. None), sv_bind = (\<lambda>_ _. None),
     sv_search = (\<lambda>_ f _. if f = ''(u)''
        then Inr [\<lparr>le_dn = '' cn=ann,dc=x'', le_attrs = [(''mail'', LOne (LText ''ann@x.io'')), (''cn'', LMany [LText ''Ann'']),
                    (''memberof'', LMany [LText ''cn=ops''])]\<rparr>]
        else Inr [\<lparr>le_dn = ''cn=ops'', le_attrs = [(''memberof'', LOne (LText ''cn=staff''))]\<rparr>])\<rparr>"

lemmas demo_ldap = demo_conn_def demo_server_def

lemma demo_fetch:
  "fetchDirectory utf8 (\<lambda>_. demo_server) demo_conn =
     ([StartTLS True, Bind ''cn=svc'' ''pw'', Search ''dc=x'' ''(u)'' [''dn'', ''mail'', ''cn'', ''uid'', ''memberof''],
       Search ''dc=x'' ''(g)'' [''dn'', ''memberof''], Unbind],
      Inr \<lparr>sn_users = [\<lparr>mu_externalId = ''cn=ann,dc=x'', mu_email = Some ''ann@x.io'', mu_name = Some ''Ann'',
             mu_uid = None, mu_groups = [''cn=ops'']\<rparr>], sn_groupParents = [(''cn=ops'', [''cn=staff''])]\<rparr>)"
  by (simp add: fetchDirectory_def withBoundClient_def then_cmd_def search_cmd_def searchGroupParents_def group_parent_map_def
      mapEntry_def firstAttr_def allAttr_def asArray_def entry_get_def normalizeDn_def toLowerCase_def trim_def trimStart_def
      trimEnd_def js_space_def js_lower_def Let_def demo_ldap)

theorem starttls_before_bind_witness:
  "sv_startTLS demo_server True = None \<and> (\<exists>rest. fst (fetchDirectory (\<lambda>_. []) (\<lambda>_. demo_server) demo_conn) =
     StartTLS True # Bind ''cn=svc'' ''pw'' # rest)"
proof -
  have "lc_encryption demo_conn = Enc_starttls" "lc_verifyTls demo_conn = True" by (simp_all add: demo_conn_def)
  moreover have "Bind ''cn=svc'' ''pw'' \<in> set (fst (fetchDirectory (\<lambda>_. []) (\<lambda>_. demo_server) demo_conn))"
    by (simp add: demo_fetch)
  ultimately show ?thesis
    using starttls_before_bind[of demo_conn "''cn=svc''" "''pw''" "\<lambda>_. []" "\<lambda>_. demo_server"] by simp
qed

subsection \<open>Escaped filter values\<close>

text \<open>The reading of an assertion value by RFC 4515, for the escapes the code writes.\<close>

definition hex_val :: "char \<Rightarrow> nat" where
  "hex_val c = (if is_digit c then digit_val c else of_char c - 87)"

fun unescapeFilter :: "string \<Rightarrow> string" where
  "unescapeFilter (b # h # l # cs) =
     (if b = CHR 0x5C then char_of (16 * hex_val h + hex_val l) # unescapeFilter cs else b # unescapeFilter (h # l # cs))"
| "unescapeFilter cs = cs"

lemma unescape_plain: "b \<noteq> CHR 0x5C \<Longrightarrow> unescapeFilter (b # cs) = b # unescapeFilter cs"
  by (cases cs; cases "tl cs") auto

text \<open>
  an escaped filter value has no character with a meaning in a filter, and a server that
  decodes it by RFC 4515 gets the value back.
\<close>

theorem escapeFilterValue_roundtrip:
  "unescapeFilter (escapeFilterValue v) = v \<and>
   set (escapeFilterValue v) \<inter> {CHR ''*'', CHR ''('', CHR '')'', CHR 0x00} = {}"
proof (induction v)
  case Nil
  then show ?case by (simp add: escapeFilterValue_def replace_chars_def)
next
  case (Cons c v)
  have "escapeFilterValue (c # v) = escapeFilterValue [c] @ escapeFilterValue v"
    by (simp add: escapeFilterValue_def replace_chars_def)
  moreover have "unescapeFilter (escapeFilterValue [c] @ w) = c # unescapeFilter w" for w
    by (simp add: escapeFilterValue_def replace_chars_def hex_val_def is_digit_def digit_val_def unescape_plain char_of_eq_iff take_bit_eq_mod)
  moreover have "set (escapeFilterValue [c]) \<inter> {CHR ''*'', CHR ''('', CHR '')'', CHR 0x00} = {}"
    by (auto simp: escapeFilterValue_def replace_chars_def)
  ultimately show ?case using Cons by auto
qed

end
