(* ===== verification/JM_Ldap.thy ===== *)
theory JM_Ldap
  imports JM_Directory JM_Tenant
begin

text \<open>
  \<open>LdapService\<close> (\<open>apps/api/src/ldap/ldap.service.ts\<close>): the directories of an organization,
  their synchronisation runs, and the provisioning of local accounts from a directory
  snapshot. The three tables of migration \<open>0010_ldap.sql\<close> extend the database. Sealing and
  opening the bind password, the message of an exception and the directory servers are
  parameters; \<open>open\<close> answers an error message when the sealed text cannot be read.
\<close>

record directory_row =
  dr_id :: uuid
  dr_org_id :: uuid
  dr_name :: string
  dr_enabled :: bool
  dr_host :: string
  dr_port :: nat
  dr_encryption :: ldap_encryption
  dr_verify_tls :: bool
  dr_bind_dn :: string
  dr_bind_password_enc :: "string option"
  dr_base_dn :: string
  dr_user_filter :: string
  dr_group_filter :: "string option"
  dr_email_attribute :: string
  dr_name_attribute :: string
  dr_uid_attribute :: string
  dr_member_attribute :: string
  dr_group_role_map :: "(string \<times> org_role) list"
  dr_default_role :: org_role
  dr_deactivate_missing :: bool
  dr_sync_interval_minutes :: int
  dr_last_synced_at :: "timestamp option"
  dr_created_by :: "uuid option"
  dr_created_at :: timestamp
  dr_updated_at :: timestamp

datatype run_status = Run_running | Run_ok | Run_error

record run_row =
  rn_id :: uuid
  rn_directory_id :: uuid
  rn_status :: run_status
  rn_created_count :: nat
  rn_updated_count :: nat
  rn_deactivated_count :: nat
  rn_error :: "string option"
  rn_started_at :: timestamp
  rn_finished_at :: "timestamp option"

record identity_row =
  li_directory_id :: uuid
  li_external_id :: string
  li_user_id :: uuid
  li_last_seen_at :: timestamp
  li_created_at :: timestamp

record sync_counts =
  sc_created :: nat
  sc_updated :: nat
  sc_deactivated :: nat

record ldap_db = db +
  ldap_directories :: "directory_row list"
  ldap_identities :: "identity_row list"
  ldap_sync_runs :: "run_row list"

record ldap_env =
  lv_seal :: "string \<Rightarrow> string"
  lv_open :: "string \<Rightarrow> string + string"
  lv_utf8 :: "nat list \<Rightarrow> string"
  lv_net :: "ldap_client \<Rightarrow> ldap_server"
  lv_message :: "exn \<Rightarrow> string"

record ldap_directory_request =
  lq_name :: string
  lq_enabled :: bool
  lq_host :: string
  lq_port :: nat
  lq_encryption :: ldap_encryption
  lq_verify_tls :: bool
  lq_bind_dn :: string
  lq_bind_password :: "string option"
  lq_base_dn :: string
  lq_user_filter :: string
  lq_group_filter :: "string option"
  lq_email_attribute :: string
  lq_name_attribute :: string
  lq_uid_attribute :: string
  lq_member_attribute :: string
  lq_group_role_map :: "(string \<times> org_role) list"
  lq_default_role :: org_role
  lq_deactivate_missing :: bool
  lq_sync_interval_minutes :: int

record ldap_directory =
  ld_id :: uuid
  ld_org_id :: uuid
  ld_name :: string
  ld_enabled :: bool
  ld_host :: string
  ld_port :: nat
  ld_encryption :: ldap_encryption
  ld_verify_tls :: bool
  ld_bind_dn :: string
  ld_has_bind_password :: bool
  ld_base_dn :: string
  ld_user_filter :: string
  ld_group_filter :: "string option"
  ld_email_attribute :: string
  ld_name_attribute :: string
  ld_uid_attribute :: string
  ld_member_attribute :: string
  ld_group_role_map :: "(string \<times> org_role) list"
  ld_default_role :: org_role
  ld_deactivate_missing :: bool
  ld_sync_interval_minutes :: int
  ld_last_synced_at :: "timestamp option"
  ld_created_at :: timestamp
  ld_updated_at :: timestamp

record ldap_test_result =
  lt_ok :: bool
  lt_message :: string
  lt_user_count :: nat
  lt_sample_users :: "(string option \<times> string option \<times> string option \<times> string list) list"

section \<open>Directories\<close>

definition toDirectory :: "directory_row \<Rightarrow> ldap_directory" where
  "toDirectory r = \<lparr>ld_id = dr_id r, ld_org_id = dr_org_id r, ld_name = dr_name r, ld_enabled = dr_enabled r,
     ld_host = dr_host r, ld_port = dr_port r, ld_encryption = dr_encryption r, ld_verify_tls = dr_verify_tls r,
     ld_bind_dn = dr_bind_dn r, ld_has_bind_password = (dr_bind_password_enc r \<noteq> None), ld_base_dn = dr_base_dn r,
     ld_user_filter = dr_user_filter r, ld_group_filter = dr_group_filter r, ld_email_attribute = dr_email_attribute r,
     ld_name_attribute = dr_name_attribute r, ld_uid_attribute = dr_uid_attribute r,
     ld_member_attribute = dr_member_attribute r, ld_group_role_map = dr_group_role_map r,
     ld_default_role = dr_default_role r, ld_deactivate_missing = dr_deactivate_missing r,
     ld_sync_interval_minutes = dr_sync_interval_minutes r, ld_last_synced_at = dr_last_synced_at r,
     ld_created_at = dr_created_at r, ld_updated_at = dr_updated_at r\<rparr>"

definition dir_loadOwned :: "uuid \<Rightarrow> uuid \<Rightarrow> ('z ldap_db_scheme, directory_row) svc" where
  "dir_loadOwned orgId i =
     bindM (getsM (\<lambda>s. find (\<lambda>r. dr_id r = i \<and> dr_org_id r = orgId) (ldap_directories s))) (\<lambda>row.
     someM row (NotFoundException ''Directory not found'' None))"

definition dir_list :: "uuid \<Rightarrow> uuid \<Rightarrow> ('z ldap_db_scheme, ldap_directory list) svc" where
  "dir_list orgId userId =
     thenM (requireRole orgId userId Admin)
     (getsM (\<lambda>s. map toDirectory (sort_key dr_created_at (filter (\<lambda>r. dr_org_id r = orgId) (ldap_directories s)))))"

definition dir_get :: "uuid \<Rightarrow> uuid \<Rightarrow> uuid \<Rightarrow> ('z ldap_db_scheme, ldap_directory) svc" where
  "dir_get orgId userId i =
     thenM (requireRole orgId userId Admin)
     (bindM (dir_loadOwned orgId i) (\<lambda>r. returnM (toDirectory r)))"

text \<open>The columns both statements write, with the sealed password given.\<close>

definition request_row :: "ldap_directory_request \<Rightarrow> string option \<Rightarrow> directory_row \<Rightarrow> directory_row" where
  "request_row req secret r = r\<lparr>dr_name := lq_name req, dr_enabled := lq_enabled req, dr_host := lq_host req, dr_port := lq_port req,
     dr_encryption := lq_encryption req, dr_verify_tls := lq_verify_tls req, dr_bind_dn := lq_bind_dn req,
     dr_bind_password_enc := secret, dr_base_dn := lq_base_dn req, dr_user_filter := lq_user_filter req,
     dr_group_filter := lq_group_filter req, dr_email_attribute := lq_email_attribute req,
     dr_name_attribute := lq_name_attribute req, dr_uid_attribute := lq_uid_attribute req,
     dr_member_attribute := lq_member_attribute req, dr_group_role_map := lq_group_role_map req,
     dr_default_role := lq_default_role req, dr_deactivate_missing := lq_deactivate_missing req,
     dr_sync_interval_minutes := lq_sync_interval_minutes req\<rparr>"

definition new_directory :: "uuid \<Rightarrow> uuid \<Rightarrow> ldap_directory_request \<Rightarrow> string option \<Rightarrow> uuid \<Rightarrow> timestamp \<Rightarrow> directory_row" where
  "new_directory i orgId req secret by nw = request_row req secret
     \<lparr>dr_id = i, dr_org_id = orgId, dr_name = [], dr_enabled = True, dr_host = [], dr_port = 389, dr_encryption = Enc_starttls,
      dr_verify_tls = True, dr_bind_dn = [], dr_bind_password_enc = None, dr_base_dn = [], dr_user_filter = [],
      dr_group_filter = None, dr_email_attribute = ''mail'', dr_name_attribute = ''cn'', dr_uid_attribute = ''uid'',
      dr_member_attribute = ''memberOf'', dr_group_role_map = [], dr_default_role = Member, dr_deactivate_missing = True,
      dr_sync_interval_minutes = 60, dr_last_synced_at = None, dr_created_by = Some by, dr_created_at = nw, dr_updated_at = nw\<rparr>"

definition dir_create ::
  "ldap_env \<Rightarrow> principal \<Rightarrow> uuid \<Rightarrow> ldap_directory_request \<Rightarrow> string option \<Rightarrow> ('z ldap_db_scheme, ldap_directory) svc" where
  "dir_create env p orgId req ip =
     thenM (requireRole orgId (p_user_id p) Admin)
     (thenM (fk_user (p_user_id p))
     (bindM (getsM (\<lambda>s. new_directory (next_id s) orgId req
               (case lq_bind_password req of None \<Rightarrow> None | Some pw \<Rightarrow> if pw = [] then None else Some (lv_seal env pw))
               (p_user_id p) (now s))) (\<lambda>r.
      thenM (modifyM (\<lambda>s. s\<lparr>ldap_directories := ldap_directories s @ [r], next_id := next_id s + 1\<rparr>))
     (thenM (audit_log (user_entry (Some orgId) p ''ldap.directory.create'' ''ldap_directory'' (dr_id r) ip
               [(''host'', JStr (lq_host req))]))
     (returnM (toDirectory r))))))"

definition dir_update ::
  "ldap_env \<Rightarrow> principal \<Rightarrow> uuid \<Rightarrow> uuid \<Rightarrow> ldap_directory_request \<Rightarrow> string option \<Rightarrow> ('z ldap_db_scheme, ldap_directory) svc" where
  "dir_update env p orgId i req ip =
     thenM (requireRole orgId (p_user_id p) Admin)
     (bindM (dir_loadOwned orgId i) (\<lambda>existing.
      let secretSql = (case lq_bind_password req of None \<Rightarrow> dr_bind_password_enc existing | Some pw \<Rightarrow> Some (lv_seal env pw)) in
      bindM (getsM (\<lambda>s. (request_row req secretSql existing)\<lparr>dr_updated_at := now s\<rparr>)) (\<lambda>r.
      thenM (modifyM (\<lambda>s. s\<lparr>ldap_directories := map (\<lambda>x. if dr_id x = i \<and> dr_org_id x = orgId
               then (request_row req secretSql x)\<lparr>dr_updated_at := now s\<rparr> else x) (ldap_directories s)\<rparr>))
     (thenM (audit_log (user_entry (Some orgId) p ''ldap.directory.update'' ''ldap_directory'' i ip []))
     (returnM (toDirectory r))))))"

text \<open>Identities and runs go with their directory (\<open>ON DELETE CASCADE\<close>).\<close>

definition dir_remove :: "principal \<Rightarrow> uuid \<Rightarrow> uuid \<Rightarrow> string option \<Rightarrow> ('z ldap_db_scheme, unit) svc" where
  "dir_remove p orgId i ip =
     thenM (requireRole orgId (p_user_id p) Admin)
     (bindM (getsM (\<lambda>s. \<exists>r \<in> set (ldap_directories s). dr_id r = i \<and> dr_org_id r = orgId)) (\<lambda>hit.
      thenM (throwIf (\<not> hit) (NotFoundException ''Directory not found'' None))
     (thenM (modifyM (\<lambda>s. s\<lparr>ldap_directories := filter (\<lambda>r. \<not> (dr_id r = i \<and> dr_org_id r = orgId)) (ldap_directories s),
               ldap_identities := filter (\<lambda>x. li_directory_id x \<noteq> i) (ldap_identities s),
               ldap_sync_runs := filter (\<lambda>x. rn_directory_id x \<noteq> i) (ldap_sync_runs s)\<rparr>))
     (audit_log (user_entry (Some orgId) p ''ldap.directory.delete'' ''ldap_directory'' i ip [])))))"

definition listRuns :: "uuid \<Rightarrow> uuid \<Rightarrow> uuid \<Rightarrow> ('z ldap_db_scheme, run_row list) svc" where
  "listRuns orgId userId i =
     thenM (requireRole orgId userId Admin)
     (thenM (dir_loadOwned orgId i)
     (getsM (\<lambda>s. take 20 (sort_key (\<lambda>r. - rn_started_at r) (filter (\<lambda>r. rn_directory_id r = i) (ldap_sync_runs s))))))"

section \<open>Reading a directory\<close>

definition connConfig :: "ldap_env \<Rightarrow> directory_row \<Rightarrow> string + ldap_conn_config" where
  "connConfig env r =
     (let cfg = (\<lambda>pw. \<lparr>mc_emailAttribute = dr_email_attribute r, mc_nameAttribute = dr_name_attribute r,
            mc_uidAttribute = dr_uid_attribute r, mc_memberAttribute = dr_member_attribute r, lc_host = dr_host r,
            lc_port = dr_port r, lc_encryption = dr_encryption r, lc_verifyTls = dr_verify_tls r, lc_bindDn = dr_bind_dn r,
            lc_bindPassword = pw, lc_baseDn = dr_base_dn r, lc_userFilter = dr_user_filter r,
            lc_groupFilter = dr_group_filter r\<rparr>)
      in case dr_bind_password_enc r of
           None \<Rightarrow> Inr (cfg [])
         | Some enc \<Rightarrow> if enc = [] then Inr (cfg [])
             else (case lv_open env enc of Inl msg \<Rightarrow> Inl msg | Inr pw \<Rightarrow> Inr (cfg pw)))"

definition read_directory :: "ldap_env \<Rightarrow> directory_row \<Rightarrow> string + directory_snapshot" where
  "read_directory env r =
     (case connConfig env r of Inl msg \<Rightarrow> Inl msg | Inr cfg \<Rightarrow> snd (fetchDirectory (lv_utf8 env) (lv_net env) cfg))"

definition testConnection :: "ldap_env \<Rightarrow> uuid \<Rightarrow> uuid \<Rightarrow> uuid \<Rightarrow> ('z ldap_db_scheme, ldap_test_result) svc" where
  "testConnection env orgId userId i =
     thenM (requireRole orgId userId Admin)
     (bindM (dir_loadOwned orgId i) (\<lambda>row. returnM
       (case read_directory env row of
          Inr snap \<Rightarrow> \<lparr>lt_ok = True,
            lt_message = ''Bound successfully and read '' @ show_nat (length (sn_users snap)) @ '' user(s).'',
            lt_user_count = length (sn_users snap),
            lt_sample_users = map (\<lambda>u. (mu_email u, mu_name u, mu_uid u, mu_groups u)) (take 5 (sn_users snap))\<rparr>
        | Inl msg \<Rightarrow> \<lparr>lt_ok = False, lt_message = msg, lt_user_count = 0, lt_sample_users = []\<rparr>)))"

section \<open>Applying a snapshot\<close>

text \<open>\<open>INSERT INTO users (email, name, status)\<close>: an account without a password.\<close>

definition insert_passwordless :: "string \<Rightarrow> string \<Rightarrow> ('z db_scheme, uuid) svc" where
  "insert_passwordless email name = (\<lambda>s.
     if \<exists>u \<in> set (users s). ci_eq (u_email u) email then (Inl (DbError ''23505''), s)
     else (Inr (next_id s), s\<lparr>users := users s @ [\<lparr>u_id = next_id s, u_email = email, u_name = name, u_password_hash = None,
             u_totp_secret = None, u_totp_enabled = False, u_status = ''active'', u_updated_at = now s\<rparr>],
             next_id := next_id s + 1\<rparr>))"

text \<open>\<open>SELECT id FROM users WHERE email = $1\<close>, else insert; the flag says whether it was inserted.\<close>

definition find_or_insert :: "string \<Rightarrow> string \<Rightarrow> ('z db_scheme, uuid \<times> bool) svc" where
  "find_or_insert email name =
     bindM (getsM (\<lambda>s. find (\<lambda>u. ci_eq (u_email u) email) (users s))) (\<lambda>existing.
     case existing of
       Some u \<Rightarrow> returnM (u_id u, False)
     | None \<Rightarrow> bindM (insert_passwordless email name) (\<lambda>i. returnM (i, True)))"

definition activate_user :: "uuid \<Rightarrow> string \<Rightarrow> 'z db_scheme \<Rightarrow> 'z db_scheme" where
  "activate_user userId name s = s\<lparr>users := map (\<lambda>u. if u_id u = userId
     then u\<lparr>u_name := (if name = [] then u_name u else name), u_status := ''active'', u_updated_at := now s\<rparr> else u) (users s)\<rparr>"

text \<open>\<open>INSERT INTO org_members ... ON CONFLICT (org_id, user_id) DO UPDATE SET role\<close>.\<close>

definition upsert_role :: "uuid \<Rightarrow> uuid \<Rightarrow> org_role \<Rightarrow> 'z db_scheme \<Rightarrow> 'z db_scheme" where
  "upsert_role orgId userId role s =
     (if \<exists>m \<in> set (org_members s). m_org_id m = orgId \<and> m_user_id m = userId
      then s\<lparr>org_members := map (\<lambda>m. if m_org_id m = orgId \<and> m_user_id m = userId then m\<lparr>m_role := role\<rparr> else m) (org_members s)\<rparr>
      else s\<lparr>org_members := org_members s @
              [\<lparr>m_org_id = orgId, m_user_id = userId, m_role = role, m_created_at = now s\<rparr>]\<rparr>)"

definition upsert_identity :: "uuid \<Rightarrow> string \<Rightarrow> uuid \<Rightarrow> 'z ldap_db_scheme \<Rightarrow> 'z ldap_db_scheme" where
  "upsert_identity dirId ext userId s =
     (if \<exists>x \<in> set (ldap_identities s). li_directory_id x = dirId \<and> li_external_id x = ext
      then s\<lparr>ldap_identities := map (\<lambda>x. if li_directory_id x = dirId \<and> li_external_id x = ext
              then x\<lparr>li_user_id := userId, li_last_seen_at := now s\<rparr> else x) (ldap_identities s)\<rparr>
      else s\<lparr>ldap_identities := ldap_identities s @ [\<lparr>li_directory_id = dirId, li_external_id = ext, li_user_id = userId,
              li_last_seen_at = now s, li_created_at = now s\<rparr>]\<rparr>)"

definition linked_user :: "'z ldap_db_scheme \<Rightarrow> uuid \<Rightarrow> string \<Rightarrow> uuid option" where
  "linked_user s dirId ext =
     map_option li_user_id (find (\<lambda>x. li_directory_id x = dirId \<and> li_external_id x = ext) (ldap_identities s))"

definition str_or_empty :: "string option \<Rightarrow> string" where
  "str_or_empty x = (case x of None \<Rightarrow> [] | Some t \<Rightarrow> t)"

text \<open>The transaction for one entry that has an address.\<close>

definition sync_user :: "directory_row \<Rightarrow> mapped_user \<Rightarrow> string \<Rightarrow> org_role \<Rightarrow> ('z ldap_db_scheme, bool) svc" where
  "sync_user row user email role = tx
     (bindM (getsM (\<lambda>s. linked_user s (dr_id row) (mu_externalId user))) (\<lambda>linked.
      bindM (case linked of
               Some i \<Rightarrow> returnM (i, False)
             | None \<Rightarrow> find_or_insert email (str_or_empty (mu_name user))) (\<lambda>(userId, isNew).
      thenM (modifyM (activate_user userId (str_or_empty (mu_name user))))
     (thenM (modifyM (upsert_role (dr_org_id row) userId role))
     (thenM (modifyM (upsert_identity (dr_id row) (mu_externalId user) userId))
     (returnM isNew))))))"

fun apply_users ::
  "directory_row \<Rightarrow> (string list \<Rightarrow> string list) \<Rightarrow> mapped_user list \<Rightarrow> sync_counts \<Rightarrow> ('z ldap_db_scheme, sync_counts) svc" where
  "apply_users row expand [] counts = returnM counts"
| "apply_users row expand (user # us) counts =
     (case mu_email user of
        None \<Rightarrow> apply_users row expand us counts
      | Some email \<Rightarrow>
          if email = [] then apply_users row expand us counts
          else bindM (sync_user row user email
                 (resolveRole (expand (mu_groups user)) (dr_group_role_map row) (dr_default_role row))) (\<lambda>created.
               apply_users row expand us
                 (if created then counts\<lparr>sc_created := sc_created counts + 1\<rparr>
                  else counts\<lparr>sc_updated := sc_updated counts + 1\<rparr>)))"

text \<open>The set \<open>seen\<close>: the entries that have an address.\<close>

definition seen_ids :: "mapped_user list \<Rightarrow> string list" where
  "seen_ids us = map mu_externalId (filter (\<lambda>u. mu_email u \<noteq> None \<and> mu_email u \<noteq> Some []) us)"

definition suspend_user :: "uuid \<Rightarrow> 'z db_scheme \<Rightarrow> 'z db_scheme" where
  "suspend_user userId s = s\<lparr>users := map (\<lambda>u. if u_id u = userId \<and> u_status u \<noteq> ''suspended''
     then u\<lparr>u_status := ''suspended'', u_updated_at := now s\<rparr> else u) (users s)\<rparr>"

fun deactivate :: "uuid list \<Rightarrow> nat \<Rightarrow> ('z db_scheme, nat) svc" where
  "deactivate [] n = returnM n"
| "deactivate (i # is) n =
     bindM (getsM (\<lambda>s. \<exists>u \<in> set (users s). u_id u = i \<and> u_status u \<noteq> ''suspended'')) (\<lambda>hit.
     thenM (modifyM (suspend_user i))
     (deactivate is (if hit then n + 1 else n)))"

definition stale_users :: "'z ldap_db_scheme \<Rightarrow> uuid \<Rightarrow> string list \<Rightarrow> uuid list" where
  "stale_users s dirId seen =
     map li_user_id (filter (\<lambda>x. li_directory_id x = dirId \<and> li_external_id x \<notin> set seen) (ldap_identities s))"

definition applySnapshot ::
  "directory_row \<Rightarrow> mapped_user list \<Rightarrow> (string list \<Rightarrow> string list) \<Rightarrow> ('z ldap_db_scheme, sync_counts) svc" where
  "applySnapshot row us expand =
     bindM (apply_users row expand us \<lparr>sc_created = 0, sc_updated = 0, sc_deactivated = 0\<rparr>) (\<lambda>counts.
     if dr_deactivate_missing row then
       bindM (getsM (\<lambda>s. stale_users s (dr_id row) (seen_ids us))) (\<lambda>stale.
       bindM (deactivate stale 0) (\<lambda>n. returnM (counts\<lparr>sc_deactivated := n\<rparr>)))
     else returnM counts)"

section \<open>Runs\<close>

definition insert_run :: "uuid \<Rightarrow> ('z ldap_db_scheme, run_row) svc" where
  "insert_run dirId = (\<lambda>s.
     if dirId \<notin> dr_id ` set (ldap_directories s) then (Inl (DbError ''23503''), s)
     else let r = \<lparr>rn_id = next_id s, rn_directory_id = dirId, rn_status = Run_running, rn_created_count = 0,
                   rn_updated_count = 0, rn_deactivated_count = 0, rn_error = None, rn_started_at = now s, rn_finished_at = None\<rparr>
          in (Inr r, s\<lparr>ldap_sync_runs := ldap_sync_runs s @ [r], next_id := next_id s + 1\<rparr>))"

text \<open>\<open>UPDATE ldap_sync_runs SET ... WHERE id = $1 RETURNING *\<close>, and \<open>rows[0]!\<close>.\<close>

definition update_run :: "uuid \<Rightarrow> (timestamp \<Rightarrow> run_row \<Rightarrow> run_row) \<Rightarrow> ('z ldap_db_scheme, run_row) svc" where
  "update_run i f =
     thenM (modifyM (\<lambda>s. s\<lparr>ldap_sync_runs := map (\<lambda>r. if rn_id r = i then f (now s) r else r) (ldap_sync_runs s)\<rparr>))
     (bindM (getsM (\<lambda>s. find (\<lambda>r. rn_id r = i) (ldap_sync_runs s))) (\<lambda>row.
      someM row (HttpException 500 ''Error'' None)))"

definition finish_run :: "sync_counts \<Rightarrow> timestamp \<Rightarrow> run_row \<Rightarrow> run_row" where
  "finish_run c nw r = r\<lparr>rn_status := Run_ok, rn_created_count := sc_created c, rn_updated_count := sc_updated c,
     rn_deactivated_count := sc_deactivated c, rn_finished_at := Some nw\<rparr>"

definition fail_run :: "string \<Rightarrow> timestamp \<Rightarrow> run_row \<Rightarrow> run_row" where
  "fail_run msg nw r = r\<lparr>rn_status := Run_error, rn_error := Some (take 2000 msg), rn_finished_at := Some nw\<rparr>"

definition runSync :: "ldap_env \<Rightarrow> directory_row \<Rightarrow> ('z ldap_db_scheme, run_row) svc" where
  "runSync env row =
     bindM (insert_run (dr_id row)) (\<lambda>run.
     case read_directory env row of
       Inl msg \<Rightarrow> update_run (rn_id run) (fail_run msg)
     | Inr snap \<Rightarrow>
         catchM (bindM (applySnapshot row (sn_users snap) (\<lambda>gs. expandGroups gs (sn_groupParents snap))) (\<lambda>counts.
                 bindM (update_run (rn_id run) (finish_run counts)) (\<lambda>r.
                 thenM (modifyM (\<lambda>s. s\<lparr>ldap_directories := map (\<lambda>x. if dr_id x = dr_id row
                          then x\<lparr>dr_last_synced_at := Some (now s)\<rparr> else x) (ldap_directories s)\<rparr>))
                 (returnM r))))
                (\<lambda>e. update_run (rn_id run) (fail_run (lv_message env e))))"

definition syncNow :: "ldap_env \<Rightarrow> principal \<Rightarrow> uuid \<Rightarrow> uuid \<Rightarrow> string option \<Rightarrow> ('z ldap_db_scheme, run_row) svc" where
  "syncNow env p orgId i ip =
     thenM (requireRole orgId (p_user_id p) Admin)
     (bindM (dir_loadOwned orgId i) (\<lambda>row.
      thenM (audit_log (user_entry (Some orgId) p ''ldap.directory.sync'' ''ldap_directory'' i ip []))
     (runSync env row)))"

definition due_dir :: "timestamp \<Rightarrow> directory_row \<Rightarrow> bool" where
  "due_dir nw r = (dr_enabled r \<and>
     (case dr_last_synced_at r of None \<Rightarrow> True | Some l \<Rightarrow> l + dr_sync_interval_minutes r * 60000 \<le> nw))"

text \<open>The worker's round: a failing directory is logged and the next one is tried.\<close>

definition runDueSyncs :: "ldap_env \<Rightarrow> ('z ldap_db_scheme, unit) svc" where
  "runDueSyncs env =
     bindM (getsM (\<lambda>s. filter (due_dir (now s)) (ldap_directories s))) (\<lambda>rows.
     forM rows (\<lambda>row. catchM (thenM (runSync env row) (returnM ())) (\<lambda>_. returnM ())))"

section \<open>Frames of the writes\<close>

lemma activate_user_frame [simp]:
  "org_members (activate_user i n s) = org_members s" "now (activate_user i n s) = now s" "next_id (activate_user i n s) = next_id s"
  by (simp_all add: activate_user_def)

lemma activate_user_ldap [simp]:
  "ldap_identities (activate_user i n s) = ldap_identities s" "ldap_directories (activate_user i n s) = ldap_directories s"
  "ldap_sync_runs (activate_user i n s) = ldap_sync_runs s" for s :: "'z ldap_db_scheme"
  by (simp_all add: activate_user_def)

lemma upsert_role_frame [simp]:
  "users (upsert_role o' i r s) = users s" "now (upsert_role o' i r s) = now s" "next_id (upsert_role o' i r s) = next_id s"
  by (simp_all add: upsert_role_def)

lemma upsert_role_ldap [simp]:
  "ldap_identities (upsert_role o' i r s) = ldap_identities s" "ldap_directories (upsert_role o' i r s) = ldap_directories s"
  "ldap_sync_runs (upsert_role o' i r s) = ldap_sync_runs s" for s :: "'z ldap_db_scheme"
  by (simp_all add: upsert_role_def)

lemma upsert_identity_frame [simp]:
  "users (upsert_identity d e i s) = users s" "org_members (upsert_identity d e i s) = org_members s"
  "now (upsert_identity d e i s) = now s" "ldap_directories (upsert_identity d e i s) = ldap_directories s"
  "ldap_sync_runs (upsert_identity d e i s) = ldap_sync_runs s"
  by (simp_all add: upsert_identity_def)

lemma suspend_user_frame [simp]:
  "org_members (suspend_user i s) = org_members s" "now (suspend_user i s) = now s"
  by (simp_all add: suspend_user_def)

lemma suspend_user_ldap [simp]:
  "ldap_identities (suspend_user i s) = ldap_identities s" "ldap_directories (suspend_user i s) = ldap_directories s"
  "ldap_sync_runs (suspend_user i s) = ldap_sync_runs s" for s :: "'z ldap_db_scheme"
  by (simp_all add: suspend_user_def)

lemma memberRole_upsert:
  "memberRole (upsert_role org i role s) o' v = (if o' = org \<and> v = i then Some role else memberRole s o' v)"
proof (cases "\<exists>m \<in> set (org_members s). m_org_id m = org \<and> m_user_id m = i")
  case False
  then have "memberRole s org i = None" by (auto simp: memberRole_None_iff)
  moreover have "upsert_role org i role s = s\<lparr>org_members := org_members s @
      [\<lparr>m_org_id = org, m_user_id = i, m_role = role, m_created_at = now s\<rparr>]\<rparr>"
    using False by (auto simp: upsert_role_def)
  ultimately show ?thesis by (auto simp: memberRole_insert split: option.splits)
next
  case True
  let ?f = "\<lambda>m. if m_org_id m = org \<and> m_user_id m = i then m\<lparr>m_role := role\<rparr> else m"
  have e: "upsert_role org i role s = s\<lparr>org_members := map ?f (org_members s)\<rparr>"
    using True by (auto simp: upsert_role_def)
  have "find (\<lambda>m. m_org_id m = o' \<and> m_user_id m = v) (map ?f (org_members s)) =
      map_option ?f (find (\<lambda>m. m_org_id m = o' \<and> m_user_id m = v) (org_members s))"
    by (rule find_map_frame) auto
  moreover have "\<exists>m. find (\<lambda>m. m_org_id m = org \<and> m_user_id m = i) (org_members s) = Some m"
    using True by (intro find_hit)
  ultimately show ?thesis
    by (auto simp: e memberRole_def option.map_comp o_def dest: find_SomeD intro!: option.map_cong)
qed

lemma linked_upsert:
  "linked_user (upsert_identity d e i s) d' e' = (if d' = d \<and> e' = e then Some i else linked_user s d' e')"
proof (cases "\<exists>x \<in> set (ldap_identities s). li_directory_id x = d \<and> li_external_id x = e")
  case False
  then have "find (\<lambda>x. li_directory_id x = d \<and> li_external_id x = e) (ldap_identities s) = None"
    by (auto simp: find_None_iff_all)
  with False show ?thesis
    by (auto simp: linked_user_def upsert_identity_def find_snoc split: option.splits)
next
  case True
  let ?f = "\<lambda>x. if li_directory_id x = d \<and> li_external_id x = e then x\<lparr>li_user_id := i, li_last_seen_at := now s\<rparr> else x"
  have u: "upsert_identity d e i s = s\<lparr>ldap_identities := map ?f (ldap_identities s)\<rparr>"
    using True by (auto simp: upsert_identity_def)
  have "find (\<lambda>x. li_directory_id x = d' \<and> li_external_id x = e') (map ?f (ldap_identities s)) =
      map_option ?f (find (\<lambda>x. li_directory_id x = d' \<and> li_external_id x = e') (ldap_identities s))"
    by (rule find_map_frame) auto
  moreover have "\<exists>x. find (\<lambda>x. li_directory_id x = d \<and> li_external_id x = e) (ldap_identities s) = Some x"
    using True by (intro find_hit)
  ultimately show ?thesis
    by (auto simp: u linked_user_def option.map_comp o_def dest: find_SomeD intro!: option.map_cong)
qed

section \<open>One entry\<close>

definition with_user :: "string \<Rightarrow> string \<Rightarrow> 'z db_scheme \<Rightarrow> 'z db_scheme" where
  "with_user email name s = s\<lparr>users := users s @ [\<lparr>u_id = next_id s, u_email = email, u_name = name, u_password_hash = None,
     u_totp_secret = None, u_totp_enabled = False, u_status = ''active'', u_updated_at = now s\<rparr>], next_id := next_id s + 1\<rparr>"

lemma with_user_frame [simp]:
  "org_members (with_user e n s) = org_members s" "now (with_user e n s) = now s"
  by (simp_all add: with_user_def)

lemma with_user_ldap [simp]:
  "ldap_identities (with_user e n s) = ldap_identities s" "ldap_directories (with_user e n s) = ldap_directories s"
  "ldap_sync_runs (with_user e n s) = ldap_sync_runs s" for s :: "'z ldap_db_scheme"
  by (simp_all add: with_user_def)

lemma find_or_insert_run:
  "find_or_insert email name s = (case find (\<lambda>u. ci_eq (u_email u) email) (users s) of
     Some u \<Rightarrow> (Inr (u_id u, False), s)
   | None \<Rightarrow> (Inr (next_id s, True), with_user email name s))"
proof (cases "find (\<lambda>u. ci_eq (u_email u) email) (users s)")
  case None
  then have "\<not> (\<exists>u \<in> set (users s). ci_eq (u_email u) email)" by (simp add: find_None_iff_all)
  with None show ?thesis
    by (simp add: find_or_insert_def insert_passwordless_def with_user_def bindM_def getsM_def returnM_def)
next
  case (Some u)
  then show ?thesis by (simp add: find_or_insert_def bindM_def getsM_def returnM_def)
qed

definition provisioned :: "directory_row \<Rightarrow> mapped_user \<Rightarrow> org_role \<Rightarrow> uuid \<Rightarrow> 'z ldap_db_scheme \<Rightarrow> 'z ldap_db_scheme" where
  "provisioned row user role i s = upsert_identity (dr_id row) (mu_externalId user) i
     (upsert_role (dr_org_id row) i role (activate_user i (str_or_empty (mu_name user)) s))"

lemma sync_user_run:
  "\<exists>i new s1. sync_user row user email role s = (Inr new, provisioned row user role i s1) \<and>
     (s1 = s \<and> \<not> new \<and> linked_user s (dr_id row) (mu_externalId user) \<in> {None, Some i} \<or>
      s1 = with_user email (str_or_empty (mu_name user)) s \<and> new \<and> linked_user s (dr_id row) (mu_externalId user) = None)"
proof (cases "linked_user s (dr_id row) (mu_externalId user)")
  case (Some i)
  then show ?thesis
    by (intro exI[of _ i] exI[of _ False] exI[of _ s])
      (simp add: sync_user_def tx_def bindM_def getsM_def returnM_def thenM_def modifyM_def provisioned_def)
next
  case None
  obtain i new s1 where f: "find_or_insert email (str_or_empty (mu_name user)) s = (Inr (i, new), s1)"
    and c: "s1 = s \<and> \<not> new \<or> s1 = with_user email (str_or_empty (mu_name user)) s \<and> new"
    by (cases "find (\<lambda>u. ci_eq (u_email u) email) (users s)") (auto simp: find_or_insert_run)
  have "sync_user row user email role s = (Inr new, provisioned row user role i s1)"
    by (simp add: sync_user_def tx_def bindM_def getsM_def returnM_def thenM_def modifyM_def provisioned_def None f)
  with None c show ?thesis by blast
qed

definition entry_role :: "directory_row \<Rightarrow> (string list \<Rightarrow> string list) \<Rightarrow> mapped_user \<Rightarrow> org_role" where
  "entry_role row expand w = resolveRole (expand (mu_groups w)) (dr_group_role_map row) (dr_default_role row)"

text \<open>
  What holds after the entries \<open>ws\<close>, from the state \<open>s0\<close> before the first: every entry is
  linked to an account that is active and whose role is that of an entry linked to it, no other
  role has changed, and links and runs of others are as before.
\<close>

definition applied ::
  "directory_row \<Rightarrow> (string list \<Rightarrow> string list) \<Rightarrow> 'z ldap_db_scheme \<Rightarrow> mapped_user list \<Rightarrow> 'z ldap_db_scheme \<Rightarrow> bool" where
  "applied row expand s0 ws s \<longleftrightarrow>
     (\<forall>w \<in> set ws. \<exists>i. linked_user s (dr_id row) (mu_externalId w) = Some i \<and>
        (\<forall>u \<in> set (users s). u_id u = i \<longrightarrow> u_status u = ''active'') \<and>
        (\<exists>w' \<in> set ws. linked_user s (dr_id row) (mu_externalId w') = Some i \<and>
           memberRole s (dr_org_id row) i = Some (entry_role row expand w'))) \<and>
     (\<forall>org v. memberRole s org v = memberRole s0 org v \<or>
        org = dr_org_id row \<and> (\<exists>w \<in> set ws. linked_user s (dr_id row) (mu_externalId w) = Some v)) \<and>
     (\<forall>x. li_directory_id x = dr_id row \<and> li_external_id x \<notin> mu_externalId ` set ws \<longrightarrow>
        (x \<in> set (ldap_identities s) \<longleftrightarrow> x \<in> set (ldap_identities s0))) \<and>
     ldap_directories s = ldap_directories s0 \<and> ldap_sync_runs s = ldap_sync_runs s0 \<and> now s = now s0"

lemma applied_refl: "applied row expand s [] s"
  by (simp add: applied_def)

lemma activate_user_status:
  assumes "u \<in> set (users (activate_user i n s))"
  shows "u_id u = i \<and> u_status u = ''active'' \<or> u_id u \<noteq> i \<and> u \<in> set (users s)"
proof -
  from assms obtain v where v: "v \<in> set (users s)" and
    u: "u = (if u_id v = i then v\<lparr>u_name := (if n = [] then u_name v else n), u_status := ''active'', u_updated_at := now s\<rparr> else v)"
    by (auto simp: activate_user_def simp del: if_image_distrib)
  show ?thesis using v unfolding u by (cases "u_id v = i") simp_all
qed

lemma users_provisioned: "users (provisioned row w role i s) = users (activate_user i (str_or_empty (mu_name w)) s)"
  by (simp add: provisioned_def)

lemma status_provisioned:
  assumes "\<forall>u \<in> set (users s). u_id u = j \<longrightarrow> u_status u = ''active''" "s1 = s \<or> s1 = with_user email name s"
  shows "\<forall>u \<in> set (users (provisioned row w role i s1)). u_id u = j \<longrightarrow> u_status u = ''active''"
proof -
  have "\<forall>u \<in> set (users s1). u_id u = j \<longrightarrow> u_status u = ''active''"
    using assms by (auto simp: with_user_def)
  then show ?thesis unfolding users_provisioned by (metis activate_user_status)
qed

lemma status_provisioned_self:
  "\<forall>u \<in> set (users (provisioned row w role i s1)). u_id u = i \<longrightarrow> u_status u = ''active''"
  unfolding users_provisioned by (metis activate_user_status)

lemma memberRole_provisioned:
  "memberRole (provisioned row w role i s) o' v = (if o' = dr_org_id row \<and> v = i then Some role else memberRole s o' v)"
proof -
  have "memberRole (provisioned row w role i s) o' v =
      memberRole (upsert_role (dr_org_id row) i role (activate_user i (str_or_empty (mu_name w)) s)) o' v"
    by (simp add: provisioned_def memberRole_def)
  also have "\<dots> = (if o' = dr_org_id row \<and> v = i then Some role else memberRole (activate_user i (str_or_empty (mu_name w)) s) o' v)"
    by (rule memberRole_upsert)
  finally show ?thesis by (simp add: memberRole_def)
qed

lemma linked_provisioned:
  "linked_user (provisioned row w role i s) d e = (if d = dr_id row \<and> e = mu_externalId w then Some i else linked_user s d e)"
proof -
  let ?u = "upsert_role (dr_org_id row) i role (activate_user i (str_or_empty (mu_name w)) s)"
  have "linked_user ?u d e = linked_user s d e" by (simp add: linked_user_def)
  then show ?thesis unfolding provisioned_def by (simp add: linked_upsert)
qed

lemma identities_provisioned:
  "li_directory_id x = dr_id row \<Longrightarrow> li_external_id x \<noteq> mu_externalId w \<Longrightarrow>
     x \<in> set (ldap_identities (provisioned row w role i s)) \<longleftrightarrow> x \<in> set (ldap_identities s)"
  by (auto simp: provisioned_def upsert_identity_def)

lemma provisioned_frame [simp]:
  "ldap_directories (provisioned row w role i s) = ldap_directories s"
  "ldap_sync_runs (provisioned row w role i s) = ldap_sync_runs s" "now (provisioned row w role i s) = now s"
  by (simp_all add: provisioned_def)

lemma sync_user_effect:
  obtains i new t where "sync_user row w email role s = (Inr new, t)"
    and "\<And>d e v. linked_user s d e = Some v \<Longrightarrow> linked_user t d e = Some v"
    and "linked_user t (dr_id row) (mu_externalId w) = Some i"
    and "\<And>o' v. memberRole t o' v = (if o' = dr_org_id row \<and> v = i then Some role else memberRole s o' v)"
    and "\<And>j. (\<forall>u \<in> set (users s). u_id u = j \<longrightarrow> u_status u = ''active'') \<or> j = i \<Longrightarrow>
           \<forall>u \<in> set (users t). u_id u = j \<longrightarrow> u_status u = ''active''"
    and "\<And>x. li_directory_id x = dr_id row \<Longrightarrow> li_external_id x \<noteq> mu_externalId w \<Longrightarrow>
           x \<in> set (ldap_identities t) \<longleftrightarrow> x \<in> set (ldap_identities s)"
    and "ldap_directories t = ldap_directories s" "ldap_sync_runs t = ldap_sync_runs s" "now t = now s"
proof -
  from sync_user_run[of row w email role s] obtain i new s1
    where r: "sync_user row w email role s = (Inr new, provisioned row w role i s1)"
      and s1: "s1 = s \<or> s1 = with_user email (str_or_empty (mu_name w)) s"
      and l: "linked_user s (dr_id row) (mu_externalId w) \<in> {None, Some i}" by blast
  have same: "linked_user s1 d e = linked_user s d e" "memberRole s1 o' v = memberRole s o' v"
    "ldap_identities s1 = ldap_identities s" "ldap_directories s1 = ldap_directories s"
    "ldap_sync_runs s1 = ldap_sync_runs s" "now s1 = now s" for d e o' v
    using s1 by (auto simp: linked_user_def memberRole_def)
  show ?thesis
  proof (rule that[OF r])
    show "linked_user s d e = Some v \<Longrightarrow> linked_user (provisioned row w role i s1) d e = Some v" for d e v
      using l by (auto simp: linked_provisioned same)
    show "linked_user (provisioned row w role i s1) (dr_id row) (mu_externalId w) = Some i"
      by (simp add: linked_provisioned)
    show "memberRole (provisioned row w role i s1) o' v = (if o' = dr_org_id row \<and> v = i then Some role else memberRole s o' v)" for o' v
      by (simp add: memberRole_provisioned same)
    show "(\<forall>u \<in> set (users s). u_id u = j \<longrightarrow> u_status u = ''active'') \<or> j = i \<Longrightarrow>
        \<forall>u \<in> set (users (provisioned row w role i s1)). u_id u = j \<longrightarrow> u_status u = ''active''" for j
      using status_provisioned[OF _ s1] status_provisioned_self by blast
    show "li_directory_id x = dr_id row \<Longrightarrow> li_external_id x \<noteq> mu_externalId w \<Longrightarrow>
        x \<in> set (ldap_identities (provisioned row w role i s1)) \<longleftrightarrow> x \<in> set (ldap_identities s)" for x
      by (simp add: identities_provisioned same)
  qed (simp_all add: same)
qed

lemma applied_step:
  assumes a: "applied row expand s0 ws s"
  obtains new t where "sync_user row w email (entry_role row expand w) s = (Inr new, t)" "applied row expand s0 (ws @ [w]) t"
proof (rule sync_user_effect[of row w email "entry_role row expand w" s])
  fix i new t
  assume r: "sync_user row w email (entry_role row expand w) s = (Inr new, t)"
    and mono: "\<And>d e v. linked_user s d e = Some v \<Longrightarrow> linked_user t d e = Some v"
    and self: "linked_user t (dr_id row) (mu_externalId w) = Some i"
    and role: "\<And>o' v. memberRole t o' v = (if o' = dr_org_id row \<and> v = i then Some (entry_role row expand w) else memberRole s o' v)"
    and status: "\<And>j. (\<forall>u \<in> set (users s). u_id u = j \<longrightarrow> u_status u = ''active'') \<or> j = i \<Longrightarrow>
           \<forall>u \<in> set (users t). u_id u = j \<longrightarrow> u_status u = ''active''"
    and ids: "\<And>x. li_directory_id x = dr_id row \<Longrightarrow> li_external_id x \<noteq> mu_externalId w \<Longrightarrow>
           x \<in> set (ldap_identities t) \<longleftrightarrow> x \<in> set (ldap_identities s)"
    and fr: "ldap_directories t = ldap_directories s" "ldap_sync_runs t = ldap_sync_runs s" "now t = now s"
  let ?ok = "\<lambda>v. \<exists>j. linked_user t (dr_id row) (mu_externalId v) = Some j \<and>
        (\<forall>u \<in> set (users t). u_id u = j \<longrightarrow> u_status u = ''active'') \<and>
        (\<exists>w' \<in> set (ws @ [w]). linked_user t (dr_id row) (mu_externalId w') = Some j \<and>
           memberRole t (dr_org_id row) j = Some (entry_role row expand w'))"
  have new: "?ok w" using self role status[of i] by auto
  have old: "?ok v" if v: "v \<in> set ws" for v
  proof -
    from a v obtain j w' where j: "linked_user s (dr_id row) (mu_externalId v) = Some j"
      "\<forall>u \<in> set (users s). u_id u = j \<longrightarrow> u_status u = ''active''"
      "w' \<in> set ws" "linked_user s (dr_id row) (mu_externalId w') = Some j"
      "memberRole s (dr_org_id row) j = Some (entry_role row expand w')"
      unfolding applied_def by blast
    show ?thesis
    proof (cases "j = i")
      case True
      with j self role mono status[of i] show ?thesis by (intro exI[of _ i]) auto
    next
      case False
      show ?thesis
      proof (intro exI[of _ j] conjI bexI[of _ w'])
        show "linked_user t (dr_id row) (mu_externalId v) = Some j" "linked_user t (dr_id row) (mu_externalId w') = Some j"
          using j mono by blast+
        show "\<forall>u \<in> set (users t). u_id u = j \<longrightarrow> u_status u = ''active''" using j(2) status[of j] by blast
        show "memberRole t (dr_org_id row) j = Some (entry_role row expand w')" using j(5) role False by simp
        show "w' \<in> set (ws @ [w])" using j(3) by simp
      qed
    qed
  qed
  have roles: "memberRole t org v = memberRole s0 org v \<or>
      org = dr_org_id row \<and> (\<exists>x \<in> set (ws @ [w]). linked_user t (dr_id row) (mu_externalId x) = Some v)" for org v
  proof (cases "org = dr_org_id row \<and> v = i")
    case True
    with self show ?thesis by auto
  next
    case False
    then have "memberRole t org v = memberRole s org v" using role[of org v] by auto
    moreover have "memberRole s org v = memberRole s0 org v \<or>
        org = dr_org_id row \<and> (\<exists>x \<in> set ws. linked_user s (dr_id row) (mu_externalId x) = Some v)"
      using a unfolding applied_def by blast
    ultimately show ?thesis using mono[of "dr_id row"] by (metis UnCI set_append)
  qed
  have all: "\<forall>v \<in> set (ws @ [w]). ?ok v"
  proof
    fix v assume "v \<in> set (ws @ [w])"
    then consider "v = w" | "v \<in> set ws" by auto
    then show "?ok v" by cases (simp only: new, rule old)
  qed
  have links: "\<forall>x. li_directory_id x = dr_id row \<and> li_external_id x \<notin> mu_externalId ` set (ws @ [w]) \<longrightarrow>
        (x \<in> set (ldap_identities t) \<longleftrightarrow> x \<in> set (ldap_identities s0))"
    using a ids unfolding applied_def by auto
  have "ldap_directories t = ldap_directories s0 \<and> ldap_sync_runs t = ldap_sync_runs s0 \<and> now t = now s0"
    using a fr unfolding applied_def by simp
  with all roles links have "applied row expand s0 (ws @ [w]) t" unfolding applied_def by blast
  then show ?thesis using that[OF r] by blast
qed

definition seen_users :: "mapped_user list \<Rightarrow> mapped_user list" where
  "seen_users us = filter (\<lambda>u. mu_email u \<noteq> None \<and> mu_email u \<noteq> Some []) us"

lemma apply_users_total:
  assumes "applied row expand s0 ws s"
  shows "\<exists>c t. apply_users row expand us counts s = (Inr c, t) \<and> applied row expand s0 (ws @ seen_users us) t"
  using assms
proof (induction us arbitrary: ws s counts)
  case Nil
  then show ?case by (simp add: returnM_def seen_users_def)
next
  case (Cons w us)
  show ?case
  proof (cases "mu_email w = None \<or> mu_email w = Some []")
    case True
    then have "apply_users row expand (w # us) counts s = apply_users row expand us counts s" "seen_users (w # us) = seen_users us"
      by (auto simp: seen_users_def)
    then show ?thesis using Cons.IH[OF Cons.prems] by (simp only:)
  next
    case False
    then obtain email where e: "mu_email w = Some email" "email \<noteq> []" by auto
    obtain new t where t: "sync_user row w email (entry_role row expand w) s = (Inr new, t)" "applied row expand s0 (ws @ [w]) t"
      by (rule applied_step[OF Cons.prems])
    have "seen_users (w # us) = w # seen_users us" using e by (simp add: seen_users_def)
    then show ?thesis
      using Cons.IH[OF t(2)] t(1) e by (simp add: bindM_def entry_role_def)
  qed
qed

lemma seen_ids_users: "seen_ids us = map mu_externalId (seen_users us)"
  by (simp add: seen_ids_def seen_users_def)

section \<open>The whole snapshot\<close>

lemma suspend_user_status:
  assumes "u \<in> set (users (suspend_user i s))"
  shows "u_id u = i \<and> u_status u = ''suspended'' \<or> u_id u \<noteq> i \<and> u \<in> set (users s)"
proof -
  from assms obtain v where v: "v \<in> set (users s)" and
    u: "u = (if u_id v = i \<and> u_status v \<noteq> ''suspended'' then v\<lparr>u_status := ''suspended'', u_updated_at := now s\<rparr> else v)"
    by (auto simp: suspend_user_def simp del: if_image_distrib)
  show ?thesis using v unfolding u by (cases "u_id v = i"; cases "u_status v = ''suspended''") simp_all
qed

lemma deactivate_run:
  "\<exists>n' t. deactivate is n s = (Inr n', t) \<and> org_members t = org_members s \<and> now t = now s \<and>
     ldap_identities t = ldap_identities s \<and> ldap_directories t = ldap_directories s \<and> ldap_sync_runs t = ldap_sync_runs s \<and>
     (\<forall>u \<in> set (users t). if u_id u \<in> set is then u_status u = ''suspended'' else u \<in> set (users s))"
  for s :: "'z ldap_db_scheme"
proof (induction "is" arbitrary: n s)
  case Nil
  then show ?case by (simp add: returnM_def)
next
  case (Cons i "is")
  let ?n = "if \<exists>u \<in> set (users s). u_id u = i \<and> u_status u \<noteq> ''suspended'' then n + 1 else n"
  obtain n' t where t: "deactivate is ?n (suspend_user i s) = (Inr n', t)" "org_members t = org_members s" "now t = now s"
     "ldap_identities t = ldap_identities s" "ldap_directories t = ldap_directories s" "ldap_sync_runs t = ldap_sync_runs s"
     and u: "\<forall>u \<in> set (users t). if u_id u \<in> set is then u_status u = ''suspended'' else u \<in> set (users (suspend_user i s))"
    using Cons.IH[of ?n "suspend_user i s"] by auto
  have "\<forall>u \<in> set (users t). if u_id u \<in> set (i # is) then u_status u = ''suspended'' else u \<in> set (users s)"
  proof
    fix u assume "u \<in> set (users t)"
    with u suspend_user_status[of u i s] show "if u_id u \<in> set (i # is) then u_status u = ''suspended'' else u \<in> set (users s)"
      by (auto split: if_splits)
  qed
  moreover have "deactivate (i # is) n s = (Inr n', t)"
    using t(1) by (simp add: bindM_getsM thenM_modifyM)
  ultimately show ?case using t by blast
qed

text \<open>The accounts a run suspends: those with an identity no entry of the snapshot carries.\<close>

definition missing_user :: "directory_row \<Rightarrow> mapped_user list \<Rightarrow> 'z ldap_db_scheme \<Rightarrow> uuid \<Rightarrow> bool" where
  "missing_user row us s i \<longleftrightarrow> dr_deactivate_missing row \<and> (\<exists>x \<in> set (ldap_identities s).
     li_directory_id x = dr_id row \<and> li_user_id x = i \<and> li_external_id x \<notin> set (seen_ids us))"

lemma missing_user_stale: "dr_deactivate_missing row \<Longrightarrow> missing_user row us s i \<longleftrightarrow> i \<in> set (stale_users s (dr_id row) (seen_ids us))"
  by (auto simp: missing_user_def stale_users_def)

lemma applySnapshot_run:
  obtains counts t v where "applySnapshot row us expand s = (Inr counts, t)" "applied row expand s (seen_users us) v"
    and "org_members t = org_members v" "ldap_identities t = ldap_identities v" "ldap_directories t = ldap_directories v"
    and "ldap_sync_runs t = ldap_sync_runs v" "now t = now v"
    and "\<forall>u \<in> set (users t). if missing_user row us v (u_id u) then u_status u = ''suspended'' else u \<in> set (users v)"
proof -
  let ?c0 = "\<lparr>sc_created = 0, sc_updated = 0, sc_deactivated = 0\<rparr>"
  obtain c v where v: "apply_users row expand us ?c0 s = (Inr c, v)" "applied row expand s (seen_users us) v"
    using apply_users_total[OF applied_refl, of row expand us ?c0 s] by auto
  show ?thesis
  proof (cases "dr_deactivate_missing row")
    case False
    then have "applySnapshot row us expand s = (Inr c, v)" by (simp add: applySnapshot_def bindM_def v(1) returnM_def)
    then show ?thesis by (rule that[OF _ v(2)]) (use False in \<open>simp_all add: missing_user_def\<close>)
  next
    case True
    obtain n t where t: "deactivate (stale_users v (dr_id row) (seen_ids us)) 0 v = (Inr n, t)" "org_members t = org_members v"
      "now t = now v" "ldap_identities t = ldap_identities v" "ldap_directories t = ldap_directories v"
      "ldap_sync_runs t = ldap_sync_runs v"
      "\<forall>u \<in> set (users t). if u_id u \<in> set (stale_users v (dr_id row) (seen_ids us)) then u_status u = ''suspended'' else u \<in> set (users v)"
      using deactivate_run[of "stale_users v (dr_id row) (seen_ids us)" 0 v] by auto
    have "applySnapshot row us expand s = (Inr (c\<lparr>sc_deactivated := n\<rparr>), t)"
      using True by (simp add: applySnapshot_def bindM_def v(1) getsM_def t(1) returnM_def)
    then show ?thesis by (rule that[OF _ v(2)]) (use t in \<open>simp_all add: missing_user_stale[OF True]\<close>)
  qed
qed

lemma linked_user_cong: "ldap_identities t = ldap_identities v \<Longrightarrow> linked_user t = linked_user v"
  by (simp add: linked_user_def fun_eq_iff)

lemma memberRole_cong: "org_members t = org_members v \<Longrightarrow> memberRole t = memberRole v"
  by (simp add: memberRole_def fun_eq_iff)

lemma seen_users_iff: "w \<in> set (seen_users us) \<longleftrightarrow> w \<in> set us \<and> mu_email w \<notin> {None, Some []}"
  by (auto simp: seen_users_def)


text \<open>
  after a run the account of an entry that is in the directory is active, unless the same account
  also has an identity under a name the directory no longer lists and missing entries are
  deactivated; then it is suspended. An entry moved to another place in the tree keeps its
  address and gets a new name, so its account is suspended although the directory lists it.
\<close>

theorem snapshot_sets_status:
  assumes "applySnapshot row us expand s = (Inr counts, t)" "w \<in> set us" "mu_email w \<notin> {None, Some []}"
    and "linked_user t (dr_id row) (mu_externalId w) = Some i" "u \<in> set (users t)" "u_id u = i"
  shows "u_status u = (if dr_deactivate_missing row \<and> (\<exists>x \<in> set (ldap_identities t). li_directory_id x = dr_id row \<and>
      li_user_id x = i \<and> li_external_id x \<notin> set (seen_ids us)) then ''suspended'' else ''active'')"
proof (rule applySnapshot_run[of row us expand s])
  fix c t' v
  assume r: "applySnapshot row us expand s = (Inr c, t')" and a: "applied row expand s (seen_users us) v"
    and m: "ldap_identities t' = ldap_identities v"
    and u: "\<forall>u \<in> set (users t'). if missing_user row us v (u_id u) then u_status u = ''suspended'' else u \<in> set (users v)"
  from r assms(1) have [simp]: "t' = t" by simp
  have w: "w \<in> set (seen_users us)" using assms(2,3) by (simp add: seen_users_iff)
  have "linked_user v (dr_id row) (mu_externalId w) = Some i"
    using assms(4) linked_user_cong[of t v] m by simp
  with a w have "\<forall>u \<in> set (users v). u_id u = i \<longrightarrow> u_status u = ''active''"
    unfolding applied_def by fastforce
  then show ?thesis using u assms(5,6) m by (auto simp: missing_user_def split: if_splits)
qed

section \<open>Runs end\<close>

lemma update_run_found:
  assumes "\<exists>r \<in> set (ldap_sync_runs s). rn_id r = i" "\<And>nw r. rn_id (f nw r) = rn_id r"
  shows "\<exists>r. update_run i f s = (Inr (f (now s) r),
    s\<lparr>ldap_sync_runs := map (\<lambda>r. if rn_id r = i then f (now s) r else r) (ldap_sync_runs s)\<rparr>)"
proof -
  let ?g = "\<lambda>r. if rn_id r = i then f (now s) r else r"
  from find_hit[OF assms(1)] obtain r where r: "find (\<lambda>r. rn_id r = i) (ldap_sync_runs s) = Some r" by blast
  have "find (\<lambda>r. rn_id r = i) (map ?g (ldap_sync_runs s)) = map_option ?g (find (\<lambda>r. rn_id r = i) (ldap_sync_runs s))"
    by (rule find_map_frame) (simp add: assms(2))
  also have "\<dots> = Some (f (now s) r)" using r by (auto dest: find_SomeD)
  finally show ?thesis by (auto simp: update_run_def thenM_modifyM bindM_getsM someM_def returnM_def)
qed

lemma finish_run_simps [simp]:
  "rn_id (finish_run c nw r) = rn_id r" "rn_status (finish_run c nw r) = Run_ok" "rn_finished_at (finish_run c nw r) = Some nw"
  "rn_id (fail_run m nw r) = rn_id r" "rn_status (fail_run m nw r) = Run_error" "rn_finished_at (fail_run m nw r) = Some nw"
  "rn_error (fail_run m nw r) = Some (take 2000 m)"
  by (simp_all add: finish_run_def fail_run_def)

text \<open>
  C19: a synchronisation always ends with a finished run. When the directory can be read the run is
  recorded as successful; when it cannot, for whatever reason, the run is recorded as failed with the message
  cut to 2000 characters, and no account and no role has changed.
\<close>

theorem runSync_finishes:
  assumes "dr_id row \<in> dr_id ` set (ldap_directories s)"
  shows "\<exists>r t. runSync env row s = (Inr r, t) \<and> rn_finished_at r = Some (now s) \<and>
    (case read_directory env row of
       Inr snap \<Rightarrow> rn_status r = Run_ok
     | Inl msg \<Rightarrow> rn_status r = Run_error \<and> rn_error r = Some (take 2000 msg) \<and> users t = users s \<and> org_members t = org_members s)"
proof -
  obtain run s1 where ins: "insert_run (dr_id row) s = (Inr run, s1)" and run: "run \<in> set (ldap_sync_runs s1)"
    and s1: "now s1 = now s" "users s1 = users s" "org_members s1 = org_members s"
    using assms by (auto simp: insert_run_def Let_def)
  show ?thesis
  proof (cases "read_directory env row")
    case (Inl msg)
    obtain r where "update_run (rn_id run) (fail_run msg) s1 = (Inr (fail_run msg (now s1) r),
        s1\<lparr>ldap_sync_runs := map (\<lambda>r. if rn_id r = rn_id run then fail_run msg (now s1) r else r) (ldap_sync_runs s1)\<rparr>)"
      using update_run_found[of s1 "rn_id run" "fail_run msg"] run by auto
    with Inl s1 show ?thesis by (simp add: runSync_def bindM_def ins)
  next
    case (Inr snap)
    show ?thesis
    proof (rule applySnapshot_run[of row "sn_users snap" "\<lambda>gs. expandGroups gs (sn_groupParents snap)" s1])
      fix counts t v
      assume a: "applySnapshot row (sn_users snap) (\<lambda>gs. expandGroups gs (sn_groupParents snap)) s1 = (Inr counts, t)"
        and ap: "applied row (\<lambda>gs. expandGroups gs (sn_groupParents snap)) s1 (seen_users (sn_users snap)) v"
        and t: "ldap_sync_runs t = ldap_sync_runs v" "now t = now v"
      from ap t have "ldap_sync_runs t = ldap_sync_runs s1" "now t = now s" using s1 by (simp_all add: applied_def)
      then obtain r u where "update_run (rn_id run) (finish_run counts) t = (Inr (finish_run counts (now s) r), u)"
        using update_run_found[of t "rn_id run" "finish_run counts"] run by auto
      with Inr a show ?thesis by (simp add: runSync_def bindM_def ins catchM_def thenM_modifyM returnM_def)
    qed
  qed
qed

section \<open>A concrete directory\<close>

definition demo_dir :: directory_row where
  "demo_dir = \<lparr>dr_id = 30, dr_org_id = 20, dr_name = ''x'', dr_enabled = True, dr_host = ''ldap.x.io'', dr_port = 389,
     dr_encryption = Enc_starttls, dr_verify_tls = True, dr_bind_dn = ''cn=svc'', dr_bind_password_enc = None, dr_base_dn = ''dc=x'',
     dr_user_filter = ''(u)'', dr_group_filter = Some ''(g)'', dr_email_attribute = ''mail'', dr_name_attribute = ''cn'',
     dr_uid_attribute = ''uid'', dr_member_attribute = ''memberof'', dr_group_role_map = [(''cn=staff'', Viewer)],
     dr_default_role = Member, dr_deactivate_missing = True, dr_sync_interval_minutes = 60, dr_last_synced_at = None,
     dr_created_by = None, dr_created_at = 0, dr_updated_at = 0\<rparr>"

definition dir_acme :: ldap_db where
  "dir_acme = db.extend acme (ldap_db.fields [demo_dir]
     [\<lparr>li_directory_id = 30, li_external_id = ''cn=alice,ou=a'', li_user_id = 11, li_last_seen_at = 0, li_created_at = 0\<rparr>] [])"

definition moved_alice :: mapped_user where
  "moved_alice = \<lparr>mu_externalId = ''cn=alice,ou=b'', mu_email = Some ''alice@x.io'', mu_name = None, mu_uid = None,
     mu_groups = [''cn=ops'']\<rparr>"

definition dir_env :: ldap_env where
  "dir_env = \<lparr>lv_seal = id, lv_open = Inr, lv_utf8 = (\<lambda>_. []), lv_net = (\<lambda>_. demo_server), lv_message = (\<lambda>_. [])\<rparr>"

lemma dir_acme_eval:
  "ldap_directories dir_acme = [demo_dir]" "users dir_acme = [alice, bob]" "now dir_acme = 0"
  "org_members dir_acme = [\<lparr>m_org_id = 20, m_user_id = 11, m_role = Owner, m_created_at = 0\<rparr>]"
  "ldap_identities dir_acme =
     [\<lparr>li_directory_id = 30, li_external_id = ''cn=alice,ou=a'', li_user_id = 11, li_last_seen_at = 0, li_created_at = 0\<rparr>]"
  "dr_id demo_dir = 30" "dr_org_id demo_dir = 20" "dr_deactivate_missing demo_dir"
  by (simp_all add: dir_acme_def db.defs ldap_db.defs acme_eval demo_dir_def)

lemma moved_alice_run:
  "\<exists>c. applySnapshot demo_dir [moved_alice] id dir_acme = (Inr c, dir_acme
     \<lparr>users := [alice\<lparr>u_status := ''suspended''\<rparr>, bob],
      org_members := [\<lparr>m_org_id = 20, m_user_id = 11, m_role = Member, m_created_at = 0\<rparr>],
      ldap_identities := ldap_identities dir_acme @ [\<lparr>li_directory_id = 30, li_external_id = ''cn=alice,ou=b'', li_user_id = 11,
        li_last_seen_at = 0, li_created_at = 0\<rparr>]\<rparr>)"
  by (simp add: applySnapshot_def moved_alice_def sync_user_def linked_user_def tx_def bindM_def getsM_def returnM_def thenM_def
      modifyM_def find_or_insert_run activate_user_def upsert_role_def upsert_identity_def stale_users_def seen_ids_def
      suspend_user_def str_or_empty_def ci_eq_def resolveRole_def better_role_def normalizedMap_def normalizeDn_def
      toLowerCase_def js_lower_def trim_def trimStart_def trimEnd_def js_space_def dir_acme_eval demo_dir_def alice_def bob_def)

theorem snapshot_sets_status_witness:
  "\<exists>c t u. applySnapshot demo_dir [moved_alice] id dir_acme = (Inr c, t) \<and> u \<in> set (users t) \<and> u_email u = ''alice@x.io'' \<and>
     linked_user t 30 ''cn=alice,ou=b'' = Some (u_id u) \<and> u_status u = ''suspended''"
proof -
  obtain c t where r: "applySnapshot demo_dir [moved_alice] id dir_acme = (Inr c, t)"
    and t: "users t = [alice\<lparr>u_status := ''suspended''\<rparr>, bob]"
      "ldap_identities t = [\<lparr>li_directory_id = 30, li_external_id = ''cn=alice,ou=a'', li_user_id = 11, li_last_seen_at = 0,
         li_created_at = 0\<rparr>, \<lparr>li_directory_id = 30, li_external_id = ''cn=alice,ou=b'', li_user_id = 11, li_last_seen_at = 0,
         li_created_at = 0\<rparr>]"
    using moved_alice_run by (auto simp: dir_acme_eval)
  have l: "linked_user t (dr_id demo_dir) (mu_externalId moved_alice) = Some 11"
    by (simp add: linked_user_def t dir_acme_eval moved_alice_def)
  have "u_status (hd (users t)) = ''suspended''"
    using snapshot_sets_status[OF r _ _ l, of "hd (users t)"]
    by (simp add: t dir_acme_eval moved_alice_def alice_def seen_ids_def)
  with r l show ?thesis
    by (intro exI[of _ c] exI[of _ t] exI[of _ "hd (users t)"]) (simp add: t dir_acme_eval moved_alice_def alice_def)
qed


text \<open>A synchronisation can take the last owner from an organization: the only owner is given the role the directory maps.\<close>

lemma sync_takes_last_owner:
  "has_owner dir_acme 20 \<and> \<not> has_owner (snd (applySnapshot demo_dir [moved_alice] id dir_acme)) 20"
  using moved_alice_run by (auto simp: has_owner_def dir_acme_eval)

theorem runSync_finishes_witness:
  "\<exists>r t. runSync dir_env demo_dir dir_acme = (Inr r, t) \<and> rn_finished_at r = Some 0 \<and> rn_status r = Run_ok"
proof -
  have "connConfig dir_env demo_dir = Inr (demo_conn\<lparr>lc_bindPassword := []\<rparr>)"
    by (simp add: connConfig_def demo_dir_def demo_conn_def Let_def)
  then have "\<exists>snap. read_directory dir_env demo_dir = Inr snap"
    by (simp add: read_directory_def dir_env_def fetchDirectory_def withBoundClient_def then_cmd_def search_cmd_def
        searchGroupParents_def Let_def demo_ldap)
  then show ?thesis
    using runSync_finishes[of demo_dir dir_acme dir_env] by (auto simp: dir_acme_eval)
qed

end
