(* ===== verification/JM_Scim.thy ===== *)
theory JM_Scim
  imports JM_Ldap
begin

text \<open>
  \<open>ScimService\<close> (\<open>apps/api/src/scim/scim.service.ts\<close>): the SCIM configuration of an organization and
  its bearer token, and the provisioning of users and groups by an identity provider. The four tables of
  migration \<open>0011_scim.sql\<close> extend the database; their unique indexes reject a write with
  SQLSTATE 23505.

  User and group bodies have the types the interfaces \<open>ScimUser\<close> and \<open>ScimGroup\<close> declare; the value of a
  patch operation is any JSON value, as the code inspects it. Page parameters are integers.
  SHA-256, and how the database reads and prints identifiers, are parameters.
\<close>

section \<open>Tables and messages\<close>

record scim_config_row =
  fc_org_id :: uuid
  fc_enabled :: bool
  fc_token_hash :: "string option"
  fc_token_prefix :: "string option"
  fc_default_role :: org_role
  fc_group_role_map :: "(string \<times> org_role) list"
  fc_deactivate :: bool
  fc_last_request_at :: "timestamp option"
  fc_created_at :: timestamp
  fc_updated_at :: timestamp

record scim_name =
  nm_formatted :: "string option"
  nm_givenName :: "string option"
  nm_familyName :: "string option"

record scim_raw =
  rw_name :: "scim_name option"
  rw_displayName :: "string option"

record scim_user_row =
  fu_id :: uuid
  fu_org_id :: uuid
  fu_user_id :: uuid
  fu_external_id :: "string option"
  fu_user_name :: string
  fu_active :: bool
  fu_raw :: scim_raw
  fu_created_at :: timestamp
  fu_updated_at :: timestamp

record scim_group_row =
  fg_id :: uuid
  fg_org_id :: uuid
  fg_external_id :: "string option"
  fg_display_name :: string
  fg_created_at :: timestamp
  fg_updated_at :: timestamp

record scim_db = db +
  scim_configs :: "scim_config_row list"
  scim_users :: "scim_user_row list"
  scim_groups :: "scim_group_row list"
  scim_group_members :: "(uuid \<times> uuid) list"

record scim_env =
  se_sha256 :: "string \<Rightarrow> string"
  se_uuid_of :: "string \<Rightarrow> uuid"
  se_uuid_text :: "uuid \<Rightarrow> string"
  se_JM_API_HOST :: "string option"
  se_SSO_CALLBACK_BASE_URL :: "string option"

record scim_context =
  cx_orgId :: uuid
  cx_config :: scim_config_row

record scim_email =
  em_value :: string
  em_primary :: bool

record scim_user =
  sb_externalId :: "string option"
  sb_userName :: "string option"
  sb_name :: "scim_name option"
  sb_displayName :: "string option"
  sb_emails :: "scim_email list"
  sb_active :: "bool option"

record scim_group =
  gb_externalId :: "string option"
  gb_displayName :: "string option"
  gb_members :: "string list"

record patch_op =
  po_op :: string
  po_path :: "string option"
  po_value :: "json option"

record list_params =
  lp_filter :: "string option"
  lp_startIndex :: "int option"
  lp_count :: "int option"

record scim_meta =
  mt_resourceType :: string
  mt_created :: timestamp
  mt_lastModified :: timestamp
  mt_location :: string

record scim_user_out =
  uo_id :: uuid
  uo_externalId :: "string option"
  uo_userName :: string
  uo_name :: "scim_name option"
  uo_displayName :: "string option"
  uo_emails :: "(string \<times> bool) list"
  uo_active :: bool
  uo_meta :: scim_meta

record scim_group_out =
  go_id :: uuid
  go_externalId :: "string option"
  go_displayName :: string
  go_members :: "(uuid \<times> string) list"
  go_meta :: scim_meta

record 'a list_response =
  lr_totalResults :: nat
  lr_startIndex :: int
  lr_itemsPerPage :: nat
  lr_Resources :: "'a list"

record scim_config_request =
  cr_enabled :: bool
  cr_default_role :: org_role
  cr_group_role_map :: "(string \<times> org_role) list"
  cr_deactivate :: bool

record scim_config =
  sf_org_id :: uuid
  sf_enabled :: bool
  sf_base_url :: string
  sf_has_token :: bool
  sf_token_prefix :: "string option"
  sf_default_role :: org_role
  sf_group_role_map :: "(string \<times> org_role) list"
  sf_deactivate :: bool
  sf_last_request_at :: "timestamp option"
  sf_user_count :: nat
  sf_created_at :: timestamp
  sf_updated_at :: timestamp

record scim_token_result =
  tr_token :: string
  tr_base_url :: string

section \<open>Pure helpers\<close>

definition truthy :: "string option \<Rightarrow> string option" where
  "truthy x = (if x = Some [] then None else x)"

definition is_hex :: "char \<Rightarrow> bool" where
  "is_hex c = (is_digit c \<or> (let n = of_char c :: nat in 97 \<le> n \<and> n \<le> 102 \<or> 65 \<le> n \<and> n \<le> 70))"

text \<open>The five groups of 8, 4, 4, 4 and 12 hexadecimal digits, separated by dashes.\<close>

definition isUuid :: "string \<Rightarrow> bool" where
  "isUuid v = (let gs = split_on CHR ''-'' v in map length gs = [8, 4, 4, 4, 12] \<and> list_all (list_all is_hex) gs)"

definition primaryEmail :: "scim_user \<Rightarrow> string option" where
  "primaryEmail body =
     (let emails = sb_emails body;
          primary = (case find em_primary emails of Some e \<Rightarrow> Some e | None \<Rightarrow> (case emails of [] \<Rightarrow> None | e # _ \<Rightarrow> Some e))
      in map_option toLowerCase (truthy (map_option em_value primary)))"

definition displayNameOf :: "scim_user \<Rightarrow> string" where
  "displayNameOf body =
     (case truthy (sb_displayName body) of
        Some d \<Rightarrow> d
      | None \<Rightarrow> (case sb_name body of
            None \<Rightarrow> []
          | Some n \<Rightarrow> (case truthy (nm_formatted n) of
                Some f \<Rightarrow> f
              | None \<Rightarrow> join '' '' (List.map_filter truthy [nm_givenName n, nm_familyName n]))))"

definition rawOf :: "scim_user \<Rightarrow> scim_raw" where
  "rawOf body = \<lparr>rw_name = sb_name body, rw_displayName = truthy (Some (displayNameOf body))\<rparr>"

definition toBool :: "json option \<Rightarrow> bool" where
  "toBool v = (case v of Some (JBool b) \<Rightarrow> b | Some (JStr t) \<Rightarrow> toLowerCase t = ''true'' | _ \<Rightarrow> False)"

definition word_char :: "char \<Rightarrow> bool" where
  "word_char c = (is_digit c \<or> c = CHR ''_'' \<or> (let n = of_char c :: nat in 97 \<le> n \<and> n \<le> 122 \<or> 65 \<le> n \<and> n \<le> 90))"

text \<open>
  The regular expressions of the filter are read from left to right; at every point the character
  classes of the two possible continuations are disjoint, so no choice is ever taken back.
  \<open>eq_clause\<close> reads white space, \<open>eq\<close> in any case, white space and a quoted value, and returns the
  value and what follows it.
\<close>

definition spaces1 :: "string \<Rightarrow> string option" where
  "spaces1 s = (case s of c # cs \<Rightarrow> if js_space c then Some (dropWhile js_space cs) else None | [] \<Rightarrow> None)"

definition quoted :: "string \<Rightarrow> (string \<times> string) option" where
  "quoted s = (case s of
       c # cs \<Rightarrow> if c = CHR 0x22 then
           (case dropWhile (\<lambda>x. x \<noteq> CHR 0x22) cs of [] \<Rightarrow> None | _ # rest \<Rightarrow> Some (takeWhile (\<lambda>x. x \<noteq> CHR 0x22) cs, rest))
         else None
     | [] \<Rightarrow> None)"

definition eq_clause :: "string \<Rightarrow> (string \<times> string) option" where
  "eq_clause s = Option.bind (spaces1 s) (\<lambda>r.
     if toLowerCase (take 2 r) = ''eq'' then Option.bind (spaces1 (drop 2 r)) quoted else None)"

definition parseEqFilter :: "string option \<Rightarrow> (string \<times> string) option" where
  "parseEqFilter flt = Option.bind (truthy flt) (\<lambda>f.
     let r = dropWhile js_space f; attr = takeWhile word_char r in
     if attr = [] then None
     else Option.bind (eq_clause (dropWhile word_char r)) (\<lambda>(value, rest).
       if list_all js_space rest then Some (attr, value) else None))"

text \<open>\<open>String(v)\<close>.\<close>

fun js_string :: "json \<Rightarrow> string" where
  "js_string JNull = ''null''"
| "js_string (JBool b) = (if b then ''true'' else ''false'')"
| "js_string (JNum n) = show_int n"
| "js_string (JStr t) = t"
| "js_string (JArr vs) = join '','' (map (\<lambda>v. if v = JNull then [] else js_string v) vs)"
| "js_string (JObj kvs) = ''[object Object]''"

fun js_truthy :: "json \<Rightarrow> bool" where
  "js_truthy JNull = False"
| "js_truthy (JBool b) = b"
| "js_truthy (JNum n) = (n \<noteq> 0)"
| "js_truthy (JStr t) = (t \<noteq> [])"
| "js_truthy _ = True"

definition value_of :: "json \<Rightarrow> string \<Rightarrow> json option" where
  "value_of v k = (case v of JObj kvs \<Rightarrow> map_of kvs k | _ \<Rightarrow> None)"

definition member_string :: "json \<Rightarrow> string" where
  "member_string v =
     (case v of
        JObj kvs \<Rightarrow> (case map_of kvs ''value'' of None \<Rightarrow> [] | Some JNull \<Rightarrow> [] | Some x \<Rightarrow> js_string x)
      | JArr vs \<Rightarrow> []
      | _ \<Rightarrow> js_string v)"

definition memberValues :: "json option \<Rightarrow> string list" where
  "memberValues value =
     (case value of
        Some (JArr vs) \<Rightarrow> filter (\<lambda>t. t \<noteq> []) (map member_string vs)
      | Some (JObj kvs) \<Rightarrow>
          (case map_of kvs ''value'' of Some v \<Rightarrow> if js_truthy v then [js_string v] else [] | None \<Rightarrow> [])
      | _ \<Rightarrow> [])"

definition member_filter_at :: "string \<Rightarrow> string option" where
  "member_filter_at s =
     (if toLowerCase (take 8 s) \<noteq> ''members['' then None
      else let r = dropWhile js_space (drop 8 s) in
        if toLowerCase (take 5 r) \<noteq> ''value'' then None
        else Option.bind (eq_clause (drop 5 r)) (\<lambda>(v, rest).
          if v \<noteq> [] \<and> (case dropWhile js_space rest of c # _ \<Rightarrow> c = CHR '']'' | [] \<Rightarrow> False) then Some v else None))"

fun search_filter :: "string \<Rightarrow> string option" where
  "search_filter [] = None"
| "search_filter (c # cs) = (case member_filter_at (c # cs) of Some v \<Rightarrow> Some v | None \<Rightarrow> search_filter cs)"

definition memberFromPath :: "string option \<Rightarrow> string list option" where
  "memberFromPath path = Option.bind (truthy path) (\<lambda>p. map_option (\<lambda>v. [v]) (search_filter p))"

definition str_value :: "json option \<Rightarrow> string option" where
  "str_value v = (case v of Some (JStr t) \<Rightarrow> Some t | _ \<Rightarrow> None)"

definition no_path :: "patch_op \<Rightarrow> bool" where
  "no_path op = (truthy (po_path op) = None)"

definition lower_path :: "patch_op \<Rightarrow> string" where
  "lower_path op = toLowerCase (str_or_empty (po_path op))"

definition valueDisplayName :: "patch_op \<Rightarrow> string option" where
  "valueDisplayName op =
     (if \<not> no_path op \<and> lower_path op = ''displayname'' then str_value (po_value op)
      else if no_path op then Option.bind (po_value op) (\<lambda>v. str_value (value_of v ''displayName''))
      else None)"

definition js_slice :: "'a list \<Rightarrow> int \<Rightarrow> int \<Rightarrow> 'a list" where
  "js_slice xs a b =
     (let n = int (length xs); clamp = (\<lambda>i. if i < 0 then max (n + i) 0 else min i n)
      in take (nat (clamp b - clamp a)) (drop (nat (clamp a)) xs))"

definition listResponse :: "'a list \<Rightarrow> list_params \<Rightarrow> 'a list_response" where
  "listResponse resources params =
     (let startIndex = max 1 (case lp_startIndex params of None \<Rightarrow> 1 | Some i \<Rightarrow> i);
          count = (case lp_count params of None \<Rightarrow> int (length resources) | Some c \<Rightarrow> c);
          page = js_slice resources (startIndex - 1) (startIndex - 1 + count)
      in \<lparr>lr_totalResults = length resources, lr_startIndex = startIndex, lr_itemsPerPage = length page, lr_Resources = page\<rparr>)"

section \<open>Configuration and token\<close>

definition apiBase :: "scim_env \<Rightarrow> string" where
  "apiBase env =
     (let base = (case truthy (se_JM_API_HOST env) of
          Some h \<Rightarrow> ''https://'' @ h
        | None \<Rightarrow> (case se_SSO_CALLBACK_BASE_URL env of Some u \<Rightarrow> u | None \<Rightarrow> ''http://localhost:3000''))
      in if base \<noteq> [] \<and> last base = CHR ''/'' then butlast base else base)"

definition baseUrl :: "scim_env \<Rightarrow> uuid \<Rightarrow> string" where
  "baseUrl env orgId = apiBase env @ ''/v1/scim/v2/'' @ se_uuid_text env orgId"

definition toConfig :: "scim_env \<Rightarrow> scim_config_row \<Rightarrow> scim_config" where
  "toConfig env r = \<lparr>sf_org_id = fc_org_id r, sf_enabled = fc_enabled r, sf_base_url = baseUrl env (fc_org_id r),
     sf_has_token = (fc_token_hash r \<noteq> None), sf_token_prefix = fc_token_prefix r, sf_default_role = fc_default_role r,
     sf_group_role_map = fc_group_role_map r, sf_deactivate = fc_deactivate r, sf_last_request_at = fc_last_request_at r,
     sf_user_count = 0, sf_created_at = fc_created_at r, sf_updated_at = fc_updated_at r\<rparr>"

definition find_config :: "uuid \<Rightarrow> 'z scim_db_scheme \<Rightarrow> scim_config_row option" where
  "find_config orgId s = find (\<lambda>r. fc_org_id r = orgId) (scim_configs s)"

definition upd_config :: "uuid \<Rightarrow> (timestamp \<Rightarrow> scim_config_row \<Rightarrow> scim_config_row) \<Rightarrow> 'z scim_db_scheme \<Rightarrow> 'z scim_db_scheme" where
  "upd_config orgId f s = s\<lparr>scim_configs := map (\<lambda>r. if fc_org_id r = orgId then f (now s) r else r) (scim_configs s)\<rparr>"

definition default_config :: "uuid \<Rightarrow> timestamp \<Rightarrow> scim_config_row" where
  "default_config orgId nw = \<lparr>fc_org_id = orgId, fc_enabled = True, fc_token_hash = None, fc_token_prefix = None,
     fc_default_role = Member, fc_group_role_map = [], fc_deactivate = True, fc_last_request_at = None,
     fc_created_at = nw, fc_updated_at = nw\<rparr>"

definition ensureConfig :: "uuid \<Rightarrow> ('z scim_db_scheme, scim_config_row) svc" where
  "ensureConfig orgId = (\<lambda>s.
     case find_config orgId s of
       Some r \<Rightarrow> (Inr r, s)
     | None \<Rightarrow> (Inr (default_config orgId (now s)), s\<lparr>scim_configs := scim_configs s @ [default_config orgId (now s)]\<rparr>))"

definition scim_getConfig :: "scim_env \<Rightarrow> uuid \<Rightarrow> uuid \<Rightarrow> ('z scim_db_scheme, scim_config) svc" where
  "scim_getConfig env orgId userId =
     thenM (requireRole orgId userId Admin)
     (bindM (ensureConfig orgId) (\<lambda>row. returnM (toConfig env row)))"

definition scim_updateConfig ::
  "scim_env \<Rightarrow> principal \<Rightarrow> uuid \<Rightarrow> scim_config_request \<Rightarrow> string option \<Rightarrow> ('z scim_db_scheme, scim_config) svc" where
  "scim_updateConfig env p orgId req ip =
     thenM (requireRole orgId (p_user_id p) Admin)
     (thenM (ensureConfig orgId)
     (thenM (modifyM (upd_config orgId (\<lambda>nw r. r\<lparr>fc_enabled := cr_enabled req, fc_default_role := cr_default_role req,
               fc_group_role_map := cr_group_role_map req, fc_deactivate := cr_deactivate req, fc_updated_at := nw\<rparr>)))
     (bindM (getsM (find_config orgId)) (\<lambda>row.
      thenM (audit_log (user_entry (Some orgId) p ''scim.config.update'' ''scim_config'' orgId ip []))
     (bindM (someM row (HttpException 500 ''Error'' None)) (\<lambda>r. returnM (toConfig env r)))))))"

text \<open>The random part of the token is an argument.\<close>

definition generateToken ::
  "scim_env \<Rightarrow> string \<Rightarrow> principal \<Rightarrow> uuid \<Rightarrow> string option \<Rightarrow> ('z scim_db_scheme, scim_token_result) svc" where
  "generateToken env rnd p orgId ip =
     thenM (requireRole orgId (p_user_id p) Admin)
     (thenM (ensureConfig orgId)
     (let token = ''scim_'' @ rnd in
      thenM (modifyM (upd_config orgId (\<lambda>nw r. r\<lparr>fc_token_hash := Some (se_sha256 env token),
               fc_token_prefix := Some (take 12 token), fc_updated_at := nw\<rparr>)))
     (thenM (audit_log (user_entry (Some orgId) p ''scim.token.rotate'' ''scim_config'' orgId ip []))
     (returnM \<lparr>tr_token = token, tr_base_url = baseUrl env orgId\<rparr>))))"

definition revokeToken :: "principal \<Rightarrow> uuid \<Rightarrow> string option \<Rightarrow> ('z scim_db_scheme, unit) svc" where
  "revokeToken p orgId ip =
     thenM (requireRole orgId (p_user_id p) Admin)
     (thenM (modifyM (upd_config orgId (\<lambda>nw r. r\<lparr>fc_token_hash := None, fc_token_prefix := None, fc_updated_at := nw\<rparr>)))
     (audit_log (user_entry (Some orgId) p ''scim.token.revoke'' ''scim_config'' orgId ip [])))"

definition userCount :: "uuid \<Rightarrow> ('z scim_db_scheme, nat) svc" where
  "userCount orgId = getsM (\<lambda>s. length (filter (\<lambda>r. fu_org_id r = orgId) (scim_users s)))"

definition authenticate :: "scim_env \<Rightarrow> uuid \<Rightarrow> string \<Rightarrow> ('z scim_db_scheme, scim_context) svc" where
  "authenticate env orgId token =
     bindM (getsM (find_config orgId)) (\<lambda>row.
     case row of
       None \<Rightarrow> throwM (UnauthorizedException ''SCIM not enabled'' None)
     | Some cfg \<Rightarrow>
         (case truthy (fc_token_hash cfg) of
            None \<Rightarrow> throwM (UnauthorizedException ''SCIM not enabled'' None)
          | Some h \<Rightarrow>
              thenM (throwIf (\<not> fc_enabled cfg) (UnauthorizedException ''SCIM not enabled'' None))
             (let provided = se_sha256 env token in
              thenM (throwIf (length provided \<noteq> length h \<or> h \<noteq> provided) (UnauthorizedException ''Invalid SCIM token'' None))
             (thenM (modifyM (upd_config orgId (\<lambda>nw r. r\<lparr>fc_last_request_at := Some nw\<rparr>)))
             (returnM \<lparr>cx_orgId = orgId, cx_config = cfg\<rparr>)))))"

section \<open>Users\<close>

definition toUser :: "scim_env \<Rightarrow> scim_context \<Rightarrow> scim_user_row \<Rightarrow> scim_user_out" where
  "toUser env ctx r = \<lparr>uo_id = fu_id r, uo_externalId = truthy (fu_external_id r), uo_userName = fu_user_name r,
     uo_name = rw_name (fu_raw r), uo_displayName = truthy (rw_displayName (fu_raw r)), uo_emails = [(fu_user_name r, True)],
     uo_active = fu_active r, uo_meta = \<lparr>mt_resourceType = ''User'', mt_created = fu_created_at r,
       mt_lastModified = fu_updated_at r, mt_location = baseUrl env (cx_orgId ctx) @ ''/Users/'' @ se_uuid_text env (fu_id r)\<rparr>\<rparr>"

definition user_matches :: "(string \<times> string) option \<Rightarrow> scim_user_row \<Rightarrow> bool" where
  "user_matches flt r =
     (case flt of
        None \<Rightarrow> True
      | Some (attr, v) \<Rightarrow>
          if attr = ''userName'' then toLowerCase (fu_user_name r) = toLowerCase v
          else if attr = ''externalId'' then fu_external_id r = Some v
          else True)"

definition scim_listUsers :: "scim_env \<Rightarrow> scim_context \<Rightarrow> list_params \<Rightarrow> ('z scim_db_scheme, scim_user_out list_response) svc" where
  "scim_listUsers env ctx params = getsM (\<lambda>s.
     listResponse (map (toUser env ctx) (sort_key fu_created_at
       (filter (\<lambda>r. fu_org_id r = cx_orgId ctx \<and> user_matches (parseEqFilter (lp_filter params)) r) (scim_users s)))) params)"

definition scim_loadUser :: "scim_env \<Rightarrow> scim_context \<Rightarrow> string \<Rightarrow> ('z scim_db_scheme, scim_user_row) svc" where
  "scim_loadUser env ctx i =
     thenM (throwIf (\<not> isUuid i) (NotFoundException ''User not found'' None))
     (bindM (getsM (\<lambda>s. find (\<lambda>r. fu_id r = se_uuid_of env i \<and> fu_org_id r = cx_orgId ctx) (scim_users s))) (\<lambda>row.
      someM row (NotFoundException ''User not found'' None)))"

definition scim_getUser :: "scim_env \<Rightarrow> scim_context \<Rightarrow> string \<Rightarrow> ('z scim_db_scheme, scim_user_out) svc" where
  "scim_getUser env ctx i = bindM (scim_loadUser env ctx i) (\<lambda>r. returnM (toUser env ctx r))"

definition resolveLocalUser :: "string \<Rightarrow> string \<Rightarrow> ('z db_scheme, uuid) svc" where
  "resolveLocalUser email displayName = bindM (find_or_insert email displayName) (\<lambda>(i, _). returnM i)"

text \<open>\<open>INSERT INTO org_members ... ON CONFLICT DO NOTHING\<close>.\<close>

definition insert_member_new :: "uuid \<Rightarrow> uuid \<Rightarrow> org_role \<Rightarrow> 'z db_scheme \<Rightarrow> 'z db_scheme" where
  "insert_member_new orgId userId role s =
     (if \<exists>m \<in> set (org_members s). m_org_id m = orgId \<and> m_user_id m = userId then s
      else s\<lparr>org_members := org_members s @ [\<lparr>m_org_id = orgId, m_user_id = userId, m_role = role, m_created_at = now s\<rparr>]\<rparr>)"

definition insert_scim_user ::
  "uuid \<Rightarrow> uuid \<Rightarrow> string option \<Rightarrow> string \<Rightarrow> bool \<Rightarrow> scim_raw \<Rightarrow> ('z scim_db_scheme, scim_user_row) svc" where
  "insert_scim_user orgId userId ext name active raw = (\<lambda>s.
     if \<exists>r \<in> set (scim_users s). fu_org_id r = orgId \<and> (fu_user_id r = userId \<or> toLowerCase (fu_user_name r) = toLowerCase name)
     then (Inl (DbError ''23505''), s)
     else let r = \<lparr>fu_id = next_id s, fu_org_id = orgId, fu_user_id = userId, fu_external_id = ext, fu_user_name = name,
                   fu_active = active, fu_raw = raw, fu_created_at = now s, fu_updated_at = now s\<rparr>
          in (Inr r, s\<lparr>scim_users := scim_users s @ [r], next_id := next_id s + 1\<rparr>))"

definition set_status :: "uuid \<Rightarrow> string \<Rightarrow> (user_row \<Rightarrow> bool) \<Rightarrow> (timestamp \<Rightarrow> user_row \<Rightarrow> user_row) \<Rightarrow> 'z db_scheme \<Rightarrow> 'z db_scheme" where
  "set_status userId status P f s = s\<lparr>users := map (\<lambda>u. if u_id u = userId \<and> P u
     then f (now s) (u\<lparr>u_status := status\<rparr>) else u) (users s)\<rparr>"

definition applyActive :: "uuid \<Rightarrow> bool \<Rightarrow> 'z db_scheme \<Rightarrow> 'z db_scheme" where
  "applyActive userId active s =
     (if active then set_status userId ''active'' (\<lambda>u. u_status u = ''suspended'') (\<lambda>nw u. u\<lparr>u_updated_at := nw\<rparr>) s
      else set_status userId ''suspended'' (\<lambda>u. True) (\<lambda>nw u. u\<lparr>u_updated_at := nw\<rparr>) s)"

definition scim_entry :: "uuid \<Rightarrow> string \<Rightarrow> uuid \<Rightarrow> (string \<times> json) list \<Rightarrow> audit_entry" where
  "scim_entry orgId action target meta = \<lparr>a_org_id = Some orgId, a_actor_type = ActorSystem, a_actor_id = None, a_action = action,
     a_target_type = Some ''user'', a_target_id = Some target, a_ip = None, a_meta = meta\<rparr>"

definition scim_createUser :: "scim_env \<Rightarrow> scim_context \<Rightarrow> scim_user \<Rightarrow> ('z scim_db_scheme, scim_user_out) svc" where
  "scim_createUser env ctx body =
     (let userName = trim (str_or_empty (sb_userName body));
          email = (case primaryEmail body of Some e \<Rightarrow> e | None \<Rightarrow> userName);
          active = (case sb_active body of None \<Rightarrow> True | Some b \<Rightarrow> b);
          displayName = displayNameOf body in
      thenM (throwIf (userName = [] \<or> CHR ''@'' \<notin> set email) (ConflictException ''userName must be an email'' None))
     (bindM (getsM (\<lambda>s. \<exists>r \<in> set (scim_users s). fu_org_id r = cx_orgId ctx \<and>
                toLowerCase (fu_user_name r) = toLowerCase userName)) (\<lambda>dup.
      thenM (throwIf dup (ConflictException ''User already exists'' None))
     (bindM (tx (bindM (resolveLocalUser email displayName) (\<lambda>userId.
                 thenM (modifyM (insert_member_new (cx_orgId ctx) userId (fc_default_role (cx_config ctx))))
                (bindM (insert_scim_user (cx_orgId ctx) userId (sb_externalId body) userName active (rawOf body)) (\<lambda>row.
                 thenM (if active then returnM ()
                        else modifyM (set_status userId ''suspended'' (\<lambda>u. True) (\<lambda>nw u. u)))
                (returnM row)))))) (\<lambda>row.
      thenM (audit_log (scim_entry (cx_orgId ctx) ''scim.user.create'' (fu_user_id row) [(''userName'', JStr userName)]))
     (returnM (toUser env ctx row)))))))"

text \<open>\<open>UPDATE scim_users SET ... WHERE id = $1 RETURNING *\<close> under the unique index on the name.\<close>

definition upd_scim_user ::
  "uuid \<Rightarrow> string \<Rightarrow> (timestamp \<Rightarrow> scim_user_row \<Rightarrow> scim_user_row) \<Rightarrow> ('z scim_db_scheme, scim_user_row) svc" where
  "upd_scim_user i name f = (\<lambda>s.
     case find (\<lambda>r. fu_id r = i) (scim_users s) of
       None \<Rightarrow> (Inl (HttpException 500 ''Error'' None), s)
     | Some r \<Rightarrow>
         if \<exists>x \<in> set (scim_users s). fu_id x \<noteq> i \<and> fu_org_id x = fu_org_id r \<and> toLowerCase (fu_user_name x) = toLowerCase name
         then (Inl (DbError ''23505''), s)
         else (Inr ((f (now s) r)\<lparr>fu_user_name := name\<rparr>), s\<lparr>scim_users :=
                map (\<lambda>x. if fu_id x = i then (f (now s) x)\<lparr>fu_user_name := name\<rparr> else x) (scim_users s)\<rparr>))"

definition rename_user :: "uuid \<Rightarrow> string \<Rightarrow> 'z db_scheme \<Rightarrow> 'z db_scheme" where
  "rename_user userId name s = s\<lparr>users := map (\<lambda>u. if u_id u = userId then u\<lparr>u_name := name, u_updated_at := now s\<rparr> else u) (users s)\<rparr>"

definition scim_replaceUser :: "scim_env \<Rightarrow> scim_context \<Rightarrow> string \<Rightarrow> scim_user \<Rightarrow> ('z scim_db_scheme, scim_user_out) svc" where
  "scim_replaceUser env ctx i body =
     bindM (scim_loadUser env ctx i) (\<lambda>row.
     let active = (case sb_active body of None \<Rightarrow> True | Some b \<Rightarrow> b);
         userName = trim (case sb_userName body of None \<Rightarrow> fu_user_name row | Some n \<Rightarrow> n);
         displayName = displayNameOf body in
     bindM (tx (bindM (upd_scim_user (fu_id row) userName (\<lambda>nw r. r\<lparr>
                  fu_external_id := (case sb_externalId body of None \<Rightarrow> fu_external_id row | Some e \<Rightarrow> Some e),
                  fu_active := active, fu_raw := rawOf body, fu_updated_at := nw\<rparr>)) (\<lambda>res.
                thenM (modifyM (applyActive (fu_user_id row) active))
               (thenM (if displayName = [] then returnM () else modifyM (rename_user (fu_user_id row) displayName))
               (returnM res))))) (\<lambda>updated.
     returnM (toUser env ctx updated)))"

record user_patch =
  up_active :: bool
  up_userName :: string
  up_externalId :: "string option"

definition object_value :: "json option \<Rightarrow> json option" where
  "object_value v = (case v of Some (JObj kvs) \<Rightarrow> v | Some (JArr vs) \<Rightarrow> v | _ \<Rightarrow> None)"

definition patch_user_op :: "user_patch \<Rightarrow> patch_op \<Rightarrow> user_patch" where
  "patch_user_op st op =
     (let path = lower_path op in
      if toLowerCase (po_op op) = ''remove'' then st
      else if path = ''active'' then st\<lparr>up_active := toBool (po_value op)\<rparr>
      else case (path = ''username'', path = ''externalid'', str_value (po_value op)) of
             (True, _, Some t) \<Rightarrow> st\<lparr>up_userName := t\<rparr>
           | (_, True, Some t) \<Rightarrow> st\<lparr>up_externalId := Some t\<rparr>
           | _ \<Rightarrow> (case (no_path op, object_value (po_value op)) of
                   (True, Some v) \<Rightarrow>
                     \<lparr>up_active = (case value_of v ''active'' of None \<Rightarrow> up_active st | Some a \<Rightarrow> toBool (Some a)),
                      up_userName = (case str_value (value_of v ''userName'') of None \<Rightarrow> up_userName st | Some t \<Rightarrow> t),
                      up_externalId = (case str_value (value_of v ''externalId'') of None \<Rightarrow> up_externalId st | Some t \<Rightarrow> Some t)\<rparr>
                 | _ \<Rightarrow> st))"

definition scim_patchUser :: "scim_env \<Rightarrow> scim_context \<Rightarrow> string \<Rightarrow> patch_op list \<Rightarrow> ('z scim_db_scheme, scim_user_out) svc" where
  "scim_patchUser env ctx i ops =
     bindM (scim_loadUser env ctx i) (\<lambda>row.
     let st = foldl patch_user_op \<lparr>up_active = fu_active row, up_userName = fu_user_name row, up_externalId = fu_external_id row\<rparr> ops in
     bindM (tx (bindM (upd_scim_user (fu_id row) (up_userName st) (\<lambda>nw r. r\<lparr>fu_active := up_active st,
                  fu_external_id := up_externalId st, fu_updated_at := nw\<rparr>)) (\<lambda>res.
                thenM (modifyM (applyActive (fu_user_id row) (up_active st)))
               (returnM res)))) (\<lambda>updated.
     returnM (toUser env ctx updated)))"

text \<open>Group memberships of a deleted SCIM user go with it.\<close>

definition delete_scim_user :: "uuid \<Rightarrow> 'z scim_db_scheme \<Rightarrow> 'z scim_db_scheme" where
  "delete_scim_user i s = s\<lparr>scim_users := filter (\<lambda>r. fu_id r \<noteq> i) (scim_users s),
     scim_group_members := filter (\<lambda>(g, m). m \<noteq> i) (scim_group_members s)\<rparr>"

definition scim_deleteUser :: "scim_env \<Rightarrow> scim_context \<Rightarrow> string \<Rightarrow> ('z scim_db_scheme, unit) svc" where
  "scim_deleteUser env ctx i =
     bindM (scim_loadUser env ctx i) (\<lambda>row.
     thenM (tx (thenM (modifyM (delete_scim_user (fu_id row)))
               (if fc_deactivate (cx_config ctx) then
                  modifyM (set_status (fu_user_id row) ''suspended'' (\<lambda>u. True) (\<lambda>nw u. u\<lparr>u_updated_at := nw\<rparr>))
                else returnM ())))
     (audit_log (scim_entry (cx_orgId ctx) ''scim.user.delete'' (fu_user_id row) [])))"

section \<open>Groups\<close>

definition memberUserIds :: "uuid \<Rightarrow> 'z scim_db_scheme \<Rightarrow> uuid list" where
  "memberUserIds groupId s = concat (map (\<lambda>(g, m). if g = groupId
     then map fu_user_id (filter (\<lambda>r. fu_id r = m) (scim_users s)) else []) (scim_group_members s))"

definition group_names :: "'z scim_db_scheme \<Rightarrow> uuid \<Rightarrow> uuid \<Rightarrow> string list" where
  "group_names s orgId userId = concat (map (\<lambda>(g, m).
     concat (map (\<lambda>su. map fg_display_name (filter (\<lambda>x. fg_id x = g) (scim_groups s)))
       (filter (\<lambda>su. fu_id su = m \<and> fu_user_id su = userId \<and> fu_org_id su = orgId) (scim_users s)))) (scim_group_members s))"

definition recompute_role :: "scim_context \<Rightarrow> uuid \<Rightarrow> 'z scim_db_scheme \<Rightarrow> 'z scim_db_scheme" where
  "recompute_role ctx userId s = upsert_role (cx_orgId ctx) userId
     (resolveRole (group_names s (cx_orgId ctx) userId) (fc_group_role_map (cx_config ctx)) (fc_default_role (cx_config ctx))) s"

definition recomputeRoles :: "scim_context \<Rightarrow> uuid list \<Rightarrow> ('z scim_db_scheme, unit) svc" where
  "recomputeRoles ctx userIds = forM (js_dedupe userIds) (\<lambda>u. modifyM (recompute_role ctx u))"

definition add_link :: "uuid \<Rightarrow> uuid \<Rightarrow> 'z scim_db_scheme \<Rightarrow> 'z scim_db_scheme" where
  "add_link g m s = (if (g, m) \<in> set (scim_group_members s) then s
     else s\<lparr>scim_group_members := scim_group_members s @ [(g, m)]\<rparr>)"

definition scim_row :: "scim_env \<Rightarrow> scim_context \<Rightarrow> string \<Rightarrow> 'z scim_db_scheme \<Rightarrow> scim_user_row option" where
  "scim_row env ctx sid s = find (\<lambda>r. fu_id r = se_uuid_of env sid \<and> fu_org_id r = cx_orgId ctx) (scim_users s)"

fun scim_addMembers :: "scim_env \<Rightarrow> scim_context \<Rightarrow> uuid \<Rightarrow> string list \<Rightarrow> ('z scim_db_scheme, uuid list) svc" where
  "scim_addMembers env ctx g [] = returnM []"
| "scim_addMembers env ctx g (sid # sids) =
     (if \<not> isUuid sid then scim_addMembers env ctx g sids
      else bindM (getsM (scim_row env ctx sid)) (\<lambda>found.
        case found of
          None \<Rightarrow> scim_addMembers env ctx g sids
        | Some r \<Rightarrow>
            thenM (modifyM (add_link g (se_uuid_of env sid)))
           (bindM (scim_addMembers env ctx g sids) (\<lambda>us. returnM (fu_user_id r # us)))))"

definition scim_setMembers :: "scim_env \<Rightarrow> scim_context \<Rightarrow> uuid \<Rightarrow> string list \<Rightarrow> ('z scim_db_scheme, uuid list) svc" where
  "scim_setMembers env ctx g sids =
     thenM (modifyM (\<lambda>s. s\<lparr>scim_group_members := filter (\<lambda>(x, m). x \<noteq> g) (scim_group_members s)\<rparr>))
     (scim_addMembers env ctx g sids)"

fun scim_removeMembers :: "scim_env \<Rightarrow> scim_context \<Rightarrow> uuid \<Rightarrow> string list \<Rightarrow> ('z scim_db_scheme, uuid list) svc" where
  "scim_removeMembers env ctx g [] = returnM []"
| "scim_removeMembers env ctx g (sid # sids) =
     (if \<not> isUuid sid then scim_removeMembers env ctx g sids
      else bindM (getsM (scim_row env ctx sid)) (\<lambda>found.
        thenM (modifyM (\<lambda>s. s\<lparr>scim_group_members := filter (\<lambda>x. x \<noteq> (g, se_uuid_of env sid)) (scim_group_members s)\<rparr>))
       (bindM (scim_removeMembers env ctx g sids) (\<lambda>us.
        returnM (case found of None \<Rightarrow> us | Some r \<Rightarrow> fu_user_id r # us)))))"

definition scim_toGroup :: "scim_env \<Rightarrow> scim_context \<Rightarrow> scim_group_row \<Rightarrow> ('z scim_db_scheme, scim_group_out) svc" where
  "scim_toGroup env ctx r = getsM (\<lambda>s.
     \<lparr>go_id = fg_id r, go_externalId = truthy (fg_external_id r), go_displayName = fg_display_name r,
      go_members = concat (map (\<lambda>(g, m). if g = fg_id r
        then map (\<lambda>su. (fu_id su, fu_user_name su)) (filter (\<lambda>su. fu_id su = m) (scim_users s)) else []) (scim_group_members s)),
      go_meta = \<lparr>mt_resourceType = ''Group'', mt_created = fg_created_at r, mt_lastModified = fg_updated_at r,
        mt_location = baseUrl env (cx_orgId ctx) @ ''/Groups/'' @ se_uuid_text env (fg_id r)\<rparr>\<rparr>)"

definition scim_loadGroup :: "scim_env \<Rightarrow> scim_context \<Rightarrow> string \<Rightarrow> ('z scim_db_scheme, scim_group_row) svc" where
  "scim_loadGroup env ctx i =
     thenM (throwIf (\<not> isUuid i) (NotFoundException ''Group not found'' None))
     (bindM (getsM (\<lambda>s. find (\<lambda>r. fg_id r = se_uuid_of env i \<and> fg_org_id r = cx_orgId ctx) (scim_groups s))) (\<lambda>row.
      someM row (NotFoundException ''Group not found'' None)))"

fun mapM :: "('a \<Rightarrow> ('s, 'b) svc) \<Rightarrow> 'a list \<Rightarrow> ('s, 'b list) svc" where
  "mapM f [] = returnM []"
| "mapM f (x # xs) = bindM (f x) (\<lambda>y. bindM (mapM f xs) (\<lambda>ys. returnM (y # ys)))"

definition group_matches :: "(string \<times> string) option \<Rightarrow> scim_group_row \<Rightarrow> bool" where
  "group_matches flt r =
     (case flt of
        Some (attr, v) \<Rightarrow> attr = ''displayName'' \<longrightarrow> toLowerCase (fg_display_name r) = toLowerCase v
      | None \<Rightarrow> True)"

definition scim_listGroups :: "scim_env \<Rightarrow> scim_context \<Rightarrow> list_params \<Rightarrow> ('z scim_db_scheme, scim_group_out list_response) svc" where
  "scim_listGroups env ctx params =
     bindM (getsM (\<lambda>s. sort_key fg_created_at
       (filter (\<lambda>r. fg_org_id r = cx_orgId ctx \<and> group_matches (parseEqFilter (lp_filter params)) r) (scim_groups s)))) (\<lambda>rows.
     bindM (mapM (scim_toGroup env ctx) rows) (\<lambda>resources.
     returnM (listResponse resources params)))"

definition scim_getGroup :: "scim_env \<Rightarrow> scim_context \<Rightarrow> string \<Rightarrow> ('z scim_db_scheme, scim_group_out) svc" where
  "scim_getGroup env ctx i = bindM (scim_loadGroup env ctx i) (scim_toGroup env ctx)"

definition insert_scim_group :: "uuid \<Rightarrow> string option \<Rightarrow> string \<Rightarrow> ('z scim_db_scheme, scim_group_row) svc" where
  "insert_scim_group orgId ext name = (\<lambda>s.
     if \<exists>g \<in> set (scim_groups s). fg_org_id g = orgId \<and> toLowerCase (fg_display_name g) = toLowerCase name
     then (Inl (DbError ''23505''), s)
     else let r = \<lparr>fg_id = next_id s, fg_org_id = orgId, fg_external_id = ext, fg_display_name = name,
                   fg_created_at = now s, fg_updated_at = now s\<rparr>
          in (Inr r, s\<lparr>scim_groups := scim_groups s @ [r], next_id := next_id s + 1\<rparr>))"

definition scim_createGroup :: "scim_env \<Rightarrow> scim_context \<Rightarrow> scim_group \<Rightarrow> ('z scim_db_scheme, scim_group_out) svc" where
  "scim_createGroup env ctx body =
     (let displayName = trim (str_or_empty (gb_displayName body)) in
      thenM (throwIf (displayName = []) (ConflictException ''displayName is required'' None))
     (bindM (getsM (\<lambda>s. \<exists>g \<in> set (scim_groups s). fg_org_id g = cx_orgId ctx \<and>
                toLowerCase (fg_display_name g) = toLowerCase displayName)) (\<lambda>dup.
      thenM (throwIf dup (ConflictException ''Group exists'' None))
     (bindM (tx (bindM (insert_scim_group (cx_orgId ctx) (gb_externalId body) displayName) (\<lambda>grp.
                 bindM (scim_setMembers env ctx (fg_id grp) (gb_members body)) (\<lambda>memberIds.
                 thenM (recomputeRoles ctx memberIds)
                (returnM grp))))) (\<lambda>row.
      scim_toGroup env ctx row)))))"

text \<open>\<open>UPDATE scim_groups SET display_name = $2, ... WHERE id = $1\<close> under the unique index.\<close>

definition upd_scim_group :: "uuid \<Rightarrow> string \<Rightarrow> (scim_group_row \<Rightarrow> scim_group_row) \<Rightarrow> ('z scim_db_scheme, unit) svc" where
  "upd_scim_group i name f = (\<lambda>s.
     if \<exists>x \<in> set (scim_groups s). \<exists>y \<in> set (scim_groups s). fg_id y = i \<and> fg_id x \<noteq> i \<and> fg_org_id x = fg_org_id y \<and>
          toLowerCase (fg_display_name x) = toLowerCase name
     then (Inl (DbError ''23505''), s)
     else (Inr (), s\<lparr>scim_groups := map (\<lambda>g. if fg_id g = i
             then (f g)\<lparr>fg_display_name := name, fg_updated_at := now s\<rparr> else g) (scim_groups s)\<rparr>))"

text \<open>One operation of a group patch; the result is the list of touched users.\<close>

definition patch_group_op :: "scim_env \<Rightarrow> scim_context \<Rightarrow> uuid \<Rightarrow> patch_op \<Rightarrow> ('z scim_db_scheme, uuid list) svc" where
  "patch_group_op env ctx g op =
     (let opName = toLowerCase (po_op op); path = lower_path op; values = memberValues (po_value op) in
      if startsWith path ''members'' then
        (if opName = ''add'' then scim_addMembers env ctx g values
         else if opName = ''remove'' then
           scim_removeMembers env ctx g (case memberFromPath (po_path op) of Some t \<Rightarrow> t | None \<Rightarrow> values)
         else if opName = ''replace'' then
           bindM (getsM (memberUserIds g)) (\<lambda>before.
           bindM (scim_setMembers env ctx g values) (\<lambda>ids. returnM (before @ ids)))
         else returnM [])
      else case valueDisplayName op of
             Some name \<Rightarrow>
               if path = ''displayname'' \<or> no_path op then
                 thenM (upd_scim_group g name (\<lambda>r. r)) (getsM (memberUserIds g))
               else returnM []
           | None \<Rightarrow> returnM [])"

fun patch_group_ops :: "scim_env \<Rightarrow> scim_context \<Rightarrow> uuid \<Rightarrow> patch_op list \<Rightarrow> ('z scim_db_scheme, uuid list) svc" where
  "patch_group_ops env ctx g [] = returnM []"
| "patch_group_ops env ctx g (op # ops) =
     bindM (patch_group_op env ctx g op) (\<lambda>ids.
     bindM (patch_group_ops env ctx g ops) (\<lambda>rest. returnM (ids @ rest)))"

definition scim_patchGroup :: "scim_env \<Rightarrow> scim_context \<Rightarrow> string \<Rightarrow> patch_op list \<Rightarrow> ('z scim_db_scheme, scim_group_out) svc" where
  "scim_patchGroup env ctx i ops =
     bindM (scim_loadGroup env ctx i) (\<lambda>grp.
     thenM (tx (bindM (patch_group_ops env ctx (fg_id grp) ops) (\<lambda>touched. recomputeRoles ctx touched)))
     (bindM (scim_loadGroup env ctx i) (scim_toGroup env ctx)))"

definition scim_replaceGroup :: "scim_env \<Rightarrow> scim_context \<Rightarrow> string \<Rightarrow> scim_group \<Rightarrow> ('z scim_db_scheme, scim_group_out) svc" where
  "scim_replaceGroup env ctx i body =
     bindM (scim_loadGroup env ctx i) (\<lambda>grp.
     thenM (tx (thenM (case truthy (gb_displayName body) of
                         None \<Rightarrow> returnM ()
                       | Some n \<Rightarrow> upd_scim_group (fg_id grp) (trim n) (\<lambda>r. r\<lparr>fg_external_id :=
                           (case gb_externalId body of None \<Rightarrow> fg_external_id grp | Some e \<Rightarrow> Some e)\<rparr>))
               (bindM (getsM (memberUserIds (fg_id grp))) (\<lambda>before.
                bindM (scim_setMembers env ctx (fg_id grp) (gb_members body)) (\<lambda>after.
                recomputeRoles ctx (before @ after))))))
     (bindM (scim_loadGroup env ctx i) (scim_toGroup env ctx)))"

definition scim_deleteGroup :: "scim_env \<Rightarrow> scim_context \<Rightarrow> string \<Rightarrow> ('z scim_db_scheme, unit) svc" where
  "scim_deleteGroup env ctx i =
     bindM (scim_loadGroup env ctx i) (\<lambda>grp.
     tx (bindM (getsM (memberUserIds (fg_id grp))) (\<lambda>members.
         thenM (modifyM (\<lambda>s. s\<lparr>scim_groups := filter (\<lambda>g. fg_id g \<noteq> fg_id grp) (scim_groups s),
                   scim_group_members := filter (\<lambda>(g, m). g \<noteq> fg_id grp) (scim_group_members s)\<rparr>))
        (recomputeRoles ctx members))))"

end
