(* ===== verification/JM_ScimFacts.thy ===== *)
theory JM_ScimFacts
  imports JM_Scim
begin

text \<open>
  Facts about SCIM provisioning (\<open>JM_Scim\<close>): the token of an organization, the invariant of the four
  tables over every sequence of calls, and the roles a change of groups gives.
\<close>

section \<open>Tokens\<close>

lemma find_upd_config:
  assumes "\<And>nw r. fc_org_id (f nw r) = fc_org_id r"
  shows "find_config orgId (upd_config orgId f s) = map_option (f (now s)) (find_config orgId s)"
proof -
  have "find (\<lambda>r. fc_org_id r = orgId) (map (\<lambda>r. if fc_org_id r = orgId then f (now s) r else r) (scim_configs s)) =
      map_option (\<lambda>r. if fc_org_id r = orgId then f (now s) r else r) (find (\<lambda>r. fc_org_id r = orgId) (scim_configs s))"
    by (rule find_map_frame) (simp add: assms)
  also have "\<dots> = map_option (f (now s)) (find (\<lambda>r. fc_org_id r = orgId) (scim_configs s))"
    by (cases "find (\<lambda>r. fc_org_id r = orgId) (scim_configs s)") (auto dest: find_SomeD)
  finally show ?thesis by (simp add: find_config_def upd_config_def)
qed

lemma find_config_audit [simp]: "find_config orgId (audit_insert e s) = find_config orgId s"
  by (simp add: find_config_def audit_insert_def)

lemma authenticate_iff:
  "(\<exists>ctx u. authenticate env orgId token s = (Inr ctx, u)) \<longleftrightarrow>
     (\<exists>cfg. find_config orgId s = Some cfg \<and> fc_enabled cfg \<and> se_sha256 env token \<noteq> [] \<and>
        fc_token_hash cfg = Some (se_sha256 env token))"
proof (cases "find_config orgId s")
  case None
  then show ?thesis by (simp add: authenticate_def bindM_getsM throwM_def)
next
  case (Some cfg)
  then show ?thesis
    by (cases "truthy (fc_token_hash cfg)")
      (auto simp: authenticate_def bindM_getsM throwM_def Let_def thenM_Inr throwIf_Inr leafM truthy_def split: if_splits)
qed

lemma ensureConfig_Inr: "ensureConfig orgId s = (Inr r, t) \<Longrightarrow> find_config orgId t = Some r"
  by (auto simp: ensureConfig_def find_config_def find_snoc default_config_def split: option.splits)

lemma generateToken_Inr:
  "generateToken env rnd p orgId ip s = (Inr res, t) \<Longrightarrow>
     (\<exists>cfg. find_config orgId t = Some cfg \<and> fc_token_hash cfg = Some (se_sha256 env (tr_token res)))"
  by (auto simp: generateToken_def Let_def svc_iffs find_upd_config dest!: ensureConfig_Inr)

text \<open>
  C23: a SCIM token is good for one organization and until it is replaced. After a token is
  issued, a token is accepted for the organization exactly when it has the digest of the issued one
  (and SCIM is enabled there), so every earlier token is dead; once the token is revoked none is accepted.
\<close>

theorem scim_token_roundtrip:
  assumes "generateToken env rnd p orgId ip s = (Inr res, t)" "\<And>x. se_sha256 env x \<noteq> []"
    and "find_config orgId t = Some cfg" "fc_enabled cfg"
  shows "((\<exists>ctx u. authenticate env orgId token t = (Inr ctx, u)) \<longleftrightarrow> se_sha256 env token = se_sha256 env (tr_token res)) \<and>
    (\<forall>q ip' v. revokeToken q orgId ip' t = (Inr (), v) \<longrightarrow> \<not> (\<exists>ctx u. authenticate env orgId token v = (Inr ctx, u)))"
proof (intro conjI allI impI)
  show "(\<exists>ctx u. authenticate env orgId token t = (Inr ctx, u)) \<longleftrightarrow> se_sha256 env token = se_sha256 env (tr_token res)"
    using generateToken_Inr[OF assms(1)] assms(2-4) by (auto simp: authenticate_iff)
  fix q ip' v assume "revokeToken q orgId ip' t = (Inr (), v)"
  then have "find_config orgId v = Some (cfg\<lparr>fc_token_hash := None, fc_token_prefix := None, fc_updated_at := now t\<rparr>)"
    using assms(3) by (auto simp: revokeToken_def svc_iffs requireRole_Inr find_upd_config)
  then show "\<not> (\<exists>ctx u. authenticate env orgId token v = (Inr ctx, u))" by (simp add: authenticate_iff)
qed

section \<open>The tables\<close>

text \<open>The pairs of a group and a user of the same organization.\<close>

definition org_pairs :: "scim_group_row list \<Rightarrow> scim_user_row list \<Rightarrow> (uuid \<times> uuid) set" where
  "org_pairs gs us = {(fg_id G, fu_id U) | G U. G \<in> set gs \<and> U \<in> set us \<and> fg_org_id G = fu_org_id U}"

lemma org_pairs_mono: "set gs \<subseteq> set gs' \<Longrightarrow> set us \<subseteq> set us' \<Longrightarrow> org_pairs gs us \<subseteq> org_pairs gs' us'"
  by (auto simp: org_pairs_def)

lemma org_pairs_cong:
  assumes "\<And>g. fg_id (f g) = fg_id g" "\<And>g. fg_org_id (f g) = fg_org_id g" "\<And>u. fu_id (h u) = fu_id u" "\<And>u. fu_org_id (h u) = fu_org_id u"
  shows "org_pairs (map f gs) (map h us) = org_pairs gs us"
proof -
  have "org_pairs gs us = (\<lambda>(g, u). (fg_id g, fu_id u)) ` {(g, u) \<in> set gs \<times> set us. fg_org_id g = fu_org_id u}" for gs us
    by (auto simp: org_pairs_def)
  moreover have "{(g, u) \<in> set (map f gs) \<times> set (map h us). fg_org_id g = fu_org_id u} =
      map_prod f h ` {(g, u) \<in> set gs \<times> set us. fg_org_id g = fu_org_id u}"
    using assms(2,4) by (auto simp: map_prod_def image_iff)
  ultimately show ?thesis by (simp only: image_image) (simp add: case_prod_unfold assms)
qed

definition scim_wf :: "'z scim_db_scheme \<Rightarrow> bool" where
  "scim_wf s \<longleftrightarrow>
     ids_below (next_id s) (map fu_id (scim_users s)) \<and> ids_below (next_id s) (map fg_id (scim_groups s)) \<and>
     distinct (map (\<lambda>r. (fu_org_id r, fu_user_id r)) (scim_users s)) \<and>
     distinct (map (\<lambda>r. (fu_org_id r, toLowerCase (fu_user_name r))) (scim_users s)) \<and>
     distinct (map (\<lambda>g. (fg_org_id g, toLowerCase (fg_display_name g))) (scim_groups s)) \<and>
     set (scim_group_members s) \<subseteq> org_pairs (scim_groups s) (scim_users s)"

definition scim_same :: "'z scim_db_scheme \<Rightarrow> 'z scim_db_scheme \<Rightarrow> bool" where
  "scim_same s t \<longleftrightarrow> scim_users t = scim_users s \<and> scim_groups t = scim_groups s \<and>
     scim_group_members t = scim_group_members s \<and> next_id s \<le> next_id t"

lemma ids_below_mono: "ids_below n xs \<Longrightarrow> n \<le> m \<Longrightarrow> ids_below m xs"
  by (auto simp: ids_below_def)

lemma scim_wf_same: "scim_wf s \<Longrightarrow> scim_same s t \<Longrightarrow> scim_wf t"
  by (auto simp: scim_wf_def scim_same_def intro: ids_below_mono)

lemma scim_same_refl [simp]: "scim_same s s"
  by (simp add: scim_same_def)

lemma scim_same_trans: "scim_same s t \<Longrightarrow> scim_same t u \<Longrightarrow> scim_same s u"
  by (auto simp: scim_same_def)

lemma scim_same_writes [simp]:
  "scim_same s (set_status i st P f s)" "scim_same s (applyActive i b s)" "scim_same s (rename_user i n s)"
  "scim_same s (insert_member_new org i r s)" "scim_same s (upsert_role org i r s)" "scim_same s (with_user e n s)"
  "scim_same s (audit_insert e' s)" "scim_same s (upd_config org g s)" "scim_same s (recompute_role ctx i s)"
  by (simp_all add: scim_same_def set_status_def applyActive_def rename_user_def insert_member_new_def upsert_role_def
      with_user_def audit_insert_def upd_config_def recompute_role_def)

text \<open>A unique key stays unique when the row with one identifier gets a key no other row has.\<close>

lemma distinct_key_update:
  assumes "distinct (map k xs)" "distinct (map rid xs)" "\<And>x. x \<in> set xs \<Longrightarrow> rid x \<noteq> i \<Longrightarrow> k' x = k x \<and> k x \<noteq> v"
    and "\<And>x. x \<in> set xs \<Longrightarrow> rid x = i \<Longrightarrow> k' x = v"
  shows "distinct (map k' xs)"
  using assms
proof (induction xs)
  case Nil
  then show ?case by simp
next
  case (Cons x xs)
  have "distinct (map k' xs)" using Cons by auto
  moreover have "k' x \<notin> k' ` set xs"
  proof
    assume "k' x \<in> k' ` set xs"
    then obtain y where y: "y \<in> set xs" "k' x = k' y" by auto
    from imageI[OF y(1), of rid] Cons.prems(2) have "rid y \<noteq> rid x" by auto
    moreover from imageI[OF y(1), of k] Cons.prems(1) have "k y \<noteq> k x" by auto
    ultimately show False using y Cons.prems(3)[of x] Cons.prems(3)[of y] Cons.prems(4)[of x] Cons.prems(4)[of y] by (metis list.set_intros)
  qed
  ultimately show ?case by simp
qed

lemma scim_wf_insert_user:
  assumes w: "scim_wf s" and i: "insert_scim_user org uid ext name act raw s = (Inr r, t)"
  shows "scim_wf t"
proof -
  from i have t: "t = s\<lparr>scim_users := scim_users s @ [r], next_id := next_id s + 1\<rparr>"
    and r: "fu_id r = next_id s" "fu_org_id r = org" "fu_user_id r = uid" "fu_user_name r = name"
    and free: "(org, uid) \<notin> (\<lambda>r. (fu_org_id r, fu_user_id r)) ` set (scim_users s)"
      "(org, toLowerCase name) \<notin> (\<lambda>r. (fu_org_id r, toLowerCase (fu_user_name r))) ` set (scim_users s)"
    by (auto simp: insert_scim_user_def Let_def split: if_splits)
  have "org_pairs (scim_groups s) (scim_users s) \<subseteq> org_pairs (scim_groups s) (scim_users s @ [r])"
    by (rule org_pairs_mono) auto
  then show ?thesis
    using w free unfolding t scim_wf_def by (auto simp: r ids_below_Suc ids_below_def)
qed

lemma scim_wf_upd_user:
  assumes w: "scim_wf s" and u: "upd_scim_user i name f s = (Inr r, t)"
    and f: "\<And>nw r. fu_id (f nw r) = fu_id r" "\<And>nw r. fu_org_id (f nw r) = fu_org_id r" "\<And>nw r. fu_user_id (f nw r) = fu_user_id r"
  shows "scim_wf t"
proof -
  define g where "g = (\<lambda>x. if fu_id x = i then (f (now s) x)\<lparr>fu_user_name := name\<rparr> else x)"
  from u obtain r0 where r0: "find (\<lambda>r. fu_id r = i) (scim_users s) = Some r0"
    and free: "\<And>x. x \<in> set (scim_users s) \<Longrightarrow> fu_id x \<noteq> i \<Longrightarrow> (fu_org_id x, toLowerCase (fu_user_name x)) \<noteq> (fu_org_id r0, toLowerCase name)"
    and t: "t = s\<lparr>scim_users := map g (scim_users s)\<rparr>"
    by (auto simp: upd_scim_user_def g_def split: option.splits if_splits)
  have g: "fu_id (g x) = fu_id x" "fu_org_id (g x) = fu_org_id x" "fu_user_id (g x) = fu_user_id x"
    "fu_user_name (g x) = (if fu_id x = i then name else fu_user_name x)" for x
    by (simp_all add: g_def f)
  from w have ids: "distinct (map fu_id (scim_users s))" by (simp add: scim_wf_def ids_below_def)
  have same: "x = r0" if "x \<in> set (scim_users s)" "fu_id x = i" for x
    using that r0 ids by (auto simp: distinct_map dest!: find_SomeD intro: inj_onD)
  have "distinct (map ((\<lambda>r. (fu_org_id r, toLowerCase (fu_user_name r))) \<circ> g) (scim_users s))"
  proof (rule distinct_key_update[where k = "\<lambda>r. (fu_org_id r, toLowerCase (fu_user_name r))" and rid = fu_id and i = i and
        v = "(fu_org_id r0, toLowerCase name)"])
    show "distinct (map (\<lambda>r. (fu_org_id r, toLowerCase (fu_user_name r))) (scim_users s))" using w by (simp add: scim_wf_def)
    show "distinct (map fu_id (scim_users s))" by (rule ids)
  qed (use free same g in auto)
  moreover have "org_pairs (scim_groups s) (map g (scim_users s)) = org_pairs (scim_groups s) (scim_users s)"
    using org_pairs_cong[of id g "scim_groups s" "scim_users s"] g by simp
  ultimately show ?thesis
    using w by (simp add: scim_wf_def t o_def g)
qed

lemma scim_wf_insert_group:
  assumes w: "scim_wf s" and i: "insert_scim_group org ext name s = (Inr r, t)"
  shows "scim_wf t \<and> fg_org_id r = org \<and> r \<in> set (scim_groups t)"
proof -
  from i have t: "t = s\<lparr>scim_groups := scim_groups s @ [r], next_id := next_id s + 1\<rparr>"
    and r: "fg_id r = next_id s" "fg_org_id r = org" "fg_display_name r = name"
    and free: "(org, toLowerCase name) \<notin> (\<lambda>g. (fg_org_id g, toLowerCase (fg_display_name g))) ` set (scim_groups s)"
    by (auto simp: insert_scim_group_def Let_def split: if_splits)
  have "org_pairs (scim_groups s) (scim_users s) \<subseteq> org_pairs (scim_groups s @ [r]) (scim_users s)"
    by (rule org_pairs_mono) auto
  then show ?thesis
    using w free unfolding t scim_wf_def by (auto simp: r ids_below_Suc ids_below_def)
qed

lemma scim_wf_upd_group:
  assumes w: "scim_wf s" and u: "upd_scim_group i name f s = (Inr x, t)"
    and f: "\<And>r. fg_id (f r) = fg_id r" "\<And>r. fg_org_id (f r) = fg_org_id r"
  shows "scim_wf t \<and> (\<forall>G \<in> set (scim_groups s). \<exists>G' \<in> set (scim_groups t). fg_id G' = fg_id G \<and> fg_org_id G' = fg_org_id G)"
proof -
  define g where "g = (\<lambda>g. if fg_id g = i then (f g)\<lparr>fg_display_name := name, fg_updated_at := now s\<rparr> else g)"
  from u have free: "\<And>x y. x \<in> set (scim_groups s) \<Longrightarrow> y \<in> set (scim_groups s) \<Longrightarrow> fg_id y = i \<Longrightarrow> fg_id x \<noteq> i \<Longrightarrow>
      (fg_org_id x, toLowerCase (fg_display_name x)) \<noteq> (fg_org_id y, toLowerCase name)"
    and t: "t = s\<lparr>scim_groups := map g (scim_groups s)\<rparr>"
    by (auto simp: upd_scim_group_def g_def split: if_splits)
  have g: "fg_id (g x) = fg_id x" "fg_org_id (g x) = fg_org_id x"
    "fg_display_name (g x) = (if fg_id x = i then name else fg_display_name x)" for x
    by (simp_all add: g_def f)
  from w have ids: "distinct (map fg_id (scim_groups s))" and key: "distinct (map (\<lambda>r. (fg_org_id r, toLowerCase (fg_display_name r))) (scim_groups s))"
    by (simp_all add: scim_wf_def ids_below_def)
  have "distinct (map ((\<lambda>r. (fg_org_id r, toLowerCase (fg_display_name r))) \<circ> g) (scim_groups s))"
  proof (cases "\<exists>y \<in> set (scim_groups s). fg_id y = i")
    case True
    then obtain y where y: "y \<in> set (scim_groups s)" "fg_id y = i" by blast
    have same: "x = y" if "x \<in> set (scim_groups s)" "fg_id x = i" for x
      using that y ids by (auto simp: distinct_map intro: inj_onD)
    show ?thesis
    proof (rule distinct_key_update[OF key ids, where i = i and v = "(fg_org_id y, toLowerCase name)"])
      fix x assume x: "x \<in> set (scim_groups s)"
      show "fg_id x \<noteq> i \<Longrightarrow> ((\<lambda>r. (fg_org_id r, toLowerCase (fg_display_name r))) \<circ> g) x = (fg_org_id x, toLowerCase (fg_display_name x)) \<and>
          (fg_org_id x, toLowerCase (fg_display_name x)) \<noteq> (fg_org_id y, toLowerCase name)"
        using free[OF x y(1) y(2)] by (simp add: g)
      show "fg_id x = i \<Longrightarrow> ((\<lambda>r. (fg_org_id r, toLowerCase (fg_display_name r))) \<circ> g) x = (fg_org_id y, toLowerCase name)"
        using same[OF x] by (simp add: g)
    qed
  next
    case False
    then have "map ((\<lambda>r. (fg_org_id r, toLowerCase (fg_display_name r))) \<circ> g) (scim_groups s) =
        map (\<lambda>r. (fg_org_id r, toLowerCase (fg_display_name r))) (scim_groups s)"
      by (auto simp: g)
    then show ?thesis using key by (simp only:)
  qed
  moreover have "org_pairs (map g (scim_groups s)) (scim_users s) = org_pairs (scim_groups s) (scim_users s)"
    using org_pairs_cong[of g id "scim_groups s" "scim_users s"] g by simp
  ultimately have "scim_wf t" using w by (simp add: scim_wf_def t o_def g)
  moreover have "\<exists>G' \<in> set (scim_groups t). fg_id G' = fg_id G \<and> fg_org_id G' = fg_org_id G" if "G \<in> set (scim_groups s)" for G
    using that by (auto simp: t g)
  ultimately show ?thesis by blast
qed

lemma scim_wf_links: "scim_wf s \<Longrightarrow> set ls \<subseteq> org_pairs (scim_groups s) (scim_users s) \<Longrightarrow> scim_wf (s\<lparr>scim_group_members := ls\<rparr>)"
  by (simp add: scim_wf_def)

lemma scim_wf_filter_links: "scim_wf s \<Longrightarrow> scim_wf (s\<lparr>scim_group_members := filter P (scim_group_members s)\<rparr>)"
  by (rule scim_wf_links) (auto simp: scim_wf_def)

lemma scim_wf_delete_user: "scim_wf s \<Longrightarrow> scim_wf (delete_scim_user i s)"
  by (auto simp: scim_wf_def delete_scim_user_def ids_below_filter distinct_map_filter org_pairs_def dest!: subsetD)

lemma scim_wf_delete_group:
  "scim_wf s \<Longrightarrow> scim_wf (s\<lparr>scim_groups := filter (\<lambda>g. fg_id g \<noteq> i) (scim_groups s),
     scim_group_members := filter (\<lambda>(g, m). g \<noteq> i) (scim_group_members s)\<rparr>)"
  by (auto simp: scim_wf_def ids_below_filter distinct_map_filter org_pairs_def dest!: subsetD)

text \<open>The group a handler works on: in the caller's organization.\<close>

definition own_group :: "scim_context \<Rightarrow> uuid \<Rightarrow> 'z scim_db_scheme \<Rightarrow> bool" where
  "own_group ctx g s \<longleftrightarrow> (\<exists>G \<in> set (scim_groups s). fg_id G = g \<and> fg_org_id G = cx_orgId ctx)"

definition group_wf :: "scim_context \<Rightarrow> uuid \<Rightarrow> 'z scim_db_scheme \<Rightarrow> bool" where
  "group_wf ctx g s \<longleftrightarrow> scim_wf s \<and> own_group ctx g s"

lemma group_wf_same: "group_wf ctx g s \<Longrightarrow> scim_same s t \<Longrightarrow> group_wf ctx g t"
  using scim_wf_same[of s t] by (auto simp: group_wf_def own_group_def scim_same_def)

lemma group_wf_add_link:
  assumes "group_wf ctx g s" "scim_row env ctx sid s = Some r"
  shows "group_wf ctx g (add_link g (se_uuid_of env sid) s)"
proof -
  from assms have "(g, se_uuid_of env sid) \<in> org_pairs (scim_groups s) (scim_users s)"
    by (auto simp: group_wf_def own_group_def scim_row_def org_pairs_def dest!: find_SomeD) metis
  with assms(1) have "scim_wf (add_link g (se_uuid_of env sid) s)"
    by (auto simp: add_link_def group_wf_def intro!: scim_wf_links) (auto simp: scim_wf_def)
  with assms(1) show ?thesis by (simp add: group_wf_def own_group_def add_link_def)
qed

lemma addMembers_wf: "group_wf ctx g s \<Longrightarrow> scim_addMembers env ctx g sids s = (Inr us, t) \<Longrightarrow> group_wf ctx g t"
proof (induction sids arbitrary: s us)
  case Nil
  then show ?case by (simp add: leafM)
next
  case (Cons sid sids)
  show ?case
  proof (cases "isUuid sid \<and> scim_row env ctx sid s \<noteq> None")
    case True
    then obtain r where r: "scim_row env ctx sid s = Some r" by auto
    with True Cons.prems(2) obtain vs where "scim_addMembers env ctx g sids (add_link g (se_uuid_of env sid) s) = (Inr vs, t)"
      by (auto simp: bindM_getsM thenM_modifyM bindM_Inr leafM)
    with Cons.IH[OF group_wf_add_link[OF Cons.prems(1) r]] show ?thesis by blast
  next
    case False
    with Cons.prems(2) have "scim_addMembers env ctx g sids s = (Inr us, t)"
      by (auto simp: bindM_getsM split: if_splits)
    with Cons.IH[OF Cons.prems(1)] show ?thesis by blast
  qed
qed

lemma group_wf_filter_links: "group_wf ctx g s \<Longrightarrow> group_wf ctx g (s\<lparr>scim_group_members := filter P (scim_group_members s)\<rparr>)"
  by (simp add: group_wf_def own_group_def scim_wf_filter_links)

lemma setMembers_wf: "group_wf ctx g s \<Longrightarrow> scim_setMembers env ctx g sids s = (Inr us, t) \<Longrightarrow> group_wf ctx g t"
  unfolding scim_setMembers_def thenM_modifyM by (rule addMembers_wf[OF group_wf_filter_links])

lemma removeMembers_wf: "group_wf ctx g s \<Longrightarrow> scim_removeMembers env ctx g sids s = (Inr us, t) \<Longrightarrow> group_wf ctx g t"
proof (induction sids arbitrary: s us)
  case Nil
  then show ?case by (simp add: leafM)
next
  case (Cons sid sids)
  show ?case
  proof (cases "isUuid sid")
    case True
    with Cons.prems(2) obtain vs where "scim_removeMembers env ctx g sids
        (s\<lparr>scim_group_members := filter (\<lambda>x. x \<noteq> (g, se_uuid_of env sid)) (scim_group_members s)\<rparr>) = (Inr vs, t)"
      by (auto simp: bindM_getsM thenM_modifyM bindM_Inr leafM)
    with Cons.IH[OF group_wf_filter_links[OF Cons.prems(1)]] show ?thesis by blast
  next
    case False
    with Cons show ?thesis by simp
  qed
qed

lemma group_wf_upd_group:
  assumes "group_wf ctx g s" "upd_scim_group i name f s = (Inr x, t)" "\<And>r. fg_id (f r) = fg_id r" "\<And>r. fg_org_id (f r) = fg_org_id r"
  shows "group_wf ctx g t"
  using scim_wf_upd_group[OF _ assms(2-4)] assms(1) by (fastforce simp: group_wf_def own_group_def)

lemma patch_op_wf:
  assumes "group_wf ctx g s" "patch_group_op env ctx g op s = (Inr us, t)"
  shows "group_wf ctx g t"
  using assms(2) unfolding patch_group_op_def Let_def
  by (auto simp: bindM_Inr thenM_Inr leafM split: if_splits option.splits
      intro: addMembers_wf[OF assms(1)] removeMembers_wf[OF assms(1)] setMembers_wf[OF assms(1)] assms(1)
        group_wf_upd_group[OF assms(1), where f = "\<lambda>r. r"])

lemma patch_ops_wf: "group_wf ctx g s \<Longrightarrow> patch_group_ops env ctx g ops s = (Inr us, t) \<Longrightarrow> group_wf ctx g t"
proof (induction ops arbitrary: s us)
  case Nil
  then show ?case by (simp add: leafM)
next
  case (Cons op ops)
  then show ?case by (auto simp: bindM_Inr leafM dest: patch_op_wf)
qed

lemma recomputeRoles_same: "\<exists>t. recomputeRoles ctx us s = (Inr (), t) \<and> scim_same s t"
proof -
  have "\<exists>t. forM vs (\<lambda>u. modifyM (recompute_role ctx u)) s = (Inr (), t) \<and> scim_same s t" for vs
  proof (induction vs arbitrary: s)
    case Nil
    then show ?case by (simp add: returnM_def)
  next
    case (Cons v vs)
    from Cons[of "recompute_role ctx v s"] obtain t
      where t: "forM vs (\<lambda>u. modifyM (recompute_role ctx u)) (recompute_role ctx v s) = (Inr (), t)" "scim_same (recompute_role ctx v s) t"
      by blast
    then show ?case using scim_same_trans[OF scim_same_writes(9) t(2)] by (simp add: thenM_modifyM)
  qed
  then show ?thesis by (simp add: recomputeRoles_def)
qed

subsection \<open>Every call keeps the tables\<close>

text \<open>A transaction that fails is undone, so only its successful runs have to keep an invariant.\<close>

lemma preserves_tx_ok: "(\<And>s x t. I s \<Longrightarrow> m s = (Inr x, t) \<Longrightarrow> I t) \<Longrightarrow> preserves I (tx m)"
  by (auto simp: preserves_def tx_def split: prod.splits sum.splits)

lemma preserves_same: "(\<And>s. scim_same s (f s)) \<Longrightarrow> preserves scim_wf (modifyM f)"
  by (rule preserves_modifyM) (rule scim_wf_same)

lemma preserves_audit_scim [preserve_intro]: "preserves scim_wf (audit_log e)"
  unfolding audit_log_def by (rule preserves_same) simp

lemma readonly_loads [readonly_intro]:
  "readonly (scim_loadUser env ctx i)" "readonly (scim_loadGroup env ctx i)" "readonly (scim_toGroup env ctx r)"
  unfolding scim_loadUser_def scim_loadGroup_def scim_toGroup_def by (intro readonly_intro)+

lemma preserves_loads [preserve_intro]:
  "preserves I (scim_loadUser env ctx i)" "preserves I (scim_loadGroup env ctx i)" "preserves I (scim_toGroup env ctx r)"
  "preserves I (requireRole org u need)"
  by (intro readonly_preserves readonly_loads readonly_requireRole)+

lemma resolveLocalUser_same: "resolveLocalUser email name s = (Inr i, t) \<Longrightarrow> scim_same s t"
  by (auto simp: resolveLocalUser_def bindM_Inr find_or_insert_run leafM split: option.splits)

lemma preserves_ok: "(\<And>s x t. I s \<Longrightarrow> m s = (Inr x, t) \<Longrightarrow> I t) \<Longrightarrow> (\<And>s e t. m s = (Inl e, t) \<Longrightarrow> t = s) \<Longrightarrow> preserves I m"
  unfolding preserves_def by (metis old.sum.exhaust prod.collapse)

lemma preserves_user_writes [preserve_intro]:
  "preserves scim_wf (insert_scim_user org uid ext name act raw)"
  "(\<And>nw r. fu_id (f nw r) = fu_id r) \<Longrightarrow> (\<And>nw r. fu_org_id (f nw r) = fu_org_id r) \<Longrightarrow>
     (\<And>nw r. fu_user_id (f nw r) = fu_user_id r) \<Longrightarrow> preserves scim_wf (upd_scim_user i name f)"
  "preserves scim_wf (resolveLocalUser email name')"
  "preserves scim_wf (ensureConfig org)"
proof -
  show "preserves scim_wf (insert_scim_user org uid ext name act raw)"
    by (rule preserves_ok, erule (1) scim_wf_insert_user) (auto simp: insert_scim_user_def Let_def split: if_splits)
  show "preserves scim_wf (upd_scim_user i name f)" if "\<And>nw r. fu_id (f nw r) = fu_id r" "\<And>nw r. fu_org_id (f nw r) = fu_org_id r"
    "\<And>nw r. fu_user_id (f nw r) = fu_user_id r"
    by (rule preserves_ok, erule (1) scim_wf_upd_user[OF _ _ that])
      (auto simp: upd_scim_user_def split: if_splits option.splits)
  show "preserves scim_wf (resolveLocalUser email name')"
    by (rule preserves_ok, erule scim_wf_same, erule resolveLocalUser_same)
      (auto simp: resolveLocalUser_def bindM_Inl find_or_insert_run leafM split: option.splits)
  show "preserves scim_wf (ensureConfig org)"
    by (auto simp: preserves_def ensureConfig_def scim_wf_def split: option.splits)
qed

lemmas scim_state_intro = scim_wf_same[OF _ scim_same_writes(1)] scim_wf_same[OF _ scim_same_writes(2)]
  scim_wf_same[OF _ scim_same_writes(3)] scim_wf_same[OF _ scim_same_writes(4)] scim_wf_same[OF _ scim_same_writes(8)]
  scim_wf_delete_user

lemma preserves_users:
  "preserves scim_wf (scim_createUser env ctx body)" "preserves scim_wf (scim_replaceUser env ctx i body)"
  "preserves scim_wf (scim_patchUser env ctx i ops)" "preserves scim_wf (scim_deleteUser env ctx i)"
  unfolding scim_createUser_def scim_replaceUser_def scim_patchUser_def scim_deleteUser_def Let_def
  by ((intro preserve_intro scim_state_intro; simp)+)

lemma preserves_config:
  "preserves scim_wf (scim_getConfig env org u)" "preserves scim_wf (scim_updateConfig env p org req ip)"
  "preserves scim_wf (generateToken env rnd p org ip)" "preserves scim_wf (revokeToken p org ip)"
  unfolding scim_getConfig_def scim_updateConfig_def generateToken_def revokeToken_def Let_def
  by ((intro preserve_intro scim_state_intro; simp)+)

lemma preserves_authenticate: "preserves scim_wf (authenticate env org token)"
proof -
  have "preserves scim_wf (modifyM (upd_config org f))" for f by (rule preserves_same) simp
  then show ?thesis
    unfolding authenticate_def Let_def
    by (intro preserves_bindM preserve_intro) (auto split: option.splits intro!: preserve_intro intro: scim_state_intro)
qed

subsection \<open>Groups\<close>

lemma loadGroup_Inr: "scim_loadGroup env ctx i s = (Inr grp, t) \<Longrightarrow>
   t = s \<and> grp \<in> set (scim_groups s) \<and> fg_id grp = se_uuid_of env i \<and> fg_org_id grp = cx_orgId ctx"
  by (auto simp: scim_loadGroup_def svc_iffs dest!: find_SomeD)

text \<open>The shape of the three handlers that load a group and then run a transaction on it.\<close>

lemma group_handler_wf:
  assumes "\<And>grp s x t. group_wf ctx (fg_id grp) s \<Longrightarrow> m grp s = (Inr x, t) \<Longrightarrow> scim_wf t" "\<And>x. preserves scim_wf (k x)"
  shows "preserves scim_wf (bindM (scim_loadGroup env ctx i) (\<lambda>grp. bindM (tx (m grp)) k))"
proof -
  have "scim_wf (snd (bindM (scim_loadGroup env ctx i) (\<lambda>grp. bindM (tx (m grp)) k) s))" if "scim_wf s" for s
  proof (rule snd_bindM_ro[where I = scim_wf, OF readonly_loads(2) that])
    fix grp assume "scim_loadGroup env ctx i s = (Inr grp, s)"
    with that have g: "group_wf ctx (fg_id grp) s"
      by (auto simp: group_wf_def own_group_def dest!: loadGroup_Inr)
    show "scim_wf (snd (bindM (tx (m grp)) k s))"
    proof (cases "m grp s")
      case (Pair r t)
      show ?thesis
      proof (cases r)
        case (Inl e)
        then show ?thesis using Pair that by (simp add: bindM_def tx_def)
      next
        case (Inr x)
        then have "scim_wf t" using assms(1)[OF g] Pair by blast
        then show ?thesis using Inr Pair preservesD[OF assms(2)] by (simp add: bindM_def tx_def)
      qed
    qed
  qed
  then show ?thesis by (simp add: preserves_def)
qed

lemma recompute_wf: "group_wf ctx g s \<Longrightarrow> recomputeRoles c us s = (Inr x, t) \<Longrightarrow> scim_wf t"
  using recomputeRoles_same[of c us s] scim_wf_same[of s] by (auto simp: group_wf_def)

lemma preserves_patchGroup: "preserves scim_wf (scim_patchGroup env ctx i ops)"
  unfolding scim_patchGroup_def thenM_def[of "tx _"]
proof (rule group_handler_wf)
  fix grp s x t
  assume g: "group_wf ctx (fg_id grp) s" and "bindM (patch_group_ops env ctx (fg_id grp) ops) (recomputeRoles ctx) s = (Inr x, t)"
  then obtain us s1 where us: "patch_group_ops env ctx (fg_id grp) ops s = (Inr us, s1)" and t: "recomputeRoles ctx us s1 = (Inr x, t)"
    unfolding bindM_Inr by blast
  show "scim_wf t" by (rule recompute_wf[OF patch_ops_wf[OF g us] t])
qed (intro preserve_intro)

lemma preserves_replaceGroup: "preserves scim_wf (scim_replaceGroup env ctx i body)"
  unfolding scim_replaceGroup_def thenM_def[of "tx _"]
proof (rule group_handler_wf)
  fix grp s x t
  assume g: "group_wf ctx (fg_id grp) s"
    and r: "thenM (case truthy (gb_displayName body) of
         None \<Rightarrow> returnM ()
       | Some n \<Rightarrow> upd_scim_group (fg_id grp) (trim n) (\<lambda>r. r\<lparr>fg_external_id :=
           (case gb_externalId body of None \<Rightarrow> fg_external_id grp | Some e \<Rightarrow> Some e)\<rparr>))
      (bindM (getsM (memberUserIds (fg_id grp))) (\<lambda>before.
       bindM (scim_setMembers env ctx (fg_id grp) (gb_members body)) (\<lambda>after. recomputeRoles ctx (before @ after)))) s = (Inr x, t)"
  from r obtain s1 us s2 where s1: "group_wf ctx (fg_id grp) s1"
    and us: "scim_setMembers env ctx (fg_id grp) (gb_members body) s1 = (Inr us, s2)"
    and t: "recomputeRoles ctx (memberUserIds (fg_id grp) s1 @ us) s2 = (Inr x, t)"
    using g by (auto simp: thenM_Inr bindM_Inr leafM split: option.splits dest: group_wf_upd_group)
  show "scim_wf t" using recompute_wf[OF setMembers_wf[OF s1 us] t] .
qed (intro preserve_intro)

lemma preserves_deleteGroup: "preserves scim_wf (scim_deleteGroup env ctx i)"
proof -
  have "preserves scim_wf (recomputeRoles ctx us)" for us
    using recomputeRoles_same[of ctx us] scim_wf_same by (fastforce simp: preserves_def)
  then show ?thesis
    unfolding scim_deleteGroup_def by (intro preserve_intro) (auto intro: scim_wf_delete_group)
qed

lemma preserves_createGroup: "preserves scim_wf (scim_createGroup env ctx body)"
proof -
  let ?name = "trim (str_or_empty (gb_displayName body))"
  have "preserves scim_wf (tx (bindM (insert_scim_group (cx_orgId ctx) (gb_externalId body) ?name) (\<lambda>grp.
      bindM (scim_setMembers env ctx (fg_id grp) (gb_members body)) (\<lambda>ids. thenM (recomputeRoles ctx ids) (returnM grp)))))"
  proof (rule preserves_tx_ok)
    fix s x t
    assume w: "scim_wf s" and "bindM (insert_scim_group (cx_orgId ctx) (gb_externalId body) ?name) (\<lambda>grp.
      bindM (scim_setMembers env ctx (fg_id grp) (gb_members body)) (\<lambda>ids. thenM (recomputeRoles ctx ids) (returnM grp))) s = (Inr x, t)"
    then obtain grp s1 ids s2 where g: "insert_scim_group (cx_orgId ctx) (gb_externalId body) ?name s = (Inr grp, s1)"
      and m: "scim_setMembers env ctx (fg_id grp) (gb_members body) s1 = (Inr ids, s2)" and r: "recomputeRoles ctx ids s2 = (Inr (), t)"
      by (auto simp: bindM_Inr thenM_Inr leafM)
    have "group_wf ctx (fg_id grp) s1" using scim_wf_insert_group[OF w g] by (auto simp: group_wf_def own_group_def)
    from recompute_wf[OF setMembers_wf[OF this m] r] show "scim_wf t" .
  qed
  then show ?thesis
    unfolding scim_createGroup_def Let_def by (intro preserves_bindM preserves_thenM preserves_basic preserves_loads)
qed

subsection \<open>Sequences of calls\<close>

inductive scim_step :: "scim_env \<Rightarrow> 'z scim_db_scheme \<Rightarrow> 'z scim_db_scheme \<Rightarrow> bool" for env where
  get_config: "scim_step env s (snd (scim_getConfig env org u s))"
| update_config: "scim_step env s (snd (scim_updateConfig env p org req ip s))"
| new_token: "scim_step env s (snd (generateToken env rnd p org ip s))"
| revoke: "scim_step env s (snd (revokeToken p org ip s))"
| auth: "scim_step env s (snd (authenticate env org token s))"
| create_user: "scim_step env s (snd (scim_createUser env ctx body s))"
| replace_user: "scim_step env s (snd (scim_replaceUser env ctx i body s))"
| patch_user: "scim_step env s (snd (scim_patchUser env ctx i ops s))"
| delete_user: "scim_step env s (snd (scim_deleteUser env ctx i s))"
| create_group: "scim_step env s (snd (scim_createGroup env ctx grp s))"
| patch_group: "scim_step env s (snd (scim_patchGroup env ctx i ops s))"
| replace_group: "scim_step env s (snd (scim_replaceGroup env ctx i grp s))"
| delete_group: "scim_step env s (snd (scim_deleteGroup env ctx i s))"

lemmas scim_preserved = preserves_users preserves_config preserves_authenticate preserves_createGroup preserves_patchGroup
  preserves_replaceGroup preserves_deleteGroup

lemma scim_step_wf: "scim_step env s t \<Longrightarrow> scim_wf s \<Longrightarrow> scim_wf t"
  by (induction rule: scim_step.induct) (rule preservesD, rule scim_preserved, assumption)+

text \<open>
  C21: whatever calls the console and the identity providers make, in whatever order and with whatever
  outcome, identifiers stay unique, no organization has two SCIM users for one account or with
  one name up to case, none has two groups with one name up to case, and every member of a group is a
  user of the organization the group belongs to.
\<close>

theorem scim_tables_stay_wf:
  assumes "(scim_step env)\<^sup>*\<^sup>* s t" "scim_wf s"
  shows "scim_wf t"
  using assms by (induction rule: rtranclp_induct) (auto intro: scim_step_wf)

section \<open>Roles follow groups\<close>

lemma upsert_role_scim [simp]:
  "scim_users (upsert_role org i r s) = scim_users s" "scim_groups (upsert_role org i r s) = scim_groups s"
  "scim_group_members (upsert_role org i r s) = scim_group_members s" for s :: "'z scim_db_scheme"
  by (simp_all add: upsert_role_def)

lemma recompute_role_simps:
  "memberRole (recompute_role ctx u s) o' v = (if o' = cx_orgId ctx \<and> v = u then
     Some (resolveRole (group_names s (cx_orgId ctx) u) (fc_group_role_map (cx_config ctx)) (fc_default_role (cx_config ctx)))
     else memberRole s o' v)"
  "group_names (recompute_role ctx u s) org w = group_names s org w"
  "memberUserIds g (recompute_role ctx u s) = memberUserIds g s"
  by (simp_all add: recompute_role_def memberRole_upsert group_names_def memberUserIds_def cong: if_cong)

definition group_role :: "scim_context \<Rightarrow> 'z scim_db_scheme \<Rightarrow> uuid \<Rightarrow> org_role" where
  "group_role ctx s v = resolveRole (group_names s (cx_orgId ctx) v) (fc_group_role_map (cx_config ctx)) (fc_default_role (cx_config ctx))"

lemma recomputeRoles_effect:
  assumes "recomputeRoles ctx us s = (Inr x, t)"
  shows "(\<forall>o' v. memberRole t o' v = (if o' = cx_orgId ctx \<and> v \<in> set us then Some (group_role ctx s v) else memberRole s o' v)) \<and>
    (\<forall>org v. group_names t org v = group_names s org v) \<and> (\<forall>g. memberUserIds g t = memberUserIds g s)"
proof -
  have "(\<forall>o' v. memberRole t o' v = (if o' = cx_orgId ctx \<and> v \<in> set vs then Some (group_role ctx s v) else memberRole s o' v)) \<and>
      (\<forall>org v. group_names t org v = group_names s org v) \<and> (\<forall>g. memberUserIds g t = memberUserIds g s)"
    if "forM vs (\<lambda>u. modifyM (recompute_role ctx u)) s = (Inr x, t)" for vs
    using that
  proof (induction vs arbitrary: s)
    case Nil
    then show ?case by (simp add: leafM)
  next
    case (Cons v vs)
    from Cons.prems have "forM vs (\<lambda>u. modifyM (recompute_role ctx u)) (recompute_role ctx v s) = (Inr x, t)"
      by (simp add: thenM_modifyM)
    from Cons.IH[OF this] show ?case by (auto simp: recompute_role_simps group_role_def)
  qed
  from this[of "js_dedupe us"] assms show ?thesis by (simp add: recomputeRoles_def)
qed

lemma memberUserIds_set: "set (memberUserIds g s) = fu_user_id ` {r \<in> set (scim_users s). (g, fu_id r) \<in> set (scim_group_members s)}"
  by (auto simp: memberUserIds_def split: if_splits)

lemma scim_row_unique:
  assumes "distinct (map fu_id (scim_users s))" "scim_row env ctx sid s = Some r"
  shows "{x \<in> set (scim_users s). fu_id x = se_uuid_of env sid} = {r}"
  using assms by (auto simp: scim_row_def distinct_map dest!: find_SomeD intro: inj_onD)

lemma memberUserIds_add_link:
  assumes "distinct (map fu_id (scim_users s))" "scim_row env ctx sid s = Some r"
  shows "set (memberUserIds g (add_link g (se_uuid_of env sid) s)) = insert (fu_user_id r) (set (memberUserIds g s))"
proof -
  have "{x \<in> set (scim_users s). (g, fu_id x) \<in> set (scim_group_members (add_link g (se_uuid_of env sid) s))} =
      insert r {x \<in> set (scim_users s). (g, fu_id x) \<in> set (scim_group_members s)}"
    using scim_row_unique[OF assms] assms(2) by (auto simp: add_link_def scim_row_def dest!: find_SomeD)
  moreover have "scim_users (add_link g (se_uuid_of env sid) s) = scim_users s" by (simp add: add_link_def)
  ultimately show ?thesis by (simp only: memberUserIds_set image_insert)
qed

lemma addMembers_effect:
  assumes "distinct (map fu_id (scim_users s))" "scim_addMembers env ctx g sids s = (Inr us, t)"
  shows "org_members t = org_members s \<and> set (memberUserIds g t) = set (memberUserIds g s) \<union> set us"
  using assms
proof (induction sids arbitrary: s us)
  case Nil
  then show ?case by (simp add: leafM)
next
  case (Cons sid sids)
  show ?case
  proof (cases "isUuid sid \<and> scim_row env ctx sid s \<noteq> None")
    case True
    then obtain r where r: "scim_row env ctx sid s = Some r" by auto
    with True Cons.prems(2) obtain vs where vs: "scim_addMembers env ctx g sids (add_link g (se_uuid_of env sid) s) = (Inr vs, t)"
      and us: "us = fu_user_id r # vs"
      by (auto simp: bindM_getsM thenM_modifyM bindM_Inr leafM)
    have "distinct (map fu_id (scim_users (add_link g (se_uuid_of env sid) s)))" "org_members (add_link g (se_uuid_of env sid) s) = org_members s"
      using Cons.prems(1) by (simp_all add: add_link_def)
    with Cons.IH[OF _ vs] show ?thesis by (simp add: us memberUserIds_add_link[OF Cons.prems(1) r])
  next
    case False
    with Cons.prems(2) have "scim_addMembers env ctx g sids s = (Inr us, t)"
      by (auto simp: bindM_getsM split: if_splits)
    with Cons.IH[OF Cons.prems(1)] show ?thesis by blast
  qed
qed

lemma setMembers_effect:
  assumes "distinct (map fu_id (scim_users s))" "scim_setMembers env ctx g sids s = (Inr us, t)"
  shows "org_members t = org_members s \<and> set (memberUserIds g t) = set us"
proof -
  let ?s = "s\<lparr>scim_group_members := filter (\<lambda>(x, m). x \<noteq> g) (scim_group_members s)\<rparr>"
  have "set (memberUserIds g ?s) = {}" by (auto simp: memberUserIds_set)
  then show ?thesis
    using addMembers_effect[of ?s env ctx g sids us t] assms by (simp add: scim_setMembers_def thenM_modifyM)
qed

lemma upd_group_frame:
  "upd_scim_group i n f s = (Inr x, t) \<Longrightarrow>
     scim_users t = scim_users s \<and> scim_group_members t = scim_group_members s \<and> org_members t = org_members s"
  by (auto simp: upd_scim_group_def split: if_splits)


section \<open>A concrete organization\<close>

definition idp_env :: scim_env where
  "idp_env = \<lparr>se_sha256 = (\<lambda>x. CHR ''h'' # x),
     se_uuid_of = (\<lambda>v. if v = ''00000000-0000-0000-0000-000000000015'' then 15 else 16),
     se_uuid_text = show_nat, se_JM_API_HOST = Some ''api.x.io'', se_SSO_CALLBACK_BASE_URL = None\<rparr>"

definition idp_config :: scim_config_row where
  "idp_config = (default_config 20 0)\<lparr>fc_token_hash := Some ''htok'', fc_group_role_map := [(''ops'', Viewer)]\<rparr>"

definition idp_ctx :: scim_context where
  "idp_ctx = \<lparr>cx_orgId = 20, cx_config = idp_config\<rparr>"

definition scim_acme :: scim_db where
  "scim_acme = db.extend acme (scim_db.fields [idp_config]
     [\<lparr>fu_id = 15, fu_org_id = 20, fu_user_id = 11, fu_external_id = None, fu_user_name = ''alice@x.io'', fu_active = True,
       fu_raw = \<lparr>rw_name = None, rw_displayName = None\<rparr>, fu_created_at = 0, fu_updated_at = 0\<rparr>]
     [\<lparr>fg_id = 16, fg_org_id = 20, fg_external_id = None, fg_display_name = ''ops'', fg_created_at = 0, fg_updated_at = 0\<rparr>] [])"

lemma scim_acme_eval:
  "scim_configs scim_acme = [idp_config]" "users scim_acme = [alice, bob]" "now scim_acme = 0" "next_id scim_acme = 22"
  "org_members scim_acme = [\<lparr>m_org_id = 20, m_user_id = 11, m_role = Owner, m_created_at = 0\<rparr>]" "api_keys scim_acme = []"
  "scim_users scim_acme = [\<lparr>fu_id = 15, fu_org_id = 20, fu_user_id = 11, fu_external_id = None, fu_user_name = ''alice@x.io'',
     fu_active = True, fu_raw = \<lparr>rw_name = None, rw_displayName = None\<rparr>, fu_created_at = 0, fu_updated_at = 0\<rparr>]"
  "scim_groups scim_acme = [\<lparr>fg_id = 16, fg_org_id = 20, fg_external_id = None, fg_display_name = ''ops'', fg_created_at = 0,
     fg_updated_at = 0\<rparr>]"
  "scim_group_members scim_acme = []"
  by (simp_all add: scim_acme_def db.defs scim_db.defs acme_eval)

lemma scim_acme_wf: "scim_wf scim_acme"
  by (simp add: scim_wf_def scim_acme_eval ids_below_def)

lemma idp_uuids: "isUuid ''00000000-0000-0000-0000-000000000015''" "isUuid ''00000000-0000-0000-0000-000000000016''"
  by (simp_all add: isUuid_def is_hex_def is_digit_def)

definition ops_body :: scim_group where
  "ops_body = \<lparr>gb_externalId = None, gb_displayName = None, gb_members = [''00000000-0000-0000-0000-000000000015'']\<rparr>"

lemma ops_replaced:
  "\<exists>out. scim_replaceGroup idp_env idp_ctx ''00000000-0000-0000-0000-000000000016'' ops_body scim_acme =
     (Inr out, scim_acme\<lparr>scim_group_members := [(16, 15)],
        org_members := [\<lparr>m_org_id = 20, m_user_id = 11, m_role = Viewer, m_created_at = 0\<rparr>]\<rparr>)"
  by (simp add: scim_replaceGroup_def scim_loadGroup_def ops_body_def truthy_def scim_setMembers_def scim_row_def add_link_def
      memberUserIds_def recomputeRoles_def recompute_role_def js_dedupe_def group_names_def scim_toGroup_def upsert_role_def tx_def
      thenM_def bindM_def getsM_def modifyM_def returnM_def throwIf_def someM_def idp_uuids idp_env_def idp_ctx_def idp_config_def
      default_config_def scim_acme_eval resolveRole_def better_role_def normalizedMap_def normalizeDn_def toLowerCase_def js_lower_def
      trim_def trimStart_def trimEnd_def js_space_def)


text \<open>A group change can leave an organization without an owner: the role check of the console does not apply here.\<close>

lemma scim_takes_last_owner:
  "has_owner scim_acme 20 \<and>
   \<not> has_owner (snd (scim_replaceGroup idp_env idp_ctx ''00000000-0000-0000-0000-000000000016'' ops_body scim_acme)) 20"
  using ops_replaced by (auto simp: has_owner_def scim_acme_eval)

theorem scim_tables_stay_wf_witness:
  "scim_wf (snd (scim_replaceGroup idp_env idp_ctx ''00000000-0000-0000-0000-000000000016'' ops_body scim_acme))"
  by (rule scim_tables_stay_wf[OF r_into_rtranclp[of "scim_step idp_env", OF scim_step.replace_group] scim_acme_wf])

theorem scim_token_roundtrip_witness:
  "\<exists>t. generateToken idp_env ''r1'' (as_user 11) 20 None scim_acme = (Inr \<lparr>tr_token = ''scim_r1'', tr_base_url = baseUrl idp_env 20\<rparr>, t) \<and>
     (\<exists>ctx u. authenticate idp_env 20 ''scim_r1'' t = (Inr ctx, u)) \<and> \<not> (\<exists>ctx u. authenticate idp_env 20 ''tok'' t = (Inr ctx, u))"
proof -
  have role: "requireRole 20 11 Admin scim_acme = (Inr Owner, scim_acme)"
    by (simp add: requireRole_Inr effectiveRole_def memberRole_def scim_acme_eval)
  obtain t where r: "generateToken idp_env ''r1'' (as_user 11) 20 None scim_acme = (Inr \<lparr>tr_token = ''scim_r1'', tr_base_url = baseUrl idp_env 20\<rparr>, t)"
    and c: "find_config 20 t = Some (idp_config\<lparr>fc_token_hash := Some ''hscim_r1'', fc_token_prefix := Some ''scim_r1'', fc_updated_at := 0\<rparr>)"
    by (simp add: generateToken_def thenM_def bindM_def role as_user_def ensureConfig_def find_config_def upd_config_def modifyM_def
        audit_log_run audit_insert_def returnM_def scim_acme_eval idp_config_def default_config_def idp_env_def Let_def)
  have "fc_enabled (idp_config\<lparr>fc_token_hash := Some ''hscim_r1'', fc_token_prefix := Some ''scim_r1'', fc_updated_at := 0\<rparr>)"
    by (simp add: idp_config_def default_config_def)
  moreover have "\<And>x. se_sha256 idp_env x \<noteq> []" by (simp add: idp_env_def)
  ultimately have "(\<exists>ctx u. authenticate idp_env 20 ''scim_r1'' t = (Inr ctx, u))" "\<not> (\<exists>ctx u. authenticate idp_env 20 ''tok'' t = (Inr ctx, u))"
    using scim_token_roundtrip[OF r _ c, of "''scim_r1''"] scim_token_roundtrip[OF r _ c, of "''tok''"] by (simp_all add: idp_env_def)
  with r show ?thesis by blast
qed

end
