(* ===== verification/JM_ScimGuard.thy ===== *)
theory JM_ScimGuard
  imports JM_ScimFacts JM_Guard
begin

text \<open>
  Where provisioning meets authentication: the guard of the SCIM endpoints
  (\<open>apps/api/src/scim/scim.guard.ts\<close>), and what suspending an account by SCIM does to the sessions of
  \<open>AuthService\<close>. How the database reads the organization in the route is a parameter of the guard;
  \<open>None\<close> is a text it rejects.
\<close>

definition scim_canActivate ::
  "scim_env \<Rightarrow> (string \<Rightarrow> uuid option) \<Rightarrow> string option \<Rightarrow> http_request \<Rightarrow> ('z scim_db_scheme, scim_context) svc" where
  "scim_canActivate env read_uuid param req =
     (let orgId = str_or_empty param in
      if orgId = [] then throwM (UnauthorizedException ''Missing SCIM credentials'' None)
      else case extractBearer req of
             None \<Rightarrow> throwM (UnauthorizedException ''Missing SCIM credentials'' None)
           | Some token \<Rightarrow>
               (case read_uuid orgId of
                  None \<Rightarrow> throwM (DbError ''22P02'')
                | Some i \<Rightarrow> authenticate env i token))"

lemma authenticate_Inr:
  "authenticate env orgId token s = (Inr ctx, t) \<Longrightarrow> cx_orgId ctx = orgId \<and> find_config orgId s = Some (cx_config ctx) \<and>
     fc_enabled (cx_config ctx) \<and> fc_token_hash (cx_config ctx) = Some (se_sha256 env token)"
  by (cases "find_config orgId s"; cases "truthy (fc_token_hash (the (find_config orgId s)))")
    (auto simp: authenticate_def bindM_getsM throwM_def Let_def thenM_Inr throwIf_Inr leafM truthy_def split: if_splits)

text \<open>
  a SCIM request gets in only for the organization named in its address, and only with a bearer token
  whose digest is the one stored for that organization while SCIM is enabled there; a refused request changes nothing.
\<close>

theorem scim_guard_admits_only_token_holder:
  "(\<forall>ctx t. scim_canActivate env read_uuid param req s = (Inr ctx, t) \<longrightarrow>
      (\<exists>org token. param = Some org \<and> extractBearer req = Some token \<and> read_uuid org = Some (cx_orgId ctx) \<and>
         find_config (cx_orgId ctx) s = Some (cx_config ctx) \<and> fc_enabled (cx_config ctx) \<and>
         fc_token_hash (cx_config ctx) = Some (se_sha256 env token))) \<and>
   (\<forall>e t. scim_canActivate env read_uuid param req s = (Inl e, t) \<longrightarrow> t = s)"
proof (intro conjI allI impI)
  fix ctx t
  assume "scim_canActivate env read_uuid param req s = (Inr ctx, t)"
  then show "\<exists>org token. param = Some org \<and> extractBearer req = Some token \<and> read_uuid org = Some (cx_orgId ctx) \<and>
         find_config (cx_orgId ctx) s = Some (cx_config ctx) \<and> fc_enabled (cx_config ctx) \<and>
         fc_token_hash (cx_config ctx) = Some (se_sha256 env token)"
    by (auto simp: scim_canActivate_def str_or_empty_def throwM_def Let_def split: option.splits if_splits dest!: authenticate_Inr)
next
  fix e t
  have a: "authenticate env i token s = (Inl e, t) \<Longrightarrow> t = s" for i token
    by (cases "find_config i s"; cases "truthy (fc_token_hash (the (find_config i s)))")
      (auto simp: authenticate_def bindM_getsM throwM_def Let_def thenM_Inl thenM_Inr throwIf_Inl throwIf_Inr leafM split: if_splits)
  assume "scim_canActivate env read_uuid param req s = (Inl e, t)"
  then show "t = s"
    by (auto simp: scim_canActivate_def throwM_def Let_def split: option.splits if_splits dest: a)
qed

lemma applyActive_suspends:
  assumes "u \<in> set (users (applyActive i False s))" "u_id u = i"
  shows "u_status u = ''suspended''"
proof -
  from assms(1) obtain v where v: "v \<in> set (users s)"
    and u: "u = (if u_id v = i \<and> True then (v\<lparr>u_status := ''suspended''\<rparr>)\<lparr>u_updated_at := now s\<rparr> else v)"
    by (auto simp: applyActive_def set_status_def simp del: if_image_distrib)
  from assms(2) show ?thesis unfolding u by (cases "u_id v = i") simp_all
qed


section \<open>Witnesses\<close>

definition scim_req :: http_request where
  "scim_req = \<lparr>rq_jm_app = None, rq_origin = None, rq_referer = None, rq_authorization = Some ''bearer tok'', rq_cookie = None,
     rq_cookies = (\<lambda>_. None)\<rparr>"

theorem scim_guard_admits_only_token_holder_witness:
  "\<exists>ctx t. scim_canActivate idp_env (\<lambda>_. Some 20) (Some ''o'') scim_req scim_acme = (Inr ctx, t) \<and> cx_orgId ctx = 20 \<and>
     fc_token_hash (cx_config ctx) = Some ''htok''"
proof -
  have b: "extractBearer scim_req = Some ''tok''"
    by (simp add: extractBearer_def scim_req_def toLowerCase_def js_lower_def js_space_def line_end_def trim_def trimStart_def trimEnd_def)
  have "\<exists>ctx t. authenticate idp_env 20 ''tok'' scim_acme = (Inr ctx, t)"
    unfolding authenticate_iff by (simp add: find_config_def scim_acme_eval idp_config_def default_config_def idp_env_def)
  then obtain ctx t where r: "scim_canActivate idp_env (\<lambda>_. Some 20) (Some ''o'') scim_req scim_acme = (Inr ctx, t)"
    by (auto simp: scim_canActivate_def str_or_empty_def b)
  with scim_guard_admits_only_token_holder[of idp_env "\<lambda>_. Some 20" "Some ''o''" scim_req scim_acme] b
  have "cx_orgId ctx = 20" "fc_token_hash (cx_config ctx) = Some (se_sha256 idp_env ''tok'')" by auto
  with r show ?thesis by (auto simp: idp_env_def)
qed

definition off_ops :: "patch_op list" where
  "off_ops = [\<lparr>po_op = ''replace'', po_path = Some ''active'', po_value = Some (JBool False)\<rparr>]"

definition bob_session :: session_row where
  "bob_session = \<lparr>s_id = 3, s_user_id = 12, s_token_hash = ''b'', s_ip = None, s_user_agent = None, s_expires_at = 9, s_created_at = 0,
     s_mailbox_id = None\<rparr>"

definition live_acme :: scim_db where
  "live_acme = scim_acme\<lparr>sessions := [bob_session, bob_session\<lparr>s_id := 4, s_user_id := 11, s_token_hash := ''a''\<rparr>]\<rparr>"

lemma off_run:
  "\<exists>out t. scim_patchUser idp_env idp_ctx ''00000000-0000-0000-0000-000000000015'' off_ops live_acme = (Inr out, t) \<and> \<not> uo_active out \<and>
     sessions t = sessions live_acme \<and> users t = [alice\<lparr>u_status := ''suspended''\<rparr>, bob] \<and> now t = 0"
  by (simp add: scim_patchUser_def Let_def scim_loadUser_def off_ops_def patch_user_op_def lower_path_def str_or_empty_def toBool_def toUser_def
      upd_scim_user_def applyActive_def set_status_def tx_def thenM_def bindM_def getsM_def modifyM_def returnM_def throwIf_def someM_def
      idp_uuids idp_env_def idp_ctx_def live_acme_def scim_acme_eval toLowerCase_def js_lower_def alice_def bob_def)


end
