(* ===== verification/JM_Sso.thy ===== *)
theory JM_Sso
  imports JM_Auth JM_Scim
begin

text \<open>
  Single sign-on: \<open>SsoService\<close> (\<open>apps/api/src/sso/sso.service.ts\<close>), the OpenID Connect client
  (\<open>apps/api/src/sso/oidc.ts\<close>) and the use of the SAML library (\<open>apps/api/src/sso/saml.ts\<close>). The tables of
  migration \<open>0008_sso.sql\<close> and the two in-memory caches of the client extend the database. The answers of the
  identity providers, the decoding of a token part, public keys and signatures, the SAML library, the URL class, how
  the database driver writes a value as text and random values are parameters. An error thrown as a plain \<open>Error\<close>, or by the engine on a value of the wrong shape,
  is the exception \<open>js_error\<close>.
\<close>

section \<open>Data\<close>

datatype sso_kind = Oidc | Saml

record oidc_config =
  oc_issuer :: string
  oc_client_id :: string
  oc_scopes :: "string list"
  oc_email_claim :: string
  oc_name_claim :: string

record saml_config =
  sl_entry_point :: string
  sl_idp_issuer :: string
  sl_idp_cert :: string
  sl_email_attribute :: string
  sl_name_attribute :: string
  sl_want_assertions_signed :: bool
  sl_signature_algorithm :: string

datatype provider_config = OidcCfg oidc_config | SamlCfg saml_config

record provider_row =
  sp_id :: uuid
  sp_org_id :: uuid
  sp_kind :: sso_kind
  sp_name :: string
  sp_enabled :: bool
  sp_email_domain :: "string option"
  sp_auto_provision :: bool
  sp_default_role :: org_role
  sp_config :: provider_config
  sp_secret_enc :: "string option"
  sp_created_by :: "uuid option"
  sp_created_at :: timestamp
  sp_updated_at :: timestamp

record flow_row =
  fl_id :: uuid
  fl_provider_id :: uuid
  fl_state :: string
  fl_code_verifier :: "string option"
  fl_nonce :: "string option"
  fl_relay_target :: string
  fl_expires_at :: timestamp

record sso_identity_row =
  si_provider_id :: uuid
  si_subject :: string
  si_user_id :: uuid
  si_last_login_at :: "timestamp option"

record oidc_discovery =
  od_issuer :: "string option"
  od_authorization_endpoint :: "string option"
  od_token_endpoint :: "string option"
  od_jwks_uri :: "string option"

type_synonym jwk = "(string \<times> json) list"

record 'k sso_env =
  ov_fetch_discovery :: "string \<Rightarrow> exn + oidc_discovery"
  ov_fetch_keys :: "string \<Rightarrow> exn + jwk list"
  ov_exchange :: "string \<Rightarrow> (string \<times> string) list \<Rightarrow> string option \<Rightarrow> exn + string option"
  ov_basic :: "string \<Rightarrow> string \<Rightarrow> string"
  ov_decode :: "string \<Rightarrow> json option"
  ov_public_key :: "jwk \<Rightarrow> 'k option"
  ov_verify :: "string \<Rightarrow> bool \<Rightarrow> string \<Rightarrow> 'k \<Rightarrow> string \<Rightarrow> bool"
  ov_challenge :: "string \<Rightarrow> string"
  ov_url_with :: "string \<Rightarrow> (string \<times> string) list \<Rightarrow> string option"
  ov_origin :: "string \<Rightarrow> string option"
  ov_seal :: "string \<Rightarrow> string"
  ov_open :: "string \<Rightarrow> string option"
  ov_uuid_text :: "uuid \<Rightarrow> string"
  ov_bind_text :: "json \<Rightarrow> string"
  ov_cache_ttl_ms :: int
  ov_flow_ttl_ms :: int
  ov_SSO_CALLBACK_BASE_URL :: "string option"
  ov_SSO_DEFAULT_RELAY_URL :: "string option"
  ov_JM_API_HOST :: "string option"
  ov_JM_ADMIN_HOST :: "string option"
  ov_JM_WEBMAIL_HOST :: "string option"
  ov_JM_WEB_HOST :: "string option"

record sso_db = db +
  sso_providers :: "provider_row list"
  sso_identities :: "sso_identity_row list"
  sso_login_flows :: "flow_row list"
  discovery_cache :: "string \<Rightarrow> (oidc_discovery \<times> timestamp) option"
  jwks_cache :: "string \<Rightarrow> (jwk list \<times> timestamp) option"

record sso_routing =
  rt_name :: string
  rt_enabled :: bool
  rt_email_domain :: "string option"
  rt_auto_provision :: bool
  rt_default_role :: org_role

datatype sso_provider_request = OidcReq sso_routing oidc_config "string option" | SamlReq sso_routing saml_config

record sso_provider =
  sd_id :: uuid
  sd_org_id :: uuid
  sd_kind :: sso_kind
  sd_name :: string
  sd_enabled :: bool
  sd_email_domain :: "string option"
  sd_auto_provision :: bool
  sd_default_role :: org_role
  sd_oidc :: "oidc_config option"
  sd_saml :: "saml_config option"
  sd_has_secret :: bool
  sd_login_url :: string
  sd_callback_url :: string
  sd_acs_url :: string
  sd_metadata_url :: string
  sd_created_at :: timestamp
  sd_updated_at :: timestamp

record sso_discovery =
  dv_provider_id :: uuid
  dv_kind :: sso_kind
  dv_name :: string
  dv_login_url :: string

record sso_session_result =
  sr_token :: string
  sr_expires_at :: timestamp
  sr_relay :: string

definition js_error :: exn where
  "js_error = HttpException 500 ''Error'' None"

definition exceptM :: "exn + 'a \<Rightarrow> ('s, 'a) svc" where
  "exceptM r = (case r of Inl e \<Rightarrow> throwM e | Inr x \<Rightarrow> returnM x)"

section \<open>Addresses\<close>

definition strip_slash :: "string \<Rightarrow> string" where
  "strip_slash base = (if base \<noteq> [] \<and> last base = CHR ''/'' then butlast base else base)"

definition callbackBase :: "'k sso_env \<Rightarrow> exn + string" where
  "callbackBase env =
     (case (case ov_SSO_CALLBACK_BASE_URL env of
              Some u \<Rightarrow> Some u
            | None \<Rightarrow> map_option (\<lambda>h. ''https://'' @ h) (truthy (ov_JM_API_HOST env))) of
        Some base \<Rightarrow> if base = [] then Inl (HttpException 503 ''SSO is not configured''
            (Some ''Set SSO_CALLBACK_BASE_URL or JM_API_HOST to enable SSO.'')) else Inr (strip_slash base)
      | None \<Rightarrow> Inl (HttpException 503 ''SSO is not configured''
            (Some ''Set SSO_CALLBACK_BASE_URL or JM_API_HOST to enable SSO.'')))"

record sso_endpoints =
  ep_login_url :: string
  ep_callback_url :: string
  ep_acs_url :: string
  ep_metadata_url :: string

definition endpoints :: "'k sso_env \<Rightarrow> uuid \<Rightarrow> exn + sso_endpoints" where
  "endpoints env i =
     (case callbackBase env of
        Inl e \<Rightarrow> Inl e
      | Inr base \<Rightarrow> let p = base @ ''/v1/auth/sso/'' @ ov_uuid_text env i in
          Inr \<lparr>ep_login_url = p @ ''/start'', ep_callback_url = p @ ''/callback'', ep_acs_url = p @ ''/acs'',
               ep_metadata_url = p @ ''/metadata''\<rparr>)"

definition allowedRelayOrigins :: "'k sso_env \<Rightarrow> string set" where
  "allowedRelayOrigins env = set (map (\<lambda>h. ''https://'' @ h)
     (List.map_filter truthy [ov_JM_ADMIN_HOST env, ov_JM_WEBMAIL_HOST env, ov_JM_WEB_HOST env]))"

definition defaultRelay :: "'k sso_env \<Rightarrow> exn + string" where
  "defaultRelay env =
     (case truthy (ov_SSO_DEFAULT_RELAY_URL env) of
        Some u \<Rightarrow> Inr u
      | None \<Rightarrow>
          (case truthy (case ov_JM_ADMIN_HOST env of Some h \<Rightarrow> Some h | None \<Rightarrow> ov_JM_WEB_HOST env) of
             Some h \<Rightarrow> Inr (''https://'' @ h)
           | None \<Rightarrow> callbackBase env))"

definition resolveRelay :: "'k sso_env \<Rightarrow> string option \<Rightarrow> exn + string" where
  "resolveRelay env requested =
     (case truthy requested of
        None \<Rightarrow> defaultRelay env
      | Some r \<Rightarrow>
          (case ov_origin env r of
             Some orig \<Rightarrow> if orig \<in> allowedRelayOrigins env then Inr r else defaultRelay env
           | None \<Rightarrow> defaultRelay env))"

section \<open>The OpenID Connect client\<close>

definition discover :: "'k sso_env \<Rightarrow> string \<Rightarrow> ('z sso_db_scheme, oidc_discovery) svc" where
  "discover env issuer = (\<lambda>s.
     let fetched = (case ov_fetch_discovery env (strip_slash issuer @ ''/.well-known/openid-configuration'') of
           Inl e \<Rightarrow> (Inl e, s)
         | Inr doc \<Rightarrow>
             if truthy (od_authorization_endpoint doc) = None \<or> truthy (od_token_endpoint doc) = None \<or> truthy (od_jwks_uri doc) = None
             then (Inl js_error, s)
             else (Inr doc, s\<lparr>discovery_cache := (discovery_cache s)(issuer \<mapsto> (doc, now s + ov_cache_ttl_ms env))\<rparr>))
     in case discovery_cache s issuer of
          Some (v, exp) \<Rightarrow> if exp > now s then (Inr v, s) else fetched
        | None \<Rightarrow> fetched)"

definition buildAuthUrl ::
  "'k sso_env \<Rightarrow> string \<Rightarrow> string \<Rightarrow> string \<Rightarrow> string list \<Rightarrow> string \<Rightarrow> string \<Rightarrow> string \<Rightarrow> string option" where
  "buildAuthUrl env endpoint clientId redirectUri scopes state nonce codeChallenge =
     ov_url_with env endpoint [(''response_type'', ''code''), (''client_id'', clientId), (''redirect_uri'', redirectUri),
       (''scope'', join '' '' scopes), (''state'', state), (''nonce'', nonce), (''code_challenge'', codeChallenge),
       (''code_challenge_method'', ''S256'')]"

definition exchangeCode ::
  "'k sso_env \<Rightarrow> string \<Rightarrow> string \<Rightarrow> string option \<Rightarrow> string \<Rightarrow> string \<Rightarrow> string \<Rightarrow> exn + string option" where
  "exchangeCode env endpoint clientId clientSecret code redirectUri codeVerifier =
     ov_exchange env endpoint [(''grant_type'', ''authorization_code''), (''code'', code), (''redirect_uri'', redirectUri),
       (''client_id'', clientId), (''code_verifier'', codeVerifier)]
       (map_option (\<lambda>sec. ''Basic '' @ ov_basic env clientId sec) (truthy clientSecret))"

definition load_keys :: "'k sso_env \<Rightarrow> string \<Rightarrow> bool \<Rightarrow> ('z sso_db_scheme, jwk list) svc" where
  "load_keys env jwksUri force = (\<lambda>s.
     let fetched = (case ov_fetch_keys env jwksUri of
           Inl e \<Rightarrow> (Inl e, s)
         | Inr keys \<Rightarrow> (Inr keys, s\<lparr>jwks_cache := (jwks_cache s)(jwksUri \<mapsto> (keys, now s + ov_cache_ttl_ms env))\<rparr>))
     in case jwks_cache s jwksUri of
          Some (v, exp) \<Rightarrow> if \<not> force \<and> exp > now s then (Inr v, s) else fetched
        | None \<Rightarrow> fetched)"

text \<open>\<open>k.kid === kid\<close>: only scalar values can be identical.\<close>

definition kid_is :: "json \<Rightarrow> jwk \<Rightarrow> bool" where
  "kid_is kid k = (case kid of JObj _ \<Rightarrow> False | JArr _ \<Rightarrow> False | _ \<Rightarrow> map_of k ''kid'' = Some kid)"

definition first_key :: "jwk list \<Rightarrow> jwk option" where
  "first_key keys = (case keys of [] \<Rightarrow> None | k # _ \<Rightarrow> Some k)"

definition pick_key :: "json option \<Rightarrow> jwk list \<Rightarrow> jwk option" where
  "pick_key kid keys =
     (case (case kid of Some v \<Rightarrow> if js_truthy v then find (kid_is v) keys else first_key keys | None \<Rightarrow> first_key keys) of
        Some k \<Rightarrow> Some k
      | None \<Rightarrow> first_key keys)"

definition resolveKey :: "'k sso_env \<Rightarrow> string \<Rightarrow> json option \<Rightarrow> ('z sso_db_scheme, 'k) svc" where
  "resolveKey env jwksUri kid =
     bindM (load_keys env jwksUri False) (\<lambda>keys.
     bindM (case pick_key kid keys of
              Some k \<Rightarrow> returnM (Some k)
            | None \<Rightarrow> bindM (load_keys env jwksUri True) (\<lambda>fresh. returnM (pick_key kid fresh))) (\<lambda>key.
     bindM (someM key js_error) (\<lambda>k.
     someM (ov_public_key env k) js_error)))"

text \<open>\<open>RS_HASH\<close> and \<open>ES_HASH\<close>: the digest, and whether the signature is an ECDSA one.\<close>

definition alg_hash :: "json option \<Rightarrow> (string \<times> bool) option" where
  "alg_hash alg = map_of [(''RS256'', (''sha256'', False)), (''RS384'', (''sha384'', False)), (''RS512'', (''sha512'', False)),
     (''ES256'', (''sha256'', True)), (''ES384'', (''sha384'', True)), (''ES512'', (''sha512'', True))]
     (case alg of Some v \<Rightarrow> js_string v | None \<Rightarrow> ''undefined'')"

definition claim :: "json \<Rightarrow> string \<Rightarrow> json option" where
  "claim c k = (case c of JObj kvs \<Rightarrow> map_of kvs k | _ \<Rightarrow> None)"

definition audiences :: "json option \<Rightarrow> json list" where
  "audiences aud = (case aud of Some (JArr vs) \<Rightarrow> vs | Some v \<Rightarrow> [v] | None \<Rightarrow> [])"

definition claims_ok :: "json \<Rightarrow> string option \<Rightarrow> string \<Rightarrow> string \<Rightarrow> int \<Rightarrow> bool" where
  "claims_ok c issuer clientId nonce nowSec =
     (c \<noteq> JNull \<and> claim c ''iss'' = map_option JStr issuer \<and> JStr clientId \<in> set (audiences (claim c ''aud'')) \<and>
      (case claim c ''exp'' of Some (JNum e) \<Rightarrow> \<not> e + 60 < nowSec | _ \<Rightarrow> True) \<and>
      (case claim c ''iat'' of Some (JNum i) \<Rightarrow> \<not> i - 60 > nowSec | _ \<Rightarrow> True) \<and>
      claim c ''nonce'' = Some (JStr nonce) \<and> (case claim c ''sub'' of Some v \<Rightarrow> js_truthy v | None \<Rightarrow> False))"

definition verifyIdToken ::
  "'k sso_env \<Rightarrow> string \<Rightarrow> string \<Rightarrow> string option \<Rightarrow> string \<Rightarrow> string \<Rightarrow> ('z sso_db_scheme, json) svc" where
  "verifyIdToken env idToken jwksUri issuer clientId nonce =
     (case split_on CHR ''.'' idToken of
        [headerB64, payloadB64, sigB64] \<Rightarrow>
          bindM (someM (ov_decode env headerB64) js_error) (\<lambda>header.
          thenM (throwIf (header = JNull) js_error)
         (bindM (resolveKey env jwksUri (claim header ''kid'')) (\<lambda>key.
          bindM (someM (alg_hash (claim header ''alg'')) js_error) (\<lambda>(hash, es).
          thenM (throwIf (\<not> ov_verify env hash es (headerB64 @ ''.'' @ payloadB64) key sigB64) js_error)
         (bindM (someM (ov_decode env payloadB64) js_error) (\<lambda>claims.
          bindM (getsM now) (\<lambda>nw.
          thenM (throwIf (\<not> claims_ok claims issuer clientId nonce (nw div 1000)) js_error)
         (returnM claims))))))))
      | _ \<Rightarrow> throwM js_error)"

section \<open>SAML\<close>

text \<open>\<open>s.replace(/pattern/g, "")\<close> for a literal pattern.\<close>

fun remove_literal :: "string \<Rightarrow> nat \<Rightarrow> string \<Rightarrow> string" where
  "remove_literal pat skip [] = []"
| "remove_literal pat (Suc n) (c # cs) = remove_literal pat n cs"
| "remove_literal pat 0 (c # cs) =
     (if pat \<noteq> [] \<and> startsWith (c # cs) pat then remove_literal pat (length pat - 1) cs else c # remove_literal pat 0 cs)"

definition normalizeCert :: "string \<Rightarrow> string" where
  "normalizeCert cert = filter (\<lambda>c. \<not> js_space c)
     (remove_literal ''-----END CERTIFICATE-----'' 0 (remove_literal ''-----BEGIN CERTIFICATE-----'' 0 cert))"

record saml_options =
  so_callbackUrl :: string
  so_entryPoint :: string
  so_issuer :: string
  so_idpCert :: string
  so_audience :: string
  so_signatureAlgorithm :: string
  so_wantAssertionsSigned :: bool

definition saml_build :: "saml_config \<Rightarrow> sso_endpoints \<Rightarrow> saml_options" where
  "saml_build cfg ep = \<lparr>so_callbackUrl = ep_acs_url ep, so_entryPoint = sl_entry_point cfg, so_issuer = ep_metadata_url ep,
     so_idpCert = normalizeCert (sl_idp_cert cfg), so_audience = ep_metadata_url ep,
     so_signatureAlgorithm = sl_signature_algorithm cfg, so_wantAssertionsSigned = sl_want_assertions_signed cfg\<rparr>"

record saml_profile =
  sx_nameID :: "string option"
  sx_issuer :: "string option"
  sx_attributes :: "(string \<times> string list) list"

text \<open>What the library does with its options: the redirect, the metadata, and the profile of a validated response.\<close>

record saml_lib =
  sb_authorize :: "saml_options \<Rightarrow> string \<Rightarrow> exn + string"
  sb_validate :: "saml_options \<Rightarrow> string \<Rightarrow> exn + saml_profile option"
  sb_metadata :: "saml_options \<Rightarrow> string"

record saml_profile_result =
  sz_subject :: string
  sz_email :: "string option"
  sz_name :: "string option"
  sz_issuer :: "string option"

definition first_value :: "(string \<times> string list) list \<Rightarrow> string \<Rightarrow> string option" where
  "first_value attrs k = (case map_of attrs k of Some (v # _) \<Rightarrow> Some v | _ \<Rightarrow> None)"

definition profile_result :: "saml_config \<Rightarrow> saml_profile \<Rightarrow> exn + saml_profile_result" where
  "profile_result cfg pr =
     (let email = (case first_value (sx_attributes pr) (sl_email_attribute cfg) of
            Some e \<Rightarrow> Some e
          | None \<Rightarrow> (case sx_nameID pr of Some n \<Rightarrow> if CHR ''@'' \<in> set n then Some n else None | None \<Rightarrow> None));
          name = first_value (sx_attributes pr) (sl_name_attribute cfg)
      in case truthy (case sx_nameID pr of Some n \<Rightarrow> Some n | None \<Rightarrow> email) of
           None \<Rightarrow> Inl js_error
         | Some subject \<Rightarrow> Inr \<lparr>sz_subject = subject, sz_email = email, sz_name = name, sz_issuer = sx_issuer pr\<rparr>)"

definition samlValidateResponse :: "saml_lib \<Rightarrow> saml_config \<Rightarrow> sso_endpoints \<Rightarrow> string \<Rightarrow> exn + saml_profile_result" where
  "samlValidateResponse lib cfg ep response =
     (case sb_validate lib (saml_build cfg ep) response of
        Inl e \<Rightarrow> Inl e
      | Inr None \<Rightarrow> Inl js_error
      | Inr (Some pr) \<Rightarrow> profile_result cfg pr)"

section \<open>Providers\<close>

definition toProvider :: "'k sso_env \<Rightarrow> provider_row \<Rightarrow> exn + sso_provider" where
  "toProvider env r =
     (case endpoints env (sp_id r) of
        Inl e \<Rightarrow> Inl e
      | Inr ep \<Rightarrow> Inr \<lparr>sd_id = sp_id r, sd_org_id = sp_org_id r, sd_kind = sp_kind r, sd_name = sp_name r, sd_enabled = sp_enabled r,
          sd_email_domain = sp_email_domain r, sd_auto_provision = sp_auto_provision r, sd_default_role = sp_default_role r,
          sd_oidc = (case sp_config r of OidcCfg c \<Rightarrow> if sp_kind r = Oidc then Some c else None | SamlCfg _ \<Rightarrow> None),
          sd_saml = (case sp_config r of SamlCfg c \<Rightarrow> if sp_kind r = Saml then Some c else None | OidcCfg _ \<Rightarrow> None),
          sd_has_secret = (sp_secret_enc r \<noteq> None), sd_login_url = ep_login_url ep, sd_callback_url = ep_callback_url ep,
          sd_acs_url = ep_acs_url ep, sd_metadata_url = ep_metadata_url ep, sd_created_at = sp_created_at r,
          sd_updated_at = sp_updated_at r\<rparr>)"

definition sso_list :: "'k sso_env \<Rightarrow> uuid \<Rightarrow> uuid \<Rightarrow> ('z sso_db_scheme, sso_provider list) svc" where
  "sso_list env orgId userId =
     thenM (requireRole orgId userId Admin)
     (bindM (getsM (\<lambda>s. sort_key sp_created_at (filter (\<lambda>r. sp_org_id r = orgId) (sso_providers s)))) (\<lambda>rows.
      mapM (\<lambda>r. exceptM (toProvider env r)) rows))"

definition sso_loadOwned :: "uuid \<Rightarrow> uuid \<Rightarrow> ('z sso_db_scheme, provider_row) svc" where
  "sso_loadOwned orgId i =
     bindM (getsM (\<lambda>s. find (\<lambda>r. sp_id r = i \<and> sp_org_id r = orgId) (sso_providers s))) (\<lambda>row.
     someM row (NotFoundException ''Provider not found'' None))"

definition loadEnabled :: "uuid \<Rightarrow> ('z sso_db_scheme, provider_row) svc" where
  "loadEnabled i =
     bindM (getsM (\<lambda>s. find (\<lambda>r. sp_id r = i \<and> sp_enabled r) (sso_providers s))) (\<lambda>row.
     someM row (NotFoundException ''SSO provider not found'' None))"

definition sso_get :: "'k sso_env \<Rightarrow> uuid \<Rightarrow> uuid \<Rightarrow> uuid \<Rightarrow> ('z sso_db_scheme, sso_provider) svc" where
  "sso_get env orgId userId i =
     thenM (requireRole orgId userId Admin)
     (bindM (sso_loadOwned orgId i) (\<lambda>r. exceptM (toProvider env r)))"

fun req_routing :: "sso_provider_request \<Rightarrow> sso_routing" where
  "req_routing (OidcReq r _ _) = r"
| "req_routing (SamlReq r _) = r"

fun req_kind :: "sso_provider_request \<Rightarrow> sso_kind" where
  "req_kind (OidcReq _ _ _) = Oidc"
| "req_kind (SamlReq _ _) = Saml"

fun splitRequest :: "sso_provider_request \<Rightarrow> provider_config \<times> string option" where
  "splitRequest (OidcReq _ c secret) = (OidcCfg c, truthy secret)"
| "splitRequest (SamlReq _ c) = (SamlCfg c, None)"

text \<open>The partial unique index: one enabled provider per address domain, in the whole installation.\<close>

definition domain_taken :: "uuid \<Rightarrow> bool \<Rightarrow> string option \<Rightarrow> 'z sso_db_scheme \<Rightarrow> bool" where
  "domain_taken i enabled dm s = (enabled \<and> (\<exists>d. dm = Some d \<and> (\<exists>r \<in> set (sso_providers s). sp_id r \<noteq> i \<and> sp_enabled r \<and>
     (\<exists>d'. sp_email_domain r = Some d' \<and> ci_eq d' d))))"

definition request_provider :: "sso_provider_request \<Rightarrow> string option \<Rightarrow> provider_row \<Rightarrow> provider_row" where
  "request_provider req secret r = (let rt = req_routing req in
     r\<lparr>sp_name := rt_name rt, sp_enabled := rt_enabled rt, sp_email_domain := rt_email_domain rt,
       sp_auto_provision := rt_auto_provision rt, sp_default_role := rt_default_role rt,
       sp_config := fst (splitRequest req), sp_secret_enc := secret\<rparr>)"

definition insert_provider :: "uuid \<Rightarrow> sso_provider_request \<Rightarrow> string option \<Rightarrow> uuid \<Rightarrow> ('z sso_db_scheme, provider_row) svc" where
  "insert_provider orgId req secret by = (\<lambda>s.
     let r = request_provider req secret \<lparr>sp_id = next_id s, sp_org_id = orgId, sp_kind = req_kind req, sp_name = [], sp_enabled = True,
            sp_email_domain = None, sp_auto_provision = True, sp_default_role = Member, sp_config = fst (splitRequest req),
            sp_secret_enc = None, sp_created_by = Some by, sp_created_at = now s, sp_updated_at = now s\<rparr>
     in if domain_taken (sp_id r) (sp_enabled r) (sp_email_domain r) s then (Inl (DbError ''23505''), s)
        else if by \<notin> u_id ` set (users s) then (Inl (DbError ''23503''), s)
        else (Inr r, s\<lparr>sso_providers := sso_providers s @ [r], next_id := next_id s + 1\<rparr>))"

fun kind_text :: "sso_kind \<Rightarrow> string" where
  "kind_text Oidc = ''oidc''"
| "kind_text Saml = ''saml''"

definition sso_create ::
  "'k sso_env \<Rightarrow> principal \<Rightarrow> uuid \<Rightarrow> sso_provider_request \<Rightarrow> string option \<Rightarrow> ('z sso_db_scheme, sso_provider) svc" where
  "sso_create env p orgId req ip =
     thenM (requireRole orgId (p_user_id p) Admin)
     (bindM (insert_provider orgId req (map_option (ov_seal env) (snd (splitRequest req))) (p_user_id p)) (\<lambda>r.
      thenM (audit_log (user_entry (Some orgId) p ''sso.provider.create'' ''sso_provider'' (sp_id r) ip
               [(''kind'', JStr (kind_text (req_kind req)))]))
     (exceptM (toProvider env r))))"

definition kept_secret :: "'k sso_env \<Rightarrow> sso_provider_request \<Rightarrow> provider_row \<Rightarrow> string option" where
  "kept_secret env req existing =
     (case req of
        OidcReq _ _ None \<Rightarrow> sp_secret_enc existing
      | _ \<Rightarrow> map_option (ov_seal env) (snd (splitRequest req)))"

definition update_provider :: "uuid \<Rightarrow> uuid \<Rightarrow> sso_provider_request \<Rightarrow> string option \<Rightarrow> ('z sso_db_scheme, unit) svc" where
  "update_provider orgId i req secret = (\<lambda>s.
     if domain_taken i (rt_enabled (req_routing req)) (rt_email_domain (req_routing req)) s then (Inl (DbError ''23505''), s)
     else (Inr (), s\<lparr>sso_providers := map (\<lambda>r. if sp_id r = i \<and> sp_org_id r = orgId
             then (request_provider req secret r)\<lparr>sp_updated_at := now s\<rparr> else r) (sso_providers s)\<rparr>))"

definition sso_update ::
  "'k sso_env \<Rightarrow> principal \<Rightarrow> uuid \<Rightarrow> uuid \<Rightarrow> sso_provider_request \<Rightarrow> string option \<Rightarrow> ('z sso_db_scheme, sso_provider) svc" where
  "sso_update env p orgId i req ip =
     thenM (requireRole orgId (p_user_id p) Admin)
     (bindM (sso_loadOwned orgId i) (\<lambda>existing.
      thenM (throwIf (sp_kind existing \<noteq> req_kind req) (BadRequestException ''Provider kind is immutable''
               (Some ''Delete and recreate to switch between OIDC and SAML.'')))
     (thenM (update_provider orgId i req (kept_secret env req existing))
     (thenM (audit_log (user_entry (Some orgId) p ''sso.provider.update'' ''sso_provider'' i ip []))
     (bindM (sso_loadOwned orgId i) (\<lambda>r. exceptM (toProvider env r)))))))"

definition sso_remove :: "principal \<Rightarrow> uuid \<Rightarrow> uuid \<Rightarrow> string option \<Rightarrow> ('z sso_db_scheme, unit) svc" where
  "sso_remove p orgId i ip =
     thenM (requireRole orgId (p_user_id p) Admin)
     (bindM (getsM (\<lambda>s. \<exists>r \<in> set (sso_providers s). sp_id r = i \<and> sp_org_id r = orgId)) (\<lambda>hit.
      thenM (throwIf (\<not> hit) (NotFoundException ''Provider not found'' None))
     (thenM (modifyM (\<lambda>s. s\<lparr>sso_providers := filter (\<lambda>r. \<not> (sp_id r = i \<and> sp_org_id r = orgId)) (sso_providers s),
               sso_identities := filter (\<lambda>x. si_provider_id x \<noteq> i) (sso_identities s),
               sso_login_flows := filter (\<lambda>f. fl_provider_id f \<noteq> i) (sso_login_flows s)\<rparr>))
     (audit_log (user_entry (Some orgId) p ''sso.provider.delete'' ''sso_provider'' i ip [])))))"

definition after_at :: "string \<Rightarrow> string" where
  "after_at email = rev (takeWhile (\<lambda>c. c \<noteq> CHR ''@'') (rev email))"

definition discoverForEmail :: "'k sso_env \<Rightarrow> string \<Rightarrow> ('z sso_db_scheme, sso_discovery option) svc" where
  "discoverForEmail env email =
     (if CHR ''@'' \<notin> set email then returnM None
      else let domain = toLowerCase (after_at email) in
        bindM (getsM (\<lambda>s. find (\<lambda>r. sp_enabled r \<and> map_option toLowerCase (sp_email_domain r) = Some domain) (sso_providers s))) (\<lambda>row.
        case row of
          None \<Rightarrow> returnM None
        | Some r \<Rightarrow> bindM (exceptM (endpoints env (sp_id r))) (\<lambda>ep.
            returnM (Some \<lparr>dv_provider_id = sp_id r, dv_kind = sp_kind r, dv_name = sp_name r, dv_login_url = ep_login_url ep\<rparr>))))"

section \<open>Login\<close>

definition insert_flow :: "uuid \<Rightarrow> string \<Rightarrow> string option \<Rightarrow> string option \<Rightarrow> string \<Rightarrow> timestamp \<Rightarrow> ('z sso_db_scheme, unit) svc" where
  "insert_flow i state verifier nonce relay exp = (\<lambda>s.
     if state \<in> fl_state ` set (sso_login_flows s) then (Inl (DbError ''23505''), s)
     else (Inr (), s\<lparr>sso_login_flows := sso_login_flows s @ [\<lparr>fl_id = next_id s, fl_provider_id = i, fl_state = state,
             fl_code_verifier = verifier, fl_nonce = nonce, fl_relay_target = relay, fl_expires_at = exp\<rparr>],
             next_id := next_id s + 1\<rparr>))"

text \<open>The random state, verifier and nonce are arguments.\<close>

definition beginLogin ::
  "'k sso_env \<Rightarrow> saml_lib \<Rightarrow> string \<Rightarrow> string \<Rightarrow> string \<Rightarrow> uuid \<Rightarrow> string option \<Rightarrow> ('z sso_db_scheme, string) svc" where
  "beginLogin env lib state verifier nonce i relay =
     bindM (loadEnabled i) (\<lambda>provider.
     bindM (exceptM (resolveRelay env relay)) (\<lambda>relayTarget.
     bindM (getsM (\<lambda>s. now s + ov_flow_ttl_ms env)) (\<lambda>expiresAt.
     case (sp_kind provider, sp_config provider) of
       (Oidc, OidcCfg cfg) \<Rightarrow>
         bindM (discover env (oc_issuer cfg)) (\<lambda>disc.
         thenM (insert_flow i state (Some verifier) (Some nonce) relayTarget expiresAt)
        (bindM (exceptM (endpoints env i)) (\<lambda>ep.
         someM (buildAuthUrl env (str_or_empty (od_authorization_endpoint disc)) (oc_client_id cfg) (ep_callback_url ep)
                  (oc_scopes cfg) state nonce (ov_challenge env verifier)) js_error)))
     | (Saml, SamlCfg cfg) \<Rightarrow>
         thenM (insert_flow i state None None relayTarget expiresAt)
        (bindM (exceptM (endpoints env i)) (\<lambda>ep. exceptM (sb_authorize lib (saml_build cfg ep) state)))
     | _ \<Rightarrow> throwM js_error)))"

definition metadataXml :: "'k sso_env \<Rightarrow> saml_lib \<Rightarrow> uuid \<Rightarrow> ('z sso_db_scheme, string) svc" where
  "metadataXml env lib i =
     bindM (loadEnabled i) (\<lambda>provider.
     case (sp_kind provider, sp_config provider) of
       (Saml, SamlCfg cfg) \<Rightarrow> bindM (exceptM (endpoints env i)) (\<lambda>ep. returnM (sb_metadata lib (saml_build cfg ep)))
     | (Oidc, _) \<Rightarrow> throwM (NotFoundException ''Not a SAML provider'' None)
     | _ \<Rightarrow> throwM js_error)"

definition loginErrorRedirect :: "'k sso_env \<Rightarrow> exn + string" where
  "loginErrorRedirect env = map_sum id (\<lambda>r. r @ ''/login?sso_error=1'') (defaultRelay env)"

text \<open>\<open>DELETE ... RETURNING\<close>: the flow is gone whether or not it had expired.\<close>

definition consumeFlow :: "string \<Rightarrow> ('z sso_db_scheme, flow_row option) svc" where
  "consumeFlow state = (\<lambda>s.
     (Inr (case find (\<lambda>f. fl_state f = state) (sso_login_flows s) of
             None \<Rightarrow> None
           | Some f \<Rightarrow> if fl_expires_at f < now s then None else Some f),
      s\<lparr>sso_login_flows := filter (\<lambda>f. fl_state f \<noteq> state) (sso_login_flows s)\<rparr>))"

record sso_identity =
  sy_subject :: string
  sy_email :: "string option"
  sy_name :: "string option"

definition touch_identity :: "uuid \<Rightarrow> string \<Rightarrow> 'z sso_db_scheme \<Rightarrow> 'z sso_db_scheme" where
  "touch_identity i subject s = s\<lparr>sso_identities := map (\<lambda>x. if si_provider_id x = i \<and> si_subject x = subject
     then x\<lparr>si_last_login_at := Some (now s)\<rparr> else x) (sso_identities s)\<rparr>"

definition linked_account :: "uuid \<Rightarrow> string \<Rightarrow> 'z sso_db_scheme \<Rightarrow> user_row option" where
  "linked_account i subject s =
     Option.bind (find (\<lambda>x. si_provider_id x = i \<and> si_subject x = subject) (sso_identities s))
       (\<lambda>x. find (\<lambda>u. u_id u = si_user_id x) (users s))"

definition local_account :: "provider_row \<Rightarrow> sso_identity \<Rightarrow> ('z sso_db_scheme, uuid) svc" where
  "local_account provider identity =
     bindM (getsM (\<lambda>s. Option.bind (truthy (sy_email identity)) (\<lambda>e. find (\<lambda>u. ci_eq (u_email u) e) (users s)))) (\<lambda>existing.
     case existing of
       Some u \<Rightarrow>
         thenM (throwIf (u_status u \<noteq> ''active'') (ForbiddenException ''Account suspended'' None))
        (returnM (u_id u))
     | None \<Rightarrow>
         if sp_auto_provision provider then
           bindM (someM (truthy (sy_email identity)) (UnauthorizedException ''IdP did not supply an email address'' None)) (\<lambda>e.
           insert_passwordless e (str_or_empty (sy_name identity)))
         else throwM (ForbiddenException ''No account for this identity''
                (Some ''Automatic provisioning is disabled for this provider.'')))"

definition link_account :: "provider_row \<Rightarrow> sso_identity \<Rightarrow> ('z sso_db_scheme, uuid) svc" where
  "link_account provider identity = tx
     (bindM (getsM (linked_account (sp_id provider) (sy_subject identity))) (\<lambda>linked.
      case linked of
        Some u \<Rightarrow>
          thenM (throwIf (u_status u \<noteq> ''active'') (ForbiddenException ''Account suspended'' None))
         (thenM (modifyM (touch_identity (sp_id provider) (sy_subject identity)))
         (returnM (u_id u)))
      | None \<Rightarrow>
          bindM (local_account provider identity) (\<lambda>uid.
          thenM (modifyM (insert_member_new (sp_org_id provider) uid (sp_default_role provider)))
         (thenM (modifyM (\<lambda>s. s\<lparr>sso_identities := sso_identities s @ [\<lparr>si_provider_id = sp_id provider,
                   si_subject = sy_subject identity, si_user_id = uid, si_last_login_at = Some (now s)\<rparr>]\<rparr>))
         (returnM uid)))))"

definition provisionAndSession ::
  "auth_env \<Rightarrow> string \<Rightarrow> provider_row \<Rightarrow> sso_identity \<Rightarrow> string option \<Rightarrow> string option \<Rightarrow> ('z sso_db_scheme, session_grant) svc" where
  "provisionAndSession aenv token provider identity ip ua =
     bindM (link_account provider identity) (\<lambda>userId.
     thenM (audit_log (target_entry (Some (sp_org_id provider)) userId ''sso.login'' ''sso_provider'' (sp_id provider) ip))
     (createSession aenv token userId ip ua None))"

definition oidc_cfg :: "provider_row \<Rightarrow> oidc_config option" where
  "oidc_cfg r = (case sp_config r of OidcCfg c \<Rightarrow> Some c | SamlCfg _ \<Rightarrow> None)"

definition saml_cfg :: "provider_row \<Rightarrow> saml_config option" where
  "saml_cfg r = (case sp_config r of SamlCfg c \<Rightarrow> Some c | OidcCfg _ \<Rightarrow> None)"

definition completeOidc ::
  "'k sso_env \<Rightarrow> auth_env \<Rightarrow> string \<Rightarrow> uuid \<Rightarrow> string \<Rightarrow> string \<Rightarrow> string option \<Rightarrow> string option
     \<Rightarrow> ('z sso_db_scheme, sso_session_result) svc" where
  "completeOidc env aenv token i code state ip ua =
     bindM (consumeFlow state) (\<lambda>flow.
     bindM (someM (case flow of Some f \<Rightarrow> if fl_provider_id f = i then Some f else None | None \<Rightarrow> None)
              (UnauthorizedException ''SSO login session expired'' None)) (\<lambda>f.
     bindM (loadEnabled i) (\<lambda>provider.
     bindM (someM (oidc_cfg provider) js_error) (\<lambda>cfg.
     bindM (discover env (oc_issuer cfg)) (\<lambda>disc.
     bindM (case truthy (sp_secret_enc provider) of
              None \<Rightarrow> returnM None
            | Some enc \<Rightarrow> bindM (someM (ov_open env enc) js_error) (\<lambda>x. returnM (Some x))) (\<lambda>secret.
     bindM (exceptM (endpoints env i)) (\<lambda>ep.
     bindM (exceptM (exchangeCode env (str_or_empty (od_token_endpoint disc)) (oc_client_id cfg) secret code (ep_callback_url ep)
              (str_or_empty (fl_code_verifier f)))) (\<lambda>tokens.
     bindM (someM (truthy tokens) (UnauthorizedException ''IdP returned no id_token'' None)) (\<lambda>idToken.
     bindM (verifyIdToken env idToken (str_or_empty (od_jwks_uri disc)) (od_issuer disc) (oc_client_id cfg)
              (str_or_empty (fl_nonce f))) (\<lambda>claims.
     bindM (provisionAndSession aenv token provider
              \<lparr>sy_subject = (case claim claims ''sub'' of Some v \<Rightarrow> ov_bind_text env v | None \<Rightarrow> []),
               sy_email = str_value (claim claims (oc_email_claim cfg)), sy_name = str_value (claim claims (oc_name_claim cfg))\<rparr> ip ua) (\<lambda>g.
     returnM \<lparr>sr_token = sg_token g, sr_expires_at = sg_expires_at g, sr_relay = fl_relay_target f\<rparr>)))))))))))"

definition completeSaml ::
  "'k sso_env \<Rightarrow> saml_lib \<Rightarrow> auth_env \<Rightarrow> string \<Rightarrow> uuid \<Rightarrow> string \<Rightarrow> string option \<Rightarrow> string option \<Rightarrow> string option
     \<Rightarrow> ('z sso_db_scheme, sso_session_result) svc" where
  "completeSaml env lib aenv token i response relayState ip ua =
     bindM (loadEnabled i) (\<lambda>provider.
     bindM (someM (saml_cfg provider) js_error) (\<lambda>cfg.
     bindM (exceptM (endpoints env i)) (\<lambda>ep.
     bindM (exceptM (samlValidateResponse lib cfg ep response)) (\<lambda>result.
     thenM (throwIf (sl_idp_issuer cfg \<noteq> [] \<and> truthy (sz_issuer result) \<noteq> None \<and> sz_issuer result \<noteq> Some (sl_idp_issuer cfg))
              (UnauthorizedException ''SAML issuer mismatch'' None))
    (bindM (exceptM (defaultRelay env)) (\<lambda>dflt.
     bindM (case truthy relayState of
              None \<Rightarrow> returnM dflt
            | Some st \<Rightarrow> bindM (consumeFlow st) (\<lambda>flow. returnM (case flow of
                  Some f \<Rightarrow> if fl_provider_id f = i then fl_relay_target f else dflt
                | None \<Rightarrow> dflt))) (\<lambda>relay.
     bindM (provisionAndSession aenv token provider
              \<lparr>sy_subject = sz_subject result, sy_email = sz_email result, sy_name = sz_name result\<rparr> ip ua) (\<lambda>g.
     returnM \<lparr>sr_token = sg_token g, sr_expires_at = sg_expires_at g, sr_relay = relay\<rparr>))))))))"

end
