(* ===== verification/JM_SsoFacts.thy ===== *)
theory JM_SsoFacts
  imports JM_Sso
begin

text \<open>
  Facts about single sign-on (\<open>JM_Sso\<close>): what an accepted token has been checked for, that a login state works once, where a
  login can send the browser, and which account an external identity opens.
\<close>

section \<open>Tokens\<close>

lemma exceptM_Inr: "exceptM r s = (Inr x, t) \<longleftrightarrow> r = Inr x \<and> t = s"
  by (auto simp: exceptM_def throwM_def returnM_def split: sum.splits)

lemma exceptM_Inl: "exceptM r s = (Inl e, t) \<longleftrightarrow> r = Inl e \<and> t = s"
  by (auto simp: exceptM_def throwM_def returnM_def split: sum.splits)

lemma readonly_exceptM [readonly_intro]: "readonly (exceptM r)"
  by (auto simp: readonly_def exceptM_def throwM_def returnM_def split: sum.splits)

text \<open>The key sets a verification may use: the cached one while it is fresh, or the one just fetched.\<close>

definition published :: "'k sso_env \<Rightarrow> string \<Rightarrow> 'z sso_db_scheme \<Rightarrow> jwk list \<Rightarrow> bool" where
  "published env uri s ks \<longleftrightarrow> ov_fetch_keys env uri = Inr ks \<or> (\<exists>exp. jwks_cache s uri = Some (ks, exp) \<and> exp > now s)"

lemma load_keys_Inr:
  "load_keys env uri force s = (Inr ks, t) \<Longrightarrow> published env uri s ks \<and> now t = now s \<and> sso_login_flows t = sso_login_flows s"
  by (auto simp: load_keys_def Let_def published_def split: option.splits sum.splits if_splits prod.splits)

lemma pick_key_in: "pick_key kid ks = Some k \<Longrightarrow> k \<in> set ks"
  by (auto simp: pick_key_def first_key_def split: option.splits if_splits list.splits dest: find_SomeD)

lemma resolveKey_Inr:
  assumes "resolveKey env uri kid s = (Inr key, t)"
  shows "now t = now s \<and> (\<exists>ks k s'. k \<in> set ks \<and> ov_public_key env k = Some key \<and>
     (ov_fetch_keys env uri = Inr ks \<or> (\<exists>exp. jwks_cache s uri = Some (ks, exp) \<and> exp > now s)))"
proof -
  from assms obtain ks s1 where l: "load_keys env uri False s = (Inr ks, s1)" by (auto simp: resolveKey_def bindM_Inr)
  show ?thesis
  proof (cases "pick_key kid ks")
    case (Some k)
    with assms l have "ov_public_key env k = Some key" "t = s1"
      by (auto simp: resolveKey_def bindM_Inr leafM someM_Inr)
    then show ?thesis using pick_key_in[OF Some] load_keys_Inr[OF l] by (auto simp: published_def)
  next
    case None
    with assms l obtain fresh s2 k where f: "load_keys env uri True s1 = (Inr fresh, s2)" and k: "pick_key kid fresh = Some k"
      "ov_public_key env k = Some key" "t = s2"
      by (auto simp: resolveKey_def bindM_Inr leafM someM_Inr)
    from f have "ov_fetch_keys env uri = Inr fresh"
      by (auto simp: load_keys_def Let_def split: option.splits sum.splits prod.splits)
    then show ?thesis using pick_key_in[OF k(1)] k load_keys_Inr[OF l] load_keys_Inr[OF f] by auto
  qed
qed


text \<open>
  The client never looks at a fresh key set again: while a non-empty set is cached, a token signed with a key that is not in it is
  checked against the first cached key, and nothing is fetched.
\<close>

lemma rotated_key_not_fetched:
  assumes "jwks_cache s uri = Some (k # ks, exp)" "exp > now s" "\<not> (\<exists>x \<in> set (k # ks). kid_is kid x)"
  shows "resolveKey env uri (Some kid) s = someM (ov_public_key env k) js_error s"
proof -
  have "find (kid_is kid) (k # ks) = None" using assms(3) by (auto simp: find_None_iff_all)
  then have "pick_key (Some kid) (k # ks) = Some k" by (simp add: pick_key_def first_key_def)
  then show ?thesis
    using assms(1,2) by (simp add: resolveKey_def load_keys_def bindM_def returnM_def Let_def someM_def[of "Some k"])
qed

section \<open>Login flows\<close>

text \<open>
  Apart from \<open>beginLogin\<close>, every operation only removes flows: a property that all pending flows have is kept,
  whatever the property.
\<close>

definition flows_all :: "(flow_row \<Rightarrow> bool) \<Rightarrow> 'z sso_db_scheme \<Rightarrow> bool" where
  "flows_all Q s \<longleftrightarrow> (\<forall>f \<in> set (sso_login_flows s). Q f)"

named_theorems flow_intro

lemmas [flow_intro] = preserves_bindM preserves_thenM preserves_if preserves_tx preserves_modifyM preserves_basic preserves_pair

lemma preserves_caseO [flow_intro]:
  "preserves I m \<Longrightarrow> (\<And>y. x = Some y \<Longrightarrow> preserves I (n y)) \<Longrightarrow> preserves I (case x of None \<Rightarrow> m | Some y \<Rightarrow> n y)"
  by (cases x) simp_all

lemma preserves_readers [flow_intro]:
  "preserves I (exceptM r)" "preserves I (requireRole org u need)" "preserves I (sso_loadOwned org i)" "preserves I (loadEnabled i)"
  by (auto intro!: readonly_preserves readonly_intro simp: sso_loadOwned_def loadEnabled_def)

lemma preserves_client [flow_intro]:
  "preserves (flows_all Q) (discover env issuer)" "preserves (flows_all Q) (load_keys env uri force)"
  by (auto simp: preserves_def flows_all_def discover_def load_keys_def Let_def split: option.splits sum.splits)

lemma preserves_writes [flow_intro]:
  "preserves (flows_all Q) (insert_provider org req sec by)" "preserves (flows_all Q) (update_provider org i req sec)"
  "preserves (flows_all Q) (consumeFlow st)" "preserves (flows_all Q) (insert_passwordless e n)"
  "preserves (flows_all Q) (createSession aenv token u ip ua mid)" "preserves (flows_all Q) (audit_log a)"
  by (auto simp: preserves_def flows_all_def insert_provider_def update_provider_def consumeFlow_def insert_passwordless_def
      createSession_run with_session_def audit_log_run audit_insert_def Let_def)

lemma preserves_resolveKey [flow_intro]: "preserves (flows_all Q) (resolveKey env uri kid)"
  unfolding resolveKey_def by (intro flow_intro)

lemma preserves_verifyIdToken [flow_intro]: "preserves (flows_all Q) (verifyIdToken env tok uri issuer cid nonce)"
  unfolding verifyIdToken_def by (auto intro!: flow_intro split: list.splits)

lemma flows_all_frame [simp]:
  "flows_all Q (touch_identity i sub s) = flows_all Q s" "flows_all Q (insert_member_new org u r s) = flows_all Q s"
  "flows_all Q (s\<lparr>sso_identities := x\<rparr>) = flows_all Q s" "flows_all Q (s\<lparr>now := n\<rparr>) = flows_all Q s"
  by (simp_all add: flows_all_def touch_identity_def insert_member_new_def)

lemma preserves_provision [flow_intro]: "preserves (flows_all Q) (provisionAndSession aenv token pr idn ip ua)"
  unfolding provisionAndSession_def link_account_def local_account_def
  by (intro flow_intro) simp_all

lemma preserves_completeSaml [flow_intro]: "preserves (flows_all Q) (completeSaml env lib aenv token i resp st ip ua)"
  unfolding completeSaml_def by (intro flow_intro)

lemma preserves_completeOidc [flow_intro]: "preserves (flows_all Q) (completeOidc env aenv token i code st ip ua)"
  unfolding completeOidc_def by (intro flow_intro)

lemma preserves_admin [flow_intro]:
  "preserves (flows_all Q) (sso_create env p org req ip)" "preserves (flows_all Q) (sso_update env p org i req ip)"
  "preserves (flows_all Q) (sso_remove p org i ip)"
  unfolding sso_create_def sso_update_def sso_remove_def by (intro flow_intro; simp add: flows_all_def)+

lemma preserves_bind_exceptM: "(\<And>x. r = Inr x \<Longrightarrow> preserves I (f x)) \<Longrightarrow> preserves I (bindM (exceptM r) f)"
  by (cases r) (auto simp: preserves_def exceptM_def bindM_def returnM_def throwM_def)

lemma beginLogin_flows:
  assumes "flows_all Q s" "\<And>f. resolveRelay env relay = Inr (fl_relay_target f) \<Longrightarrow> fl_state f = st \<Longrightarrow> Q f"
  shows "flows_all Q (snd (beginLogin env lib st ver nonce i relay s))"
proof -
  have ins: "preserves (flows_all Q) (insert_flow i st v n r e)" if "resolveRelay env relay = Inr r" for v n r e
    using that assms(2) by (auto simp: preserves_def flows_all_def insert_flow_def)
  have "preserves (flows_all Q) (beginLogin env lib st ver nonce i relay)"
    unfolding beginLogin_def
  proof (rule preserves_bindM[OF preserves_readers(4)], rule preserves_bind_exceptM, rule preserves_bindM[OF preserves_basic(3)])
    fix provider r e
    assume "resolveRelay env relay = Inr r"
    note ins' = ins[OF this]
    show "preserves (flows_all Q) (case (sp_kind provider, sp_config provider) of
       (Oidc, OidcCfg cfg) \<Rightarrow>
         bindM (discover env (oc_issuer cfg)) (\<lambda>disc.
         thenM (insert_flow i st (Some ver) (Some nonce) r e)
        (bindM (exceptM (endpoints env i)) (\<lambda>ep.
         someM (buildAuthUrl env (str_or_empty (od_authorization_endpoint disc)) (oc_client_id cfg) (ep_callback_url ep)
                  (oc_scopes cfg) st nonce (ov_challenge env ver)) js_error)))
     | (Saml, SamlCfg cfg) \<Rightarrow>
         thenM (insert_flow i st None None r e)
        (bindM (exceptM (endpoints env i)) (\<lambda>ep. exceptM (sb_authorize lib (saml_build cfg ep) st)))
     | _ \<Rightarrow> throwM js_error)"
      by (cases "sp_kind provider"; cases "sp_config provider") (auto intro!: flow_intro ins')
  qed
  then show ?thesis using assms(1) by (rule preservesD)
qed

text \<open>The operations of the service; a started login is labelled with the state it draws.\<close>

inductive sso_step ::
  "'k sso_env \<Rightarrow> saml_lib \<Rightarrow> auth_env \<Rightarrow> string option \<Rightarrow> 'z sso_db_scheme \<Rightarrow> 'z sso_db_scheme \<Rightarrow> bool"
  for env :: "'k sso_env" and lib :: saml_lib and aenv :: auth_env where
  create: "sso_step env lib aenv None s (snd (sso_create env p org req ip s))"
| update: "sso_step env lib aenv None s (snd (sso_update env p org i req ip s))"
| remove: "sso_step env lib aenv None s (snd (sso_remove p org i ip s))"
| login: "sso_step env lib aenv (Some st) s (snd (beginLogin env lib st ver nonce i relay s))"
| oidc: "sso_step env lib aenv None s (snd (completeOidc env aenv token i code st ip ua s))"
| saml: "sso_step env lib aenv None s (snd (completeSaml env lib aenv token i resp relayState ip ua s))"
| clock: "n \<ge> now s \<Longrightarrow> sso_step env lib aenv None s (s\<lparr>now := n\<rparr>)"

lemma sso_step_flows:
  assumes "sso_step env lib aenv drawn s t" "flows_all Q s"
    and "\<And>f st relay. drawn = Some st \<Longrightarrow> resolveRelay env relay = Inr (fl_relay_target f) \<Longrightarrow> fl_state f = st \<Longrightarrow> Q f"
  shows "flows_all Q t"
  using assms
proof cases
  case (login st ver nonce i relay)
  then show ?thesis using beginLogin_flows[of Q s env relay st] assms(2,3) by blast
qed (use assms(2) in \<open>auto intro: preservesD flow_intro\<close>)

definition sso_run :: "'k sso_env \<Rightarrow> saml_lib \<Rightarrow> auth_env \<Rightarrow> (string \<Rightarrow> bool) \<Rightarrow> 'z sso_db_scheme \<Rightarrow> 'z sso_db_scheme \<Rightarrow> bool" where
  "sso_run env lib aenv D = (\<lambda>s t. \<exists>drawn. sso_step env lib aenv drawn s t \<and> (\<forall>st. drawn = Some st \<longrightarrow> D st))\<^sup>*\<^sup>*"

lemma sso_run_flows:
  assumes "sso_run env lib aenv D s t" "flows_all Q s"
    and "\<And>f relay. D (fl_state f) \<Longrightarrow> resolveRelay env relay = Inr (fl_relay_target f) \<Longrightarrow> Q f"
  shows "flows_all Q t"
  using assms(1,2) unfolding sso_run_def
proof (induction rule: rtranclp_induct)
  case (step t u)
  then obtain drawn where d: "sso_step env lib aenv drawn t u" "\<forall>st. drawn = Some st \<longrightarrow> D st" by blast
  from step have "flows_all Q t" by blast
  from d(1) this show ?case by (rule sso_step_flows) (use d(2) assms(3) in blast)
qed

lemma consumeFlow_clears: "flows_all (\<lambda>f. fl_state f \<noteq> st) (snd (consumeFlow st s))"
  by (simp add: consumeFlow_def flows_all_def)

lemma snd_bindM_const: "m s = (Inr x, t) \<Longrightarrow> preserves I (f x) \<Longrightarrow> I t \<Longrightarrow> I (snd (bindM m f s))"
  by (simp add: bindM_def preserves_def)

lemma completeOidc_clears: "flows_all (\<lambda>f. fl_state f \<noteq> st) (snd (completeOidc env aenv token i code st ip ua s))"
proof -
  obtain fl t where c: "consumeFlow st s = (Inr fl, t)" by (simp add: consumeFlow_def)
  show ?thesis unfolding completeOidc_def
    by (rule snd_bindM_const[where I = "flows_all (\<lambda>f. fl_state f \<noteq> st)" and m = "consumeFlow st" and s = s, OF c]) (use consumeFlow_clears[of st s] c in \<open>auto intro!: flow_intro\<close>)
qed

lemma completeOidc_expired:
  assumes "flows_all (\<lambda>f. fl_state f \<noteq> st) s"
  shows "fst (completeOidc env aenv token i code st ip ua s) = Inl (UnauthorizedException ''SSO login session expired'' None)"
proof -
  have "find (\<lambda>f. fl_state f = st) (sso_login_flows s) = None" using assms by (auto simp: flows_all_def find_None_iff_all)
  then show ?thesis by (simp add: completeOidc_def consumeFlow_def bindM_def someM_def throwM_def)
qed

text \<open>
  C26: a login state works at most once. Once a callback has presented it, whatever that callback returned and
  whatever the service does next short of drawing the same random state again, every later callback with
  that state is refused.
\<close>

theorem sso_state_single_use:
  assumes "sso_run env lib aenv (\<lambda>d. d \<noteq> st) (snd (completeOidc env aenv token i code st ip ua s)) t"
  shows "fst (completeOidc env aenv' token' i' code' st ip' ua' t) = Inl (UnauthorizedException ''SSO login session expired'' None)"
  using assms by (intro completeOidc_expired) (auto intro: sso_run_flows completeOidc_clears)

definition relay_home :: "'k sso_env \<Rightarrow> string \<Rightarrow> bool" where
  "relay_home env r \<longleftrightarrow> defaultRelay env = Inr r \<or> (\<exists>orig. ov_origin env r = Some orig \<and> orig \<in> allowedRelayOrigins env)"

lemma resolveRelay_home: "resolveRelay env requested = Inr r \<Longrightarrow> relay_home env r"
  by (auto simp: resolveRelay_def relay_home_def split: option.splits if_splits)

lemma consumeFlow_all:
  "consumeFlow st s = (Inr (Some f), t) \<Longrightarrow> flows_all Q s \<Longrightarrow> Q f"
  by (auto simp: consumeFlow_def flows_all_def split: option.splits if_splits dest: find_SomeD)

text \<open>
  C27: a login never sends the browser, with its fresh session, to a foreign site. Whatever relay targets were asked for,
  a completed login of either kind redirects to the installation's default address or to one whose origin is
  that of a configured front end.
\<close>

theorem sso_redirects_stay_home:
  assumes "sso_run env lib aenv (\<lambda>d. True) s t" "sso_login_flows s = []"
  shows "(completeOidc env aenv token i code st ip ua t = (Inr r, u) \<longrightarrow> relay_home env (sr_relay r)) \<and>
    (completeSaml env lib aenv token i resp relayState ip ua t = (Inr r, u) \<longrightarrow> relay_home env (sr_relay r))"
proof -
  have all: "flows_all (\<lambda>f. relay_home env (fl_relay_target f)) t"
    by (rule sso_run_flows[OF assms(1)]) (use assms(2) in \<open>auto simp: flows_all_def intro: resolveRelay_home\<close>)
  have dflt: "defaultRelay env = Inr d \<Longrightarrow> relay_home env d" for d by (simp add: relay_home_def)
  show ?thesis
  proof (intro conjI impI)
    assume "completeOidc env aenv token i code st ip ua t = (Inr r, u)"
    then show "relay_home env (sr_relay r)"
      by (auto simp: completeOidc_def bindM_Inr someM_Inr leafM split: option.splits if_splits dest!: consumeFlow_all[OF _ all])
  next
    assume "completeSaml env lib aenv token i resp relayState ip ua t = (Inr r, u)"
    then obtain d v where d: "defaultRelay env = Inr d"
      and c: "(case truthy relayState of None \<Rightarrow> returnM d
            | Some st \<Rightarrow> bindM (consumeFlow st) (\<lambda>flow. returnM (case flow of
                  Some f \<Rightarrow> if fl_provider_id f = i then fl_relay_target f else d
                | None \<Rightarrow> d))) t = (Inr (sr_relay r), v)"
      unfolding completeSaml_def loadEnabled_def
      by (force simp only: bindM_Inr thenM_Inr throwIf_Inr someM_Inr leafM exceptM_Inr sso_session_result.select_convs)
    show "relay_home env (sr_relay r)"
    proof (cases "truthy relayState")
      case None
      with c dflt[OF d] show ?thesis by (simp add: leafM)
    next
      case (Some st')
      with c obtain fl w where fl: "consumeFlow st' t = (Inr fl, w)"
        and r: "sr_relay r = (case fl of Some f \<Rightarrow> if fl_provider_id f = i then fl_relay_target f else d | None \<Rightarrow> d)"
        by (auto simp: bindM_Inr leafM)
      show ?thesis using dflt[OF d] consumeFlow_all[OF _ all] fl r by (cases fl) auto
    qed
  qed
qed

section \<open>Which account an identity opens\<close>

lemma find_append_Some: "find P xs = Some x \<Longrightarrow> find P (xs @ ys) = Some x"
  by (induction xs) auto

lemma find_append_None: "find P xs = None \<Longrightarrow> find P (xs @ ys) = find P ys"
  by (induction xs) (auto split: if_splits)

lemma memberRole_insert_new:
  "memberRole s org u = Some r \<Longrightarrow> memberRole (insert_member_new org' u' r' s) org u = Some r"
  by (auto simp: memberRole_def insert_member_new_def find_append_Some)

lemma link_existing:
  assumes "linked_account (sp_id pr) (sy_subject idn) s = None" "truthy (sy_email idn) = Some e"
    and "find (\<lambda>u. ci_eq (u_email u) e) (users s) = Some u" "u_status u = ''active''"
  shows "\<exists>t. link_account pr idn s = (Inr (u_id u), t) \<and> users t = users s \<and> now t = now s \<and> sessions t = sessions s \<and>
    org_members t = org_members (insert_member_new (sp_org_id pr) (u_id u) (sp_default_role pr) s) \<and> api_keys t = api_keys s"
  using assms by (simp add: link_account_def local_account_def tx_def svc_simps insert_member_new_def)

text \<open>
  C28: an identity provider opens every account whose address it states. A subject that is not linked yet is matched by the address
  in its assertion alone, with no regard to the domain of the provider or to a claim that the address is verified: the
  session it gets is that of the existing account, with the role this account has in each of its organizations.
\<close>

theorem sso_takes_over_account:
  assumes "provisionAndSession aenv token pr idn ip ua s = (Inr g, t)"
    and "linked_account (sp_id pr) (sy_subject idn) s = None" "truthy (sy_email idn) = Some e"
    and "find (\<lambda>u. ci_eq (u_email u) e) (users s) = Some u" "u_status u = ''active''" "0 < ae_session_ttl_days aenv"
    and "memberRole s org (u_id u) = Some role"
  shows "\<exists>p. resolveSession aenv token t = (Inr (Some p), t) \<and> p_user_id p = u_id u \<and> effectiveRole t org (p_user_id p) = Some role"
proof -
  from link_existing[OF assms(2,3,4,5)] obtain v where l: "link_account pr idn s = (Inr (u_id u), v)"
    and v: "users v = users s" "now v = now s" "sessions v = sessions s"
      "org_members v = org_members (insert_member_new (sp_org_id pr) (u_id u) (sp_default_role pr) s)" by blast
  with assms(1) obtain a where fresh: "ae_sha256 aenv token \<notin> s_token_hash ` set (sessions v)"
    and t: "t = with_session aenv token (u_id u) ip ua None (audit_insert a v)"
    by (auto simp: provisionAndSession_def bindM_Inr thenM_Inr audit_log_iffs createSession_Inr)
  define x where "x = last (sessions t)"
  have x: "sessions t = sessions v @ [x]" "s_token_hash x = ae_sha256 aenv token" "s_user_id x = u_id u" "s_expires_at x > now t"
    using assms(6) by (simp_all add: t x_def with_session_def)
  have "live_session aenv token t x u"
    using x assms(4,5) by (auto simp: live_session_def t v dest: find_SomeD)
  moreover have "y = x" if "y \<in> set (sessions t)" "s_token_hash y = ae_sha256 aenv token" for y
    using that x fresh by (auto simp: image_iff)
  ultimately obtain p where "resolveSession aenv token t = (Inr (Some p), t)" "p_user_id p = u_id u"
    using resolveSession_hit x(3) by metis
  moreover have "memberRole t org (u_id u) = Some role"
    using memberRole_insert_new[OF assms(7)] by (simp add: memberRole_def t v)
  ultimately show ?thesis by (simp add: effectiveRole_def)
qed

text \<open>
  C29: an administrator can make owners. \<open>create\<close> asks only for the admin role and stores any default role, and a login through
  the provider grants that role to whoever it lets in: the rule of \<open>OrgsService\<close> that only owners grant
  the owner role does not hold for the organization any longer.
\<close>

theorem sso_admin_makes_owners:
  assumes "effectiveRole s org (p_user_id p) = Some Admin" "p_user_id p \<in> u_id ` set (users s)"
    and "rt_default_role (req_routing req) = Owner" "rt_email_domain (req_routing req) = None" "callbackBase env = Inr base"
    and "sso_identities s = []" "find (\<lambda>u. ci_eq (u_email u) e) (users s) = Some u" "u_status u = ''active''" "e \<noteq> []"
    and "memberRole s org (u_id u) = None"
  shows "\<exists>d t row i v. sso_create env p org req ip s = (Inr d, t) \<and> row \<in> set (sso_providers t) \<and> sp_id row = sd_id d \<and>
    link_account row \<lparr>sy_subject = sub, sy_email = Some e, sy_name = nm\<rparr> t = (Inr i, v) \<and> i = u_id u \<and> effectiveRole v org i = Some Owner"
proof -
  let ?idn = "\<lparr>sy_subject = sub, sy_email = Some e, sy_name = nm\<rparr>"
  have rq: "requireRole org (p_user_id p) Admin s = (Inr Admin, s)" using rg.guard_pass[OF assms(1), of Admin] by simp
  obtain row t1 where ins: "insert_provider org req (map_option (ov_seal env) (snd (splitRequest req))) (p_user_id p) s = (Inr row, t1)"
    and row: "row \<in> set (sso_providers t1)" "sp_org_id row = org" "sp_default_role row = Owner"
    and t1: "users t1 = users s" "sso_identities t1 = []" "org_members t1 = org_members s" "api_keys t1 = api_keys s"
    using assms(2,3,4,6) by (simp add: insert_provider_def request_provider_def domain_taken_def Let_def)
  obtain d where d: "toProvider env row = Inr d" "sd_id d = sp_id row"
    using assms(5) by (simp add: toProvider_def endpoints_def Let_def)
  obtain a where run: "sso_create env p org req ip s = (Inr d, audit_insert a t1)"
    using rq ins d by (simp add: sso_create_def thenM_def bindM_def audit_log_run exceptM_def returnM_def)
  define t where "t = audit_insert a t1"
  have "sso_identities t = []" "sso_providers t = sso_providers t1" by (simp_all add: t_def audit_insert_def t1)
  then have "linked_account (sp_id row) (sy_subject ?idn) t = None" by (simp add: linked_account_def)
  from link_existing[OF this, of e u] assms(7,8,9) obtain v where v: "link_account row ?idn t = (Inr (u_id u), v)"
    "org_members v = org_members (insert_member_new org (u_id u) Owner t)" by (auto simp: truthy_def t_def t1 row)
  have "memberRole v org (u_id u) = Some Owner"
  proof -
    have n: "find (\<lambda>m. m_org_id m = org \<and> m_user_id m = u_id u) (org_members s) = None" using assms(10) by (simp add: memberRole_def)
    then have "\<not> (\<exists>m \<in> set (org_members s). m_org_id m = org \<and> m_user_id m = u_id u)" by (simp add: find_None_iff_all)
    with n show ?thesis by (simp add: memberRole_def v(2) insert_member_new_def t_def t1 find_append_None)
  qed
  then have "effectiveRole v org (u_id u) = Some Owner" by (simp add: effectiveRole_def)
  with run v row d show ?thesis unfolding t_def[symmetric] by (metis \<open>sso_providers t = sso_providers t1\<close>)
qed

text \<open>A suspended account is refused by both ways in, and nothing is written.\<close>

lemma sso_refuses_suspended:
  assumes "linked_account (sp_id pr) (sy_subject idn) s = Some u \<or>
      linked_account (sp_id pr) (sy_subject idn) s = None \<and> (\<exists>e. truthy (sy_email idn) = Some e \<and> find (\<lambda>u. ci_eq (u_email u) e) (users s) = Some u)"
    and "u_status u \<noteq> ''active''"
  shows "provisionAndSession aenv token pr idn ip ua s = (Inl (ForbiddenException ''Account suspended'' None), s)"
  using assms by (auto simp: provisionAndSession_def link_account_def local_account_def tx_def svc_simps)

section \<open>A small installation\<close>

text \<open>
  Ann owns organization 20; organization 50 has an OpenID provider. Tokens are signed with the
  text of the key, and a token part is decoded by a table.
\<close>

definition other_org_provider :: provider_row where
  "other_org_provider = \<lparr>sp_id = 51, sp_org_id = 50, sp_kind = Oidc, sp_name = ''idp'', sp_enabled = True, sp_email_domain = None,
     sp_auto_provision = False, sp_default_role = Member,
     sp_config = OidcCfg \<lparr>oc_issuer = ''https://idp'', oc_client_id = ''jm'', oc_scopes = [''openid''], oc_email_claim = ''email'', oc_name_claim = ''name''\<rparr>,
     sp_secret_enc = None, sp_created_by = None, sp_created_at = 0, sp_updated_at = 0\<rparr>"

definition sso_demo :: "unit sso_db_scheme" where
  "sso_demo = db.extend (db.truncate demo_sys) (sso_db.fields [other_org_provider] [] []
     (\<lambda>_. None) (\<lambda>_. None))"

definition ann_claims :: json where
  "ann_claims = JObj [(''iss'', JStr ''https://idp''), (''aud'', JStr ''jm''), (''nonce'', JStr ''n''), (''sub'', JStr ''7''),
     (''email'', JStr ''ann@acme.io''), (''email_verified'', JBool False)]"

definition sso_demo_env :: "string sso_env" where
  "sso_demo_env = \<lparr>
     ov_fetch_discovery = (\<lambda>_. Inr \<lparr>od_issuer = Some ''https://idp'', od_authorization_endpoint = Some ''a'', od_token_endpoint = Some ''t'', od_jwks_uri = Some ''k''\<rparr>),
     ov_fetch_keys = (\<lambda>_. Inr [[(''kid'', JStr ''k1'')]]), ov_exchange = (\<lambda>_ _ _. Inr (Some ''h.p.s'')), ov_basic = (\<lambda>a b. a @ b),
     ov_decode = map_of [(''h'', JObj [(''alg'', JStr ''RS256''), (''kid'', JStr ''k1'')]), (''p'', ann_claims)],
     ov_public_key = (\<lambda>_. Some ''s''), ov_verify = (\<lambda>_ _ _ key sg. sg = key), ov_challenge = id, ov_url_with = (\<lambda>u _. Some u),
     ov_origin = (\<lambda>u. Some u), ov_seal = id, ov_open = Some, ov_uuid_text = (\<lambda>_. ''i''), ov_bind_text = js_string, ov_cache_ttl_ms = 3600, ov_flow_ttl_ms = 600,
     ov_SSO_CALLBACK_BASE_URL = None, ov_SSO_DEFAULT_RELAY_URL = None, ov_JM_API_HOST = Some ''api.jm.io'', ov_JM_ADMIN_HOST = Some ''adm.jm.io'',
     ov_JM_WEBMAIL_HOST = None, ov_JM_WEB_HOST = None\<rparr>"

lemma sso_demo_eval:
  "users sso_demo = [ann]" "sessions sso_demo = []" "now sso_demo = 0" "sso_login_flows sso_demo = []" "sso_identities sso_demo = []"
  "jwks_cache sso_demo = (\<lambda>_. None)" "discovery_cache sso_demo = (\<lambda>_. None)" "sso_providers sso_demo = [other_org_provider]"
  "org_members sso_demo = [\<lparr>m_org_id = 20, m_user_id = 11, m_role = Owner, m_created_at = 0\<rparr>]" "next_id sso_demo = 40"
  by (simp_all add: sso_demo_def db.defs sso_db.defs demo_sys_def)

lemma ann_token: "verifyIdToken sso_demo_env ''h.p.s'' ''k'' (Some ''https://idp'') ''jm'' ''n'' s = (Inr ann_claims, t)"
  if "load_keys sso_demo_env ''k'' False s = (Inr [[(''kid'', JStr ''k1'')]], t)" "now t = 0"
  using that by (simp add: verifyIdToken_def resolveKey_def svc_simps pick_key_def kid_is_def first_key_def claim_def alg_hash_def claims_ok_def
      audiences_def ann_claims_def sso_demo_env_def)

lemma demo_keys: "jwks_cache s = (\<lambda>_. None) \<Longrightarrow> load_keys sso_demo_env ''k'' False s =
    (Inr [[(''kid'', JStr ''k1'')]], s\<lparr>jwks_cache := (\<lambda>_. None)(''k'' \<mapsto> ([[(''kid'', JStr ''k1'')]], now s + 3600))\<rparr>)"
  by (simp add: load_keys_def sso_demo_env_def)

definition started :: "unit sso_db_scheme" where
  "started = snd (beginLogin sso_demo_env \<lparr>sb_authorize = \<lambda>_ _. Inr [], sb_validate = \<lambda>_ _. Inr None, sb_metadata = \<lambda>_. []\<rparr>
     ''st'' ''v'' ''n'' 51 (Some ''https://evil.io'') sso_demo)"

lemma started_eval:
  "sso_login_flows started = [\<lparr>fl_id = 40, fl_provider_id = 51, fl_state = ''st'', fl_code_verifier = Some ''v'', fl_nonce = Some ''n'',
     fl_relay_target = ''https://adm.jm.io'', fl_expires_at = 600\<rparr>]"
  "users started = [ann]" "sessions started = []" "now started = 0" "sso_identities started = []" "jwks_cache started = (\<lambda>_. None)"
  "sso_providers started = [other_org_provider]" "org_members started = [\<lparr>m_org_id = 20, m_user_id = 11, m_role = Owner, m_created_at = 0\<rparr>]"
  "discovery_cache started ''https://idp'' = Some (\<lparr>od_issuer = Some ''https://idp'', od_authorization_endpoint = Some ''a'',
     od_token_endpoint = Some ''t'', od_jwks_uri = Some ''k''\<rparr>, 3600)"
  by (simp_all add: started_def beginLogin_def loadEnabled_def discover_def insert_flow_def endpoints_def callbackBase_def resolveRelay_def
      defaultRelay_def allowedRelayOrigins_def buildAuthUrl_def strip_slash_def exceptM_def truthy_def map_filter_def Let_def svc_simps sso_demo_eval
      other_org_provider_def sso_demo_env_def)


definition no_saml :: saml_lib where
  "no_saml = \<lparr>sb_authorize = \<lambda>_ _. Inr [], sb_validate = \<lambda>_ _. Inr None, sb_metadata = \<lambda>_. []\<rparr>"

lemma ann_signs_in:
  "\<exists>r t. completeOidc sso_demo_env demo_env ''tok'' 51 ''c'' ''st'' None None started = (Inr r, t) \<and> sr_relay r = ''https://adm.jm.io''"
proof -
  define f where "f = \<lparr>fl_id = 40, fl_provider_id = 51, fl_state = ''st'', fl_code_verifier = Some ''v'', fl_nonce = Some ''n'',
     fl_relay_target = ''https://adm.jm.io'', fl_expires_at = 600\<rparr>"
  define t1 where "t1 = started\<lparr>sso_login_flows := []\<rparr>"
  have c: "consumeFlow ''st'' started = (Inr (Some f), t1)" by (simp add: consumeFlow_def started_eval f_def t1_def)
  define t2 where "t2 = snd (load_keys sso_demo_env ''k'' False t1)"
  have v: "verifyIdToken sso_demo_env ''h.p.s'' ''k'' (Some ''https://idp'') ''jm'' ''n'' t1 = (Inr ann_claims, t2)"
    by (rule ann_token) (simp_all add: demo_keys t1_def t2_def started_eval)
  have t2: "users t2 = [ann]" "sessions t2 = []" "sso_identities t2 = []" by (simp_all add: t2_def t1_def demo_keys started_eval)
  define idn where "idn = \<lparr>sy_subject = ''7'', sy_email = Some ''ann@acme.io'', sy_name = None\<rparr>"
  have "linked_account (sp_id other_org_provider) (sy_subject idn) t2 = None" by (simp add: linked_account_def t2)
  from link_existing[OF this, of "''ann@acme.io''" ann]
  obtain t3 where l: "link_account other_org_provider idn t2 = (Inr 11, t3)" and t3: "users t3 = [ann]" "sessions t3 = []"
    by (auto simp: idn_def truthy_def t2 ann_def ci_eq_def)
  obtain g t4 where p: "provisionAndSession demo_env ''tok'' other_org_provider idn None None t2 = (Inr g, t4)"
    using l t3 by (simp add: provisionAndSession_def bindM_def thenM_def audit_log_run createSession_run demo_parts)
  have k: "loadEnabled 51 t1 = (Inr other_org_provider, t1)"
    by (simp add: loadEnabled_def svc_simps t1_def started_eval) (simp add: other_org_provider_def)
  have d: "discover sso_demo_env ''https://idp'' t1 = (Inr \<lparr>od_issuer = Some ''https://idp'', od_authorization_endpoint = Some ''a'',
      od_token_endpoint = Some ''t'', od_jwks_uri = Some ''k''\<rparr>, t1)"
    by (simp add: discover_def t1_def started_eval)
  have e: "\<exists>ep. endpoints sso_demo_env 51 = Inr ep" by (simp add: endpoints_def callbackBase_def sso_demo_env_def truthy_def Let_def)
  have x: "exchangeCode sso_demo_env a b m cc u w = Inr (Some ''h.p.s'')" for a b m cc u w by (simp add: exchangeCode_def sso_demo_env_def)
  have pc: "oidc_cfg other_org_provider = Some \<lparr>oc_issuer = ''https://idp'', oc_client_id = ''jm'', oc_scopes = [''openid''],
      oc_email_claim = ''email'', oc_name_claim = ''name''\<rparr>" "sp_secret_enc other_org_provider = None"
    by (simp_all add: other_org_provider_def oidc_cfg_def)
  have i: "\<lparr>sy_subject = (case claim ann_claims ''sub'' of Some v \<Rightarrow> ov_bind_text sso_demo_env v | None \<Rightarrow> []),
      sy_email = str_value (claim ann_claims ''email''), sy_name = str_value (claim ann_claims ''name'')\<rparr> = idn"
    by (simp add: idn_def ann_claims_def claim_def str_value_def sso_demo_env_def)
  show ?thesis using e v p
    by (auto simp: completeOidc_def bindM_def c k d x pc i exceptM_def someM_def returnM_def truthy_def str_or_empty_def f_def)
qed

theorem sso_state_single_use_witness:
  "\<exists>r t. completeOidc sso_demo_env demo_env ''tok'' 51 ''c'' ''st'' None None started = (Inr r, t) \<and>
     fst (completeOidc sso_demo_env demo_env ''new'' 51 ''c'' ''st'' None None t) = Inl (UnauthorizedException ''SSO login session expired'' None)"
proof -
  from ann_signs_in obtain r t where r: "completeOidc sso_demo_env demo_env ''tok'' 51 ''c'' ''st'' None None started = (Inr r, t)" by blast
  have "sso_run sso_demo_env no_saml demo_env (\<lambda>d. d \<noteq> ''st'') (snd (completeOidc sso_demo_env demo_env ''tok'' 51 ''c'' ''st'' None None started)) t"
    by (simp add: r sso_run_def)
  from sso_state_single_use[OF this] r show ?thesis by blast
qed

theorem sso_redirects_stay_home_witness:
  "\<exists>r t. completeOidc sso_demo_env demo_env ''tok'' 51 ''c'' ''st'' None None started = (Inr r, t) \<and> relay_home sso_demo_env (sr_relay r)"
proof -
  have "sso_step sso_demo_env no_saml demo_env (Some ''st'') sso_demo started" unfolding started_def no_saml_def by (rule sso_step.login)
  then have "sso_run sso_demo_env no_saml demo_env (\<lambda>d. True) sso_demo started" unfolding sso_run_def by blast
  from sso_redirects_stay_home[OF this sso_demo_eval(4)] ann_signs_in show ?thesis by blast
qed

theorem sso_takes_over_account_witness:
  "\<exists>g t p. provisionAndSession demo_env ''tok'' other_org_provider \<lparr>sy_subject = ''7'', sy_email = Some ''ann@acme.io'', sy_name = None\<rparr>
       None None sso_demo = (Inr g, t) \<and> resolveSession demo_env ''tok'' t = (Inr (Some p), t) \<and> p_user_id p = u_id ann \<and>
     effectiveRole t 20 (p_user_id p) = Some Owner \<and> sp_org_id other_org_provider \<noteq> 20"
proof -
  define idn where "idn = \<lparr>sy_subject = ''7'', sy_email = Some ''ann@acme.io'', sy_name = None\<rparr>"
  have h: "linked_account (sp_id other_org_provider) (sy_subject idn) sso_demo = None" "truthy (sy_email idn) = Some ''ann@acme.io''"
    "find (\<lambda>u. ci_eq (u_email u) ''ann@acme.io'') (users sso_demo) = Some ann" "u_status ann = ''active''"
    "memberRole sso_demo 20 (u_id ann) = Some Owner"
    by (simp_all add: linked_account_def sso_demo_eval idn_def truthy_def ann_def ci_eq_def memberRole_def)
  from link_existing[OF h(1,2,3,4)] obtain t3 where "link_account other_org_provider idn sso_demo = (Inr (u_id ann), t3)"
    "users t3 = [ann]" "sessions t3 = []" by (auto simp: sso_demo_eval)
  then obtain g t where p: "provisionAndSession demo_env ''tok'' other_org_provider idn None None sso_demo = (Inr g, t)"
    by (simp add: provisionAndSession_def bindM_def thenM_def audit_log_run createSession_run demo_parts)
  have "sp_org_id other_org_provider \<noteq> 20" by (simp add: other_org_provider_def)
  with sso_takes_over_account[OF p h(1,2,3,4) demo_parts(10) h(5)] p show ?thesis unfolding idn_def by blast
qed

definition owner_routing :: sso_routing where
  "owner_routing = \<lparr>rt_name = ''idp'', rt_enabled = True, rt_email_domain = None, rt_auto_provision = False, rt_default_role = Owner\<rparr>"

definition owner_request :: sso_provider_request where
  "owner_request = OidcReq owner_routing \<lparr>oc_issuer = ''https://idp'', oc_client_id = ''jm'', oc_scopes = [''openid''], oc_email_claim = ''email'',
     oc_name_claim = ''name''\<rparr> None"

definition admin_demo :: "unit sso_db_scheme" where
  "admin_demo = sso_demo\<lparr>users := [ann, ann\<lparr>u_id := 12, u_email := ''zed@acme.io''\<rparr>],
     org_members := [\<lparr>m_org_id = 50, m_user_id = 11, m_role = Admin, m_created_at = 0\<rparr>]\<rparr>"

theorem sso_admin_makes_owners_witness:
  "\<exists>d t row i v. effectiveRole admin_demo 50 11 = Some Admin \<and> sso_create sso_demo_env (as_user 11) 50 owner_request None admin_demo = (Inr d, t) \<and>
     row \<in> set (sso_providers t) \<and> sp_id row = sd_id d \<and>
     link_account row \<lparr>sy_subject = ''9'', sy_email = Some ''zed@acme.io'', sy_name = None\<rparr> t = (Inr i, v) \<and> i = 12 \<and>
     effectiveRole v 50 i = Some Owner"
proof -
  have r: "effectiveRole admin_demo 50 (p_user_id (as_user 11)) = Some Admin" "effectiveRole admin_demo 50 11 = Some Admin"
    by (simp_all add: effectiveRole_def memberRole_def admin_demo_def as_user_def)
  have u: "p_user_id (as_user 11) \<in> u_id ` set (users admin_demo)" "sso_identities admin_demo = []"
    "find (\<lambda>u. ci_eq (u_email u) ''zed@acme.io'') (users admin_demo) = Some (ann\<lparr>u_id := 12, u_email := ''zed@acme.io''\<rparr>)"
    "memberRole admin_demo 50 (u_id (ann\<lparr>u_id := 12, u_email := ''zed@acme.io''\<rparr>)) = None"
    "u_status (ann\<lparr>u_id := 12, u_email := ''zed@acme.io''\<rparr>) = ''active''"
    by (simp_all add: admin_demo_def as_user_def sso_demo_eval ann_def ci_eq_def toLowerCase_def js_lower_def memberRole_def)
  have q: "rt_default_role (req_routing owner_request) = Owner" "rt_email_domain (req_routing owner_request) = None"
    by (simp_all add: owner_request_def owner_routing_def)
  have b: "callbackBase sso_demo_env = Inr ''https://api.jm.io''"
    by (simp add: callbackBase_def sso_demo_env_def truthy_def strip_slash_def)
  from sso_admin_makes_owners[OF r(1) u(1) q b u(2,3,5) _ u(4), of None "''9''" None] r(2) show ?thesis by simp
qed

end
