(* ===== verification/JM_Dkim.thy ===== *)
theory JM_Dkim
  imports JM_Dns
begin

text \<open>
  \<open>DkimService\<close> (\<open>apps/api/src/dkim/dkim.service.ts\<close>): the signing keys of a domain, their DNS records, the key files and the
  selector map the mail filter reads, and the rotation by the worker. The table \<open>dkim_keys\<close> and the directory of key files
  extend the database of the DNS component. Key generation, sealing, the DNS provider, the resolver and which file operations fail are
  parameters. The key pair of a generation is a function of the algorithm and the identifier counter.
\<close>

section \<open>Data\<close>

datatype dkim_alg = Rsa2048 | Ed25519

datatype dkim_status = DkPending | DkPublished | DkActive | DkRetired

record dkim_row =
  dk_id :: uuid
  dk_domain_id :: uuid
  dk_selector :: string
  dk_algorithm :: dkim_alg
  dk_private_key_enc :: string
  dk_public_key :: string
  dk_status :: dkim_status
  dk_created_at :: timestamp
  dk_activated_at :: "timestamp option"
  dk_retired_at :: "timestamp option"

record 'w dkim_db = "'w dns_db" +
  dkim_keys :: "dkim_row list"
  key_dir :: "string \<Rightarrow> string option" \<comment> \<open>the files below \<open>DKIM_DIR\<close>\<close>

text \<open>What becomes of a write: done, failed before the file was written, or failed at \<open>chmod\<close>.\<close>

datatype fs_result = FsDone | FsFailed | FsChmodFailed

record 'w dkim_env =
  ke_keypair :: "dkim_alg \<Rightarrow> uuid \<Rightarrow> string \<times> string" \<comment> \<open>public and private key, PEM\<close>
  ke_seal :: "string \<Rightarrow> string"
  ke_open :: "string \<Rightarrow> string option"
  ke_write :: "string \<Rightarrow> fs_result"
  ke_provider :: "'w dns_provider"
  ke_resolveTxt :: "string \<Rightarrow> dns_error + string list list"
  ke_DKIM_ROTATION_ENABLED :: bool
  ke_DNS_PROVIDER :: string
  ke_CLOUDFLARE_API_TOKEN :: "string option"
  ke_DKIM_ROTATION_DAYS :: int
  ke_DKIM_ROTATION_OVERLAP_HOURS :: int

definition io_error :: exn where
  "io_error = HttpException 500 ''Error'' None"

section \<open>Helpers\<close>

text \<open>\<open>Date.getUTCFullYear\<close> and \<open>Date.getUTCMonth() + 1\<close> of a time in milliseconds, in the proleptic Gregorian calendar.\<close>

definition utc_year_month :: "timestamp \<Rightarrow> int \<times> int" where
  "utc_year_month ms =
     (let z = ms div 86400000 + 719468; era = z div 146097; doe = z mod 146097;
          yoe = (doe - doe div 1460 + doe div 36524 - doe div 146096) div 365;
          doy = doe - (365 * yoe + yoe div 4 - yoe div 100);
          mp = (5 * doy + 2) div 153;
          m = (if mp < 10 then mp + 3 else mp - 9)
      in (yoe + era * 400 + (if m \<le> 2 then 1 else 0), m))"

definition pad2 :: "int \<Rightarrow> string" where
  "pad2 n = (let t = show_int n in if length t < 2 then CHR ''0'' # t else t)"

definition nextSelector :: "timestamp \<Rightarrow> string" where
  "nextSelector t = (let (y, m) = utc_year_month t in ''jm'' @ show_int y @ pad2 m)"

definition is_upper :: "char \<Rightarrow> bool" where
  "is_upper c = (65 \<le> (of_char c :: nat) \<and> (of_char c :: nat) \<le> 90)"

text \<open>The length of a match of \<open>-----WORD [A-Z ]+-----\<close> at the start of a text.\<close>

definition armour_len :: "string \<Rightarrow> string \<Rightarrow> nat option" where
  "armour_len word s =
     (let open_len = length word + 6; rest = drop open_len s;
          run = takeWhile (\<lambda>c. is_upper c \<or> c = CHR '' '') rest
      in if startsWith s (''-----'' @ word @ '' '') \<and> run \<noteq> [] \<and> startsWith (drop (length run) rest) ''-----''
         then Some (open_len + length run + 5) else None)"

fun strip_armour :: "string \<Rightarrow> nat \<Rightarrow> string \<Rightarrow> string" where
  "strip_armour word skip [] = []"
| "strip_armour word (Suc n) (c # cs) = strip_armour word n cs"
| "strip_armour word 0 (c # cs) =
     (case armour_len word (c # cs) of
        Some n \<Rightarrow> strip_armour word (n - 1) cs
      | None \<Rightarrow> c # strip_armour word 0 cs)"

definition pemToDkimB64 :: "string \<Rightarrow> string" where
  "pemToDkimB64 pem = filter (\<lambda>c. \<not> js_space c) (strip_armour ''END'' 0 (strip_armour ''BEGIN'' 0 pem))"

fun alg_text :: "dkim_alg \<Rightarrow> string" where
  "alg_text Rsa2048 = ''rsa2048''"
| "alg_text Ed25519 = ''ed25519''"

definition dnsRecordContent :: "dkim_alg \<Rightarrow> string \<Rightarrow> string" where
  "dnsRecordContent alg pk = ''v=DKIM1; k='' @ (if alg = Ed25519 then ''ed25519'' else ''rsa'') @ ''; p='' @ pk"

definition dkim_name :: "string \<Rightarrow> string \<Rightarrow> string" where
  "dkim_name selector domain = selector @ ''._domainkey.'' @ domain"

record dkim_dto =
  kd_id :: uuid
  kd_domain_id :: uuid
  kd_selector :: string
  kd_algorithm :: dkim_alg
  kd_public_key :: string
  kd_status :: dkim_status
  kd_created_at :: timestamp
  kd_activated_at :: "timestamp option"
  kd_retired_at :: "timestamp option"
  kd_domain_name :: string

definition toKey :: "dkim_row \<times> domain_row \<Rightarrow> dkim_dto" where
  "toKey = (\<lambda>(k, d). \<lparr>kd_id = dk_id k, kd_domain_id = dk_domain_id k, kd_selector = dk_selector k, kd_algorithm = dk_algorithm k,
     kd_public_key = dk_public_key k, kd_status = dk_status k, kd_created_at = dk_created_at k, kd_activated_at = dk_activated_at k,
     kd_retired_at = dk_retired_at k, kd_domain_name = d_name d\<rparr>)"

text \<open>\<open>FROM dkim_keys k JOIN domains d ON d.id = k.domain_id\<close>.\<close>

definition key_join :: "('w, 'z) dkim_db_scheme \<Rightarrow> (dkim_row \<times> domain_row) list" where
  "key_join s = [(k, d). k \<leftarrow> dkim_keys s, d \<leftarrow> domains s, d_id d = dk_domain_id k]"

definition dkim_listForDomain :: "uuid \<Rightarrow> uuid \<Rightarrow> uuid \<Rightarrow> (('w, 'z) dkim_db_scheme, dkim_dto list) svc" where
  "dkim_listForDomain orgId domainId userId =
     thenM (requireRole orgId userId Viewer)
     (bindM (getsM (\<lambda>s. filter (\<lambda>(k, d). dk_domain_id k = domainId \<and> d_org_id d = orgId) (key_join s))) (\<lambda>rows.
      returnM (map toKey (sort_key (\<lambda>(k, d). - dk_created_at k) rows))))"

section \<open>Key files\<close>

definition key_file :: "string \<Rightarrow> string \<Rightarrow> string" where
  "key_file domain selector = domain @ ''.'' @ selector @ ''.key''"

definition put_file :: "string \<Rightarrow> string \<Rightarrow> ('w, 'z) dkim_db_scheme \<Rightarrow> ('w, 'z) dkim_db_scheme" where
  "put_file name body s = s\<lparr>key_dir := (key_dir s)(name \<mapsto> body)\<rparr>"

definition writeKeyFile :: "'w dkim_env \<Rightarrow> string \<Rightarrow> string \<Rightarrow> string \<Rightarrow> (('w, 'z) dkim_db_scheme, unit) svc" where
  "writeKeyFile env domain selector pem = (\<lambda>s.
     case ke_write env (key_file domain selector) of
       FsDone \<Rightarrow> (Inr (), put_file (key_file domain selector) pem s)
     | FsFailed \<Rightarrow> (Inl io_error, s)
     | FsChmodFailed \<Rightarrow> (Inl io_error, put_file (key_file domain selector) pem s))"

definition deleteKeyFile :: "string \<Rightarrow> string \<Rightarrow> (('w, 'z) dkim_db_scheme, unit) svc" where
  "deleteKeyFile domain selector = modifyM (\<lambda>s. s\<lparr>key_dir := (key_dir s)(key_file domain selector := None)\<rparr>)"

definition map_line :: "dkim_row \<times> domain_row \<Rightarrow> string" where
  "map_line = (\<lambda>(k, d). d_name d @ '' '' @ dk_selector k)"

definition active_rows :: "(string \<Rightarrow> 'c :: linorder) \<Rightarrow> ('w, 'z) dkim_db_scheme \<Rightarrow> (dkim_row \<times> domain_row) list" where
  "active_rows coll s = sort_key (\<lambda>(k, d). coll (d_name d)) (filter (\<lambda>(k, d). dk_status k = DkActive) (key_join s))"

definition rebuildSelectorMap :: "'w dkim_env \<Rightarrow> (string \<Rightarrow> 'c :: linorder) \<Rightarrow> (('w, 'z) dkim_db_scheme, unit) svc" where
  "rebuildSelectorMap env coll =
     bindM (getsM (active_rows coll)) (\<lambda>rows.
     thenM (throwIf (ke_write env ''selectors.map'' = FsFailed) io_error)
    (modifyM (put_file ''selectors.map'' (join [CHR 0x0A] (map map_line rows) @ [CHR 0x0A]))))"

definition live_keys :: "('w, 'z) dkim_db_scheme \<Rightarrow> (dkim_row \<times> domain_row) list" where
  "live_keys s = filter (\<lambda>(k, d). dk_status k \<in> {DkPending, DkPublished, DkActive}) (key_join s)"

definition write_one :: "'w dkim_env \<Rightarrow> dkim_row \<times> domain_row \<Rightarrow> (('w, 'z) dkim_db_scheme, unit) svc" where
  "write_one env = (\<lambda>(k, d).
     catchM (bindM (someM (ke_open env (dk_private_key_enc k)) io_error) (\<lambda>pem. writeKeyFile env (d_name d) (dk_selector k) pem))
       (\<lambda>err. returnM ()))"

definition syncKeysToDisk :: "'w dkim_env \<Rightarrow> (string \<Rightarrow> 'c :: linorder) \<Rightarrow> (('w, 'z) dkim_db_scheme, nat) svc" where
  "syncKeysToDisk env coll =
     bindM (getsM live_keys) (\<lambda>rows.
     thenM (forM rows (write_one env))
    (thenM (rebuildSelectorMap env coll)
    (returnM (length rows))))"

section \<open>Generation, activation, retirement\<close>

definition insert_dkim_key :: "uuid \<Rightarrow> string \<Rightarrow> dkim_alg \<Rightarrow> string \<Rightarrow> string \<Rightarrow> dkim_status \<Rightarrow> (('w, 'z) dkim_db_scheme, unit) svc" where
  "insert_dkim_key domainId selector alg enc pub status = (\<lambda>s.
     if \<exists>k \<in> set (dkim_keys s). dk_domain_id k = domainId \<and> dk_selector k = selector then (Inl (DbError ''23505''), s)
     else if domainId \<notin> d_id ` set (domains s) then (Inl (DbError ''23503''), s)
     else (Inr (), s\<lparr>dkim_keys := dkim_keys s @ [\<lparr>dk_id = next_id s, dk_domain_id = domainId, dk_selector = selector, dk_algorithm = alg,
             dk_private_key_enc = enc, dk_public_key = pub, dk_status = status, dk_created_at = now s, dk_activated_at = None,
             dk_retired_at = None\<rparr>], next_id := next_id s + 1\<rparr>))"

text \<open>\<open>INSERT INTO dns_records ... ON CONFLICT ... DO UPDATE SET content\<close>.\<close>

definition upsert_txt :: "uuid \<Rightarrow> string \<Rightarrow> string \<Rightarrow> 'z dom_db_scheme \<Rightarrow> 'z dom_db_scheme" where
  "upsert_txt domainId name content s =
     (if \<exists>r \<in> set (dns_records s). dr_domain_id r = domainId \<and> dr_purpose r = ''dkim'' \<and> dr_name r = name \<and> dr_type r = ''TXT''
      then s\<lparr>dns_records := map (\<lambda>r. if dr_domain_id r = domainId \<and> dr_purpose r = ''dkim'' \<and> dr_name r = name \<and> dr_type r = ''TXT''
             then r\<lparr>dr_content := content, dr_updated_at := now s\<rparr> else r) (dns_records s)\<rparr>
      else insert_dns domainId ''dkim'' ''TXT'' name content 3600 None s)"

record generate_result =
  ge_selector :: string
  ge_algorithm :: dkim_alg
  ge_dns_content :: string

definition dkim_generate ::
  "'w dkim_env \<Rightarrow> (string \<Rightarrow> 'c :: linorder) \<Rightarrow> principal \<Rightarrow> uuid \<Rightarrow> uuid \<Rightarrow> dkim_alg \<Rightarrow> string option
     \<Rightarrow> (('w, 'z) dkim_db_scheme, generate_result) svc" where
  "dkim_generate env coll p orgId domainId alg ip =
     thenM (requireRole orgId (p_user_id p) Admin)
     (bindM (getsM (\<lambda>s. find (\<lambda>d. d_id d = domainId \<and> d_org_id d = orgId) (domains s))) (\<lambda>row.
      bindM (someM row (NotFoundException ''Domain not found'' None)) (\<lambda>d.
      bindM (getsM (\<lambda>s. (nextSelector (now s), ke_keypair env alg (next_id s)))) (\<lambda>(selector, pub, priv).
      let content = dnsRecordContent alg (pemToDkimB64 pub) in
      thenM (catchM
              (tx (thenM (insert_dkim_key domainId selector alg (ke_seal env priv) pub DkPending)
                  (modifyM (upsert_txt domainId (dkim_name selector (d_name d)) content))))
              (unique_to_conflict ''Selector already exists''))
     (thenM (writeKeyFile env (d_name d) selector priv)
     (thenM (rebuildSelectorMap env coll)
     (thenM (audit_log (user_entry (Some orgId) p ''dkim.generate'' ''domain'' domainId ip
               [(''selector'', JStr selector), (''algorithm'', JStr (alg_text alg))]))
     (returnM \<lparr>ge_selector = selector, ge_algorithm = alg, ge_dns_content = content\<rparr>))))))))"

definition retire_others :: "uuid \<Rightarrow> uuid \<Rightarrow> ('w, 'z) dkim_db_scheme \<Rightarrow> ('w, 'z) dkim_db_scheme" where
  "retire_others domainId keyId s = s\<lparr>dkim_keys := map (\<lambda>k. if dk_domain_id k = domainId \<and> dk_id k \<noteq> keyId \<and> dk_status k = DkActive
     then k\<lparr>dk_status := DkRetired, dk_retired_at := Some (now s)\<rparr> else k) (dkim_keys s)\<rparr>"

text \<open>The second update; the unique index on the active key of a domain is checked.\<close>

definition promote_key :: "uuid \<Rightarrow> uuid \<Rightarrow> (('w, 'z) dkim_db_scheme, unit) svc" where
  "promote_key domainId keyId = (\<lambda>s.
     if (\<exists>k \<in> set (dkim_keys s). dk_id k = keyId \<and> dk_domain_id k = domainId) \<and>
        (\<exists>k \<in> set (dkim_keys s). dk_id k \<noteq> keyId \<and> dk_domain_id k = domainId \<and> dk_status k = DkActive)
     then (Inl (DbError ''23505''), s)
     else (Inr (), s\<lparr>dkim_keys := map (\<lambda>k. if dk_id k = keyId \<and> dk_domain_id k = domainId
             then k\<lparr>dk_status := DkActive, dk_activated_at := Some (now s)\<rparr> else k) (dkim_keys s)\<rparr>))"

definition dkim_activate ::
  "'w dkim_env \<Rightarrow> (string \<Rightarrow> 'c :: linorder) \<Rightarrow> principal \<Rightarrow> uuid \<Rightarrow> uuid \<Rightarrow> uuid \<Rightarrow> string option \<Rightarrow> (('w, 'z) dkim_db_scheme, unit) svc" where
  "dkim_activate env coll p orgId domainId keyId ip =
     thenM (requireRole orgId (p_user_id p) Admin)
     (thenM (catchM
         (tx (bindM (getsM (\<lambda>s. \<exists>(k, d) \<in> set (key_join s). dk_id k = keyId \<and> dk_domain_id k = domainId \<and> d_org_id d = orgId)) (\<lambda>hit.
              thenM (throwIf (\<not> hit) (NotFoundException ''Key not found'' None))
             (thenM (modifyM (retire_others domainId keyId))
             (promote_key domainId keyId)))))
         (unique_to_conflict ''Another key is already active''))
     (thenM (syncKeysToDisk env coll)
     (audit_log (user_entry (Some orgId) p ''dkim.activate'' ''dkim_key'' keyId ip []))))"

definition retire_key :: "uuid \<Rightarrow> ('w, 'z) dkim_db_scheme \<Rightarrow> ('w, 'z) dkim_db_scheme" where
  "retire_key keyId s = s\<lparr>dkim_keys := map (\<lambda>k. if dk_id k = keyId
     then k\<lparr>dk_status := DkRetired, dk_retired_at := Some (now s)\<rparr> else k) (dkim_keys s)\<rparr>"

definition dkim_retire ::
  "'w dkim_env \<Rightarrow> (string \<Rightarrow> 'c :: linorder) \<Rightarrow> principal \<Rightarrow> uuid \<Rightarrow> uuid \<Rightarrow> uuid \<Rightarrow> string option \<Rightarrow> (('w, 'z) dkim_db_scheme, unit) svc" where
  "dkim_retire env coll p orgId domainId keyId ip =
     thenM (requireRole orgId (p_user_id p) Admin)
     (bindM (getsM (\<lambda>s. find (\<lambda>(k, d). dk_id k = keyId \<and> dk_domain_id k = domainId \<and> d_org_id d = orgId) (key_join s))) (\<lambda>row.
      bindM (someM row (NotFoundException ''Key not found'' None)) (\<lambda>(k, d).
      thenM (modifyM (retire_key keyId))
     (thenM (deleteKeyFile (d_name d) (dk_selector k))
     (thenM (rebuildSelectorMap env coll)
     (audit_log (user_entry (Some orgId) p ''dkim.retire'' ''dkim_key'' keyId ip [])))))))"

section \<open>Rotation\<close>

definition suffixed :: "string \<Rightarrow> nat \<Rightarrow> string" where
  "suffixed base i = base @ ''-'' @ show_nat i"

lemma suffixed_inj: "suffixed base i = suffixed base j \<longleftrightarrow> i = j"
  by (simp add: suffixed_def show_nat_inj)

text \<open>The endless \<open>for\<close> loop over suffixes: it ends because only finitely many selectors are taken.\<close>

function fresh_suffix :: "string \<Rightarrow> string list \<Rightarrow> nat \<Rightarrow> string" where
  "fresh_suffix base taken i = (if suffixed base i \<in> set taken then fresh_suffix base taken (Suc i) else suffixed base i)"
  by pat_completeness auto

termination
proof (relation "measure (\<lambda>(base, taken, i). card {j. i \<le> j \<and> suffixed base j \<in> set taken})")
  fix base i and taken :: "string list"
  assume t: "suffixed base i \<in> set taken"
  have "finite {j. i \<le> j \<and> suffixed base j \<in> set taken}"
    by (rule finite_imageD[of "suffixed base"]) (auto simp: inj_on_def suffixed_inj intro: finite_subset[of _ "set taken"])
  moreover have "{j. Suc i \<le> j \<and> suffixed base j \<in> set taken} \<subset> {j. i \<le> j \<and> suffixed base j \<in> set taken}"
  proof (rule psubsetI)
    have "i \<in> {j. i \<le> j \<and> suffixed base j \<in> set taken}" "i \<notin> {j. Suc i \<le> j \<and> suffixed base j \<in> set taken}" using t by simp_all
    then show "{j. Suc i \<le> j \<and> suffixed base j \<in> set taken} \<noteq> {j. i \<le> j \<and> suffixed base j \<in> set taken}" by blast
  qed auto
  ultimately show "((base, taken, Suc i), base, taken, i) \<in> measure (\<lambda>(base, taken, i). card {j. i \<le> j \<and> suffixed base j \<in> set taken})"
    by (simp add: psubset_card_mono)
qed simp

declare fresh_suffix.simps [simp del]

definition freshSelector :: "uuid \<Rightarrow> ('w, 'z) dkim_db_scheme \<Rightarrow> string" where
  "freshSelector domainId s =
     (let base = nextSelector (now s);
          taken = map dk_selector (filter (\<lambda>k. dk_domain_id k = domainId \<and> startsWith (dk_selector k) base) (dkim_keys s))
      in if base \<notin> set taken then base else fresh_suffix base taken 2)"

definition mark_published :: "uuid \<Rightarrow> string \<Rightarrow> string \<Rightarrow> 'z dom_db_scheme \<Rightarrow> 'z dom_db_scheme" where
  "mark_published domainId name rid s = s\<lparr>dns_records := map (\<lambda>r. if dr_domain_id r = domainId \<and> dr_type r = ''TXT'' \<and> dr_name r = name
     then r\<lparr>dr_provider_record_id := Some rid, dr_check_status := ''propagating'', dr_updated_at := now s\<rparr> else r) (dns_records s)\<rparr>"

definition publishTxt :: "'w dkim_env \<Rightarrow> uuid \<Rightarrow> string \<Rightarrow> string \<Rightarrow> string \<Rightarrow> (('w, 'z) dns_db_scheme, unit) svc" where
  "publishTxt env domainId domain name content =
     (let prov = ke_provider env in
      bindM (readP (dp_findZoneId prov domain)) (\<lambda>found.
      bindM (someM (Option.bind found (\<lambda>z. if z = [] then None else Some z)) io_error) (\<lambda>zoneId.
      bindM (readP (dp_listRecords prov zoneId name ''TXT'')) (\<lambda>existing.
      let exact = (case find (\<lambda>e. pr_content e = content) existing of
            Some e \<Rightarrow> Some e
          | None \<Rightarrow> (case existing of [] \<Rightarrow> None | e # _ \<Rightarrow> Some e))
      in bindM (writeP (dp_upsertRecord prov zoneId exact
                 \<lparr>di_type = ''TXT'', di_name = name, di_content = content, di_ttl = 3600, di_priority = None\<rparr>)) (\<lambda>r.
         modifyM (mark_published domainId name (pr_id r)))))))"

definition txtResolves :: "'w dkim_env \<Rightarrow> string \<Rightarrow> string \<Rightarrow> bool" where
  "txtResolves env name expectedB64 =
     (case ke_resolveTxt env name of Inl e \<Rightarrow> False | Inr txt \<Rightarrow> contains (join '' '' (map concat txt)) expectedB64)"

definition rotation_due :: "'w dkim_env \<Rightarrow> ('w, 'z) dkim_db_scheme \<Rightarrow> dkim_row \<Rightarrow> bool" where
  "rotation_due env s k =
     (dk_status k = DkActive \<and> (case dk_activated_at k of Some a \<Rightarrow> a < now s - ke_DKIM_ROTATION_DAYS env * 86400000 | None \<Rightarrow> False) \<and>
      \<not> (\<exists>x \<in> set (dkim_keys s). dk_domain_id x = dk_domain_id k \<and> (dk_status x = DkPending \<or> dk_status x = DkPublished)))"

definition system_entry :: "uuid \<Rightarrow> string \<Rightarrow> string \<Rightarrow> uuid \<Rightarrow> (string \<times> json) list \<Rightarrow> audit_entry" where
  "system_entry orgId action ttype target meta = \<lparr>a_org_id = Some orgId, a_actor_type = ActorSystem, a_actor_id = None, a_action = action,
     a_target_type = Some ttype, a_target_id = Some target, a_ip = None, a_meta = meta\<rparr>"

definition start_rotation ::
  "'w dkim_env \<Rightarrow> (string \<Rightarrow> 'c :: linorder) \<Rightarrow> dkim_row \<times> domain_row \<Rightarrow> (('w, 'z) dkim_db_scheme, string) svc" where
  "start_rotation env coll = (\<lambda>(k, d).
     bindM (getsM (\<lambda>s. (freshSelector (d_id d) s, ke_keypair env (dk_algorithm k) (next_id s)))) (\<lambda>(selector, pub, priv).
     let content = dnsRecordContent (dk_algorithm k) (pemToDkimB64 pub); recordName = dkim_name selector (d_name d) in
     thenM (tx (thenM (insert_dkim_key (d_id d) selector (dk_algorithm k) (ke_seal env priv) pub DkPublished)
                 (modifyM (upsert_txt (d_id d) recordName content))))
    (thenM (publishTxt env (d_id d) (d_name d) recordName content)
    (thenM (writeKeyFile env (d_name d) selector priv)
    (thenM (rebuildSelectorMap env coll)
    (thenM (audit_log (system_entry (d_org_id d) ''dkim.rotate.start'' ''domain'' (d_id d)
              [(''selector'', JStr selector), (''algorithm'', JStr (alg_text (dk_algorithm k)))]))
    (returnM recordName)))))))"

fun start_loop ::
  "'w dkim_env \<Rightarrow> (string \<Rightarrow> 'c :: linorder) \<Rightarrow> (dkim_row \<times> domain_row) list \<Rightarrow> (('w, 'z) dkim_db_scheme, string list) svc" where
  "start_loop env coll [] = returnM []"
| "start_loop env coll (r # rs) =
     bindM (catchM (bindM (start_rotation env coll r) (\<lambda>n. returnM [n])) (\<lambda>err. returnM [])) (\<lambda>one.
     bindM (start_loop env coll rs) (\<lambda>more. returnM (one @ more)))"

definition startDueRotations :: "'w dkim_env \<Rightarrow> (string \<Rightarrow> 'c :: linorder) \<Rightarrow> (('w, 'z) dkim_db_scheme, string list) svc" where
  "startDueRotations env coll =
     bindM (getsM (\<lambda>s. filter (\<lambda>(k, d). rotation_due env s k) (key_join s))) (start_loop env coll)"

text \<open>The transaction of a promotion, and what follows it.\<close>

definition promote_tx :: "uuid \<Rightarrow> uuid \<Rightarrow> (('w, 'z) dkim_db_scheme, unit) svc" where
  "promote_tx domainId keyId = tx (thenM (modifyM (retire_others domainId keyId)) (promote_key domainId keyId))"

definition promote_one ::
  "'w dkim_env \<Rightarrow> (string \<Rightarrow> 'c :: linorder) \<Rightarrow> dkim_row \<times> domain_row \<Rightarrow> (('w, 'z) dkim_db_scheme, string list) svc" where
  "promote_one env coll = (\<lambda>(k, d).
     let recordName = dkim_name (dk_selector k) (d_name d) in
     if \<not> txtResolves env recordName (pemToDkimB64 (dk_public_key k)) then returnM []
     else bindM (catchM (thenM (promote_tx (d_id d) (dk_id k)) (returnM True)) (\<lambda>err. returnM False)) (\<lambda>ok.
       if \<not> ok then returnM []
       else thenM (syncKeysToDisk env coll)
           (thenM (audit_log (system_entry (d_org_id d) ''dkim.rotate.promote'' ''dkim_key'' (dk_id k) [(''selector'', JStr (dk_selector k))]))
           (returnM [recordName]))))"

fun promote_loop ::
  "'w dkim_env \<Rightarrow> (string \<Rightarrow> 'c :: linorder) \<Rightarrow> (dkim_row \<times> domain_row) list \<Rightarrow> (('w, 'z) dkim_db_scheme, string list) svc" where
  "promote_loop env coll [] = returnM []"
| "promote_loop env coll (r # rs) =
     bindM (promote_one env coll r) (\<lambda>one.
     bindM (promote_loop env coll rs) (\<lambda>more. returnM (one @ more)))"

definition promote_ready :: "'w dkim_env \<Rightarrow> ('w, 'z) dkim_db_scheme \<Rightarrow> dkim_row \<Rightarrow> bool" where
  "promote_ready env s k = (dk_status k = DkPublished \<and> dk_created_at k < now s - ke_DKIM_ROTATION_OVERLAP_HOURS env * 3600000)"

definition promoteReadyRotations :: "'w dkim_env \<Rightarrow> (string \<Rightarrow> 'c :: linorder) \<Rightarrow> (('w, 'z) dkim_db_scheme, string list) svc" where
  "promoteReadyRotations env coll =
     bindM (getsM (\<lambda>s. filter (\<lambda>(k, d). promote_ready env s k) (key_join s))) (promote_loop env coll)"

definition rotateDue :: "'w dkim_env \<Rightarrow> (string \<Rightarrow> 'c :: linorder) \<Rightarrow> (('w, 'z) dkim_db_scheme, string list \<times> string list) svc" where
  "rotateDue env coll =
     (if \<not> ke_DKIM_ROTATION_ENABLED env \<or> ke_DNS_PROVIDER env \<noteq> ''cloudflare'' \<or> ke_CLOUDFLARE_API_TOKEN env \<in> {None, Some []}
      then returnM ([], [])
      else bindM (startDueRotations env coll) (\<lambda>started.
           bindM (promoteReadyRotations env coll) (\<lambda>promoted. returnM (started, promoted))))"

end
