(* ===== verification/JM_DkimFacts.thy ===== *)
theory JM_DkimFacts
  imports JM_Dkim JM_DnsSync
begin

text \<open>
  Facts about signing keys (\<open>JM_Dkim\<close>): one active key per domain, what the mail filter reads is what the database says, and what
  the rotation does to the active key.
\<close>

section \<open>Operations that leave the keys alone\<close>

definition kframe :: "('w, 'z) dkim_db_scheme \<Rightarrow> ('w, 'z) dkim_db_scheme \<Rightarrow> bool" where
  "kframe s t \<longleftrightarrow> dkim_keys t = dkim_keys s \<and> domains t = domains s \<and> now t = now s \<and> next_id s \<le> next_id t"

definition quiet :: "(('w, 'z) dkim_db_scheme, 'a) svc \<Rightarrow> bool" where
  "quiet m \<longleftrightarrow> (\<forall>s. kframe s (snd (m s)))"

named_theorems quiet_intro

lemma kframe_refl [simp]: "kframe s s"
  by (simp add: kframe_def)

lemma kframe_trans: "kframe s t \<Longrightarrow> kframe t u \<Longrightarrow> kframe s u"
  by (simp add: kframe_def)

lemma quietD: "quiet m \<Longrightarrow> m s = (r, t) \<Longrightarrow> kframe s t"
  by (metis quiet_def snd_conv)

lemma readonly_quiet: "readonly m \<Longrightarrow> quiet m"
  by (simp add: readonly_def quiet_def)

lemma quiet_basic [quiet_intro]:
  "quiet (returnM x)" "quiet (throwM e)" "quiet (getsM f)" "quiet (throwIf c e)" "quiet (someM y e)" "quiet (requireRole org u need)"
  by (auto intro: readonly_quiet readonly_basic readonly_requireRole)

lemma quiet_modifyM [quiet_intro]: "(\<And>s. kframe s (f s)) \<Longrightarrow> quiet (modifyM f)"
  by (simp add: quiet_def modifyM_def)

lemma quiet_bindM [quiet_intro]: "quiet m \<Longrightarrow> (\<And>x. quiet (f x)) \<Longrightarrow> quiet (bindM m f)"
  by (auto simp: quiet_def bindM_def split: prod.splits sum.splits) (metis kframe_trans snd_conv)+

lemma quiet_thenM [quiet_intro]: "quiet m \<Longrightarrow> quiet n \<Longrightarrow> quiet (thenM m n)"
  by (simp add: thenM_def quiet_bindM)

lemma quiet_catchM [quiet_intro]: "quiet m \<Longrightarrow> (\<And>e. quiet (h e)) \<Longrightarrow> quiet (catchM m h)"
  by (auto simp: quiet_def catchM_def split: prod.splits sum.splits) (metis kframe_trans snd_conv)+

lemma quiet_forM [quiet_intro]: "(\<And>x. quiet (f x)) \<Longrightarrow> quiet (forM xs f)"
  by (induction xs) (auto intro: quiet_intro)

lemma quiet_zone [quiet_intro]: "quiet (readP f)" "quiet (writeP g)"
  by (auto simp: quiet_def readP_def writeP_def kframe_def split: sum.splits prod.splits)

lemma quiet_files [quiet_intro]: "quiet (writeKeyFile env d sel pem)" "quiet (deleteKeyFile d sel)" "quiet (audit_log e)"
  by (auto simp: quiet_def writeKeyFile_def deleteKeyFile_def put_file_def modifyM_def audit_log_def audit_insert_def kframe_def
      split: fs_result.splits)

lemma kframe_writes [simp]:
  "kframe s (put_file n b s)" "kframe s (upsert_txt dm n c s)" "kframe s (mark_published dm n i s)"
  by (simp_all add: kframe_def put_file_def upsert_txt_def insert_dns_def mark_published_def)

lemma quiet_rebuild [quiet_intro]: "quiet (rebuildSelectorMap env coll)"
  unfolding rebuildSelectorMap_def by (intro quiet_intro kframe_writes)

lemma quiet_sync [quiet_intro]: "quiet (syncKeysToDisk env coll)"
  unfolding syncKeysToDisk_def write_one_def by (auto intro!: quiet_intro)

lemma quiet_publish [quiet_intro]: "quiet (publishTxt env dm d n c)"
  unfolding publishTxt_def Let_def by (intro quiet_intro kframe_writes)

definition kstable :: "(('w, 'z) dkim_db_scheme \<Rightarrow> bool) \<Rightarrow> bool" where
  "kstable I \<longleftrightarrow> (\<forall>s t. kframe s t \<longrightarrow> I s \<longrightarrow> I t)"

lemma quiet_preserves: "kstable I \<Longrightarrow> quiet m \<Longrightarrow> preserves I m"
  by (auto simp: kstable_def quiet_def preserves_def)

lemma preserves_gets_bind: "(\<And>s. preserves I (f (g s))) \<Longrightarrow> preserves I (bindM (getsM g) f)"
  by (auto simp: preserves_def bindM_def getsM_def)

section \<open>The two writes of an activation\<close>

definition promoted :: "uuid \<Rightarrow> uuid \<Rightarrow> timestamp \<Rightarrow> dkim_row \<Rightarrow> dkim_row" where
  "promoted dm i t k = (if dk_domain_id k = dm \<and> dk_id k = i then k\<lparr>dk_status := DkActive, dk_activated_at := Some t\<rparr>
     else if dk_domain_id k = dm \<and> dk_status k = DkActive then k\<lparr>dk_status := DkRetired, dk_retired_at := Some t\<rparr> else k)"

lemma promoted_ids [simp]: "dk_id (promoted dm i t k) = dk_id k" "dk_domain_id (promoted dm i t k) = dk_domain_id k"
  "dk_selector (promoted dm i t k) = dk_selector k"
  by (simp_all add: promoted_def)

text \<open>The index is never violated: the active key is retired first.\<close>

definition deactivated :: "uuid \<Rightarrow> uuid \<Rightarrow> timestamp \<Rightarrow> dkim_row \<Rightarrow> dkim_row" where
  "deactivated dm i t k = (if dk_domain_id k = dm \<and> dk_id k \<noteq> i \<and> dk_status k = DkActive
     then k\<lparr>dk_status := DkRetired, dk_retired_at := Some t\<rparr> else k)"

lemma deactivated_sel [simp]:
  "dk_id (deactivated dm i t k) = dk_id k" "dk_domain_id (deactivated dm i t k) = dk_domain_id k"
  "dk_status (deactivated dm i t k) =
     (if dk_domain_id k = dm \<and> dk_id k \<noteq> i \<and> dk_status k = DkActive then DkRetired else dk_status k)"
  by (simp_all add: deactivated_def)

lemma retire_others_map: "retire_others dm i s = s\<lparr>dkim_keys := map (deactivated dm i (now s)) (dkim_keys s)\<rparr>"
  unfolding retire_others_def deactivated_def ..

lemma promote_pair:
  "thenM (modifyM (retire_others dm i)) (promote_key dm i) s = (Inr (), s\<lparr>dkim_keys := map (promoted dm i (now s)) (dkim_keys s)\<rparr>)"
proof -
  define u where "u = retire_others dm i s"
  have n: "\<not> (\<exists>k \<in> set (dkim_keys u). dk_id k \<noteq> i \<and> dk_domain_id k = dm \<and> dk_status k = DkActive)"
    unfolding u_def retire_others_map by simp
  have "thenM (modifyM (retire_others dm i)) (promote_key dm i) s = promote_key dm i u"
    by (simp add: thenM_def bindM_def modifyM_def u_def)
  also have "\<dots> = (Inr (), u\<lparr>dkim_keys := map (\<lambda>k. if dk_id k = i \<and> dk_domain_id k = dm
      then k\<lparr>dk_status := DkActive, dk_activated_at := Some (now u)\<rparr> else k) (dkim_keys u)\<rparr>)"
    unfolding promote_key_def using n by (simp only: simp_thms if_False)
  also have "\<dots> = (Inr (), s\<lparr>dkim_keys := map (promoted dm i (now s)) (dkim_keys s)\<rparr>)"
  proof -
    have n: "now u = now s" by (simp add: u_def retire_others_map)
    have "(if dk_id (deactivated dm i (now s) k) = i \<and> dk_domain_id (deactivated dm i (now s) k) = dm
        then (deactivated dm i (now s) k)\<lparr>dk_status := DkActive, dk_activated_at := Some (now s)\<rparr>
        else deactivated dm i (now s) k) = promoted dm i (now s) k" for k
      by (cases "dk_id k = i"; cases "dk_domain_id k = dm"; cases "dk_status k = DkActive") (simp_all add: deactivated_def promoted_def)
    then have "map (\<lambda>k. if dk_id k = i \<and> dk_domain_id k = dm then k\<lparr>dk_status := DkActive, dk_activated_at := Some (now s)\<rparr> else k)
        (map (deactivated dm i (now s)) ks) = map (promoted dm i (now s)) ks" for ks
      unfolding list.map_comp comp_def by (intro map_cong refl)
    then show ?thesis unfolding n by (simp add: u_def retire_others_map del: list.map_comp)
  qed
  finally show ?thesis .
qed

lemma promote_tx_run: "promote_tx dm i s = (Inr (), s\<lparr>dkim_keys := map (promoted dm i (now s)) (dkim_keys s)\<rparr>)"
  by (simp add: promote_tx_def tx_def promote_pair)

section \<open>One active key per domain\<close>

definition is_active :: "dkim_row \<Rightarrow> bool" where
  "is_active k \<longleftrightarrow> dk_status k = DkActive"

definition one_active :: "dkim_row list \<Rightarrow> bool" where
  "one_active ks \<longleftrightarrow> distinct (map dk_domain_id (filter is_active ks))"

definition keys_ok :: "uuid \<Rightarrow> dkim_row list \<Rightarrow> bool" where
  "keys_ok n ks \<longleftrightarrow> distinct (map dk_id ks) \<and> (\<forall>k \<in> set ks. dk_id k < n) \<and> one_active ks \<and>
     distinct (map (\<lambda>k. (dk_domain_id k, dk_selector k)) ks) \<and> (\<forall>k \<in> set ks. CHR ''.'' \<notin> set (dk_selector k))"

abbreviation dkim_ok :: "('w, 'z) dkim_db_scheme \<Rightarrow> bool" where
  "dkim_ok s \<equiv> keys_ok (next_id s) (dkim_keys s)"

lemma keys_ok_mono: "keys_ok n ks \<Longrightarrow> n \<le> m \<Longrightarrow> keys_ok m ks"
  by (auto simp: keys_ok_def)

lemma kstable_ok: "kstable dkim_ok"
  by (auto simp: kstable_def kframe_def intro: keys_ok_mono)

lemma keys_ok_insert:
  assumes "keys_ok n ks" "dk_id k = n" "\<not> is_active k" "CHR ''.'' \<notin> set (dk_selector k)"
    and "\<not> (\<exists>x \<in> set ks. dk_domain_id x = dk_domain_id k \<and> dk_selector x = dk_selector k)"
  shows "keys_ok (n + 1) (ks @ [k])"
  using assms by (fastforce simp: keys_ok_def one_active_def)

definition chosen :: "uuid \<Rightarrow> uuid \<Rightarrow> dkim_row \<Rightarrow> bool" where
  "chosen dm i k \<longleftrightarrow> (if dk_domain_id k = dm then dk_id k = i else is_active k)"

lemma one_active_choice:
  "distinct (map dk_id ks) \<Longrightarrow> distinct (map dk_domain_id (filter is_active ks)) \<Longrightarrow> distinct (map dk_domain_id (filter (chosen dm i) ks))"
proof (induction ks)
  case (Cons a ks)
  have "dk_domain_id a \<notin> dk_domain_id ` set (filter (chosen dm i) ks)" if c: "chosen dm i a"
  proof
    assume "dk_domain_id a \<in> dk_domain_id ` set (filter (chosen dm i) ks)"
    then obtain x where x: "x \<in> set ks" "chosen dm i x" "dk_domain_id x = dk_domain_id a" by auto
    show False
    proof (cases "dk_domain_id a = dm")
      case True
      with x c have "dk_id x = dk_id a" by (simp add: chosen_def)
      with x(1) Cons.prems(1) show False by (metis distinct.simps(2) image_eqI list.set_map list.simps(9))
    next
      case False
      with x c have "is_active x" "is_active a" by (simp_all add: chosen_def)
      with x Cons.prems(2) show False by (auto simp: image_iff)
    qed
  qed
  moreover have "distinct (map dk_domain_id (filter (chosen dm i) ks))"
    using Cons.prems by (intro Cons.IH) (auto split: if_splits)
  ultimately show ?case by simp
qed simp

lemma is_active_promoted: "is_active (promoted dm i n k) \<longleftrightarrow> chosen dm i k"
  by (simp add: promoted_def is_active_def chosen_def)

lemma keys_ok_promoted: "keys_ok n ks \<Longrightarrow> keys_ok n (map (promoted dm i t) ks)"
  using one_active_choice[of ks dm i] by (simp add: keys_ok_def one_active_def filter_map comp_def is_active_promoted)

lemma keys_ok_retired:
  assumes "keys_ok n ks" shows "keys_ok n (map (\<lambda>k. if dk_id k = i then k\<lparr>dk_status := DkRetired, dk_retired_at := t\<rparr> else k) ks)"
proof -
  let ?f = "\<lambda>k. if dk_id k = i then k\<lparr>dk_status := DkRetired, dk_retired_at := t\<rparr> else k"
  have sel: "dk_id (?f k) = dk_id k" "dk_domain_id (?f k) = dk_domain_id k" "dk_selector (?f k) = dk_selector k"
    "is_active (?f k) \<longleftrightarrow> is_active k \<and> dk_id k \<noteq> i" for k by (simp_all add: is_active_def)
  have "distinct (map dk_domain_id (filter (\<lambda>k. is_active k \<and> dk_id k \<noteq> i) ks))"
    using assms by (auto simp: keys_ok_def one_active_def distinct_map inj_on_def)
  then show ?thesis using assms unfolding keys_ok_def one_active_def filter_map list.map_comp comp_def sel by auto
qed

lemma show_nat_no_dot: "CHR ''.'' \<notin> set (show_nat n)"
  using show_nat_all_digits[of n] by (auto simp: is_digit_def)

lemma show_int_no_dot: "CHR ''.'' \<notin> set (show_int i)"
  by (simp add: show_int_def show_nat_no_dot)

lemma nextSelector_no_dot: "CHR ''.'' \<notin> set (nextSelector t)"
  by (simp add: nextSelector_def pad2_def show_int_no_dot Let_def split: prod.splits)

lemma fresh_suffix_spec: "fresh_suffix base taken i \<notin> set taken \<and> (\<exists>j. fresh_suffix base taken i = suffixed base j)"
proof (induction base taken i rule: fresh_suffix.induct)
  case (1 base taken i)
  then show ?case by (subst (1 2) fresh_suffix.simps) auto
qed

lemma fresh_cases:
  obtains (base) "freshSelector dm s = nextSelector (now s)" | (suffix) j where "freshSelector dm s = suffixed (nextSelector (now s)) j"
proof -
  obtain taken where "freshSelector dm s = nextSelector (now s) \<or> freshSelector dm s = fresh_suffix (nextSelector (now s)) taken 2"
    unfolding freshSelector_def Let_def by metis
  then show thesis using that fresh_suffix_spec[of "nextSelector (now s)" taken 2] by metis
qed

lemma freshSelector_no_dot: "CHR ''.'' \<notin> set (freshSelector dm s)"
  by (cases rule: fresh_cases[of dm s]) (simp_all add: nextSelector_no_dot suffixed_def show_nat_no_dot)

section \<open>Invariants of the service\<close>

text \<open>
  What an invariant of the key table has to survive: writes that leave the keys alone, a new key that is not active, and a promotion.
  \<open>ins_ok\<close> says for which domains keys may appear, \<open>prom_ok\<close> which key of which domain may be promoted.
\<close>

definition new_key_at :: "('w, 'z) dkim_db_scheme \<Rightarrow> uuid \<Rightarrow> dkim_row \<Rightarrow> bool" where
  "new_key_at s dm k \<longleftrightarrow> dk_id k = next_id s \<and> dk_domain_id k = dm \<and> dk_created_at k = now s \<and> dk_status k \<in> {DkPending, DkPublished} \<and>
     CHR ''.'' \<notin> set (dk_selector k) \<and> \<not> (\<exists>x \<in> set (dkim_keys s). dk_domain_id x = dm \<and> dk_selector x = dk_selector k)"

locale key_invariant =
  fixes I :: "('w, 'z) dkim_db_scheme \<Rightarrow> bool" and ins_ok :: "uuid \<Rightarrow> bool" and prom_ok :: "uuid \<Rightarrow> uuid \<Rightarrow> bool"
  assumes stable: "kframe s t \<Longrightarrow> I s \<Longrightarrow> I t"
    and insert: "I s \<Longrightarrow> ins_ok dm \<Longrightarrow> new_key_at s dm k \<Longrightarrow> I (s\<lparr>dkim_keys := dkim_keys s @ [k], next_id := next_id s + 1\<rparr>)"
    and promote: "I s \<Longrightarrow> prom_ok dm i \<Longrightarrow> I (s\<lparr>dkim_keys := map (promoted dm i (now s)) (dkim_keys s)\<rparr>)"
begin

lemma quiet_keeps: "quiet m \<Longrightarrow> preserves I m"
  by (rule quiet_preserves) (auto simp: kstable_def intro: stable)

lemma insert_keeps:
  assumes "ins_ok dm" "CHR ''.'' \<notin> set sel" "st \<in> {DkPending, DkPublished}"
  shows "preserves I (insert_dkim_key dm sel alg enc pub st)"
  unfolding preserves_def insert_dkim_key_def using assms by (auto simp: new_key_at_def intro!: insert[simplified])

lemma generate_keeps: "ins_ok dm \<Longrightarrow> preserves I (dkim_generate env coll p org dm alg ip)"
  unfolding dkim_generate_def Let_def
  by (intro preserves_thenM preserves_bindM[where m = "someM _ _"] preserves_gets_bind; (simp only: prod.case)?;
      (intro preserves_pair preserves_thenM preserves_catchM preserves_tx preserves_unique_to_conflict insert_keeps)?)
    (auto intro!: nextSelector_no_dot quiet_keeps quiet_intro)

lemma promote_tx_keeps: "prom_ok dm i \<Longrightarrow> preserves I (promote_tx dm i)"
  by (simp add: preserves_def promote_tx_run promote)

lemma activate_keeps:
  assumes "prom_ok dm i" shows "preserves I (dkim_activate env coll p org dm i ip)"
proof -
  have "preserves I (thenM (modifyM (retire_others dm i)) (promote_key dm i))"
    using assms by (simp add: preserves_def promote_pair promote)
  then show ?thesis
    unfolding dkim_activate_def
    by (auto intro!: preserves_thenM preserves_bindM preserves_catchM preserves_tx preserves_unique_to_conflict preserves_basic
        intro: quiet_keeps quiet_intro)
qed

lemma start_keeps: "ins_ok (d_id d) \<Longrightarrow> preserves I (start_rotation env coll (k, d))"
  unfolding start_rotation_def Let_def prod.case
  by (intro preserves_gets_bind; simp only: prod.case; intro preserves_pair preserves_thenM preserves_tx insert_keeps)
    (auto intro!: freshSelector_no_dot quiet_keeps quiet_intro)

lemma start_loop_keeps: "(\<And>k d. (k, d) \<in> set rows \<Longrightarrow> ins_ok (d_id d)) \<Longrightarrow> preserves I (start_loop env coll rows)"
proof (induction rows)
  case (Cons r rs)
  obtain k d where r: "r = (k, d)" by force
  have "preserves I (start_rotation env coll r)" unfolding r by (rule start_keeps) (use Cons.prems r in auto)
  moreover have "preserves I (start_loop env coll rs)" using Cons by auto
  ultimately show ?case by (auto intro!: preserves_bindM preserves_catchM preserves_basic)
qed (simp add: preserves_basic)

lemma promote_one_keeps:
  assumes "txtResolves env (dkim_name (dk_selector k) (d_name d)) (pemToDkimB64 (dk_public_key k)) \<Longrightarrow> prom_ok (d_id d) (dk_id k)"
  shows "preserves I (promote_one env coll (k, d))"
proof (cases "txtResolves env (dkim_name (dk_selector k) (d_name d)) (pemToDkimB64 (dk_public_key k))")
  case True
  note p = promote_tx_keeps[OF assms[OF True]]
  show ?thesis
    unfolding promote_one_def Let_def prod.case
    by (intro p preserves_bindM preserves_thenM preserves_catchM preserves_basic preserves_if quiet_keeps quiet_sync quiet_files)
qed (simp add: promote_one_def preserves_basic)

lemma promote_loop_keeps:
  "(\<And>k d. (k, d) \<in> set rows \<Longrightarrow> txtResolves env (dkim_name (dk_selector k) (d_name d)) (pemToDkimB64 (dk_public_key k)) \<Longrightarrow>
      prom_ok (d_id d) (dk_id k)) \<Longrightarrow> preserves I (promote_loop env coll rows)"
proof (induction rows)
  case (Cons r rs)
  obtain k d where r: "r = (k, d)" by force
  have "preserves I (promote_one env coll r)" unfolding r by (rule promote_one_keeps) (use Cons.prems r in auto)
  moreover have "preserves I (promote_loop env coll rs)" using Cons by auto
  ultimately show ?case by (auto intro!: preserves_bindM preserves_basic)
qed (simp add: preserves_basic)

end

interpretation ok: key_invariant "\<lambda>s :: ('w, 'z) dkim_db_scheme. dkim_ok s" "\<lambda>_. True" "\<lambda>_ _. True"
proof
  fix s t :: "('w, 'z) dkim_db_scheme" and dm i k
  show "kframe s t \<Longrightarrow> dkim_ok s \<Longrightarrow> dkim_ok t" using kstable_ok by (auto simp: kstable_def)
  show "dkim_ok s \<Longrightarrow> new_key_at s dm k \<Longrightarrow> dkim_ok (s\<lparr>dkim_keys := dkim_keys s @ [k], next_id := next_id s + 1\<rparr>)"
    using keys_ok_insert[of "next_id s" "dkim_keys s" k] by (auto simp: new_key_at_def is_active_def)
  show "dkim_ok s \<Longrightarrow> dkim_ok (s\<lparr>dkim_keys := map (promoted dm i (now s)) (dkim_keys s)\<rparr>)" by (simp add: keys_ok_promoted)
qed

definition due_rows :: "'w dkim_env \<Rightarrow> ('w, 'z) dkim_db_scheme \<Rightarrow> (dkim_row \<times> domain_row) list" where
  "due_rows env s = filter (\<lambda>(k, d). rotation_due env s k) (key_join s)"

definition ready_rows :: "'w dkim_env \<Rightarrow> ('w, 'z) dkim_db_scheme \<Rightarrow> (dkim_row \<times> domain_row) list" where
  "ready_rows env s = filter (\<lambda>(k, d). promote_ready env s k) (key_join s)"

lemma key_join_iff: "(k, d) \<in> set (key_join s) \<longleftrightarrow> k \<in> set (dkim_keys s) \<and> d \<in> set (domains s) \<and> d_id d = dk_domain_id k"
  by (auto simp: key_join_def)

lemma start_loop_run:
  "\<exists>l. start_loop env coll rows s = (Inr l, fold (\<lambda>r s. snd (start_rotation env coll r s)) rows s)"
proof (induction rows arbitrary: s)
  case (Cons r rs)
  obtain x u where "start_rotation env coll r s = (x, u)" by force
  with Cons[of u] show ?case by (cases x) (auto simp: bindM_def catchM_def returnM_def)
qed (simp add: returnM_def)

text \<open>A rotation is its two loops, over the rows each phase reads.\<close>

definition rotation_on :: "'w dkim_env \<Rightarrow> bool" where
  "rotation_on env \<longleftrightarrow> ke_DKIM_ROTATION_ENABLED env \<and> ke_DNS_PROVIDER env = ''cloudflare'' \<and> ke_CLOUDFLARE_API_TOKEN env \<notin> {None, Some []}"

definition started_state :: "'w dkim_env \<Rightarrow> (string \<Rightarrow> 'c :: linorder) \<Rightarrow> ('w, 'z) dkim_db_scheme \<Rightarrow> ('w, 'z) dkim_db_scheme" where
  "started_state env coll s = snd (start_loop env coll (due_rows env s) s)"

lemma rotateDue_state:
  "snd (rotateDue env coll s) = (if rotation_on env
     then snd (promote_loop env coll (ready_rows env (started_state env coll s)) (started_state env coll s)) else s)"
proof (cases "rotation_on env")
  case True
  obtain l where l: "start_loop env coll (due_rows env s) s = (Inr l, started_state env coll s)"
    using start_loop_run[of env coll "due_rows env s" s] by (auto simp: started_state_def)
  obtain r u where p: "promote_loop env coll (ready_rows env (started_state env coll s)) (started_state env coll s) = (r, u)" by force
  have "rotateDue env coll s = (case r of Inl e \<Rightarrow> (Inl e, u) | Inr pr \<Rightarrow> (Inr (l, pr), u))"
    using True l p
    by (simp add: rotateDue_def rotation_on_def startDueRotations_def promoteReadyRotations_def due_rows_def[symmetric] ready_rows_def[symmetric]
        bindM_def getsM_def returnM_def split: sum.splits) auto
  then show ?thesis using True p by (simp split: sum.splits)
qed (auto simp: rotateDue_def rotation_on_def returnM_def)

context key_invariant
begin

lemma rotate_keeps:
  assumes "I s" "\<And>k d. (k, d) \<in> set (due_rows env s) \<Longrightarrow> ins_ok (d_id d)"
    and "\<And>k d. I (started_state env coll s) \<Longrightarrow> (k, d) \<in> set (ready_rows env (started_state env coll s)) \<Longrightarrow>
      txtResolves env (dkim_name (dk_selector k) (d_name d)) (pemToDkimB64 (dk_public_key k)) \<Longrightarrow> prom_ok (d_id d) (dk_id k)"
  shows "I (snd (rotateDue env coll s))"
proof -
  have st: "I (started_state env coll s)"
    unfolding started_state_def by (rule preservesD[OF start_loop_keeps]) (use assms(1,2) in auto)
  then have "I (snd (promote_loop env coll (ready_rows env (started_state env coll s)) (started_state env coll s)))"
    by (intro preservesD[OF promote_loop_keeps]) (use assms(3) in auto)
  then show ?thesis using assms(1) by (simp add: rotateDue_state)
qed

end

inductive dkim_step ::
  "'w dkim_env \<Rightarrow> (string \<Rightarrow> 'c :: linorder) \<Rightarrow> ('w, 'z) dkim_db_scheme \<Rightarrow> ('w, 'z) dkim_db_scheme \<Rightarrow> bool"
  for env :: "'w dkim_env" and coll :: "string \<Rightarrow> 'c :: linorder" where
  generate: "dkim_step env coll s (snd (dkim_generate env coll p org dm alg ip s))"
| activate: "dkim_step env coll s (snd (dkim_activate env coll p org dm i ip s))"
| retire: "dkim_step env coll s (snd (dkim_retire env coll p org dm i ip s))"
| rotate: "dkim_step env coll s (snd (rotateDue env coll s))"
| sync: "dkim_step env coll s (snd (syncKeysToDisk env coll s))"
| clock: "n \<ge> now s \<Longrightarrow> dkim_step env coll s (s\<lparr>now := n\<rparr>)"

lemma retire_keeps: "preserves (\<lambda>s. dkim_ok s) (dkim_retire env coll p org dm i ip)"
  unfolding dkim_retire_def
  by (intro preserves_thenM preserves_bindM preserves_pair preserves_basic preserves_modifyM ok.quiet_keeps)
    (auto intro!: quiet_intro simp: retire_key_def keys_ok_retired)

lemma dkim_step_ok: "dkim_step env coll s t \<Longrightarrow> dkim_ok s \<Longrightarrow> dkim_ok t"
proof (induction rule: dkim_step.induct)
  case (rotate s)
  then show ?case by (intro ok.rotate_keeps) auto
next
  case (clock n s)
  then show ?case by simp
qed (auto intro: preservesD[OF ok.generate_keeps] preservesD[OF ok.activate_keeps] preservesD[OF retire_keeps]
    preservesD[OF ok.quiet_keeps] quiet_sync)


section \<open>Rotation\<close>

definition signs :: "uuid \<Rightarrow> dkim_row list \<Rightarrow> bool" where
  "signs dm ks \<longleftrightarrow> (\<exists>k \<in> set ks. dk_domain_id k = dm \<and> dk_status k = DkActive)"

definition has_keys :: "(uuid \<times> uuid) set \<Rightarrow> dkim_row list \<Rightarrow> bool" where
  "has_keys S ks \<longleftrightarrow> S \<subseteq> (\<lambda>k. (dk_domain_id k, dk_id k)) ` set ks"

lemma signs_promoted:
  assumes "signs dm ks" "(d, i) \<in> (\<lambda>k. (dk_domain_id k, dk_id k)) ` set ks"
  shows "signs dm (map (promoted d i n) ks)"
proof (cases "d = dm")
  case True
  with assms(2) obtain k where "k \<in> set ks" "dk_domain_id k = dm" "dk_id k = i" by auto
  with True have "promoted d i n k \<in> set (map (promoted d i n) ks) \<and> dk_domain_id (promoted d i n k) = dm \<and> dk_status (promoted d i n k) = DkActive"
    by (simp add: promoted_def)
  then show ?thesis unfolding signs_def by blast
next
  case False
  with assms(1) obtain k where "k \<in> set ks" "dk_domain_id k = dm" "dk_status k = DkActive" by (auto simp: signs_def)
  with False have "promoted d i n k \<in> set (map (promoted d i n) ks) \<and> dk_domain_id (promoted d i n k) = dm \<and> dk_status (promoted d i n k) = DkActive"
    by (simp add: promoted_def)
  then show ?thesis unfolding signs_def by blast
qed

interpretation signing: key_invariant "\<lambda>s :: ('w, 'z) dkim_db_scheme. signs dm (dkim_keys s) \<and> has_keys S (dkim_keys s)"
    "\<lambda>_. True" "\<lambda>d i. (d, i) \<in> S" for dm S
proof
  fix s t :: "('w, 'z) dkim_db_scheme" and d i k
  let ?I = "\<lambda>s :: ('w, 'z) dkim_db_scheme. signs dm (dkim_keys s) \<and> has_keys S (dkim_keys s)"
  show "kframe s t \<Longrightarrow> ?I s \<Longrightarrow> ?I t" by (simp add: kframe_def)
  show "?I s \<Longrightarrow> new_key_at s d k \<Longrightarrow> ?I (s\<lparr>dkim_keys := dkim_keys s @ [k], next_id := next_id s + 1\<rparr>)"
    by (auto simp: signs_def has_keys_def)
  show "?I s \<Longrightarrow> (d, i) \<in> S \<Longrightarrow> ?I (s\<lparr>dkim_keys := map (promoted d i (now s)) (dkim_keys s)\<rparr>)"
    using signs_promoted[of dm "dkim_keys s" d i "now s"] by (auto simp: has_keys_def image_image)
qed

text \<open>
  C31: rotation never stops a domain from signing. A domain with an active key has one after every run of the rotation, whether
  publication, promotion or the key files failed or not.
\<close>

theorem rotation_keeps_signing:
  assumes "signs dm (dkim_keys s)"
  shows "signs dm (dkim_keys (snd (rotateDue env coll s)))"
proof -
  define S where "S = (\<lambda>k. (dk_domain_id k, dk_id k)) ` set (dkim_keys (started_state env coll s))"
  have st: "signs dm (dkim_keys (started_state env coll s)) \<and> has_keys {} (dkim_keys (started_state env coll s))"
    unfolding started_state_def by (rule preservesD[OF signing.start_loop_keeps]) (use assms in \<open>auto simp: has_keys_def\<close>)
  have "signs dm (dkim_keys (snd (promote_loop env coll (ready_rows env (started_state env coll s)) (started_state env coll s)))) \<and>
      has_keys S (dkim_keys (snd (promote_loop env coll (ready_rows env (started_state env coll s)) (started_state env coll s))))"
    by (rule preservesD[OF signing.promote_loop_keeps])
      (use st in \<open>auto simp: S_def has_keys_def ready_rows_def key_join_iff intro: rev_image_eqI\<close>)
  with assms show ?thesis by (simp add: rotateDue_state)
qed

definition grown :: "('w, 'z) dkim_db_scheme \<Rightarrow> ('w, 'z) dkim_db_scheme \<Rightarrow> bool" where
  "grown s s' \<longleftrightarrow> domains s' = domains s \<and> now s' = now s \<and>
     (\<forall>k \<in> set (dkim_keys s'). k \<in> set (dkim_keys s) \<or> dk_created_at k = now s \<and> \<not> is_active k)"

interpretation growth: key_invariant "\<lambda>s' :: ('w, 'z) dkim_db_scheme. grown s s'" "\<lambda>_. True" "\<lambda>_ _. False" for s
proof
  fix s' t :: "('w, 'z) dkim_db_scheme" and d k
  show "kframe s' t \<Longrightarrow> grown s s' \<Longrightarrow> grown s t" by (simp add: kframe_def grown_def)
  show "grown s s' \<Longrightarrow> new_key_at s' d k \<Longrightarrow> grown s (s'\<lparr>dkim_keys := dkim_keys s' @ [k], next_id := next_id s' + 1\<rparr>)"
    by (auto simp: grown_def new_key_at_def is_active_def)
qed simp

lemma started_grown: "grown s (started_state env coll s)"
  unfolding started_state_def by (rule preservesD[OF growth.start_loop_keeps]) (auto simp: grown_def)

interpretation activity: key_invariant "\<lambda>s :: ('w, 'z) dkim_db_scheme. \<forall>k \<in> set (dkim_keys s). is_active k \<longrightarrow> dk_id k \<in> A"
    "\<lambda>_. True" "\<lambda>d i. i \<in> A" for A
proof
  fix s t :: "('w, 'z) dkim_db_scheme" and d i k
  let ?I = "\<lambda>s :: ('w, 'z) dkim_db_scheme. \<forall>k \<in> set (dkim_keys s). is_active k \<longrightarrow> dk_id k \<in> A"
  show "kframe s t \<Longrightarrow> ?I s \<Longrightarrow> ?I t" by (simp add: kframe_def)
  show "?I s \<Longrightarrow> new_key_at s d k \<Longrightarrow> ?I (s\<lparr>dkim_keys := dkim_keys s @ [k], next_id := next_id s + 1\<rparr>)"
    by (auto simp: new_key_at_def is_active_def)
  show "?I s \<Longrightarrow> i \<in> A \<Longrightarrow> ?I (s\<lparr>dkim_keys := map (promoted d i (now s)) (dkim_keys s)\<rparr>)"
    by (auto simp: is_active_promoted chosen_def split: if_splits)
qed

lemma started_ready:
  assumes "(k, d) \<in> set (ready_rows env (started_state env coll s))" "0 \<le> ke_DKIM_ROTATION_OVERLAP_HOURS env"
  shows "(k, d) \<in> set (ready_rows env s)"
  using assms started_grown[of s env coll]
  by (auto simp: ready_rows_def key_join_iff promote_ready_def grown_def)


text \<open>The keys of one domain.\<close>

definition keys_of :: "uuid \<Rightarrow> dkim_row list \<Rightarrow> dkim_row list" where
  "keys_of dm ks = filter (\<lambda>k. dk_domain_id k = dm) ks"

lemma keys_of_append [simp]: "keys_of dm (ks @ [k]) = keys_of dm ks @ (if dk_domain_id k = dm then [k] else [])"
  by (simp add: keys_of_def)

lemma keys_of_promoted: "d \<noteq> dm \<Longrightarrow> keys_of dm (map (promoted d i n) ks) = keys_of dm ks"
  by (induction ks) (auto simp: keys_of_def, auto simp: promoted_def)

interpretation others: key_invariant "\<lambda>s :: ('w, 'z) dkim_db_scheme. keys_of dm (dkim_keys s) = K \<and> domains s = D \<and> now s = n"
    "\<lambda>d. d \<noteq> dm" "\<lambda>d i. d \<noteq> dm" for dm K D n
  by unfold_locales (auto simp: kframe_def new_key_at_def keys_of_promoted)

text \<open>A domain whose published key does not resolve is out of the rotation: nothing is started for it and nothing promoted.\<close>

lemma stalled_domain:
  assumes "x \<in> set (keys_of dm (dkim_keys s))" "dk_status x = DkPublished"
    and "\<forall>k \<in> set (keys_of dm (dkim_keys s)). \<forall>d \<in> set (domains s). dk_status k = DkPublished \<longrightarrow> d_id d = dm \<longrightarrow>
       \<not> txtResolves env (dkim_name (dk_selector k) (d_name d)) (pemToDkimB64 (dk_public_key k))"
  shows "keys_of dm (dkim_keys (snd (rotateDue env coll s))) = keys_of dm (dkim_keys s) \<and> domains (snd (rotateDue env coll s)) = domains s \<and>
    now (snd (rotateDue env coll s)) = now s"
proof (rule others.rotate_keeps)
  fix k d
  assume "(k, d) \<in> set (due_rows env s)"
  then show "d_id d \<noteq> dm" using assms(1,2) by (fastforce simp: due_rows_def key_join_iff rotation_due_def keys_of_def)
next
  fix k d
  let ?u = "started_state env coll s"
  assume u: "keys_of dm (dkim_keys ?u) = keys_of dm (dkim_keys s) \<and> domains ?u = domains s \<and> now ?u = now s"
    and r: "(k, d) \<in> set (ready_rows env ?u)" "txtResolves env (dkim_name (dk_selector k) (d_name d)) (pemToDkimB64 (dk_public_key k))"
  show "d_id d \<noteq> dm"
  proof
    assume "d_id d = dm"
    with r(1) have "k \<in> set (keys_of dm (dkim_keys ?u))" "d \<in> set (domains ?u)" "dk_status k = DkPublished"
      by (auto simp: ready_rows_def key_join_iff keys_of_def promote_ready_def)
    with u r(2) assms(3) \<open>d_id d = dm\<close> show False by auto
  qed
qed simp

text \<open>The publication fails after the key was committed.\<close>

lemma freshSelector_unused: "k \<in> set (dkim_keys s) \<Longrightarrow> dk_domain_id k = dm \<Longrightarrow> dk_selector k \<noteq> freshSelector dm s"
proof
  assume k: "k \<in> set (dkim_keys s)" "dk_domain_id k = dm" "dk_selector k = freshSelector dm s"
  define base where "base = nextSelector (now s)"
  define taken where "taken = map dk_selector (filter (\<lambda>k. dk_domain_id k = dm \<and> startsWith (dk_selector k) base) (dkim_keys s))"
  have fr: "freshSelector dm s = (if base \<notin> set taken then base else fresh_suffix base taken 2)"
    by (simp add: freshSelector_def base_def taken_def Let_def)
  have "startsWith (freshSelector dm s) base"
    by (cases rule: fresh_cases[of dm s]) (simp_all add: base_def startsWith_iff suffixed_def)
  with k have "k \<in> set (filter (\<lambda>k. dk_domain_id k = dm \<and> startsWith (dk_selector k) base) (dkim_keys s))" by simp
  then have "freshSelector dm s \<in> set taken" unfolding taken_def set_map k(3)[symmetric] by (rule imageI)
  then show False using fr fresh_suffix_spec[of base taken 2] by (auto split: if_splits)
qed

lemma thenM_stops: "m s = (Inl e, u) \<Longrightarrow> thenM m n s = (Inl e, u)"
  by (simp add: thenM_def bindM_def)

lemma start_rotation_unpublished:
  fixes s :: "('w, 'z) dkim_db_scheme"
  assumes "\<And>w. \<exists>m. dp_findZoneId (ke_provider env) (d_name d) w = Inl m" "d \<in> set (domains s)"
  shows "\<exists>x. keys_of (d_id d) (dkim_keys (snd (start_rotation env coll (k, d) s))) = keys_of (d_id d) (dkim_keys s) @ [x] \<and>
    dk_status x = DkPublished \<and> dk_created_at x = now s"
proof -
  obtain pub priv where kp: "ke_keypair env (dk_algorithm k) (next_id s) = (pub, priv)" by force
  let ?sel = "freshSelector (d_id d) s"
  define x where "x = \<lparr>dk_id = next_id s, dk_domain_id = d_id d, dk_selector = ?sel, dk_algorithm = dk_algorithm k,
     dk_private_key_enc = ke_seal env priv, dk_public_key = pub, dk_status = DkPublished, dk_created_at = now s, dk_activated_at = None,
     dk_retired_at = None\<rparr>"
  define u where "u = upsert_txt (d_id d) (dkim_name ?sel (d_name d)) (dnsRecordContent (dk_algorithm k) (pemToDkimB64 pub))
     (s\<lparr>dkim_keys := dkim_keys s @ [x], next_id := next_id s + 1\<rparr>)"
  have ins: "insert_dkim_key (d_id d) ?sel (dk_algorithm k) (ke_seal env priv) pub DkPublished s =
      (Inr (), s\<lparr>dkim_keys := dkim_keys s @ [x], next_id := next_id s + 1\<rparr>)"
    using assms(2) freshSelector_unused[of _ s "d_id d"] by (auto simp: insert_dkim_key_def x_def)
  define m :: "(('w, 'z) dkim_db_scheme, unit) svc" where "m = tx (thenM (insert_dkim_key (d_id d) ?sel (dk_algorithm k) (ke_seal env priv) pub DkPublished)
      (modifyM (upsert_txt (d_id d) (dkim_name ?sel (d_name d)) (dnsRecordContent (dk_algorithm k) (pemToDkimB64 pub)))))"
  have tx: "m s = (Inr (), u)"
    unfolding m_def using ins by (simp add: tx_def thenM_def bindM_def modifyM_def u_def)
  obtain msg where "dp_findZoneId (ke_provider env) (d_name d) (zones u) = Inl msg" using assms(1) by blast
  then have p: "publishTxt env (d_id d) (d_name d) n c u = (Inl (HttpException 500 msg None), u)" for n c
    by (simp add: publishTxt_def Let_def bindM_def readP_def)
  have "snd (start_rotation env coll (k, d) s) = u"
    unfolding start_rotation_def Let_def prod.case bindM_getsM kp m_def[symmetric] thenM_pass[where m = m and s = s, OF tx]
    by (simp only: thenM_stops[where m = "publishTxt env (d_id d) (d_name d) n c" for n c, OF p] snd_conv)
  moreover have "dkim_keys u = dkim_keys s @ [x]" by (simp add: u_def upsert_txt_def insert_dns_def)
  ultimately show ?thesis by (simp add: x_def)
qed

lemma distinct_pairs: "distinct ks \<Longrightarrow> distinct ds \<Longrightarrow> distinct [(k, d). k \<leftarrow> ks, d \<leftarrow> ds, P k d]"
proof (induction ks)
  case (Cons a ks)
  have "distinct ds \<Longrightarrow> distinct [(a, d). d \<leftarrow> ds, P a d]" by (induction ds) auto
  with Cons show ?case by auto
qed simp

lemma fold_start: "fold (\<lambda>r s. snd (start_rotation env coll r s)) rows s = snd (start_loop env coll rows s)"
  using start_loop_run[of env coll rows s] by (metis snd_conv)

lemma start_others:
  assumes "\<And>k d. (k, d) \<in> set rows \<Longrightarrow> d_id d \<noteq> dm"
  shows "keys_of dm (dkim_keys (snd (start_loop env coll rows s))) = keys_of dm (dkim_keys s) \<and>
    domains (snd (start_loop env coll rows s)) = domains s \<and> now (snd (start_loop env coll rows s)) = now s"
  by (rule preservesD[OF others.start_loop_keeps]) (use assms in auto)

lemma due_row_unique:
  assumes "dkim_ok s" "distinct (map d_id (domains s))" "(k, d) \<in> set (due_rows env s)"
  shows "\<exists>pre post. due_rows env s = pre @ (k, d) # post \<and> (\<forall>(k', d') \<in> set (pre @ post). d_id d' \<noteq> d_id d)"
proof -
  from assms(3) obtain pre post where sp: "due_rows env s = pre @ (k, d) # post" by (meson split_list)
  have "distinct (key_join s)"
    unfolding key_join_def using assms(1,2) by (intro distinct_pairs) (auto simp: keys_ok_def distinct_map)
  then have dist: "distinct (pre @ (k, d) # post)" using sp unfolding due_rows_def by (metis distinct_filter)
  have "d_id d' \<noteq> d_id d" if "(k', d') \<in> set (pre @ post)" for k' d'
  proof
    assume e: "d_id d' = d_id d"
    have "(k', d') \<in> set (due_rows env s)" using that sp by auto
    with assms(3) have m: "k' \<in> set (filter is_active (dkim_keys s))" "k \<in> set (filter is_active (dkim_keys s))" "d' \<in> set (domains s)"
      "d \<in> set (domains s)" "dk_domain_id k' = d_id d'" "dk_domain_id k = d_id d"
      by (auto simp: due_rows_def key_join_iff rotation_due_def is_active_def)
    have "k' = k" using m(1,2,5,6) e assms(1) unfolding keys_ok_def one_active_def distinct_map inj_on_def by metis
    moreover have "d' = d" using m(3,4) e assms(2) unfolding distinct_map inj_on_def by metis
    ultimately show False using that dist by auto
  qed
  with sp show ?thesis by blast
qed

lemma failed_publication_adds:
  assumes "dkim_ok s" "distinct (map d_id (domains s))" "(k, d) \<in> set (key_join s)" "rotation_due env s k" "rotation_on env"
    and "\<And>w. \<exists>m. dp_findZoneId (ke_provider env) (d_name d) w = Inl m" "0 \<le> ke_DKIM_ROTATION_OVERLAP_HOURS env"
  shows "\<exists>x. dk_status x = DkPublished \<and> keys_of (d_id d) (dkim_keys (snd (rotateDue env coll s))) = keys_of (d_id d) (dkim_keys s) @ [x] \<and>
    domains (snd (rotateDue env coll s)) = domains s"
proof -
  let ?dm = "d_id d" and ?K = "keys_of (d_id d) (dkim_keys s)" and ?u = "started_state env coll s"
  have row: "(k, d) \<in> set (due_rows env s)" using assms(3,4) by (simp add: due_rows_def)
  from due_row_unique[OF assms(1,2) row] obtain pre post where sp: "due_rows env s = pre @ (k, d) # post"
    and uniq: "\<forall>(k', d') \<in> set (pre @ post). d_id d' \<noteq> ?dm" by blast
  define s1 where "s1 = snd (start_loop env coll pre s)"
  have s1: "keys_of ?dm (dkim_keys s1) = ?K" "domains s1 = domains s" "now s1 = now s"
    using start_others[of pre ?dm env coll s] uniq by (auto simp: s1_def)
  define s2 where "s2 = snd (start_rotation env coll (k, d) s1)"
  from assms(3) have d: "d \<in> set (domains s)" "?dm = dk_domain_id k" by (auto simp: key_join_iff)
  obtain x where x: "keys_of ?dm (dkim_keys s2) = ?K @ [x]" "dk_status x = DkPublished" "dk_created_at x = now s"
    using start_rotation_unpublished[OF assms(6), of s1 coll k] d(1) s1 unfolding s2_def by auto
  have fr2: "domains s2 = domains s1" "now s2 = now s1"
    using preservesD[OF growth.start_keeps[OF TrueI, where s = s1 and d = d and k = k and env = env and coll = coll], of s1] by (simp_all add: s2_def grown_def)
  have st: "?u = snd (start_loop env coll post s2)"
    unfolding started_state_def sp fold_start[symmetric] by (simp add: fold_start s1_def[symmetric] s2_def)
  have s3: "keys_of ?dm (dkim_keys ?u) = ?K @ [x]" "domains ?u = domains s" "now ?u = now s"
    using start_others[of post ?dm env coll s2] uniq s1 x(1) fr2 by (auto simp: st)
  have noK: "dk_status y \<noteq> DkPublished" if "y \<in> set ?K" for y
    using that assms(4) d(2) by (auto simp: rotation_due_def keys_of_def)
  have "d_id d' \<noteq> ?dm" if r: "(k', d') \<in> set (ready_rows env ?u)" for k' d'
  proof
    assume "d_id d' = ?dm"
    with r have "k' \<in> set (keys_of ?dm (dkim_keys ?u))" by (auto simp: ready_rows_def key_join_iff keys_of_def)
    with s3 r x(3) noK[of k'] assms(7) show False by (auto simp: ready_rows_def promote_ready_def)
  qed
  then have "preserves (\<lambda>s'. keys_of ?dm (dkim_keys s') = ?K @ [x] \<and> domains s' = domains s \<and> now s' = now s) (promote_loop env coll (ready_rows env ?u))"
    by (intro others.promote_loop_keeps) blast
  from preservesD[OF this, of ?u] s3 x(2) show ?thesis using assms(5) by (auto simp: rotateDue_state)
qed

text \<open>Runs of the worker, with whatever the resolver and the provider answer by then, and the passing of time.\<close>

inductive worker_run :: "(string \<Rightarrow> 'c :: linorder) \<Rightarrow> 'w dkim_env \<Rightarrow> ('w, 'z) dkim_db_scheme \<Rightarrow> ('w, 'z) dkim_db_scheme \<Rightarrow> bool"
  for coll :: "string \<Rightarrow> 'c :: linorder" and env :: "'w dkim_env" and s :: "('w, 'z) dkim_db_scheme" where
  none: "worker_run coll env s s"
| rotate: "worker_run coll env s t \<Longrightarrow> worker_run coll env s (snd (rotateDue env coll t))"
| time: "worker_run coll env s t \<Longrightarrow> n \<ge> now t \<Longrightarrow> worker_run coll env s (t\<lparr>now := n\<rparr>)"

lemma stall_persists:
  assumes "worker_run coll env u t" "keys_of dm (dkim_keys u) = K @ [x]" "dk_status x = DkPublished"
    and "\<forall>y \<in> set K. dk_status y \<noteq> DkPublished" "d \<in> set (domains u)" "d_id d = dm" "distinct (map d_id (domains u))"
    and "ke_resolveTxt env (dkim_name (dk_selector x) (d_name d)) = Inl e"
  shows "keys_of dm (dkim_keys t) = K @ [x] \<and> domains t = domains u"
  using assms(1)
proof (induction rule: worker_run.induct)
  case (rotate t)
  have dd: "d' = d" if "d' \<in> set (domains u)" "d_id d' = dm" for d'
    using that assms(5-7) unfolding distinct_map inj_on_def by metis
  have "keys_of dm (dkim_keys (snd (rotateDue env coll t))) = keys_of dm (dkim_keys t) \<and>
      domains (snd (rotateDue env coll t)) = domains t \<and> now (snd (rotateDue env coll t)) = now t"
    by (rule stalled_domain[where x = x]) (use rotate assms(2-4,8) in \<open>auto dest!: dd simp: txtResolves_def\<close>)
  with rotate show ?case by simp
qed (use assms(2) in simp_all)

text \<open>
  C34: a failed publication stops the rotation of a domain for good. When the provider is unreachable while a new key is published, the
  key stays in the table as published, nothing publishes its record again, and as long as the record does not
  resolve no later run, however long after and with a working provider, touches the keys of the domain.
\<close>

theorem failed_publication_stalls_rotation:
  assumes "dkim_ok s" "distinct (map d_id (domains s))" "(k, d) \<in> set (key_join s)" "rotation_due env s k" "rotation_on env"
    and "\<And>w. \<exists>m. dp_findZoneId (ke_provider env) (d_name d) w = Inl m" "0 \<le> ke_DKIM_ROTATION_OVERLAP_HOURS env"
  shows "\<exists>x. dk_status x = DkPublished \<and> keys_of (d_id d) (dkim_keys (snd (rotateDue env coll s))) = keys_of (d_id d) (dkim_keys s) @ [x] \<and>
    (\<forall>env' t e. worker_run coll env' (snd (rotateDue env coll s)) t \<longrightarrow> ke_resolveTxt env' (dkim_name (dk_selector x) (d_name d)) = Inl e \<longrightarrow>
       keys_of (d_id d) (dkim_keys t) = keys_of (d_id d) (dkim_keys s) @ [x])"
proof -
  let ?K = "keys_of (d_id d) (dkim_keys s)"
  obtain x where x: "dk_status x = DkPublished" "keys_of (d_id d) (dkim_keys (snd (rotateDue env coll s))) = ?K @ [x]"
    "domains (snd (rotateDue env coll s)) = domains s" using failed_publication_adds[OF assms] by blast
  have d: "d \<in> set (domains s)" "d_id d = dk_domain_id k" using assms(3) by (auto simp: key_join_iff)
  have "\<forall>y \<in> set ?K. dk_status y \<noteq> DkPublished" using assms(4) d(2) by (auto simp: rotation_due_def keys_of_def)
  from stall_persists[OF _ x(2,1) this, of coll _ _ d] x d(1) assms(2) show ?thesis by auto
qed

section \<open>What the mail filter reads\<close>

lemma append_last_dot: "CHR ''.'' \<notin> set a \<Longrightarrow> CHR ''.'' \<notin> set b \<Longrightarrow> x @ ''.'' @ a = y @ ''.'' @ b \<longleftrightarrow> x = y \<and> a = b"
proof (induction a arbitrary: b rule: rev_induct)
  case Nil
  then show ?case by (cases b rule: rev_cases) (auto simp: append_eq_append_conv2 Cons_eq_append_conv append_eq_Cons_conv)
next
  case (snoc c cs)
  then show ?case by (cases b rule: rev_cases) (auto simp flip: append_assoc append_Cons)
qed

lemma key_file_inj:
  "CHR ''.'' \<notin> set a \<Longrightarrow> CHR ''.'' \<notin> set b \<Longrightarrow> key_file x a = key_file y b \<longleftrightarrow> x = y \<and> a = b"
  using append_last_dot[of a b x y] by (simp add: key_file_def flip: append_assoc)

lemma key_file_not_map: "key_file d sel \<noteq> ''selectors.map''"
proof
  assume "key_file d sel = ''selectors.map''"
  then have "last (key_file d sel) = last ''selectors.map''" by simp
  then show False by (simp add: key_file_def)
qed

definition row_file :: "dkim_row \<times> domain_row \<Rightarrow> string" where
  "row_file r = key_file (d_name (snd r)) (dk_selector (fst r))"

lemma write_one_run:
  assumes "\<And>n. ke_write env n = FsDone"
  shows "write_one env r s = (Inr (), case ke_open env (dk_private_key_enc (fst r)) of Some pem \<Rightarrow> put_file (row_file r) pem s | None \<Rightarrow> s)"
  using assms by (cases r) (auto simp: write_one_def row_file_def catchM_def bindM_def someM_def throwM_def returnM_def writeKeyFile_def split: option.splits)

lemma forM_snoc: "forM xs f s = (Inr (), t) \<Longrightarrow> forM (xs @ [x]) f s = f x t"
proof (induction xs arbitrary: s)
  case Nil
  then show ?case by (auto simp: returnM_def thenM_def bindM_def split: prod.splits sum.splits)
next
  case (Cons a xs)
  then show ?case by (auto simp: thenM_Inr) (simp add: thenM_def bindM_def)
qed

lemma write_rows:
  assumes "\<And>n. ke_write env n = FsDone" "inj_on row_file (set rows)"
  shows "\<exists>t. forM rows (write_one env) s = (Inr (), t) \<and> kframe s t \<and>
    (\<forall>r \<in> set rows. \<forall>pem. ke_open env (dk_private_key_enc (fst r)) = Some pem \<longrightarrow> key_dir t (row_file r) = Some pem)"
  using assms(2)
proof (induction rows rule: rev_induct)
  case (snoc r rs)
  then obtain t where t: "forM rs (write_one env) s = (Inr (), t)" "kframe s t"
    and f: "\<forall>r \<in> set rs. \<forall>pem. ke_open env (dk_private_key_enc (fst r)) = Some pem \<longrightarrow> key_dir t (row_file r) = Some pem" by auto
  define u where "u = (case ke_open env (dk_private_key_enc (fst r)) of Some pem \<Rightarrow> put_file (row_file r) pem t | None \<Rightarrow> t)"
  have "forM (rs @ [r]) (write_one env) s = (Inr (), u)"
    using t(1) by (simp add: forM_snoc write_one_run[OF assms(1)] u_def)
  moreover have "kframe s u" using t(2) by (auto simp: u_def kframe_def put_file_def split: option.splits)
  moreover have "key_dir u (row_file r') = Some pem" if "r' \<in> set (rs @ [r])" "ke_open env (dk_private_key_enc (fst r')) = Some pem" for r' pem
  proof (cases "r' = r")
    case True
    with that show ?thesis by (simp add: u_def put_file_def)
  next
    case False
    with that snoc.prems have "row_file r' \<noteq> row_file r" "r' \<in> set rs" by (auto simp: inj_on_def)
    with f that(2) show ?thesis by (auto simp: u_def put_file_def split: option.splits)
  qed
  ultimately show ?case by blast
qed (simp add: returnM_def)

lemma live_rows_inj:
  assumes "dkim_ok s" "distinct (map d_name (domains s))"
  shows "inj_on row_file (set (live_keys s))"
proof (rule inj_onI)
  fix x y
  assume a: "x \<in> set (live_keys s)" "y \<in> set (live_keys s)" "row_file x = row_file y"
  obtain k d k' d' where xy: "x = (k, d)" "y = (k', d')" by force
  with a have m: "k \<in> set (dkim_keys s)" "k' \<in> set (dkim_keys s)" "d \<in> set (domains s)" "d' \<in> set (domains s)"
    "d_id d = dk_domain_id k" "d_id d' = dk_domain_id k'" by (auto simp: live_keys_def key_join_iff)
  then have "CHR ''.'' \<notin> set (dk_selector k)" "CHR ''.'' \<notin> set (dk_selector k')" using assms(1) by (auto simp: keys_ok_def)
  with a(3) xy have e: "d_name d = d_name d'" "dk_selector k = dk_selector k'" by (simp_all add: row_file_def key_file_inj)
  have d: "d = d'" using e(1) m(3,4) assms(2) unfolding distinct_map inj_on_def by metis
  have "k = k'" using e(2) m d assms(1) unfolding keys_ok_def distinct_map inj_on_def by (metis (no_types, lifting))
  with d xy show "x = y" by simp
qed

lemma join_frame: "kframe s t \<Longrightarrow> key_join t = key_join s"
  by (simp add: kframe_def key_join_def)

lemma syncKeysToDisk_spec:
  assumes "\<And>n. ke_write env n = FsDone" "dkim_ok s" "distinct (map d_name (domains s))"
  shows "\<exists>t. syncKeysToDisk env coll s = (Inr (length (live_keys s)), t) \<and> kframe s t \<and>
    key_dir t ''selectors.map'' = Some (join [CHR 0x0A] (map map_line (active_rows coll s)) @ [CHR 0x0A]) \<and>
    (\<forall>r \<in> set (live_keys s). \<forall>pem. ke_open env (dk_private_key_enc (fst r)) = Some pem \<longrightarrow> key_dir t (row_file r) = Some pem)"
proof -
  from write_rows[OF assms(1) live_rows_inj[OF assms(2,3)], of s] obtain u where u: "forM (live_keys s) (write_one env) s = (Inr (), u)"
    "kframe s u" and f: "\<forall>r \<in> set (live_keys s). \<forall>pem. ke_open env (dk_private_key_enc (fst r)) = Some pem \<longrightarrow> key_dir u (row_file r) = Some pem"
    by blast
  define body where "body = join [CHR 0x0A] (map map_line (active_rows coll s)) @ [CHR 0x0A]"
  have "active_rows coll u = active_rows coll s" using join_frame[OF u(2)] by (simp add: active_rows_def)
  then have "rebuildSelectorMap env coll u = (Inr (), put_file ''selectors.map'' body u)"
    using assms(1) by (simp add: rebuildSelectorMap_def bindM_getsM thenM_def bindM_def throwIf_def returnM_def modifyM_def getsM_def body_def)
  then have "syncKeysToDisk env coll s = (Inr (length (live_keys s)), put_file ''selectors.map'' body u)"
    using u(1) by (simp add: syncKeysToDisk_def thenM_def bindM_def getsM_def returnM_def)
  moreover have "kframe s (put_file ''selectors.map'' body u)" using u(2) by (simp add: kframe_def put_file_def)
  ultimately show ?thesis using f by (auto simp: put_file_def body_def row_file_def key_file_not_map)
qed


section \<open>A small installation\<close>

text \<open>Domain 26 signs with key 5; key 6 is published. The provider is not configured and every record resolves to \<open>pub\<close>.\<close>

definition demo_key :: "uuid \<Rightarrow> string \<Rightarrow> dkim_status \<Rightarrow> timestamp option \<Rightarrow> dkim_row" where
  "demo_key i sel st act = \<lparr>dk_id = i, dk_domain_id = 26, dk_selector = sel, dk_algorithm = Ed25519, dk_private_key_enc = sel,
     dk_public_key = ''pub'', dk_status = st, dk_created_at = -5, dk_activated_at = act, dk_retired_at = None\<rparr>"

definition dkim_demo :: "dkim_row list \<Rightarrow> demo_zone dkim_db" where
  "dkim_demo ks = dns_db.extend dns_acme (dkim_db.fields ks (\<lambda>_. None))"

definition dkim_demo_env :: "(dns_error + string list list) \<Rightarrow> demo_zone dkim_env" where
  "dkim_demo_env ans = \<lparr>ke_keypair = (\<lambda>_ _. (''pub'', ''priv'')), ke_seal = id, ke_open = Some, ke_write = (\<lambda>_. FsDone),
     ke_provider = unconfigured ''cloudflare'', ke_resolveTxt = (\<lambda>_. ans), ke_DKIM_ROTATION_ENABLED = True, ke_DNS_PROVIDER = ''cloudflare'',
     ke_CLOUDFLARE_API_TOKEN = Some ''t'', ke_DKIM_ROTATION_DAYS = 0, ke_DKIM_ROTATION_OVERLAP_HOURS = 0\<rparr>"

abbreviation old_key :: dkim_row where "old_key \<equiv> demo_key 5 ''old'' DkActive (Some (-1))"
abbreviation new_key :: dkim_row where "new_key \<equiv> demo_key 6 ''new'' DkPublished None"
abbreviation acme_domain :: domain_row where "acme_domain \<equiv> plain_domain 26 20 ''acme.io'' None"

lemma dkim_demo_eval:
  "dkim_keys (dkim_demo ks) = ks" "domains (dkim_demo ks) = [acme_domain]" "now (dkim_demo ks) = 0" "next_id (dkim_demo ks) = 30"
  "org_members (dkim_demo ks) = org_members acme_mail" "api_keys (dkim_demo ks) = []"
  by (simp_all add: dkim_demo_def dns_acme_def db.defs dom_db.defs dns_db.defs dkim_db.defs acme_mail_eval)

lemma demo_keys_ok: "dkim_ok (dkim_demo [old_key, new_key])" "dkim_ok (dkim_demo [old_key])"
  by (simp_all add: keys_ok_def one_active_def is_active_def dkim_demo_eval) (simp_all add: demo_key_def)


lemma rotation_keeps_signing_witness:
  "signs 26 (dkim_keys (snd (rotateDue (dkim_demo_env (Inr [[''pub'']])) (id :: string \<Rightarrow> string) (dkim_demo [old_key, new_key]))))"
  by (rule rotation_keeps_signing) (simp add: signs_def dkim_demo_eval demo_key_def)

lemma promote_one_keys:
  fixes s :: "('w, 'z) dkim_db_scheme"
  assumes "txtResolves env (dkim_name (dk_selector k) (d_name d)) (pemToDkimB64 (dk_public_key k))"
  shows "dkim_keys (snd (promote_one env coll (k, d) s)) = map (promoted (d_id d) (dk_id k) (now s)) (dkim_keys s)"
proof -
  define u where "u = s\<lparr>dkim_keys := map (promoted (d_id d) (dk_id k) (now s)) (dkim_keys s)\<rparr>"
  define rest :: "(('w, 'z) dkim_db_scheme, string list) svc" where "rest = thenM (syncKeysToDisk env coll)
     (thenM (audit_log (system_entry (d_org_id d) ''dkim.rotate.promote'' ''dkim_key'' (dk_id k) [(''selector'', JStr (dk_selector k))]))
     (returnM [dkim_name (dk_selector k) (d_name d)]))"
  have "promote_one env coll (k, d) s = rest u"
    using assms by (simp add: promote_one_def Let_def bindM_def catchM_def thenM_def[of "promote_tx _ _"] promote_tx_run returnM_def[of True] u_def rest_def)
  moreover have "quiet rest" unfolding rest_def by (intro quiet_intro)
  then have "kframe u (snd (rest u))" unfolding quiet_def by blast
  ultimately show ?thesis by (simp add: kframe_def u_def)
qed

lemma demo_resolves: "txtResolves (dkim_demo_env (Inr [[''pub'']])) n (pemToDkimB64 (dk_public_key new_key))"
  by (simp add: txtResolves_def dkim_demo_env_def pemToDkimB64_def demo_key_def armour_len_def is_upper_def contains_def js_space_def)


lemma failed_publication_stalls_rotation_witness:
  "\<exists>x. dk_status x = DkPublished \<and>
     keys_of 26 (dkim_keys (snd (rotateDue (dkim_demo_env (Inr [])) (id :: string \<Rightarrow> string) (dkim_demo [old_key])))) = [old_key, x]"
proof -
  let ?env = "dkim_demo_env (Inr [])" and ?s = "dkim_demo [old_key]"
  have h: "distinct (map d_id (domains ?s))" "(old_key, acme_domain) \<in> set (key_join ?s)" "rotation_due ?env ?s old_key" "rotation_on ?env"
    "\<exists>m. dp_findZoneId (ke_provider ?env) (d_name acme_domain) w = Inl m" "0 \<le> ke_DKIM_ROTATION_OVERLAP_HOURS ?env" for w
    by (simp_all add: dkim_demo_eval key_join_iff rotation_due_def rotation_on_def dkim_demo_env_def demo_key_def unconfigured_def Let_def)
  have "keys_of 26 (dkim_keys ?s) = [old_key]" by (simp add: dkim_demo_eval keys_of_def) (simp add: demo_key_def)
  with failed_publication_stalls_rotation[OF demo_keys_ok(2) h(1-4) h(5,6), of id] show ?thesis by auto
qed


end
