(* ===== verification/JM_VCard.thy ===== *)
theory JM_VCard
  imports JM_Orgs
begin

text \<open>
  The vCard codec (\<open>apps/api/src/contacts/vcard.ts\<close>): folding and unfolding of lines, escaping, the property syntax, and reading and
  writing of a card. The line and escape functions are those of the iCalendar codec too. A parameter map is a finite map from names
  to lists of values.
\<close>

section \<open>Lines\<close>

abbreviation CR :: char where "CR \<equiv> CHR 0x0D"
abbreviation LF :: char where "LF \<equiv> CHR 0x0A"
abbreviation BSL :: char where "BSL \<equiv> CHR 0x5C"
abbreviation DQ :: char where "DQ \<equiv> CHR 0x22"

fun crlf_to_lf :: "string \<Rightarrow> string" where
  "crlf_to_lf [] = []"
| "crlf_to_lf [c] = [c]"
| "crlf_to_lf (c # d # cs) = (if c = CR \<and> d = LF then LF # crlf_to_lf cs else c # crlf_to_lf (d # cs))"

definition cr_to_lf :: "string \<Rightarrow> string" where
  "cr_to_lf = map (\<lambda>c. if c = CR then LF else c)"

definition continues :: "string \<Rightarrow> bool" where
  "continues line = (case line of c # _ \<Rightarrow> c = CHR '' '' \<or> c = CHR 0x09 | [] \<Rightarrow> False)"

definition unfold_step :: "string list \<Rightarrow> string \<Rightarrow> string list" where
  "unfold_step out line =
     (if continues line \<and> out \<noteq> [] then butlast out @ [last out @ tl line] else out @ [line])"

definition unfoldLines :: "string \<Rightarrow> string list" where
  "unfoldLines text = foldl unfold_step [] (split_on LF (cr_to_lf (crlf_to_lf text)))"

fun fold_rest :: "string \<Rightarrow> string list" where
  "fold_rest rest = (if rest = [] then [] else (CHR '' '' # take 74 rest) # fold_rest (drop 74 rest))"

declare fold_rest.simps [simp del]

definition line_chunks :: "string \<Rightarrow> string list" where
  "line_chunks line = (if length line \<le> 75 then [line] else take 75 line # fold_rest (drop 75 line))"

definition foldLine :: "string \<Rightarrow> string" where
  "foldLine line = join [CR, LF] (line_chunks line)"

definition fold_text :: "string list \<Rightarrow> string" where
  "fold_text lines = join [CR, LF] (map foldLine lines) @ [CR, LF]"

section \<open>Values\<close>

fun unescapeValue :: "string \<Rightarrow> string" where
  "unescapeValue [] = []"
| "unescapeValue [c] = [c]"
| "unescapeValue (c # d # cs) =
     (if c = BSL then (if d = CHR ''n'' \<or> d = CHR ''N'' then LF else d) # unescapeValue cs else c # unescapeValue (d # cs))"

text \<open>\<open>s.replace(/c/g, r)\<close> for a single character.\<close>

definition replace_char :: "char \<Rightarrow> string \<Rightarrow> string \<Rightarrow> string" where
  "replace_char c r = replace_chars (\<lambda>x. if x = c then r else [x])"

definition escapeValue :: "string \<Rightarrow> string" where
  "escapeValue v = replace_char CHR '';'' [BSL, CHR '';''] (replace_char CHR '','' [BSL, CHR '','']
     (replace_char LF [BSL, CHR ''n''] (replace_char BSL [BSL, BSL] v)))"

fun split_unescaped :: "char \<Rightarrow> string \<Rightarrow> string \<Rightarrow> string list" where
  "split_unescaped delim cur [] = [cur]"
| "split_unescaped delim cur [c] = (if c = delim then [cur, []] else [cur @ [c]])"
| "split_unescaped delim cur (c # d # cs) =
     (if c = BSL then split_unescaped delim (cur @ [c, d]) cs
      else if c = delim then cur # split_unescaped delim [] (d # cs)
      else split_unescaped delim (cur @ [c]) (d # cs))"

definition splitUnescaped :: "string \<Rightarrow> char \<Rightarrow> string list" where
  "splitUnescaped v delim = split_unescaped delim [] v"

section \<open>Properties\<close>

text \<open>
  \<open>toUpperCase\<close> on code units below 256. The two of them whose capital lies outside this range stay themselves, which no comparison
  with an ASCII name can see.
\<close>

definition js_upper :: "char \<Rightarrow> string" where
  "js_upper c = (let n = of_char c :: nat in
     if 97 \<le> n \<and> n \<le> 122 \<or> 224 \<le> n \<and> n \<le> 254 \<and> n \<noteq> 247 then [char_of (n - 32)] else if n = 223 then ''SS'' else [c])"

definition toUpperCase :: "string \<Rightarrow> string" where
  "toUpperCase s = concat (map js_upper s)"

record raw_property =
  rp_name :: string
  rp_params :: "string \<Rightarrow> string list option"
  rp_value :: string

fun at_colon :: "bool \<Rightarrow> string \<Rightarrow> (string \<times> string) option" where
  "at_colon inQuote [] = None"
| "at_colon inQuote (c # cs) =
     (if c = DQ then map_option (apfst ((#) c)) (at_colon (\<not> inQuote) cs)
      else if c = CHR '':'' \<and> \<not> inQuote then Some ([], cs)
      else map_option (apfst ((#) c)) (at_colon inQuote cs))"

definition no_quotes :: "string \<Rightarrow> string" where
  "no_quotes = filter (\<lambda>c. c \<noteq> DQ)"

definition push_values :: "string \<Rightarrow> string list \<Rightarrow> (string \<Rightarrow> string list option) \<Rightarrow> string \<Rightarrow> string list option" where
  "push_values key values params = params(key \<mapsto> (case params key of Some l \<Rightarrow> l | None \<Rightarrow> []) @ values)"

definition add_param :: "string \<Rightarrow> (string \<Rightarrow> string list option) \<Rightarrow> string \<Rightarrow> string list option" where
  "add_param seg params =
     (if CHR ''='' \<notin> set seg then push_values ''TYPE'' [no_quotes seg] params
      else push_values (toUpperCase (takeWhile (\<lambda>c. c \<noteq> CHR ''='') seg))
             (map no_quotes (split_on CHR '','' (tl (dropWhile (\<lambda>c. c \<noteq> CHR ''='') seg)))) params)"

definition parseProperty :: "string \<Rightarrow> raw_property option" where
  "parseProperty line =
     (case at_colon False line of
        None \<Rightarrow> None
      | Some (head, val) \<Rightarrow>
          let segments = splitUnescaped head CHR '';''
          in Some \<lparr>rp_name = toUpperCase (hd segments), rp_params = fold add_param (tl segments) (\<lambda>_. None), rp_value = val\<rparr>)"

definition firstType :: "raw_property \<Rightarrow> string option" where
  "firstType prop =
     (case rp_params prop ''TYPE'' of
        None \<Rightarrow> None
      | Some [] \<Rightarrow> None
      | Some (t # ts) \<Rightarrow> Some (toLowerCase (case find (\<lambda>x. toLowerCase x \<noteq> ''pref'') (t # ts) of Some l \<Rightarrow> l | None \<Rightarrow> t)))"

section \<open>Cards\<close>

record vcard_entry =
  ve_value :: string \<comment> \<open>\<open>address\<close> or \<open>number\<close>\<close>
  ve_label :: "string option"

record vcard =
  vc_uid :: string
  vc_full_name :: string
  vc_emails :: "vcard_entry list"
  vc_phones :: "vcard_entry list"
  vc_organization :: "string option"
  vc_note :: "string option"

record vcard_state =
  vs_uid :: string
  vs_fn :: string
  vs_nFallback :: string
  vs_emails :: "vcard_entry list"
  vs_phones :: "vcard_entry list"
  vs_organization :: "string option"
  vs_note :: "string option"

definition strip_urn :: "string \<Rightarrow> string" where
  "strip_urn s = (if toLowerCase (take 9 s) = ''urn:uuid:'' then drop 9 s else s)"

definition or_null :: "string \<Rightarrow> string option" where
  "or_null s = (if s = [] then None else Some s)"

definition name_fallback :: "string \<Rightarrow> string" where
  "name_fallback v =
     (let parts = map unescapeValue (splitUnescaped v CHR '';'');
          family = (case parts of f # _ \<Rightarrow> f | [] \<Rightarrow> []); given = (case parts of _ # g # _ \<Rightarrow> g | _ \<Rightarrow> [])
      in trim (join '' '' (filter (\<lambda>x. x \<noteq> []) [given, family])))"

definition read_property :: "raw_property \<Rightarrow> vcard_state \<Rightarrow> vcard_state" where
  "read_property prop st =
     (let nm = rp_name prop; v = rp_value prop in
      if nm = ''UID'' then st\<lparr>vs_uid := strip_urn (unescapeValue v)\<rparr>
      else if nm = ''FN'' then st\<lparr>vs_fn := unescapeValue v\<rparr>
      else if nm = ''N'' then st\<lparr>vs_nFallback := name_fallback v\<rparr>
      else if nm = ''EMAIL'' then
        (let address = trim (unescapeValue v) in
         if address = [] then st else st\<lparr>vs_emails := vs_emails st @ [\<lparr>ve_value = address, ve_label = firstType prop\<rparr>]\<rparr>)
      else if nm = ''TEL'' then
        (let number = trim (unescapeValue v) in
         if number = [] then st else st\<lparr>vs_phones := vs_phones st @ [\<lparr>ve_value = number, ve_label = firstType prop\<rparr>]\<rparr>)
      else if nm = ''ORG'' then st\<lparr>vs_organization := or_null (trim (unescapeValue (hd (splitUnescaped v CHR '';''))))\<rparr>
      else if nm = ''NOTE'' then st\<lparr>vs_note := or_null (unescapeValue v)\<rparr>
      else st)"

definition read_line :: "string \<Rightarrow> vcard_state \<Rightarrow> vcard_state" where
  "read_line line st = (if line = [] then st else case parseProperty line of None \<Rightarrow> st | Some prop \<Rightarrow> read_property prop st)"

definition empty_card :: vcard_state where
  "empty_card = \<lparr>vs_uid = [], vs_fn = [], vs_nFallback = [], vs_emails = [], vs_phones = [], vs_organization = None, vs_note = None\<rparr>"

definition parseVCard :: "string \<Rightarrow> vcard option" where
  "parseVCard text =
     (let st = fold read_line (unfoldLines text) empty_card
      in if vs_uid st = [] then None
         else Some \<lparr>vc_uid = vs_uid st, vc_full_name = (if vs_fn st \<noteq> [] then vs_fn st else vs_nFallback st),
                    vc_emails = vs_emails st, vc_phones = vs_phones st, vc_organization = vs_organization st, vc_note = vs_note st\<rparr>)"

definition escapeParam :: "string \<Rightarrow> string" where
  "escapeParam v = trim (filter (\<lambda>c. c \<notin> {DQ, CHR '';'', CHR '':'', CHR '',''}) v)"

definition entry_line :: "string \<Rightarrow> vcard_entry \<Rightarrow> string" where
  "entry_line prop e =
     prop @ (case ve_label e of Some l \<Rightarrow> if l = [] then [] else '';TYPE='' @ escapeParam l | None \<Rightarrow> []) @ '':'' @ escapeValue (ve_value e)"

definition optional_line :: "string \<Rightarrow> string option \<Rightarrow> string list" where
  "optional_line prefix v = (case v of Some t \<Rightarrow> if t = [] then [] else [prefix @ escapeValue t] | None \<Rightarrow> [])"

definition vcard_lines :: "vcard \<Rightarrow> string list" where
  "vcard_lines vc =
     [''BEGIN:VCARD'', ''VERSION:3.0'', ''PRODID:-//JustMail//Contacts//EN'', ''UID:'' @ escapeValue (vc_uid vc),
      ''FN:'' @ escapeValue (vc_full_name vc), ''N:'' @ escapeValue (vc_full_name vc) @ '';;;;''] @
     map (entry_line ''EMAIL'') (vc_emails vc) @ map (entry_line ''TEL'') (vc_phones vc) @
     optional_line ''ORG:'' (vc_organization vc) @ optional_line ''NOTE:'' (vc_note vc) @ [''END:VCARD'']"

definition serializeVCard :: "vcard \<Rightarrow> string" where
  "serializeVCard vc = fold_text (vcard_lines vc)"

section \<open>Lines: writing and reading back\<close>

lemma split_on_join_lf: "xs \<noteq> [] \<Longrightarrow> \<forall>x \<in> set xs. d \<notin> set x \<Longrightarrow> split_on d (join [d] xs) = xs"
  by (induction "[d]" xs rule: join.induct) (auto simp: split_on_none split_on_append)

lemma crlf_cons: "c \<noteq> CR \<Longrightarrow> crlf_to_lf (c # cs) = c # crlf_to_lf cs"
  by (cases cs) auto

lemma crlf_append: "CR \<notin> set x \<Longrightarrow> crlf_to_lf (x @ r) = x @ crlf_to_lf r"
  by (induction x) (auto simp: crlf_cons)

lemma normalise_join:
  "\<forall>x \<in> set xs. CR \<notin> set x \<Longrightarrow> cr_to_lf (crlf_to_lf (join [CR, LF] xs)) = join [LF] xs"
proof (induction "[LF]" xs rule: join.induct)
  case (2 x)
  have "crlf_to_lf x = x" using crlf_append[of x "[]"] 2 by simp
  with 2 show ?case by (auto simp: cr_to_lf_def intro!: map_idI)
next
  case (3 x y xs)
  have "cr_to_lf x = x" using 3 by (auto simp: cr_to_lf_def intro!: map_idI)
  with 3 show ?case using crlf_append[of x "[CR, LF] @ join [CR, LF] (y # xs)"] by (simp add: cr_to_lf_def)
qed (simp add: cr_to_lf_def)

lemma join_concat: "\<forall>x \<in> set xss. x \<noteq> [] \<Longrightarrow> join sep (map (join sep) xss) = join sep (concat xss)"
proof (induction xss)
  case (Cons ys xss)
  have app: "as \<noteq> [] \<Longrightarrow> bs \<noteq> [] \<Longrightarrow> join sep (as @ bs) = join sep as @ sep @ join sep bs" for as bs
    by (induction sep as rule: join.induct) (auto simp: neq_Nil_conv)
  show ?case
  proof (cases xss)
    case (Cons zs rest)
    then have "concat xss \<noteq> []" using Cons.prems by auto
    then show ?thesis using Cons.prems Cons.IH app[of ys "concat xss"] by (auto simp: Cons)
  qed simp
qed simp

lemma line_chunks_nonempty [simp]: "line_chunks l \<noteq> []"
  by (simp add: line_chunks_def)

lemma set_fold_rest: "\<forall>x \<in> set (fold_rest r). set x \<subseteq> insert CHR '' '' (set r) \<and> continues x \<and> x \<noteq> []"
proof (induction r rule: fold_rest.induct)
  case (1 r)
  show ?case
  proof (cases "r = []")
    case False
    have "set (drop 74 r) \<subseteq> set r" by (rule set_drop_subset)
    with 1[OF False] False show ?thesis
      by (subst fold_rest.simps) (auto simp: continues_def dest: in_set_takeD)
  qed (simp add: fold_rest.simps)
qed

lemma set_line_chunks: "x \<in> set (line_chunks l) \<Longrightarrow> set x \<subseteq> insert CHR '' '' (set l)"
  using set_fold_rest[of "drop 75 l"] set_drop_subset[of 75 l] set_take_subset[of 75 l]
  by (fastforce simp: line_chunks_def split: if_splits)

lemma unfold_rest: "out \<noteq> [] \<Longrightarrow> foldl unfold_step out (fold_rest r) = butlast out @ [last out @ r]"
proof (induction r arbitrary: out rule: fold_rest.induct)
  case (1 r)
  show ?case
  proof (cases "r = []")
    case True
    then show ?thesis using 1(2) by (simp add: fold_rest.simps)
  next
    case False
    have s: "unfold_step out (CHR '' '' # take 74 r) = butlast out @ [last out @ take 74 r]"
      using 1(2) by (simp add: unfold_step_def continues_def)
    show ?thesis
      by (subst fold_rest.simps) (use False 1(1)[OF False, of "butlast out @ [last out @ take 74 r]"] s in simp)
  qed
qed

lemma unfold_line: "\<not> continues l \<Longrightarrow> foldl unfold_step out (line_chunks l) = out @ [l]"
proof (cases "length l \<le> 75")
  case False
  assume n: "\<not> continues l"
  have "\<not> continues (take 75 l)" using n by (cases l) (auto simp: continues_def)
  then have "unfold_step out (take 75 l) = out @ [take 75 l]" by (simp add: unfold_step_def)
  then show ?thesis using False unfold_rest[of "out @ [take 75 l]" "drop 75 l"] by (simp add: line_chunks_def)
qed (simp add: line_chunks_def unfold_step_def)

lemma unfold_all: "\<forall>l \<in> set lines. \<not> continues l \<Longrightarrow> foldl unfold_step out (concat (map line_chunks lines)) = out @ lines"
  by (induction lines arbitrary: out) (auto simp: unfold_line)

text \<open>Lines without line breaks that do not start with a blank survive folding.\<close>

definition line_ok :: "string \<Rightarrow> bool" where
  "line_ok l \<longleftrightarrow> CR \<notin> set l \<and> LF \<notin> set l \<and> \<not> continues l"

lemma unfold_fold_text:
  assumes "\<forall>l \<in> set lines. line_ok l" "lines \<noteq> []"
  shows "unfoldLines (fold_text lines) = lines @ [[]]"
proof -
  define phys where "phys = concat (map line_chunks lines) @ [[]]"
  have ok: "\<forall>x \<in> set phys. CR \<notin> set x \<and> LF \<notin> set x"
    using assms(1) set_line_chunks by (fastforce simp: phys_def line_ok_def)
  have ne: "concat (map line_chunks lines) \<noteq> []" using assms(2) by (cases lines) auto
  have app: "as \<noteq> [] \<Longrightarrow> join sep (as @ [[]]) = join sep as @ sep" for sep as
    by (induction sep as rule: join.induct) (auto simp: neq_Nil_conv)
  have "fold_text lines = join [CR, LF] phys"
    using app[OF ne] join_concat[of "map line_chunks lines" "[CR, LF]"]
    by (simp add: fold_text_def foldLine_def[abs_def] phys_def comp_def)
  then have "split_on LF (cr_to_lf (crlf_to_lf (fold_text lines))) = phys"
    using normalise_join[of phys] ok split_on_join_lf[of phys LF] by (simp add: phys_def)
  then show ?thesis
    using unfold_all[of lines "[]"] assms(1) by (simp add: unfoldLines_def phys_def line_ok_def unfold_step_def continues_def)
qed

section \<open>Values: writing and reading back\<close>

definition esc :: "char \<Rightarrow> string" where
  "esc c = (if c = BSL then [BSL, BSL] else if c = LF then [BSL, CHR ''n''] else if c = CHR '','' then [BSL, c]
     else if c = CHR '';'' then [BSL, c] else [c])"

lemma escapeValue_esc: "escapeValue v = concat (map esc v)"
  by (induction v) (simp_all add: escapeValue_def replace_char_def replace_chars_def esc_def)

lemma unescape_cons: "c \<noteq> BSL \<Longrightarrow> unescapeValue (c # r) = c # unescapeValue r"
  by (cases r) auto

lemma unescape_esc: "unescapeValue (esc c @ r) = c # unescapeValue r"
  by (auto simp: esc_def unescape_cons)

text \<open>
  Escaping is undone by reading, for every text.
\<close>

lemma unescape_escape: "unescapeValue (escapeValue v) = v"
  unfolding escapeValue_esc by (induction v) (simp_all add: unescape_esc)

lemma split_esc: "split_unescaped CHR '';'' cur (esc c @ r) = split_unescaped CHR '';'' (cur @ esc c) r"
  by (cases r) (auto simp: esc_def)

lemma split_escaped: "split_unescaped CHR '';'' cur (escapeValue v @ r) = split_unescaped CHR '';'' (cur @ escapeValue v) r"
  unfolding escapeValue_esc by (induction v arbitrary: cur) (simp_all add: split_esc)

lemma split_plain: "d \<notin> set x \<Longrightarrow> split_unescaped d cur x = [cur @ x]"
  by (induction d cur x rule: split_unescaped.induct) auto

lemma split_at: "d \<notin> set x \<Longrightarrow> BSL \<notin> set x \<Longrightarrow> d \<noteq> BSL \<Longrightarrow> split_unescaped d cur (x @ d # r) = (cur @ x) # split_unescaped d [] r"
proof (induction x arbitrary: cur)
  case Nil
  then show ?case by (cases r) auto
next
  case (Cons a x)
  then show ?case by (cases x) auto
qed

lemma set_escape: "c \<noteq> BSL \<Longrightarrow> c \<noteq> CHR ''n'' \<Longrightarrow> c \<in> set (escapeValue v) \<longleftrightarrow> c \<in> set v \<and> c \<noteq> LF"
  unfolding escapeValue_esc by (auto simp: esc_def split: if_splits)

section \<open>Cards: writing and reading back\<close>

lemma at_colon_plain: "DQ \<notin> set h \<Longrightarrow> CHR '':'' \<notin> set h \<Longrightarrow> at_colon False (h @ CHR '':'' # v) = Some (h, v)"
  by (induction h) auto

lemma parse_plain:
  assumes "set h \<inter> {DQ, CHR '':'', CHR '';'', BSL} = {}"
  shows "parseProperty (h @ CHR '':'' # v) = Some \<lparr>rp_name = toUpperCase h, rp_params = (\<lambda>_. None), rp_value = v\<rparr>"
  using assms by (simp add: parseProperty_def at_colon_plain splitUnescaped_def split_plain)

definition label_ok :: "string \<Rightarrow> bool" where
  "label_ok l \<longleftrightarrow> l \<noteq> [] \<and> escapeParam l = l \<and> toLowerCase l = l \<and> CR \<notin> set l \<and> LF \<notin> set l"

lemma set_trim: "set (trim s) \<subseteq> set s"
  by (auto simp: trim_def trimEnd_def trimStart_def dest!: set_dropWhileD)

lemma label_chars: "escapeParam l = l \<Longrightarrow> set l \<inter> {DQ, CHR '';'', CHR '':'', CHR '',''} = {}"
  using set_trim[of "filter (\<lambda>c. c \<notin> {DQ, CHR '';'', CHR '':'', CHR '',''}) l"] by (auto simp: escapeParam_def)

lemma parse_labelled:
  assumes "set h \<inter> {DQ, CHR '':'', CHR '';'', BSL} = {}" "label_ok l"
  shows "\<exists>p. parseProperty (h @ '';TYPE='' @ l @ CHR '':'' # v) = Some p \<and> rp_name p = toUpperCase h \<and> rp_value p = v \<and> firstType p = Some l"
proof -
  from assms(2) have l: "set l \<inter> {DQ, CHR '';'', CHR '':'', CHR '',''} = {}" "toLowerCase l = l" by (simp_all add: label_ok_def label_chars)
  have c: "at_colon False (h @ '';TYPE='' @ l @ CHR '':'' # v) = Some (h @ '';TYPE='' @ l, v)"
    using at_colon_plain[of "h @ '';TYPE='' @ l" v] assms(1) l(1) by simp
  have s: "splitUnescaped (h @ '';TYPE='' @ l) CHR '';'' = [h, ''TYPE='' @ l]"
    using split_at[of "CHR '';''" h "[]" "''TYPE='' @ l"] split_plain[of "CHR '';''" "''TYPE='' @ l" "[]"] assms(1) l(1)
    by (simp add: splitUnescaped_def)
  have k: "toUpperCase ''TYPE'' = ''TYPE''" by (simp add: toUpperCase_def js_upper_def)
  have "no_quotes l = l" using l(1) by (auto simp: no_quotes_def intro: filter_True)
  moreover have "split_on CHR '','' l = [l]" using l(1) by (intro split_on_none) auto
  ultimately have p: "add_param (''TYPE='' @ l) (\<lambda>_. None) ''TYPE'' = Some [l]"
    using k by (simp add: add_param_def push_values_def)
  show ?thesis
    unfolding parseProperty_def c option.case prod.case Let_def s using l(2) by (auto simp: firstType_def p[simplified])
qed

definition entry_ok :: "vcard_entry \<Rightarrow> bool" where
  "entry_ok e \<longleftrightarrow> ve_value e \<noteq> [] \<and> trim (ve_value e) = ve_value e \<and> CR \<notin> set (ve_value e) \<and>
     (case ve_label e of None \<Rightarrow> True | Some l \<Rightarrow> label_ok l)"

definition vcard_ok :: "vcard \<Rightarrow> bool" where
  "vcard_ok vc \<longleftrightarrow> vc_uid vc \<noteq> [] \<and> strip_urn (vc_uid vc) = vc_uid vc \<and> CR \<notin> set (vc_uid vc) \<and> CR \<notin> set (vc_full_name vc) \<and>
     (\<forall>e \<in> set (vc_emails vc @ vc_phones vc). entry_ok e) \<and>
     (case vc_organization vc of None \<Rightarrow> True | Some x \<Rightarrow> x \<noteq> [] \<and> trim x = x \<and> CR \<notin> set x) \<and>
     (case vc_note vc of None \<Rightarrow> True | Some x \<Rightarrow> x \<noteq> [] \<and> CR \<notin> set x)"

lemmas upper_names = toUpperCase_def js_upper_def

lemma read_plain:
  assumes "set h \<inter> {DQ, CHR '':'', CHR '';'', BSL} = {}"
  shows "read_line (h @ CHR '':'' # v) st = read_property \<lparr>rp_name = toUpperCase h, rp_params = (\<lambda>_. None), rp_value = v\<rparr> st"
  by (simp add: read_line_def parse_plain[OF assms])

lemma read_entry:
  assumes "entry_ok e"
  shows "read_line (entry_line ''EMAIL'' e) st = st\<lparr>vs_emails := vs_emails st @ [e]\<rparr>"
    "read_line (entry_line ''TEL'' e) st = st\<lparr>vs_phones := vs_phones st @ [e]\<rparr>"
proof -
  have up: "toUpperCase ''EMAIL'' = ''EMAIL''" "toUpperCase ''TEL'' = ''TEL''" by (simp_all add: upper_names)
  have "\<exists>p. parseProperty (entry_line h e) = Some p \<and> rp_name p = toUpperCase h \<and> rp_value p = escapeValue (ve_value e) \<and> firstType p = ve_label e"
    if "set h \<inter> {DQ, CHR '':'', CHR '';'', BSL} = {}" for h
  proof (cases "ve_label e")
    case None
    then show ?thesis using parse_plain[OF that, of "escapeValue (ve_value e)"] by (simp add: entry_line_def firstType_def)
  next
    case (Some l)
    with assms have l: "label_ok l" by (simp add: entry_ok_def)
    then have "entry_line h e = h @ '';TYPE='' @ l @ CHR '':'' # escapeValue (ve_value e)"
      by (simp add: entry_line_def Some label_ok_def)
    with parse_labelled[OF that l, of "escapeValue (ve_value e)"] Some show ?thesis by simp
  qed
  from this[of "''EMAIL''"] this[of "''TEL''"] obtain p q where
    p: "parseProperty (entry_line ''EMAIL'' e) = Some p" "rp_name p = ''EMAIL''" "rp_value p = escapeValue (ve_value e)" "firstType p = ve_label e"
    and q: "parseProperty (entry_line ''TEL'' e) = Some q" "rp_name q = ''TEL''" "rp_value q = escapeValue (ve_value e)" "firstType q = ve_label e"
    by (auto simp: up)
  have "entry_line h e \<noteq> []" for h by (simp add: entry_line_def)
  with p q assms show "read_line (entry_line ''EMAIL'' e) st = st\<lparr>vs_emails := vs_emails st @ [e]\<rparr>"
    "read_line (entry_line ''TEL'' e) st = st\<lparr>vs_phones := vs_phones st @ [e]\<rparr>"
    by (simp_all add: read_line_def read_property_def unescape_escape entry_ok_def Let_def)
qed

lemma read_emails: "\<forall>e \<in> set es. entry_ok e \<Longrightarrow> fold read_line (map (entry_line ''EMAIL'') es) st = st\<lparr>vs_emails := vs_emails st @ es\<rparr>"
  by (induction es arbitrary: st) (auto simp: read_entry)

lemma read_phones: "\<forall>e \<in> set es. entry_ok e \<Longrightarrow> fold read_line (map (entry_line ''TEL'') es) st = st\<lparr>vs_phones := vs_phones st @ es\<rparr>"
  by (induction es arbitrary: st) (auto simp: read_entry)

lemma read_fields:
  "read_line (''BEGIN:'' @ v) st = st" "read_line (''VERSION:'' @ v) st = st" "read_line (''PRODID:'' @ v) st = st" "read_line (''END:'' @ v) st = st"
  "read_line (''UID:'' @ v) st = st\<lparr>vs_uid := strip_urn (unescapeValue v)\<rparr>" "read_line (''FN:'' @ v) st = st\<lparr>vs_fn := unescapeValue v\<rparr>"
  "read_line (''N:'' @ v) st = st\<lparr>vs_nFallback := name_fallback v\<rparr>"
  "read_line (''ORG:'' @ v) st = st\<lparr>vs_organization := or_null (trim (unescapeValue (hd (splitUnescaped v CHR '';''))))\<rparr>"
  "read_line (''NOTE:'' @ v) st = st\<lparr>vs_note := or_null (unescapeValue v)\<rparr>"
  using read_plain[of "''BEGIN''" v st] read_plain[of "''VERSION''" v st] read_plain[of "''PRODID''" v st] read_plain[of "''END''" v st]
    read_plain[of "''UID''" v st] read_plain[of "''FN''" v st] read_plain[of "''N''" v st] read_plain[of "''ORG''" v st] read_plain[of "''NOTE''" v st]
  by (simp_all add: upper_names read_property_def)

lemma name_of_fn: "name_fallback (escapeValue v @ '';;;;'') = trim v"
  using split_escaped[of "[]" v "'';;;;''"] by (simp add: name_fallback_def splitUnescaped_def unescape_escape Let_def)

lemma hd_split_escaped: "splitUnescaped (escapeValue v) CHR '';'' = [escapeValue v]"
  using split_escaped[of "[]" v "[]"] by (simp add: splitUnescaped_def)

lemma read_optional:
  "(case x of None \<Rightarrow> True | Some y \<Rightarrow> y \<noteq> [] \<and> trim y = y \<and> CR \<notin> set y) \<Longrightarrow>
     fold read_line (optional_line ''ORG:'' x) st = (case x of None \<Rightarrow> st | Some y \<Rightarrow> st\<lparr>vs_organization := Some y\<rparr>)"
  "(case x of None \<Rightarrow> True | Some y \<Rightarrow> y \<noteq> [] \<and> CR \<notin> set y) \<Longrightarrow>
     fold read_line (optional_line ''NOTE:'' x) st = (case x of None \<Rightarrow> st | Some y \<Rightarrow> st\<lparr>vs_note := Some y\<rparr>)"
  using read_fields(8)[of "escapeValue (the x)" st] read_fields(9)[of "escapeValue (the x)" st]
  by (auto simp: optional_line_def unescape_escape hd_split_escaped or_null_def split: option.splits)

lemma line_ok_escaped: "h \<noteq> [] \<Longrightarrow> line_ok h \<Longrightarrow> CR \<notin> set v \<Longrightarrow> CR \<notin> set r \<Longrightarrow> LF \<notin> set r \<Longrightarrow> line_ok (h @ escapeValue v @ r)"
  by (cases h) (auto simp: line_ok_def continues_def set_escape)

lemma vcard_lines_ok:
  assumes "vcard_ok vc" shows "\<forall>l \<in> set (vcard_lines vc). line_ok l"
proof -
  have h: "line_ok ''UID:''" "line_ok ''FN:''" "line_ok ''N:''" "line_ok ''ORG:''" "line_ok ''NOTE:''" "line_ok ''BEGIN:VCARD''" "line_ok ''VERSION:3.0''"
    "line_ok ''PRODID:-//JustMail//Contacts//EN''" "line_ok ''END:VCARD''" by (simp_all add: line_ok_def continues_def)
  have ent: "line_ok (entry_line h e)" if "entry_ok e" "h \<noteq> []" "line_ok h" for h e
  proof -
    define lab where "lab = (case ve_label e of Some l \<Rightarrow> if l = [] then [] else '';TYPE='' @ escapeParam l | None \<Rightarrow> [])"
    have "CR \<notin> set lab" "LF \<notin> set lab" using that(1) by (auto simp: lab_def entry_ok_def label_ok_def split: option.splits)
    then have "line_ok (h @ lab @ '':'')" using that(2,3) by (cases h) (auto simp: line_ok_def continues_def)
    from line_ok_escaped[OF _ this, of "ve_value e" "[]"] that(1,2) show ?thesis by (simp add: entry_line_def lab_def entry_ok_def)
  qed
  have opt: "l \<in> set (optional_line h x) \<Longrightarrow> line_ok l" if "line_ok h" "h \<noteq> []" "case x of None \<Rightarrow> True | Some y \<Rightarrow> CR \<notin> set y" for l h x
    using that line_ok_escaped[of h "the x" "[]"] by (auto simp: optional_line_def split: option.splits if_splits)
  have "line_ok (''UID:'' @ escapeValue (vc_uid vc))" "line_ok (''FN:'' @ escapeValue (vc_full_name vc))"
    "line_ok (''N:'' @ escapeValue (vc_full_name vc) @ '';;;;'')"
    using assms line_ok_escaped[OF _ h(1), of "vc_uid vc" "[]"] line_ok_escaped[OF _ h(2), of "vc_full_name vc" "[]"]
      line_ok_escaped[OF _ h(3), of "vc_full_name vc" "'';;;;''"] by (simp_all add: vcard_ok_def)
  moreover have "line_ok ''EMAIL''" "line_ok ''TEL''" by (simp_all add: line_ok_def continues_def)
  moreover have "case vc_organization vc of None \<Rightarrow> True | Some y \<Rightarrow> CR \<notin> set y" "case vc_note vc of None \<Rightarrow> True | Some y \<Rightarrow> CR \<notin> set y"
    using assms by (auto simp: vcard_ok_def split: option.splits)
  ultimately show ?thesis
    using assms h ent opt[of "''ORG:''"] opt[of "''NOTE:''"] by (auto simp: vcard_lines_def vcard_ok_def)
qed

text \<open>
  C35: a contact survives storage. Reading the written form of a card whose texts hold no carriage return, whose
  addresses, numbers and organization have no outer blanks and whose labels are lower-case parameter values gives the card back, whatever line breaks,
  commas, semicolons, backslashes or long texts it has.
\<close>

theorem vcard_roundtrip:
  assumes "vcard_ok vc"
  shows "parseVCard (serializeVCard vc) = Some vc"
proof -
  have lines: "unfoldLines (serializeVCard vc) = vcard_lines vc @ [[]]"
    unfolding serializeVCard_def by (rule unfold_fold_text) (use vcard_lines_ok[OF assms] in \<open>auto simp: vcard_lines_def\<close>)
  have rd: "read_line ''BEGIN:VCARD'' st = st" "read_line ''VERSION:3.0'' st = st" "read_line ''PRODID:-//JustMail//Contacts//EN'' st = st"
    "read_line ''END:VCARD'' st = st" for st
    using read_fields(1)[of "''VCARD''" st] read_fields(2)[of "''3.0''" st] read_fields(3)[of "''-//JustMail//Contacts//EN''" st]
      read_fields(4)[of "''VCARD''" st] by simp_all
  have f: "read_line (''UID:'' @ escapeValue (vc_uid vc)) st = st\<lparr>vs_uid := vc_uid vc\<rparr>" "read_line (''FN:'' @ escapeValue (vc_full_name vc)) st =
      st\<lparr>vs_fn := vc_full_name vc\<rparr>" "read_line (''N:'' @ escapeValue (vc_full_name vc) @ '';;;;'') st = st\<lparr>vs_nFallback := trim (vc_full_name vc)\<rparr>" for st
    using assms by (simp_all only: read_fields unescape_escape name_of_fn vcard_ok_def)
  have "fold read_line (vcard_lines vc @ [[]]) empty_card = \<lparr>vs_uid = vc_uid vc, vs_fn = vc_full_name vc, vs_nFallback = trim (vc_full_name vc),
      vs_emails = vc_emails vc, vs_phones = vc_phones vc, vs_organization = vc_organization vc, vs_note = vc_note vc\<rparr>"
    unfolding vcard_lines_def using assms
    by (simp only: fold_append comp_apply fold_simps rd f append_Cons append_Nil)
      (auto simp: read_emails read_phones read_optional rd f[simplified] vcard_ok_def empty_card_def read_line_def[of "[]"] split: option.splits)
  moreover have "trim [] = []" by (simp add: trim_def trimEnd_def trimStart_def)
  ultimately show ?thesis using assms by (simp add: parseVCard_def lines vcard_ok_def Let_def)
qed

definition demo_card :: vcard where
  "demo_card = \<lparr>vc_uid = ''7'', vc_full_name = ''doe, jane'', vc_emails = [\<lparr>ve_value = ''j@x.io'', ve_label = Some ''home''\<rparr>], vc_phones = [],
     vc_organization = Some ''a;b'', vc_note = Some (''x'' @ LF # ''y'')\<rparr>"

lemma demo_card_ok: "vcard_ok demo_card"
  by (simp add: vcard_ok_def demo_card_def strip_urn_def entry_ok_def label_ok_def escapeParam_def trim_def trimEnd_def trimStart_def js_space_def
      toLowerCase_def js_lower_def)

lemma vcard_roundtrip_witness: "vcard_ok demo_card \<and> parseVCard (serializeVCard demo_card) = Some demo_card"
  using vcard_roundtrip[OF demo_card_ok] demo_card_ok by blast

text \<open>
  A carriage return is not escaped, and reading takes it for a line break: what follows it in a note becomes a property of
  its own.
\<close>

lemma note_injects_address:
  "parseVCard (serializeVCard (demo_card\<lparr>vc_note := Some (''x'' @ CR # ''EMAIL:e@x.io'')\<rparr>)) =
     Some (demo_card\<lparr>vc_emails := vc_emails demo_card @ [\<lparr>ve_value = ''e@x.io'', ve_label = None\<rparr>], vc_note := Some ''x''\<rparr>)"
  by code_simp

end
