(* ===== verification/Spec2Isabelle.thy ===== *)
theory Spec2Isabelle
  imports JM_Orgs JM_Tenant JM_Aliases JM_Groups JM_Ssrf JM_Webhooks JM_Mailboxes JM_ApiKeys JM_Auth JM_Invites JM_Guard
    JM_Retention JM_Sieve JM_SieveService JM_Throttle JM_Domains JM_DnsSync
    JM_ScimGuard JM_SsoFacts JM_DkimFacts JM_VCard
begin

text \<open>
  Verification of the justmail API (\<open>apps/api\<close> with the shared packages it uses).

  \<^bold>\<open>The program.\<close> justmail is a multi-tenant mail platform. Its API is a set of services over one PostgreSQL
  database: organizations own domains, domains own mailboxes, aliases and mail groups, and console users act on them
  with a role per organization. Around that core stand authentication (passwords, mailbox login, two-factor, passkeys,
  sessions, API keys, invitations, directory synchronisation, SCIM, single sign-on), the publication of DNS records, webhooks, retention
  with legal holds, the webmail back end (credential store, IMAP connection pool, Sieve filters), rate limiting and the
  guard that turns a request into a principal. Every service starts its operations with
  \<open>OrgsService.requireRole\<close> and records what it did with \<open>AuditService.log\<close>.

  \<^bold>\<open>How it is modelled.\<close> A handler is a function from the state to a result and a next state; the result is an
  exception of the program or a value (\<open>JM_Prelude\<close>). A table is the list of its rows, a row a record with a field per
  column; the database record is extended by each component with tables of its own, so that handlers of different components
  run on one state (\<open>JM_Database\<close>). \<open>Db.tx\<close> undoes the writes of a failed transaction; a write outside one stays.
  Identifiers come from a counter, and the clock is a field. Unique indexes, foreign keys and cascades of the migrations are
  part of the writes. Strings are lists of code units below 256. Code outside the repository is a parameter with named
  laws where a theorem needs them: password hashing, one-time passwords, SHA-256, HMAC, sealing, WebAuthn, the DNS resolver and
  providers, the LDAP and ManageSieve servers, identity providers, key generation, URL parsing, \<open>fetch\<close>, base64 and UTF-8 decoding.

  \<^bold>\<open>Theories.\<close>

  \<^item> \<open>JM_Prelude\<close>, \<open>JM_Database\<close>: strings, numerals, the error-and-state functions with their inversion and
    preservation rules; rows, transactions, the audit log, cascades (\<open>db.service.ts\<close>, \<open>audit.service.ts\<close>).
  \<^item> \<open>JM_Orgs\<close>: \<open>OrgsService\<close> (\<open>orgs.service.ts\<close>). The locale \<open>role_guard\<close> states what the role check
    promises and is interpreted on \<open>requireRole\<close>. Every organization keeps an owner over all sequences of calls, only owners
    make owners, API keys are capped by their scopes.
  \<^item> \<open>JM_Tenant\<close>: the contract of a resource that belongs to an organization, as the locale \<open>tenant_resource\<close>;
    \<open>JM_Aliases\<close>, \<open>JM_Groups\<close>, \<open>JM_Mailboxes\<close> interpret it on the three services and add quota accounting and
    the CSV export.
  \<^item> \<open>JM_Ssrf\<close>, \<open>JM_Webhooks\<close>: the address filter of \<open>common/ssrf.ts\<close> against the reserved address blocks, and the
    delivery queue of \<open>webhooks.service.ts\<close>.
  \<^item> \<open>JM_ApiKeys\<close>, \<open>JM_Credentials\<close>, \<open>JM_Pool\<close>: \<open>apikeys.service.ts\<close>, \<open>credential.store.ts\<close> with both
    back ends, and \<open>imap-session.manager.ts\<close> with \<open>run\<close> split at its suspension points, so that interleavings are
    sequences of steps.
  \<^item> \<open>JM_Auth\<close>, \<open>JM_Invites\<close>, \<open>JM_Guard\<close>: \<open>auth.service.ts\<close>, \<open>invites.service.ts\<close>,
    \<open>session.guard.ts\<close> and \<open>session-cookie.ts\<close>. What a login grants, how long a session lives, what a logout ends, and
    exactly which requests get past the guard.
  \<^item> \<open>JM_Retention\<close>: \<open>retention.service.ts\<close>, \<open>legal-hold.service.ts\<close>, \<open>master-imap.ts\<close>. A run removes exactly
    the expired messages and none under a hold.
  \<^item> \<open>JM_Sieve\<close>, \<open>JM_SieveService\<close>: the filter compiler \<open>sieve-compile.ts\<close> against a lexer, parser and interpreter of
    the Sieve language, and \<open>sieve.service.ts\<close>. The parser runs on fuel equal to the number of tokens, which is enough because every
    command takes at least one.
  \<^item> \<open>JM_Throttle\<close>: \<open>common/throttler.guard.ts\<close> with both back ends.
  \<^item> \<open>JM_DomainModel\<close>, \<open>JM_Domains\<close>: \<open>domains.service.ts\<close>, \<open>bimi.ts\<close> and the seeded DNS records;
    \<open>JM_Dns\<close>, \<open>JM_DnsSync\<close>: \<open>dns-reconcile.ts\<close>, \<open>dns.service.ts\<close> and the two provider clients, with the locales
    \<open>record_store\<close> and \<open>cloudflare_zone\<close> for what the providers' interfaces promise.
  \<^item> \<open>JM_Dkim\<close>, \<open>JM_DkimFacts\<close>: \<open>dkim.service.ts\<close> with the key files. The locale \<open>key_invariant\<close> states what an invariant of
    the key table has to survive and is interpreted on the invariants of the service; the rotation promotes only keys that resolve and
    never stops a domain from signing.
  \<^item> \<open>JM_Directory\<close>, \<open>JM_Ldap\<close>: \<open>ldap/mapping.ts\<close>, \<open>ldap-client.ts\<close>, \<open>ldap.service.ts\<close>. The closure of
    nested groups ends and is exact; roles and statuses after a snapshot; every run finishes.
  \<^item> \<open>JM_Scim\<close>, \<open>JM_ScimFacts\<close>, \<open>JM_ScimGuard\<close>: \<open>scim.service.ts\<close>, \<open>scim.guard.ts\<close>. The tables stay
    well formed over all sequences of calls, roles follow groups, tokens open one organization, and a deprovisioned account has no
    session left.
  \<^item> \<open>JM_Sso\<close>, \<open>JM_SsoFacts\<close>: \<open>sso.service.ts\<close>, \<open>oidc.ts\<close>, \<open>saml.ts\<close>. What an accepted token was checked for, that a
    login state works once, where a login can send the browser, and which account it opens.
  \<^item> \<open>JM_VCard\<close>: the contact codec \<open>contacts/vcard.ts\<close> and its round trip.

  \<^bold>\<open>Findings.\<close> Several theorems show behaviour the comments or the intent of the code rule out; their texts say which.

  \<^bold>\<open>Not modelled.\<close> The controllers, modules and entry points route requests to the services above. The web front ends
  are user interface. The IMAP and SMTP operations of \<open>webmail.service.ts\<close>, the DAV clients, calendars,
  attachments, backups, notifications, websockets, reports and the storage adapters are not part of the development.
\<close>

end
